(* ===== verification/Prelude.thy ===== *)
theory Prelude
  imports
    Complex_Main
    "HOL-Library.AList"
    "HOL-Library.Char_ord"
    "HOL-Library.List_Lexorder"
    "HOL-Library.Product_Lexorder"
    "HOL-Library.Finite_Map"
    "HOL-Library.Multiset"
begin

text \<open>
  Shared ground of the development: the Python exceptions of the modelled modules as a sum type,
  JSON values, insertion-ordered dictionaries, closed string enumerations, and the generic lemmas
  on lists, sorting and dictionaries the component theories use.

  \<^item> A Python function that may raise has a result of type \<open>'a res\<close>; \<open>Inl e\<close> is the exception.
  \<^item> A JSON document is a \<open>json\<close> value. Its objects are finite maps, so that two objects with the
    same members are equal whatever order they were written in, as Python's \<open>dict\<close> equality says.
  \<^item> A \<open>dict\<close> that the code iterates over is an association list: \<open>AList.update\<close> overwrites a
    present key in place and appends a new one, which is Python's insertion order.
  \<^item> A \<open>str\<close> is a \<open>string\<close>, one \<open>char\<close> per code point; code points beyond 255 are not
    represented. The order of strings is lexicographic by code point in both worlds.
\<close>

section \<open>Exceptions\<close>

datatype py_error =
    KeyError
  | TypeError
  | ValueError string
  | IntegrityError string
  | ExecutionContractError string

type_synonym 'a res = "py_error + 'a"

named_theorems res_simps \<open>equations of the exception monad\<close>

definition rbind :: "'a res \<Rightarrow> ('a \<Rightarrow> 'b res) \<Rightarrow> 'b res" where
  "rbind r f = (case r of Inl e \<Rightarrow> Inl e | Inr x \<Rightarrow> f x)"

definition rguard :: "bool \<Rightarrow> py_error \<Rightarrow> unit res" where
  "rguard c e = (if c then Inr () else Inl e)"

text \<open>A comprehension whose elements may raise: evaluated left to right, the first exception wins.\<close>

fun rmap :: "('a \<Rightarrow> 'b res) \<Rightarrow> 'a list \<Rightarrow> 'b list res" where
  "rmap f [] = Inr []"
| "rmap f (x # xs) = rbind (f x) (\<lambda>y. rbind (rmap f xs) (\<lambda>ys. Inr (y # ys)))"

text \<open>A \<open>for\<close> loop over an accumulator whose body may raise.\<close>

fun rfold :: "('a \<Rightarrow> 's \<Rightarrow> 's res) \<Rightarrow> 'a list \<Rightarrow> 's \<Rightarrow> 's res" where
  "rfold f [] s = Inr s"
| "rfold f (x # xs) s = rbind (f x s) (rfold f xs)"

text \<open>A sequence of \<open>if not c: raise ValueError(m)\<close> statements: the first that fails raises.\<close>

fun rchecks :: "(bool \<times> string) list \<Rightarrow> unit res" where
  "rchecks [] = Inr ()"
| "rchecks ((c, m) # cs) = (if c then rchecks cs else Inl (ValueError m))"

text \<open>Statements that may raise, one after the other, and a loop that only checks.\<close>

fun rseq :: "unit res list \<Rightarrow> unit res" where
  "rseq [] = Inr ()"
| "rseq (r # rs) = rbind r (\<lambda>_. rseq rs)"

fun rall :: "('a \<Rightarrow> unit res) \<Rightarrow> 'a list \<Rightarrow> unit res" where
  "rall f [] = Inr ()"
| "rall f (x # xs) = rbind (f x) (\<lambda>_. rall f xs)"

lemma rbind_simps [simp, res_simps]:
  "rbind (Inl e) f = Inl e" "rbind (Inr x) f = f x"
  by (simp_all add: rbind_def)

lemma rguard_simps [simp, res_simps]:
  "rguard True e = Inr ()" "rguard False e = Inl e"
  by (simp_all add: rguard_def)

text \<open>Evaluation decides the first step before it looks at the rest.\<close>

declare rbind_def [code_unfold]

lemma rbind_Inr_iff [res_simps]: "rbind r f = Inr y \<longleftrightarrow> (\<exists>x. r = Inr x \<and> f x = Inr y)"
  by (cases r) auto

lemma rbind_Inl_iff: "rbind r f = Inl e \<longleftrightarrow> r = Inl e \<or> (\<exists>x. r = Inr x \<and> f x = Inl e)"
  by (cases r) auto

lemma rguard_Inr_iff [simp, res_simps]: "rguard c e = Inr u \<longleftrightarrow> c"
  by (simp add: rguard_def)

lemma rguard_Inl_iff [simp]: "rguard c e = Inl e' \<longleftrightarrow> \<not> c \<and> e' = e"
  by (auto simp: rguard_def)

lemma rchecks_Inr_iff [simp]: "rchecks cs = Inr u \<longleftrightarrow> (\<forall>cm\<in>set cs. fst cm)"
  by (induction cs rule: rchecks.induct) auto

declare rchecks.simps [simp del]

lemma rseq_Inr_iff: "rseq rs = Inr u \<longleftrightarrow> (\<forall>r\<in>set rs. r = Inr ())"
  by (induction rs) (auto simp: rbind_Inr_iff)

lemma rall_Inr_iff: "rall f xs = Inr u \<longleftrightarrow> (\<forall>x\<in>set xs. f x = Inr ())"
  by (induction xs) (auto simp: rbind_Inr_iff)

declare rseq.simps [simp del]

lemma rmap_Inr_iff: "rmap f xs = Inr ys \<longleftrightarrow> list_all2 (\<lambda>x y. f x = Inr y) xs ys"
  by (induction xs arbitrary: ys) (auto simp: rbind_Inr_iff list_all2_Cons1)

lemma rmap_all: "rmap f vs = Inr xs \<Longrightarrow> (\<And>v x. f v = Inr x \<Longrightarrow> P x) \<Longrightarrow> list_all P xs"
  by (induction vs arbitrary: xs) (auto simp: rbind_Inr_iff)

lemma rmap_pure: "(\<And>x. x \<in> set xs \<Longrightarrow> f x = Inr (g x)) \<Longrightarrow> rmap f xs = Inr (map g xs)"
  by (induction xs) auto

lemma rmap_cong [fundef_cong]:
  "xs = ys \<Longrightarrow> (\<And>x. x \<in> set ys \<Longrightarrow> f x = g x) \<Longrightarrow> rmap f xs = rmap g ys"
  by (induction xs arbitrary: ys) (auto simp: rbind_def split: sum.splits)

lemma rmap_map: "rmap f (map g xs) = rmap (\<lambda>x. f (g x)) xs"
  by (induction xs) auto

lemma rfold_append: "rfold f (xs @ ys) s = rbind (rfold f xs s) (rfold f ys)"
  by (induction xs arbitrary: s) (auto simp: rbind_def split: sum.splits)

lemma rfold_map: "rfold f (map g xs) s = rfold (\<lambda>x. f (g x)) xs s"
  by (induction xs arbitrary: s) (auto simp: rbind_def split: sum.splits)

text \<open>A loop keeps what its body keeps.\<close>

lemma rfold_invariant:
  assumes "rfold f xs s = Inr t" and "P s"
    and "\<And>x s s'. x \<in> set xs \<Longrightarrow> P s \<Longrightarrow> f x s = Inr s' \<Longrightarrow> P s'"
  shows "P t"
  using assms
proof (induction xs arbitrary: s)
  case Nil
  then show ?case by simp
next
  case (Cons x xs)
  from Cons.prems(1) obtain s' where s': "f x s = Inr s'" "rfold f xs s' = Inr t"
    by (auto simp: rbind_Inr_iff)
  have "P s'" using Cons.prems(2,3) s'(1) by auto
  then show ?case using Cons.IH [OF s'(2)] Cons.prems(3) by auto
qed

section \<open>JSON values\<close>

datatype json =
    JNull
  | JBool bool
  | JInt int
  | JStr string
  | JArr "json list"
  | JObj "(string, json) fmap"

abbreviation jobj :: "(string \<times> json) list \<Rightarrow> json" where
  "jobj kvs \<equiv> JObj (fmap_of_list kvs)"

text \<open>\<open>value["k"]\<close>: a missing key is a \<open>KeyError\<close>, a subscript of a non-object a \<open>TypeError\<close>.\<close>

fun jget :: "string \<Rightarrow> json \<Rightarrow> json res" where
  "jget k (JObj m) = (case fmlookup m k of None \<Rightarrow> Inl KeyError | Some v \<Rightarrow> Inr v)"
| "jget k _ = Inl TypeError"

text \<open>\<open>value.get("k")\<close> on an object; \<open>None\<close> is JSON's null, as the code compares it.\<close>

fun jget_or_null :: "string \<Rightarrow> json \<Rightarrow> json" where
  "jget_or_null k (JObj m) = (case fmlookup m k of None \<Rightarrow> JNull | Some v \<Rightarrow> v)"
| "jget_or_null k _ = JNull"

fun is_obj :: "json \<Rightarrow> bool" where
  "is_obj (JObj m) = True"
| "is_obj _ = False"

fun jkeys :: "json \<Rightarrow> string fset" where
  "jkeys (JObj m) = fmdom m"
| "jkeys _ = {||}"

fun jstr :: "json \<Rightarrow> string res" where
  "jstr (JStr s) = Inr s"
| "jstr _ = Inl TypeError"

fun jstr_opt :: "json \<Rightarrow> string option res" where
  "jstr_opt JNull = Inr None"
| "jstr_opt (JStr s) = Inr (Some s)"
| "jstr_opt _ = Inl TypeError"

fun jint :: "json \<Rightarrow> int res" where
  "jint (JInt i) = Inr i"
| "jint _ = Inl TypeError"

fun jbool :: "json \<Rightarrow> bool res" where
  "jbool (JBool b) = Inr b"
| "jbool _ = Inl TypeError"

fun jlist :: "json \<Rightarrow> json list res" where
  "jlist (JArr xs) = Inr xs"
| "jlist _ = Inl TypeError"

definition jstrs :: "json \<Rightarrow> string list res" where
  "jstrs v = rbind (jlist v) (rmap jstr)"

definition opt_json :: "string option \<Rightarrow> json" where
  "opt_json x = (case x of None \<Rightarrow> JNull | Some s \<Rightarrow> JStr s)"

lemma jget_jobj [simp]:
  "jget k (jobj kvs) = (case map_of kvs k of None \<Rightarrow> Inl KeyError | Some v \<Rightarrow> Inr v)"
  by (simp add: fmlookup_of_list)

lemma jget_or_null_jobj [simp]:
  "jget_or_null k (jobj kvs) = (case map_of kvs k of None \<Rightarrow> JNull | Some v \<Rightarrow> v)"
  by (simp add: fmlookup_of_list)

lemma jkeys_jobj [simp]: "jkeys (jobj kvs) = fset_of_list (map fst kvs)"
  by (simp add: fmdom_fmap_of_list)

text \<open>An object with exactly the listed members is the listed object.\<close>

lemma jobj_eqI:
  assumes "jkeys v = fset_of_list (map fst kvs)" and "is_obj v" and "distinct (map fst kvs)"
    and "\<forall>kx\<in>set kvs. jget (fst kx) v = Inr (snd kx)"
  shows "v = jobj kvs"
proof -
  from assms(2) obtain m where m: "v = JObj m" by (cases v) auto
  have "fmlookup m k = map_of kvs k" for k
  proof (cases "k \<in> fst ` set kvs")
    case True
    then obtain x where x: "(k, x) \<in> set kvs" by auto
    with assms(4) m have "fmlookup m k = Some x" by (auto split: option.split_asm)
    with x assms(3) show ?thesis by simp
  next
    case False
    then have "k |\<notin>| fmdom m" using assms(1) m by (auto simp: fset_of_list_elem)
    moreover have "map_of kvs k = None" by (rule iffD2 [OF map_of_eq_None_iff False])
    ultimately show ?thesis by (simp add: fmdom_notD)
  qed
  then have "m = fmap_of_list kvs" by (intro fmap_ext) (simp add: fmlookup_of_list)
  with m show ?thesis by simp
qed

lemma jstrs_map_JStr [simp]: "jstrs (JArr (map JStr xs)) = Inr xs"
  by (simp add: jstrs_def rmap_map rmap_pure [where g = id, simplified] list.map_id)

lemma jstr_opt_opt_json [simp]: "jstr_opt (opt_json x) = Inr x"
  by (cases x) (simp_all add: opt_json_def)

section \<open>Closed string enumerations\<close>

text \<open>
  A \<open>StrEnum\<close> is a datatype with the list of its members in declaration order and the string
  value of each. \<open>Enum(value)\<close> finds the member with that value or raises \<open>ValueError\<close>.
\<close>

definition enum_of :: "'e list \<Rightarrow> ('e \<Rightarrow> string) \<Rightarrow> string \<Rightarrow> 'e res" where
  "enum_of members val s =
     (case List.find (\<lambda>e. val e = s) members of
        None \<Rightarrow> Inl (ValueError ''not a member'') | Some e \<Rightarrow> Inr e)"

text \<open>\<open>{member: index for index, member in enumerate(Enum)}\<close>.\<close>

fun enum_index :: "'e list \<Rightarrow> 'e \<Rightarrow> nat" where
  "enum_index [] e = 0"
| "enum_index (x # xs) e = (if x = e then 0 else Suc (enum_index xs e))"

locale str_enum =
  fixes members :: "'e list" and val :: "'e \<Rightarrow> string"
  assumes complete: "e \<in> set members"
    and distinct_values: "distinct (map val members)"
begin

lemma val_inj: "val a = val b \<longleftrightarrow> a = b"
  using complete distinct_values by (auto simp: distinct_map inj_on_def)

lemma find_val: "List.find (\<lambda>e. val e = val a) members = Some a"
proof (cases "List.find (\<lambda>e. val e = val a) members")
  case None
  then show ?thesis using complete [of a] by (auto simp: find_None_iff)
next
  case (Some b)
  then show ?thesis by (auto simp: find_Some_iff val_inj)
qed

lemma of_val: "enum_of members val (val a) = Inr a"
  by (simp add: enum_of_def find_val)

lemma of_Inr_iff: "enum_of members val s = Inr a \<longleftrightarrow> s = val a"
  by (auto simp: enum_of_def find_val split: option.splits) (auto simp: find_Some_iff)

lemma of_not_member: "s \<notin> val ` set members \<Longrightarrow> \<exists>m. enum_of members val s = Inl (ValueError m)"
  by (auto simp: enum_of_def find_Some_iff image_iff split: option.splits)

end

section \<open>Documents and their readers\<close>

text \<open>
  A writer \<open>doc\<close> and a reader \<open>parse\<close> of one record type, where \<open>valid\<close> says which records the
  writer is applied to. A reader that compares the record it built with the document it read is
  strict: it accepts nothing but the documents of valid records.
\<close>

locale codec =
  fixes doc :: "'r \<Rightarrow> json" and parse :: "json \<Rightarrow> 'r res" and valid :: "'r \<Rightarrow> bool"
  assumes parse_doc: "valid x \<Longrightarrow> parse (doc x) = Inr x"
begin

lemma doc_inj: "valid x \<Longrightarrow> valid y \<Longrightarrow> doc x = doc y \<longleftrightarrow> x = y"
  by (metis parse_doc Inr_inject)

lemma parse_docs: "list_all valid xs \<Longrightarrow> rmap parse (map doc xs) = Inr xs"
  by (induction xs) (simp_all add: parse_doc)

end

locale strict_codec = codec +
  assumes parse_sound: "parse v = Inr x \<Longrightarrow> v = doc x \<and> valid x"
begin

lemma parse_iff: "parse v = Inr x \<longleftrightarrow> v = doc x \<and> valid x"
  by (metis parse_doc parse_sound)

lemma parse_list_iff: "rmap parse vs = Inr xs \<longleftrightarrow> vs = map doc xs \<and> list_all valid xs"
proof (induction vs arbitrary: xs)
  case Nil
  then show ?case by auto
next
  case (Cons v vs)
  then show ?case by (cases xs) (auto simp: rbind_Inr_iff parse_iff)
qed

end

section \<open>Dictionaries in insertion order\<close>

type_synonym ('k, 'v) dict = "('k \<times> 'v) list"

abbreviation dict_ok :: "('k, 'v) dict \<Rightarrow> bool" where
  "dict_ok d \<equiv> distinct (map fst d)"

text \<open>\<open>d.setdefault(k, []).append(v)\<close>, as a \<open>defaultdict(list)\<close> does.\<close>

definition dict_append :: "'k \<Rightarrow> 'v \<Rightarrow> ('k, 'v list) dict \<Rightarrow> ('k, 'v list) dict" where
  "dict_append k v d = AList.update k ((case map_of d k of None \<Rightarrow> [] | Some vs \<Rightarrow> vs) @ [v]) d"

definition dict_get_list :: "('k, 'v list) dict \<Rightarrow> 'k \<Rightarrow> 'v list" where
  "dict_get_list d k = (case map_of d k of None \<Rightarrow> [] | Some vs \<Rightarrow> vs)"

lemma dict_ok_update [simp, intro]: "dict_ok d \<Longrightarrow> dict_ok (AList.update k v d)"
  by (rule distinct_update)

lemma dict_ok_delete [simp, intro]: "dict_ok d \<Longrightarrow> dict_ok (AList.delete k d)"
  by (rule distinct_delete)

lemma dict_ok_append [simp, intro]: "dict_ok d \<Longrightarrow> dict_ok (dict_append k v d)"
  by (simp add: dict_append_def distinct_update)

lemma set_fst_update [simp]: "set (map fst (AList.update k v d)) = insert k (set (map fst d))"
  by (induction d) auto

lemma map_of_update [simp]: "map_of (AList.update k v d) = (map_of d)(k \<mapsto> v)"
  by (rule update_conv')

lemma map_of_delete [simp]: "map_of (AList.delete k d) = (map_of d)(k := None)"
  by (rule delete_conv')

lemma update_new: "map_of d k = None \<Longrightarrow> AList.update k v d = d @ [(k, v)]"
  by (induction d) (auto split: if_split_asm)

lemma set_update_subset: "set (AList.update k v d) \<subseteq> insert (k, v) (set d)"
  by (induction d) auto

lemma set_delete: "set (AList.delete k d) = {x \<in> set d. fst x \<noteq> k}"
  by (auto simp: AList.delete_eq)

text \<open>A removed entry contributes its old amount no more.\<close>

lemma sum_delete:
  fixes f :: "'k \<times> 'v \<Rightarrow> int"
  shows "dict_ok d \<Longrightarrow> map_of d k = Some v \<Longrightarrow> (\<Sum>x\<leftarrow>AList.delete k d. f x) = (\<Sum>x\<leftarrow>d. f x) - f (k, v)"
proof (induction d)
  case (Cons x d)
  show ?case
  proof (cases "fst x = k")
    case True
    then have "k \<notin> fst ` set d" using Cons.prems(1) by auto
    then have "AList.delete k d = d" by (rule AList.delete_id)
    with True Cons.prems(2) show ?thesis by (cases x) simp
  qed (use Cons in \<open>cases x; auto\<close>)
qed simp

text \<open>\<open>d.setdefault(k, v)\<close>, and a list that takes an element unless it holds it.\<close>

definition append_new :: "'a \<Rightarrow> 'a list \<Rightarrow> 'a list" where
  "append_new x xs = (if x \<in> set xs then xs else xs @ [x])"

definition dict_setdefault :: "'k \<Rightarrow> 'v \<Rightarrow> ('k, 'v) dict \<Rightarrow> ('k, 'v) dict" where
  "dict_setdefault k v d = (if map_of d k = None then AList.update k v d else d)"

lemma append_new_set [simp]: "set (append_new x xs) = insert x (set xs)"
  by (auto simp: append_new_def)

lemma append_new_distinct [simp]: "distinct (append_new x xs) \<longleftrightarrow> distinct xs"
  by (simp add: append_new_def)

lemma map_of_setdefault:
  "map_of (dict_setdefault k v d) k' = (if k' = k \<and> map_of d k = None then Some v else map_of d k')"
  by (simp add: dict_setdefault_def)

lemma setdefault_keys: "set (map fst (dict_setdefault k v d)) = insert k (set (map fst d))"
proof (cases "map_of d k")
  case (Some w)
  then have "k \<in> set (map fst d)" by (force dest: map_of_SomeD)
  then show ?thesis using Some by (auto simp: dict_setdefault_def simp del: set_map)
qed (simp add: dict_setdefault_def del: set_map)

lemma setdefault_entries: "set (dict_setdefault k v d) \<subseteq> insert (k, v) (set d)" "dict_ok d \<Longrightarrow> dict_ok (dict_setdefault k v d)"
  using set_update_subset [of k v d] by (auto simp: dict_setdefault_def)

lemma fold_append_new [simp]:
  "set (fold append_new xs ys) = set xs \<union> set ys"
  "distinct (fold append_new xs ys) \<longleftrightarrow> distinct ys"
  by (induction xs arbitrary: ys) auto

section \<open>Sorting\<close>

text \<open>\<open>sorted(set(xs))\<close>.\<close>

definition sorted_set :: "'a::linorder list \<Rightarrow> 'a list" where
  "sorted_set xs = sort (remdups xs)"

lemma sorted_set_props [simp]:
  "set (sorted_set xs) = set xs" "sorted (sorted_set xs)" "distinct (sorted_set xs)"
  by (simp_all add: sorted_set_def)

lemma sorted_set_empty [simp]: "sorted_set xs = [] \<longleftrightarrow> xs = []"
  by (metis set_empty sorted_set_props(1))

lemma sort_key_empty [simp]: "sort_key f xs = [] \<longleftrightarrow> xs = []"
  by (metis set_empty set_sort)

lemma sorted_set_cong: "set xs = set ys \<Longrightarrow> sorted_set xs = sorted_set ys"
  by (rule sorted_distinct_set_unique) simp_all

text \<open>
  A stable sort by a key that tells apart all elements but equal ones gives one list for every
  arrangement of its input.
\<close>

lemma sort_key_perm:
  assumes "mset xs = mset ys"
    and "\<And>a b. a \<in> set xs \<Longrightarrow> b \<in> set xs \<Longrightarrow> k a = k b \<Longrightarrow> g a = g b"
  shows "map g (sort_key k xs) = map g (sort_key k ys)"
proof -
  let ?X = "sort_key k xs" and ?Y = "sort_key k ys"
  have "sort (map k ys) = map k ?X"
    by (rule properties_for_sort) (simp_all add: assms(1))
  moreover have "sort (map k ys) = map k ?Y"
    by (rule properties_for_sort) simp_all
  ultimately have keys: "map k ?X = map k ?Y" by simp
  have "set ys = set xs" by (rule mset_eq_setD [OF assms(1) [symmetric]])
  then have sets: "set ?X = set xs" "set ?Y = set xs" by simp_all
  have len: "length ?X = length ?Y" using keys by (metis length_map)
  show ?thesis
  proof (rule nth_equalityI)
    show "length (map g ?X) = length (map g ?Y)" using len by simp
    fix i assume "i < length (map g ?X)"
    then have i: "i < length ?X" "i < length ?Y" using len by auto
    have "k (?X ! i) = k (?Y ! i)" using keys i by (metis nth_map)
    moreover have "?X ! i \<in> set xs" "?Y ! i \<in> set xs" using i sets nth_mem by blast+
    ultimately have "g (?X ! i) = g (?Y ! i)" using assms(2) by blast
    then show "map g ?X ! i = map g ?Y ! i" using i by simp
  qed
qed

section \<open>Text\<close>

text \<open>Python's whitespace among the code points below 256.\<close>

definition is_space :: "char \<Rightarrow> bool" where
  "is_space c = (of_char c \<in> {9, 10, 11, 12, 13, 28, 29, 30, 31, 32, 133, 160 :: nat})"

text \<open>\<open>s.split()\<close>: the maximal runs of non-space characters.\<close>

fun split_ws :: "string \<Rightarrow> string \<Rightarrow> string list" where
  "split_ws w [] = (if w = [] then [] else [rev w])"
| "split_ws w (c # cs) =
     (if is_space c then (if w = [] then [] else [rev w]) @ split_ws [] cs
      else split_ws (c # w) cs)"

definition py_split :: "string \<Rightarrow> string list" where
  "py_split s = split_ws [] s"

text \<open>\<open>sep.join(parts)\<close>.\<close>

fun join :: "string \<Rightarrow> string list \<Rightarrow> string" where
  "join sep [] = []"
| "join sep [x] = x"
| "join sep (x # y # ys) = x @ sep @ join sep (y # ys)"

definition squeeze :: "string \<Rightarrow> string" where
  "squeeze s = join '' '' (py_split s)"

definition strip :: "string \<Rightarrow> string" where
  "strip s = rev (dropWhile is_space (rev (dropWhile is_space s)))"

definition lower_char :: "char \<Rightarrow> char" where
  "lower_char c = (let n = of_char c :: nat in
     if (65 \<le> n \<and> n \<le> 90) \<or> (192 \<le> n \<and> n \<le> 222 \<and> n \<noteq> 215) then char_of (n + 32) else c)"

definition lower :: "string \<Rightarrow> string" where
  "lower = map lower_char"

definition upper_char :: "char \<Rightarrow> char" where
  "upper_char c = (let n = of_char c :: nat in if 97 \<le> n \<and> n \<le> 122 then char_of (n - 32) else c)"

definition is_lower_hex :: "char \<Rightarrow> bool" where
  "is_lower_hex c = (let n = of_char c :: nat in (48 \<le> n \<and> n \<le> 57) \<or> (97 \<le> n \<and> n \<le> 102))"

text \<open>The pattern \<open>[0-9a-f]{64}\<close> on a whole string.\<close>

definition is_sha256 :: "string \<Rightarrow> bool" where
  "is_sha256 s = (length s = 64 \<and> list_all is_lower_hex s)"

definition is_digit :: "char \<Rightarrow> bool" where
  "is_digit c = (let n = of_char c :: nat in 48 \<le> n \<and> n \<le> 57)"

fun nat_str :: "nat \<Rightarrow> string" where
  "nat_str n = (if n < 10 then [char_of (48 + n)] else nat_str (n div 10) @ [char_of (48 + n mod 10)])"

declare nat_str.simps [simp del]

definition int_str :: "int \<Rightarrow> string" where
  "int_str i = (if i < 0 then ''-'' @ nat_str (nat (- i)) else nat_str (nat i))"

definition starts_with :: "string \<Rightarrow> string \<Rightarrow> bool" where
  "starts_with p s = (take (length p) s = p)"

subsection \<open>Decimal numbers\<close>

definition digits_value :: "string \<Rightarrow> nat" where
  "digits_value s = fold (\<lambda>c a. 10 * a + (of_char c - 48)) s 0"

lemma digits_value_nat_str [simp]: "digits_value (nat_str n) = n"
proof (induction n rule: nat_str.induct)
  case (1 n)
  show ?case
    by (cases "n < 10") (use 1 in \<open>simp_all add: nat_str.simps [of n] digits_value_def\<close>)
qed

lemma nat_str_inj [simp]: "nat_str m = nat_str n \<longleftrightarrow> m = n"
  by (metis digits_value_nat_str)

lemma nat_str_nonempty [simp]: "nat_str n \<noteq> []"
  by (subst nat_str.simps) simp

lemma nat_str_digits [simp]: "list_all is_digit (nat_str n)"
proof (induction n rule: nat_str.induct)
  case (1 n)
  show ?case
    by (cases "n < 10") (use 1 in \<open>simp_all add: nat_str.simps [of n] is_digit_def Let_def\<close>)
qed

lemma nat_str_length: "length (nat_str n) \<le> Suc k \<longleftrightarrow> n < 10 ^ Suc k"
proof (induction k arbitrary: n)
  case 0
  show ?case by (simp add: nat_str.simps [of n])
next
  case (Suc k)
  have "(10::nat) ^ 1 \<le> 10 ^ Suc (Suc k)" by (rule power_increasing) simp_all
  then have "n < 10 \<Longrightarrow> n < 10 ^ Suc (Suc k)" by (metis less_le_trans power_one_right)
  then show ?case by (auto simp: nat_str.simps [of n] Suc.IH div_less_iff_less_mult)
qed

lemma starts_with_append [simp]: "starts_with p (p @ s)"
  by (simp add: starts_with_def)

section \<open>State machines\<close>

text \<open>A component that runs from an initial state by steps, and a predicate that every step keeps.\<close>

locale transition_system =
  fixes initial :: "'s \<Rightarrow> bool" and step :: "'s \<Rightarrow> 's \<Rightarrow> bool" and inv :: "'s \<Rightarrow> bool"
  assumes initial_inv: "initial s \<Longrightarrow> inv s"
    and step_inv: "inv s \<Longrightarrow> step s s' \<Longrightarrow> inv s'"
begin

lemma run_inv: "step\<^sup>*\<^sup>* s s' \<Longrightarrow> inv s \<Longrightarrow> inv s'"
  by (induction rule: rtranclp_induct) (auto intro: step_inv)

lemma reachable_inv: "initial s \<Longrightarrow> step\<^sup>*\<^sup>* s s' \<Longrightarrow> inv s'"
  using run_inv initial_inv by blast

end

end
