(* ===== verification/Models.thy ===== *)
theory Models
  imports Prelude
begin

text \<open>
  The shared vocabularies and records of the review: \<open>review/models.py\<close>, the entity kinds and
  logical identities of \<open>retrieval/model.py\<close>, and the identity scheme of \<open>review/identity.py\<close>.
  Every \<open>StrEnum\<close> is a datatype with its members in declaration order and their string values,
  and an interpretation of \<open>str_enum\<close>, so that decoding a value inverts encoding it.

  SHA-256 over canonical JSON (\<open>sha256_hex\<close>) is the argument \<open>H\<close> of every definition that
  hashes: the theorems hold for every hash function, and where they need that it has no collision
  on the values at hand they say so.
\<close>

section \<open>Closed vocabularies\<close>

datatype lane =
    LEAD
  | HUNT

definition lane_members :: "lane list" where
  "lane_members = [LEAD, HUNT]"

primrec lane_value :: "lane \<Rightarrow> string" where
  "lane_value LEAD = ''lead''"
| "lane_value HUNT = ''hunt''"

datatype (plugins only: code size) role =
    HYPOTHESIS_HUNTER
  | RED_TEAM_ANALYST
  | BLUE_TEAM_REFUTER
  | INDEPENDENT_VERIFIER
  | INDEPENDENT_SCORER
  | POC_DESIGNER
  | POC_VERIFIER
  | ATTACK_CHAIN_ANALYST
  | FINDING_ADJUDICATOR
  | COMPLETENESS_REVIEWER
  | LEAD_TRIAGER
  | ADJUDICATION_JUDGE

definition role_members :: "role list" where
  "role_members = [HYPOTHESIS_HUNTER, RED_TEAM_ANALYST, BLUE_TEAM_REFUTER,
     INDEPENDENT_VERIFIER, INDEPENDENT_SCORER, POC_DESIGNER, POC_VERIFIER,
     ATTACK_CHAIN_ANALYST, FINDING_ADJUDICATOR, COMPLETENESS_REVIEWER, LEAD_TRIAGER,
     ADJUDICATION_JUDGE]"

primrec role_value :: "role \<Rightarrow> string" where
  "role_value HYPOTHESIS_HUNTER = ''hypothesis_hunter''"
| "role_value RED_TEAM_ANALYST = ''red_team_analyst''"
| "role_value BLUE_TEAM_REFUTER = ''blue_team_refuter''"
| "role_value INDEPENDENT_VERIFIER = ''independent_verifier''"
| "role_value INDEPENDENT_SCORER = ''independent_scorer''"
| "role_value POC_DESIGNER = ''poc_designer''"
| "role_value POC_VERIFIER = ''poc_verifier''"
| "role_value ATTACK_CHAIN_ANALYST = ''attack_chain_analyst''"
| "role_value FINDING_ADJUDICATOR = ''finding_adjudicator''"
| "role_value COMPLETENESS_REVIEWER = ''completeness_reviewer''"
| "role_value LEAD_TRIAGER = ''lead_triager''"
| "role_value ADJUDICATION_JUDGE = ''adjudication_judge''"

datatype blue_task =
    BLUE_CONTROL
  | BLUE_REACHABILITY

definition blue_task_members :: "blue_task list" where
  "blue_task_members = [BLUE_CONTROL, BLUE_REACHABILITY]"

primrec blue_task_value :: "blue_task \<Rightarrow> string" where
  "blue_task_value BLUE_CONTROL = ''blue_control''"
| "blue_task_value BLUE_REACHABILITY = ''blue_reachability''"

datatype hunt_strategy =
    HUNT_VARIANT
  | HUNT_SINK_UP
  | HUNT_ENTRY_DOWN
  | HUNT_CONTROL_GAP
  | HUNT_PERSONA_SWEEP

definition hunt_strategy_members :: "hunt_strategy list" where
  "hunt_strategy_members = [HUNT_VARIANT, HUNT_SINK_UP, HUNT_ENTRY_DOWN, HUNT_CONTROL_GAP,
     HUNT_PERSONA_SWEEP]"

primrec hunt_strategy_value :: "hunt_strategy \<Rightarrow> string" where
  "hunt_strategy_value HUNT_VARIANT = ''variant''"
| "hunt_strategy_value HUNT_SINK_UP = ''sink_up''"
| "hunt_strategy_value HUNT_ENTRY_DOWN = ''entry_down''"
| "hunt_strategy_value HUNT_CONTROL_GAP = ''control_gap''"
| "hunt_strategy_value HUNT_PERSONA_SWEEP = ''persona_sweep''"

datatype claim_state =
    PROPOSED
  | SUPPORTED
  | CONFIRMED
  | CONTRADICTED
  | NOT_REACHABLE
  | NOT_EXPLOITABLE_IN_OBSERVED_CONFIGURATION
  | INSUFFICIENT_EVIDENCE
  | DUPLICATE
  | OUT_OF_SCOPE
  | COVERAGE_GAP

definition claim_state_members :: "claim_state list" where
  "claim_state_members = [PROPOSED, SUPPORTED, CONFIRMED, CONTRADICTED, NOT_REACHABLE,
     NOT_EXPLOITABLE_IN_OBSERVED_CONFIGURATION, INSUFFICIENT_EVIDENCE, DUPLICATE,
     OUT_OF_SCOPE, COVERAGE_GAP]"

primrec claim_state_value :: "claim_state \<Rightarrow> string" where
  "claim_state_value PROPOSED = ''proposed''"
| "claim_state_value SUPPORTED = ''supported''"
| "claim_state_value CONFIRMED = ''confirmed''"
| "claim_state_value CONTRADICTED = ''contradicted''"
| "claim_state_value NOT_REACHABLE = ''not_reachable''"
| "claim_state_value NOT_EXPLOITABLE_IN_OBSERVED_CONFIGURATION = ''not_exploitable_in_observed_configuration''"
| "claim_state_value INSUFFICIENT_EVIDENCE = ''insufficient_evidence''"
| "claim_state_value DUPLICATE = ''duplicate''"
| "claim_state_value OUT_OF_SCOPE = ''out_of_scope''"
| "claim_state_value COVERAGE_GAP = ''coverage_gap''"

datatype chain_status =
    CHAIN_CONFIRMED
  | CHAIN_QUALIFIED_SUPPORTED
  | CHAIN_REFUTED
  | CHAIN_INSUFFICIENT_EVIDENCE

definition chain_status_members :: "chain_status list" where
  "chain_status_members = [CHAIN_CONFIRMED, CHAIN_QUALIFIED_SUPPORTED, CHAIN_REFUTED,
     CHAIN_INSUFFICIENT_EVIDENCE]"

primrec chain_status_value :: "chain_status \<Rightarrow> string" where
  "chain_status_value CHAIN_CONFIRMED = ''confirmed''"
| "chain_status_value CHAIN_QUALIFIED_SUPPORTED = ''qualified_supported''"
| "chain_status_value CHAIN_REFUTED = ''refuted''"
| "chain_status_value CHAIN_INSUFFICIENT_EVIDENCE = ''insufficient_evidence''"

datatype dimension =
    DIM_IDENTITY
  | DIM_PRIVILEGE
  | DIM_TRUST_BOUNDARY
  | DIM_ARTIFACT_DEPLOYMENT
  | DIM_TEMPORAL

definition dimension_members :: "dimension list" where
  "dimension_members = [DIM_IDENTITY, DIM_PRIVILEGE, DIM_TRUST_BOUNDARY,
     DIM_ARTIFACT_DEPLOYMENT, DIM_TEMPORAL]"

primrec dimension_value :: "dimension \<Rightarrow> string" where
  "dimension_value DIM_IDENTITY = ''identity''"
| "dimension_value DIM_PRIVILEGE = ''privilege''"
| "dimension_value DIM_TRUST_BOUNDARY = ''trust_boundary''"
| "dimension_value DIM_ARTIFACT_DEPLOYMENT = ''artifact_deployment''"
| "dimension_value DIM_TEMPORAL = ''temporal''"

datatype continuity_outcome =
    CONT_SATISFIED
  | CONT_CONTRADICTED
  | CONT_UNRESOLVED

definition continuity_outcome_members :: "continuity_outcome list" where
  "continuity_outcome_members = [CONT_SATISFIED, CONT_CONTRADICTED, CONT_UNRESOLVED]"

primrec continuity_outcome_value :: "continuity_outcome \<Rightarrow> string" where
  "continuity_outcome_value CONT_SATISFIED = ''satisfied''"
| "continuity_outcome_value CONT_CONTRADICTED = ''contradicted''"
| "continuity_outcome_value CONT_UNRESOLVED = ''unresolved''"

datatype predicate =
    P_AFFECTED_CONSTRUCT
  | P_ATTACKER_INPUT_CONTROL
  | P_SOURCE_TO_SINK_REACHABILITY
  | P_MISSING_OR_INEFFECTIVE_GUARD
  | P_CONFIGURATION_ENABLES
  | P_SECURITY_IMPACT

definition predicate_members :: "predicate list" where
  "predicate_members = [P_AFFECTED_CONSTRUCT, P_ATTACKER_INPUT_CONTROL,
     P_SOURCE_TO_SINK_REACHABILITY, P_MISSING_OR_INEFFECTIVE_GUARD, P_CONFIGURATION_ENABLES,
     P_SECURITY_IMPACT]"

primrec predicate_value :: "predicate \<Rightarrow> string" where
  "predicate_value P_AFFECTED_CONSTRUCT = ''affected_construct''"
| "predicate_value P_ATTACKER_INPUT_CONTROL = ''attacker_input_control''"
| "predicate_value P_SOURCE_TO_SINK_REACHABILITY = ''source_to_sink_reachability''"
| "predicate_value P_MISSING_OR_INEFFECTIVE_GUARD = ''missing_or_ineffective_guard''"
| "predicate_value P_CONFIGURATION_ENABLES = ''configuration_enables''"
| "predicate_value P_SECURITY_IMPACT = ''security_impact''"

datatype (plugins only: code size) security_predicate =
    SP_MEMORY_CORRUPTION
  | SP_OUT_OF_BOUNDS_READ
  | SP_USE_AFTER_FREE
  | SP_INTEGER_ERROR
  | SP_INJECTION
  | SP_COMMAND_INJECTION
  | SP_SQL_INJECTION
  | SP_CODE_INJECTION
  | SP_PATH_TRAVERSAL
  | SP_SSRF
  | SP_DESERIALIZATION
  | SP_AUTHN_BYPASS
  | SP_AUTHZ_BYPASS
  | SP_INFO_DISCLOSURE
  | SP_CRYPTO_WEAKNESS
  | SP_RACE_CONDITION
  | SP_RESOURCE_EXHAUSTION
  | SP_INSECURE_CONFIGURATION
  | SP_SUPPLY_CHAIN_COMPROMISE
  | SP_OTHER

definition security_predicate_members :: "security_predicate list" where
  "security_predicate_members = [SP_MEMORY_CORRUPTION, SP_OUT_OF_BOUNDS_READ,
     SP_USE_AFTER_FREE, SP_INTEGER_ERROR, SP_INJECTION, SP_COMMAND_INJECTION,
     SP_SQL_INJECTION, SP_CODE_INJECTION, SP_PATH_TRAVERSAL, SP_SSRF, SP_DESERIALIZATION,
     SP_AUTHN_BYPASS, SP_AUTHZ_BYPASS, SP_INFO_DISCLOSURE, SP_CRYPTO_WEAKNESS,
     SP_RACE_CONDITION, SP_RESOURCE_EXHAUSTION, SP_INSECURE_CONFIGURATION,
     SP_SUPPLY_CHAIN_COMPROMISE, SP_OTHER]"

primrec security_predicate_value :: "security_predicate \<Rightarrow> string" where
  "security_predicate_value SP_MEMORY_CORRUPTION = ''memory_corruption''"
| "security_predicate_value SP_OUT_OF_BOUNDS_READ = ''out_of_bounds_read''"
| "security_predicate_value SP_USE_AFTER_FREE = ''use_after_free''"
| "security_predicate_value SP_INTEGER_ERROR = ''integer_error''"
| "security_predicate_value SP_INJECTION = ''injection''"
| "security_predicate_value SP_COMMAND_INJECTION = ''command_injection''"
| "security_predicate_value SP_SQL_INJECTION = ''sql_injection''"
| "security_predicate_value SP_CODE_INJECTION = ''code_injection''"
| "security_predicate_value SP_PATH_TRAVERSAL = ''path_traversal''"
| "security_predicate_value SP_SSRF = ''ssrf''"
| "security_predicate_value SP_DESERIALIZATION = ''deserialization''"
| "security_predicate_value SP_AUTHN_BYPASS = ''authn_bypass''"
| "security_predicate_value SP_AUTHZ_BYPASS = ''authz_bypass''"
| "security_predicate_value SP_INFO_DISCLOSURE = ''info_disclosure''"
| "security_predicate_value SP_CRYPTO_WEAKNESS = ''crypto_weakness''"
| "security_predicate_value SP_RACE_CONDITION = ''race_condition''"
| "security_predicate_value SP_RESOURCE_EXHAUSTION = ''resource_exhaustion''"
| "security_predicate_value SP_INSECURE_CONFIGURATION = ''insecure_configuration''"
| "security_predicate_value SP_SUPPLY_CHAIN_COMPROMISE = ''supply_chain_compromise''"
| "security_predicate_value SP_OTHER = ''other''"

datatype relation_kind =
    SUPPORTS
  | CONTRADICTS
  | DUPLICATES
  | POSSIBLE_DUPLICATE
  | DERIVES_FROM
  | SUPERSEDES
  | QUALIFIES
  | COMPONENT_OF_CHAIN
  | REQUESTS_EVIDENCE

definition relation_kind_members :: "relation_kind list" where
  "relation_kind_members = [SUPPORTS, CONTRADICTS, DUPLICATES, POSSIBLE_DUPLICATE,
     DERIVES_FROM, SUPERSEDES, QUALIFIES, COMPONENT_OF_CHAIN, REQUESTS_EVIDENCE]"

primrec relation_kind_value :: "relation_kind \<Rightarrow> string" where
  "relation_kind_value SUPPORTS = ''supports''"
| "relation_kind_value CONTRADICTS = ''contradicts''"
| "relation_kind_value DUPLICATES = ''duplicates''"
| "relation_kind_value POSSIBLE_DUPLICATE = ''possible_duplicate''"
| "relation_kind_value DERIVES_FROM = ''derives_from''"
| "relation_kind_value SUPERSEDES = ''supersedes''"
| "relation_kind_value QUALIFIES = ''qualifies''"
| "relation_kind_value COMPONENT_OF_CHAIN = ''component_of_chain''"
| "relation_kind_value REQUESTS_EVIDENCE = ''requests_evidence''"

datatype admissibility =
    DIRECT
  | DIRECT_FOR_MAPPED_PREDICATE
  | ANALYST_ASSESSED
  | INDIRECT

definition admissibility_members :: "admissibility list" where
  "admissibility_members = [DIRECT, DIRECT_FOR_MAPPED_PREDICATE, ANALYST_ASSESSED,
     INDIRECT]"

primrec admissibility_value :: "admissibility \<Rightarrow> string" where
  "admissibility_value DIRECT = ''direct''"
| "admissibility_value DIRECT_FOR_MAPPED_PREDICATE = ''direct_for_mapped_predicate''"
| "admissibility_value ANALYST_ASSESSED = ''analyst_assessed''"
| "admissibility_value INDIRECT = ''indirect''"

datatype cell_status =
    CELL_SUCCEEDED
  | CELL_FAILED
  | CELL_BLOCKED
  | CELL_TIMED_OUT
  | CELL_CANCELED
  | CELL_INVALID
  | CELL_NOT_LAUNCHED

definition cell_status_members :: "cell_status list" where
  "cell_status_members = [CELL_SUCCEEDED, CELL_FAILED, CELL_BLOCKED, CELL_TIMED_OUT,
     CELL_CANCELED, CELL_INVALID, CELL_NOT_LAUNCHED]"

primrec cell_status_value :: "cell_status \<Rightarrow> string" where
  "cell_status_value CELL_SUCCEEDED = ''succeeded''"
| "cell_status_value CELL_FAILED = ''failed''"
| "cell_status_value CELL_BLOCKED = ''blocked''"
| "cell_status_value CELL_TIMED_OUT = ''timed_out''"
| "cell_status_value CELL_CANCELED = ''canceled''"
| "cell_status_value CELL_INVALID = ''invalid''"
| "cell_status_value CELL_NOT_LAUNCHED = ''not_launched''"

datatype (plugins only: code size) gap_class =
    GC_INTEGRITY_ERROR
  | GC_AUTHORITY_ERROR
  | GC_SCHEMA_ERROR
  | GC_WORKER_GAP
  | GC_COVERAGE_GAP
  | GC_EVIDENCE_GAP
  | GC_INDEPENDENCE_GAP
  | GC_SCORE_GAP
  | GC_POC_POLICY_GAP
  | GC_POC_EXECUTION_GAP
  | GC_CHAIN_GAP
  | GC_BUDGET_GAP
  | GC_ROUTING_GAP
  | GC_PUBLICATION_ERROR

definition gap_class_members :: "gap_class list" where
  "gap_class_members = [GC_INTEGRITY_ERROR, GC_AUTHORITY_ERROR, GC_SCHEMA_ERROR,
     GC_WORKER_GAP, GC_COVERAGE_GAP, GC_EVIDENCE_GAP, GC_INDEPENDENCE_GAP, GC_SCORE_GAP,
     GC_POC_POLICY_GAP, GC_POC_EXECUTION_GAP, GC_CHAIN_GAP, GC_BUDGET_GAP, GC_ROUTING_GAP,
     GC_PUBLICATION_ERROR]"

primrec gap_class_value :: "gap_class \<Rightarrow> string" where
  "gap_class_value GC_INTEGRITY_ERROR = ''integrity_error''"
| "gap_class_value GC_AUTHORITY_ERROR = ''authority_error''"
| "gap_class_value GC_SCHEMA_ERROR = ''schema_error''"
| "gap_class_value GC_WORKER_GAP = ''worker_gap''"
| "gap_class_value GC_COVERAGE_GAP = ''coverage_gap''"
| "gap_class_value GC_EVIDENCE_GAP = ''evidence_gap''"
| "gap_class_value GC_INDEPENDENCE_GAP = ''independence_gap''"
| "gap_class_value GC_SCORE_GAP = ''score_gap''"
| "gap_class_value GC_POC_POLICY_GAP = ''poc_policy_gap''"
| "gap_class_value GC_POC_EXECUTION_GAP = ''poc_execution_gap''"
| "gap_class_value GC_CHAIN_GAP = ''chain_gap''"
| "gap_class_value GC_BUDGET_GAP = ''budget_gap''"
| "gap_class_value GC_ROUTING_GAP = ''routing_gap''"
| "gap_class_value GC_PUBLICATION_ERROR = ''publication_error''"

datatype judge_verdict_value =
    JV_RED_CORRECT
  | JV_BLUE_CORRECT
  | JV_PARTLY
  | JV_NEITHER
  | JV_UNRESOLVED

definition judge_verdict_value_members :: "judge_verdict_value list" where
  "judge_verdict_value_members = [JV_RED_CORRECT, JV_BLUE_CORRECT, JV_PARTLY, JV_NEITHER,
     JV_UNRESOLVED]"

primrec judge_verdict_value_value :: "judge_verdict_value \<Rightarrow> string" where
  "judge_verdict_value_value JV_RED_CORRECT = ''red_correct''"
| "judge_verdict_value_value JV_BLUE_CORRECT = ''blue_correct''"
| "judge_verdict_value_value JV_PARTLY = ''partly''"
| "judge_verdict_value_value JV_NEITHER = ''neither''"
| "judge_verdict_value_value JV_UNRESOLVED = ''unresolved''"

interpretation lane_enum: str_enum lane_members lane_value
proof unfold_locales
  show "e \<in> set lane_members" for e by (cases e) (simp_all add: lane_members_def)
  show "distinct (map lane_value lane_members)" by (simp add: lane_members_def)
qed

interpretation role_enum: str_enum role_members role_value
proof unfold_locales
  show "e \<in> set role_members" for e by (cases e) (simp_all add: role_members_def)
  show "distinct (map role_value role_members)" by (simp add: role_members_def)
qed

interpretation blue_task_enum: str_enum blue_task_members blue_task_value
proof unfold_locales
  show "e \<in> set blue_task_members" for e by (cases e) (simp_all add: blue_task_members_def)
  show "distinct (map blue_task_value blue_task_members)" by (simp add: blue_task_members_def)
qed

interpretation hunt_strategy_enum: str_enum hunt_strategy_members hunt_strategy_value
proof unfold_locales
  show "e \<in> set hunt_strategy_members" for e by (cases e) (simp_all add: hunt_strategy_members_def)
  show "distinct (map hunt_strategy_value hunt_strategy_members)" by (simp add: hunt_strategy_members_def)
qed

interpretation claim_state_enum: str_enum claim_state_members claim_state_value
proof unfold_locales
  show "e \<in> set claim_state_members" for e by (cases e) (simp_all add: claim_state_members_def)
  show "distinct (map claim_state_value claim_state_members)" by (simp add: claim_state_members_def)
qed

interpretation chain_status_enum: str_enum chain_status_members chain_status_value
proof unfold_locales
  show "e \<in> set chain_status_members" for e by (cases e) (simp_all add: chain_status_members_def)
  show "distinct (map chain_status_value chain_status_members)" by (simp add: chain_status_members_def)
qed

interpretation dimension_enum: str_enum dimension_members dimension_value
proof unfold_locales
  show "e \<in> set dimension_members" for e by (cases e) (simp_all add: dimension_members_def)
  show "distinct (map dimension_value dimension_members)" by (simp add: dimension_members_def)
qed

interpretation continuity_outcome_enum: str_enum continuity_outcome_members continuity_outcome_value
proof unfold_locales
  show "e \<in> set continuity_outcome_members" for e by (cases e) (simp_all add: continuity_outcome_members_def)
  show "distinct (map continuity_outcome_value continuity_outcome_members)" by (simp add: continuity_outcome_members_def)
qed

interpretation predicate_enum: str_enum predicate_members predicate_value
proof unfold_locales
  show "e \<in> set predicate_members" for e by (cases e) (simp_all add: predicate_members_def)
  show "distinct (map predicate_value predicate_members)" by (simp add: predicate_members_def)
qed

interpretation security_predicate_enum: str_enum security_predicate_members security_predicate_value
proof unfold_locales
  show "e \<in> set security_predicate_members" for e by (cases e) (simp_all add: security_predicate_members_def)
  show "distinct (map security_predicate_value security_predicate_members)" by (simp add: security_predicate_members_def)
qed

interpretation relation_kind_enum: str_enum relation_kind_members relation_kind_value
proof unfold_locales
  show "e \<in> set relation_kind_members" for e by (cases e) (simp_all add: relation_kind_members_def)
  show "distinct (map relation_kind_value relation_kind_members)" by (simp add: relation_kind_members_def)
qed

interpretation admissibility_enum: str_enum admissibility_members admissibility_value
proof unfold_locales
  show "e \<in> set admissibility_members" for e by (cases e) (simp_all add: admissibility_members_def)
  show "distinct (map admissibility_value admissibility_members)" by (simp add: admissibility_members_def)
qed

interpretation cell_status_enum: str_enum cell_status_members cell_status_value
proof unfold_locales
  show "e \<in> set cell_status_members" for e by (cases e) (simp_all add: cell_status_members_def)
  show "distinct (map cell_status_value cell_status_members)" by (simp add: cell_status_members_def)
qed

interpretation gap_class_enum: str_enum gap_class_members gap_class_value
proof unfold_locales
  show "e \<in> set gap_class_members" for e by (cases e) (simp_all add: gap_class_members_def)
  show "distinct (map gap_class_value gap_class_members)" by (simp add: gap_class_members_def)
qed

interpretation judge_verdict_value_enum: str_enum judge_verdict_value_members judge_verdict_value_value
proof unfold_locales
  show "e \<in> set judge_verdict_value_members" for e by (cases e) (simp_all add: judge_verdict_value_members_def)
  show "distinct (map judge_verdict_value_value judge_verdict_value_members)" by (simp add: judge_verdict_value_members_def)
qed

section \<open>Entity kinds and logical identities\<close>

datatype (plugins only: code size) entity_kind =
    EK_SOURCE_FILE
  | EK_SOURCE_SPAN
  | EK_SYMBOL
  | EK_COMPONENT
  | EK_PROJECT
  | EK_BUILD_ACTION
  | EK_COMPILE_UNIT
  | EK_OBJECT_FILE
  | EK_LIBRARY
  | EK_EXECUTABLE
  | EK_BUILD_ARTIFACT
  | EK_PACKAGE
  | EK_ARCHIVE_MEMBER
  | EK_BYTECODE_MODULE
  | EK_MANAGED_ASSEMBLY
  | EK_WASM_MODULE
  | EK_AST_NODE
  | EK_IR_ENTITY
  | EK_TOOL_OBSERVATION
  | EK_EVIDENCE_ARTIFACT
  | EK_FINDING_PACKAGE
  | EK_CHANGE
  | EK_HISTORY_SIGNAL
  | EK_HOTSPOT
  | EK_CHANGE_CONTEXT_SIGNAL
  | EK_REVIEW_UNIT
  | EK_DEPLOYMENT_EVENT
  | EK_TAG_ASSIGNMENT
  | EK_PRIORITY_ITEM
  | EK_REVIEW_SIGNAL
  | EK_REVIEW_FLOW_STEP
  | EK_REVIEW_CONTEXT_FILE
  | EK_DOCUMENT_RECORD
  | EK_PRECOMPUTED_FACT
  | EK_DATASET
  | EK_DATASET_AUDIT
  | EK_COVERAGE_CELL
  | EK_DEPENDENCY_PACKAGE
  | EK_ADVISORY
  | EK_CALL_SITE
  | EK_SINK_SITE
  | EK_ENTRY_POINT
  | EK_FLOW_SUMMARY
  | EK_DATAFLOW_PATH
  | EK_GUARD_FACT
  | EK_RANGE_FACT
  | EK_CODEQL_DATABASE
  | EK_POINTS_TO_SET
  | EK_INDIRECT_CALL_TARGETS
  | EK_MEMORY_OBJECT
  | EK_BINARY_FUNCTION
  | EK_BINARY_CALL_SITE
  | EK_BINARY_IMPORT
  | EK_BINARY_STRING

definition entity_kind_members :: "entity_kind list" where
  "entity_kind_members = [EK_SOURCE_FILE, EK_SOURCE_SPAN, EK_SYMBOL, EK_COMPONENT,
     EK_PROJECT, EK_BUILD_ACTION, EK_COMPILE_UNIT, EK_OBJECT_FILE, EK_LIBRARY,
     EK_EXECUTABLE, EK_BUILD_ARTIFACT, EK_PACKAGE, EK_ARCHIVE_MEMBER, EK_BYTECODE_MODULE,
     EK_MANAGED_ASSEMBLY, EK_WASM_MODULE, EK_AST_NODE, EK_IR_ENTITY, EK_TOOL_OBSERVATION,
     EK_EVIDENCE_ARTIFACT, EK_FINDING_PACKAGE, EK_CHANGE, EK_HISTORY_SIGNAL, EK_HOTSPOT,
     EK_CHANGE_CONTEXT_SIGNAL, EK_REVIEW_UNIT, EK_DEPLOYMENT_EVENT, EK_TAG_ASSIGNMENT,
     EK_PRIORITY_ITEM, EK_REVIEW_SIGNAL, EK_REVIEW_FLOW_STEP, EK_REVIEW_CONTEXT_FILE,
     EK_DOCUMENT_RECORD, EK_PRECOMPUTED_FACT, EK_DATASET, EK_DATASET_AUDIT,
     EK_COVERAGE_CELL, EK_DEPENDENCY_PACKAGE, EK_ADVISORY, EK_CALL_SITE, EK_SINK_SITE,
     EK_ENTRY_POINT, EK_FLOW_SUMMARY, EK_DATAFLOW_PATH, EK_GUARD_FACT, EK_RANGE_FACT,
     EK_CODEQL_DATABASE, EK_POINTS_TO_SET, EK_INDIRECT_CALL_TARGETS, EK_MEMORY_OBJECT,
     EK_BINARY_FUNCTION, EK_BINARY_CALL_SITE, EK_BINARY_IMPORT, EK_BINARY_STRING]"

primrec entity_kind_value :: "entity_kind \<Rightarrow> string" where
  "entity_kind_value EK_SOURCE_FILE = ''source_file''"
| "entity_kind_value EK_SOURCE_SPAN = ''source_span''"
| "entity_kind_value EK_SYMBOL = ''symbol''"
| "entity_kind_value EK_COMPONENT = ''component''"
| "entity_kind_value EK_PROJECT = ''project''"
| "entity_kind_value EK_BUILD_ACTION = ''build_action''"
| "entity_kind_value EK_COMPILE_UNIT = ''compile_unit''"
| "entity_kind_value EK_OBJECT_FILE = ''object_file''"
| "entity_kind_value EK_LIBRARY = ''library''"
| "entity_kind_value EK_EXECUTABLE = ''executable''"
| "entity_kind_value EK_BUILD_ARTIFACT = ''build_artifact''"
| "entity_kind_value EK_PACKAGE = ''package''"
| "entity_kind_value EK_ARCHIVE_MEMBER = ''archive_member''"
| "entity_kind_value EK_BYTECODE_MODULE = ''bytecode_module''"
| "entity_kind_value EK_MANAGED_ASSEMBLY = ''managed_assembly''"
| "entity_kind_value EK_WASM_MODULE = ''wasm_module''"
| "entity_kind_value EK_AST_NODE = ''ast_node''"
| "entity_kind_value EK_IR_ENTITY = ''ir_entity''"
| "entity_kind_value EK_TOOL_OBSERVATION = ''tool_observation''"
| "entity_kind_value EK_EVIDENCE_ARTIFACT = ''evidence_artifact''"
| "entity_kind_value EK_FINDING_PACKAGE = ''finding_package''"
| "entity_kind_value EK_CHANGE = ''change''"
| "entity_kind_value EK_HISTORY_SIGNAL = ''history_signal''"
| "entity_kind_value EK_HOTSPOT = ''hotspot''"
| "entity_kind_value EK_CHANGE_CONTEXT_SIGNAL = ''change_context_signal''"
| "entity_kind_value EK_REVIEW_UNIT = ''review_unit''"
| "entity_kind_value EK_DEPLOYMENT_EVENT = ''deployment_event''"
| "entity_kind_value EK_TAG_ASSIGNMENT = ''tag_assignment''"
| "entity_kind_value EK_PRIORITY_ITEM = ''priority_item''"
| "entity_kind_value EK_REVIEW_SIGNAL = ''review_signal''"
| "entity_kind_value EK_REVIEW_FLOW_STEP = ''review_flow_step''"
| "entity_kind_value EK_REVIEW_CONTEXT_FILE = ''review_context_file''"
| "entity_kind_value EK_DOCUMENT_RECORD = ''document_record''"
| "entity_kind_value EK_PRECOMPUTED_FACT = ''precomputed_fact''"
| "entity_kind_value EK_DATASET = ''dataset''"
| "entity_kind_value EK_DATASET_AUDIT = ''dataset_audit''"
| "entity_kind_value EK_COVERAGE_CELL = ''coverage_cell''"
| "entity_kind_value EK_DEPENDENCY_PACKAGE = ''dependency_package''"
| "entity_kind_value EK_ADVISORY = ''advisory''"
| "entity_kind_value EK_CALL_SITE = ''call_site''"
| "entity_kind_value EK_SINK_SITE = ''sink_site''"
| "entity_kind_value EK_ENTRY_POINT = ''entry_point''"
| "entity_kind_value EK_FLOW_SUMMARY = ''flow_summary''"
| "entity_kind_value EK_DATAFLOW_PATH = ''dataflow_path''"
| "entity_kind_value EK_GUARD_FACT = ''guard_fact''"
| "entity_kind_value EK_RANGE_FACT = ''range_fact''"
| "entity_kind_value EK_CODEQL_DATABASE = ''codeql_database''"
| "entity_kind_value EK_POINTS_TO_SET = ''points_to_set''"
| "entity_kind_value EK_INDIRECT_CALL_TARGETS = ''indirect_call_targets''"
| "entity_kind_value EK_MEMORY_OBJECT = ''memory_object''"
| "entity_kind_value EK_BINARY_FUNCTION = ''binary_function''"
| "entity_kind_value EK_BINARY_CALL_SITE = ''binary_call_site''"
| "entity_kind_value EK_BINARY_IMPORT = ''binary_import''"
| "entity_kind_value EK_BINARY_STRING = ''binary_string''"

interpretation entity_kind_enum: str_enum entity_kind_members entity_kind_value
proof unfold_locales
  show "e \<in> set entity_kind_members" for e by (cases e) (simp_all add: entity_kind_members_def)
  show "distinct (map entity_kind_value entity_kind_members)" by (simp add: entity_kind_members_def)
qed

text \<open>The pattern \<open>[a-z][a-z0-9_]*\<close>.\<close>

definition is_kind_name :: "string \<Rightarrow> bool" where
  "is_kind_name s =
     (case s of [] \<Rightarrow> False
      | c # cs \<Rightarrow> (let n = of_char c :: nat in 97 \<le> n \<and> n \<le> 122) \<and>
          list_all (\<lambda>d. (let n = of_char d :: nat in (97 \<le> n \<and> n \<le> 122) \<or> (48 \<le> n \<and> n \<le> 57) \<or> n = 95)) cs)"

record logical_identity =
  li_kind :: entity_kind
  li_value :: string

text \<open>
  \<open>LogicalIdentity.parse\<close>: the whole string is \<open>asr:<kind>:<64 hex digits>\<close>. A kind name has no
  colon, so splitting at the first colon after the prefix is the only way the pattern can match.
\<close>

definition match_logical_id :: "string \<Rightarrow> string option" where
  "match_logical_id v =
     (if \<not> starts_with ''asr:'' v then None
      else let rest = drop 4 v; k = takeWhile (\<lambda>c. c \<noteq> CHR '':'') rest;
               tail = drop (length k) rest
           in if is_kind_name k \<and> tail \<noteq> [] \<and> is_sha256 (tl tail) then Some k else None)"

definition parse_identity :: "string \<Rightarrow> logical_identity res" where
  "parse_identity v =
     (case match_logical_id v of
        None \<Rightarrow> Inl (ValueError ''invalid logical identifier'')
      | Some k \<Rightarrow>
          (case enum_of entity_kind_members entity_kind_value k of
             Inl _ \<Rightarrow> Inl (ValueError ''unknown logical identifier kind'')
           | Inr kind \<Rightarrow> Inr \<lparr>li_kind = kind, li_value = v\<rparr>))"

lemma parse_identity_value: "parse_identity v = Inr i \<Longrightarrow> li_value i = v"
  by (auto simp: parse_identity_def split: option.splits sum.splits)

lemma parse_identity_error: "parse_identity v = Inl e \<Longrightarrow> \<exists>m. e = ValueError m"
  by (auto simp: parse_identity_def split: option.splits sum.splits)

section \<open>Roll-up tables\<close>

definition fromkeys :: "'k list \<Rightarrow> 'v \<Rightarrow> ('k, 'v) dict" where
  "fromkeys ks v = map (\<lambda>k. (k, v)) ks"

definition SECURITY_PREDICATE_CWE_ROLLUP :: "(string, security_predicate) dict" where
  "SECURITY_PREDICATE_CWE_ROLLUP =
     fromkeys [''CWE-119'', ''CWE-120'', ''CWE-121'', ''CWE-122'', ''CWE-787'', ''CWE-788'',
        ''CWE-805'', ''CWE-134'', ''CWE-457'', ''CWE-908''] SP_MEMORY_CORRUPTION @
     fromkeys [''CWE-125'', ''CWE-126'', ''CWE-127''] SP_OUT_OF_BOUNDS_READ @
     fromkeys [''CWE-416'', ''CWE-415'', ''CWE-825''] SP_USE_AFTER_FREE @
     fromkeys [''CWE-190'', ''CWE-191'', ''CWE-681'', ''CWE-682'', ''CWE-369'']
        SP_INTEGER_ERROR @
     fromkeys [''CWE-74'', ''CWE-79'', ''CWE-90'', ''CWE-91'', ''CWE-611'', ''CWE-643'',
        ''CWE-943''] SP_INJECTION @
     fromkeys [''CWE-77'', ''CWE-78''] SP_COMMAND_INJECTION @
     fromkeys [''CWE-89'', ''CWE-564''] SP_SQL_INJECTION @
     fromkeys [''CWE-94'', ''CWE-95'', ''CWE-96'', ''CWE-917''] SP_CODE_INJECTION @
     fromkeys [''CWE-22'', ''CWE-23'', ''CWE-36'', ''CWE-59''] SP_PATH_TRAVERSAL @
     fromkeys [''CWE-918''] SP_SSRF @
     fromkeys [''CWE-502''] SP_DESERIALIZATION @
     fromkeys [''CWE-287'', ''CWE-306'', ''CWE-798'', ''CWE-290'', ''CWE-384'']
        SP_AUTHN_BYPASS @
     fromkeys [''CWE-284'', ''CWE-285'', ''CWE-269'', ''CWE-352'', ''CWE-639'', ''CWE-862'',
        ''CWE-863''] SP_AUTHZ_BYPASS @
     fromkeys [''CWE-200'', ''CWE-209'', ''CWE-532'', ''CWE-668''] SP_INFO_DISCLOSURE @
     fromkeys [''CWE-311'', ''CWE-319'', ''CWE-326'', ''CWE-327'', ''CWE-328'', ''CWE-330'',
        ''CWE-338'', ''CWE-347''] SP_CRYPTO_WEAKNESS @
     fromkeys [''CWE-362'', ''CWE-366'', ''CWE-367''] SP_RACE_CONDITION @
     fromkeys [''CWE-400'', ''CWE-674'', ''CWE-770'', ''CWE-789'', ''CWE-1333'']
        SP_RESOURCE_EXHAUSTION @
     fromkeys [''CWE-16'', ''CWE-250'', ''CWE-276'', ''CWE-732'', ''CWE-778'']
        SP_INSECURE_CONFIGURATION @
     fromkeys [''CWE-494'', ''CWE-829'', ''CWE-1104'', ''CWE-1357'', ''CWE-1395'']
        SP_SUPPLY_CHAIN_COMPROMISE"

definition SECURITY_PREDICATE_CERT_ROLLUP :: "(string, security_predicate) dict" where
  "SECURITY_PREDICATE_CERT_ROLLUP =
     [(''cert-c:mem30-c'', SP_USE_AFTER_FREE),
      (''cert-c:int32-c'', SP_INTEGER_ERROR),
      (''cert-c:arr30-c'', SP_MEMORY_CORRUPTION),
      (''cert-c:arr36-c'', SP_MEMORY_CORRUPTION),
      (''cert-c:con43-c'', SP_RACE_CONDITION),
      (''cert-c:fio30-c'', SP_MEMORY_CORRUPTION),
      (''cert-c:env33-c'', SP_COMMAND_INJECTION),
      (''cert-c:exp33-c'', SP_MEMORY_CORRUPTION)]"

definition BLOCKING_GAP_CLASSES :: "gap_class list" where
  "BLOCKING_GAP_CLASSES = [GC_INTEGRITY_ERROR, GC_PUBLICATION_ERROR]"

definition MAX_GAP_REASON :: nat where
  "MAX_GAP_REASON = 256"

section \<open>Records\<close>

record evidence_relation =
  er_relation_id :: string
  er_claim_id :: string
  er_predicate :: predicate
  er_kind :: relation_kind
  er_entity_id :: string
  er_entity_kind :: string
  er_admissibility :: admissibility
  er_shard_id :: string
  er_content_sha256 :: string
  er_locator :: string
  er_complete :: bool
  er_producing_cell_id :: string
  er_retrieval_receipt_sha256 :: "string option"
  er_reason :: "string option"
  er_provenance :: "string option"

record judge_predicate_verdict =
  jpv_predicate :: predicate
  jpv_verdict :: judge_verdict_value
  jpv_cites :: "string list"

record judge_verdict =
  jv_verdict_id :: string
  jv_claim_id :: string
  jv_verdict :: judge_verdict_value
  jv_per_predicate :: "judge_predicate_verdict list"
  jv_reason :: string
  jv_cell_id :: string
  jv_model_distinct :: bool

record gap =
  g_gap_id :: string
  g_gap_class :: gap_class
  g_subject_id :: string
  g_reason :: string
  g_predicate :: "predicate option"
  g_round :: int

record claim =
  c_claim_id :: string
  c_lane :: lane
  c_package_id :: string
  c_affected_entities :: "string list"
  c_weakness_cwe :: "string option"
  c_security_predicate :: security_predicate
  c_preconditions :: "string list"
  c_statement :: string
  c_state :: claim_state
  c_duplicate_of :: "string option"
  c_origin_cell_ids :: "string list"

record cell_record =
  cell_id :: string
  cell_lane :: lane
  cell_package_id :: string
  cell_role :: role
  cell_persona :: string
  cell_stack_profile :: string
  cell_task :: string
  cell_claim_id :: "string option"
  cell_status :: cell_status
  cell_attempts :: int
  cell_gap_ids :: "string list"
  cell_receipt_sha256 :: "string option"
  cell_side_map :: "(string \<times> string) list option"

section \<open>Identities\<close>

definition PREFIXES :: "(string, string) dict" where
  "PREFIXES =
     [(''claim'', ''claim''), (''evidence_relation'', ''evrel''), (''evidence_request'', ''evreq''),
      (''review'', ''review''), (''adjudication'', ''adjudication''), (''score'', ''score''),
      (''cell'', ''cell''), (''actor'', ''actor''), (''gap'', ''gap''), (''event'', ''event''),
      (''package'', ''package''), (''finding_package'', ''finding''), (''team'', ''team''),
      (''judge_verdict'', ''judge'')]"

type_synonym hash = "json \<Rightarrow> string"

definition make_id :: "hash \<Rightarrow> string \<Rightarrow> int \<Rightarrow> json \<Rightarrow> string res" where
  "make_id H kind version body =
     (case map_of PREFIXES kind of
        None \<Rightarrow> Inl (ValueError ''unknown identity kind'')
      | Some prefix \<Rightarrow>
          if version < 1 then Inl (ValueError ''identity version must be positive'')
          else Inr (prefix @ ''-'' @
                 H (jobj [(''kind'', JStr kind), (''version'', JInt version), (''body'', body)])))"

definition pred_json :: "predicate option \<Rightarrow> json" where
  "pred_json p = (case p of None \<Rightarrow> JNull | Some q \<Rightarrow> JStr (predicate_value q))"

text \<open>
  The kinds the review itself names are all in the table, so the identity is a plain string; the
  exceptional branches of \<open>make_id\<close> are unreachable from these callers.
\<close>

definition id_of :: "hash \<Rightarrow> string \<Rightarrow> int \<Rightarrow> json \<Rightarrow> string" where
  "id_of H kind version body = (case make_id H kind version body of Inr s \<Rightarrow> s | Inl _ \<Rightarrow> [])"

definition gap_body :: "gap_class \<Rightarrow> string \<Rightarrow> string \<Rightarrow> predicate option \<Rightarrow> int \<Rightarrow> json" where
  "gap_body cls subject reason pred rnd =
     jobj [(''gap_class'', JStr (gap_class_value cls)), (''subject_id'', JStr subject),
           (''reason'', JStr reason), (''predicate'', pred_json pred), (''round'', JInt rnd)]"

definition make_gap ::
  "hash \<Rightarrow> gap_class \<Rightarrow> string \<Rightarrow> string \<Rightarrow> predicate option \<Rightarrow> int \<Rightarrow> gap" where
  "make_gap H cls subject reason pred rnd =
     (let bounded = take MAX_GAP_REASON (squeeze reason)
      in \<lparr>g_gap_id = id_of H ''gap'' 1 (gap_body cls subject bounded pred rnd), g_gap_class = cls,
          g_subject_id = subject, g_reason = bounded, g_predicate = pred, g_round = rnd\<rparr>)"

lemma make_gap_fields [simp]:
  "g_gap_class (make_gap H cls subject reason pred rnd) = cls"
  "g_subject_id (make_gap H cls subject reason pred rnd) = subject"
  "g_predicate (make_gap H cls subject reason pred rnd) = pred"
  "g_round (make_gap H cls subject reason pred rnd) = rnd"
  by (simp_all add: make_gap_def Let_def)

lemma make_gap_reason_bounded: "length (g_reason (make_gap H cls subject reason pred rnd)) \<le> MAX_GAP_REASON"
  by (simp add: make_gap_def Let_def)

lemma gap_body_inj:
  "gap_body c s r p n = gap_body c' s' r' p' n' \<longleftrightarrow> c = c' \<and> s = s' \<and> r = r' \<and> p = p' \<and> n = n'"
proof
  assume eq: "gap_body c s r p n = gap_body c' s' r' p' n'"
  have get: "jget k (gap_body c s r p n) = jget k (gap_body c' s' r' p' n')" for k
    using eq by simp
  show "c = c' \<and> s = s' \<and> r = r' \<and> p = p' \<and> n = n'"
    using get [of "''gap_class''"] get [of "''subject_id''"] get [of "''reason''"]
      get [of "''predicate''"] get [of "''round''"]
    by (auto simp: gap_body_def gap_class_enum.val_inj predicate_enum.val_inj pred_json_def
        split: option.splits)
qed simp

end
