(* ===== verification/Obligations.thy ===== *)
theory Obligations
  imports Models
begin

text \<open>
  The proof obligations of a claim, \<open>review/obligations.py\<close> (\<open>obligation-rules/2\<close>): which
  predicates a claim must satisfy, from its weakness family, its preconditions and whether it
  concerns the build.
\<close>

section \<open>Vocabulary and tables\<close>

datatype (plugins only: code size) precondition =
    PC_ATTACKER_CONTROLS_REQUEST_FIELD
  | PC_ATTACKER_CONTROLS_FILE_CONTENT
  | PC_ATTACKER_CONTROLS_COMMAND_LINE
  | PC_ATTACKER_CONTROLS_ENVIRONMENT_VARIABLE
  | PC_ATTACKER_CONTROLS_IPC_MESSAGE
  | PC_ATTACKER_CONTROLS_STORED_DATA
  | PC_ATTACKER_HAS_NETWORK_ACCESS
  | PC_ATTACKER_HAS_LOCAL_ACCESS
  | PC_ATTACKER_IS_AUTHENTICATED
  | PC_ATTACKER_IS_UNAUTHENTICATED
  | PC_VICTIM_INTERACTION_REQUIRED
  | PC_CONCURRENT_ACCESS_WINDOW
  | PC_NON_DEFAULT_CONFIGURATION
  | PC_FEATURE_FLAG_ENABLED
  | PC_DEBUG_MODE_ENABLED
  | PC_SERVICE_EXPOSED_TO_NETWORK
  | PC_PROCESS_RUNS_PRIVILEGED
  | PC_HARDENING_DISABLED
  | PC_OPTIONAL_COMPONENT_ENABLED

definition precondition_members :: "precondition list" where
  "precondition_members = [PC_ATTACKER_CONTROLS_REQUEST_FIELD,
     PC_ATTACKER_CONTROLS_FILE_CONTENT, PC_ATTACKER_CONTROLS_COMMAND_LINE,
     PC_ATTACKER_CONTROLS_ENVIRONMENT_VARIABLE, PC_ATTACKER_CONTROLS_IPC_MESSAGE,
     PC_ATTACKER_CONTROLS_STORED_DATA, PC_ATTACKER_HAS_NETWORK_ACCESS,
     PC_ATTACKER_HAS_LOCAL_ACCESS, PC_ATTACKER_IS_AUTHENTICATED,
     PC_ATTACKER_IS_UNAUTHENTICATED, PC_VICTIM_INTERACTION_REQUIRED,
     PC_CONCURRENT_ACCESS_WINDOW, PC_NON_DEFAULT_CONFIGURATION, PC_FEATURE_FLAG_ENABLED,
     PC_DEBUG_MODE_ENABLED, PC_SERVICE_EXPOSED_TO_NETWORK, PC_PROCESS_RUNS_PRIVILEGED,
     PC_HARDENING_DISABLED, PC_OPTIONAL_COMPONENT_ENABLED]"

primrec precondition_value :: "precondition \<Rightarrow> string" where
  "precondition_value PC_ATTACKER_CONTROLS_REQUEST_FIELD = ''attacker_controls_request_field''"
| "precondition_value PC_ATTACKER_CONTROLS_FILE_CONTENT = ''attacker_controls_file_content''"
| "precondition_value PC_ATTACKER_CONTROLS_COMMAND_LINE = ''attacker_controls_command_line''"
| "precondition_value PC_ATTACKER_CONTROLS_ENVIRONMENT_VARIABLE = ''attacker_controls_environment_variable''"
| "precondition_value PC_ATTACKER_CONTROLS_IPC_MESSAGE = ''attacker_controls_ipc_message''"
| "precondition_value PC_ATTACKER_CONTROLS_STORED_DATA = ''attacker_controls_stored_data''"
| "precondition_value PC_ATTACKER_HAS_NETWORK_ACCESS = ''attacker_has_network_access''"
| "precondition_value PC_ATTACKER_HAS_LOCAL_ACCESS = ''attacker_has_local_access''"
| "precondition_value PC_ATTACKER_IS_AUTHENTICATED = ''attacker_is_authenticated''"
| "precondition_value PC_ATTACKER_IS_UNAUTHENTICATED = ''attacker_is_unauthenticated''"
| "precondition_value PC_VICTIM_INTERACTION_REQUIRED = ''victim_interaction_required''"
| "precondition_value PC_CONCURRENT_ACCESS_WINDOW = ''concurrent_access_window''"
| "precondition_value PC_NON_DEFAULT_CONFIGURATION = ''non_default_configuration''"
| "precondition_value PC_FEATURE_FLAG_ENABLED = ''feature_flag_enabled''"
| "precondition_value PC_DEBUG_MODE_ENABLED = ''debug_mode_enabled''"
| "precondition_value PC_SERVICE_EXPOSED_TO_NETWORK = ''service_exposed_to_network''"
| "precondition_value PC_PROCESS_RUNS_PRIVILEGED = ''process_runs_privileged''"
| "precondition_value PC_HARDENING_DISABLED = ''hardening_disabled''"
| "precondition_value PC_OPTIONAL_COMPONENT_ENABLED = ''optional_component_enabled''"

datatype obl_family =
    OF_MEMORY_AND_INPUT
  | OF_SECRETS
  | OF_CRYPTOGRAPHY
  | OF_CONFIGURATION
  | OF_SUPPLY_CHAIN

definition obl_family_members :: "obl_family list" where
  "obl_family_members = [OF_MEMORY_AND_INPUT, OF_SECRETS, OF_CRYPTOGRAPHY,
     OF_CONFIGURATION, OF_SUPPLY_CHAIN]"

primrec obl_family_value :: "obl_family \<Rightarrow> string" where
  "obl_family_value OF_MEMORY_AND_INPUT = ''memory_and_input''"
| "obl_family_value OF_SECRETS = ''secrets''"
| "obl_family_value OF_CRYPTOGRAPHY = ''cryptography''"
| "obl_family_value OF_CONFIGURATION = ''configuration''"
| "obl_family_value OF_SUPPLY_CHAIN = ''supply_chain''"

interpretation precondition_enum: str_enum precondition_members precondition_value
proof unfold_locales
  show "e \<in> set precondition_members" for e by (cases e) (simp_all add: precondition_members_def)
  show "distinct (map precondition_value precondition_members)" by (simp add: precondition_members_def)
qed

interpretation obl_family_enum: str_enum obl_family_members obl_family_value
proof unfold_locales
  show "e \<in> set obl_family_members" for e by (cases e) (simp_all add: obl_family_members_def)
  show "distinct (map obl_family_value obl_family_members)" by (simp add: obl_family_members_def)
qed

definition CONFIGURATION_SCOPED :: "precondition set" where
  "CONFIGURATION_SCOPED =
     {PC_NON_DEFAULT_CONFIGURATION, PC_FEATURE_FLAG_ENABLED, PC_DEBUG_MODE_ENABLED,
      PC_SERVICE_EXPOSED_TO_NETWORK, PC_PROCESS_RUNS_PRIVILEGED, PC_HARDENING_DISABLED,
      PC_OPTIONAL_COMPONENT_ENABLED}"

definition ALWAYS_REQUIRED :: "predicate list" where
  "ALWAYS_REQUIRED =
     [P_AFFECTED_CONSTRUCT, P_ATTACKER_INPUT_CONTROL, P_SOURCE_TO_SINK_REACHABILITY,
      P_MISSING_OR_INEFFECTIVE_GUARD]"

fun REQUIRED_BY_FAMILY :: "obl_family \<Rightarrow> predicate list" where
  "REQUIRED_BY_FAMILY OF_MEMORY_AND_INPUT = ALWAYS_REQUIRED"
| "REQUIRED_BY_FAMILY OF_SECRETS = [P_AFFECTED_CONSTRUCT, P_MISSING_OR_INEFFECTIVE_GUARD]"
| "REQUIRED_BY_FAMILY OF_CRYPTOGRAPHY = [P_AFFECTED_CONSTRUCT, P_MISSING_OR_INEFFECTIVE_GUARD]"
| "REQUIRED_BY_FAMILY OF_CONFIGURATION = [P_AFFECTED_CONSTRUCT, P_CONFIGURATION_ENABLES]"
| "REQUIRED_BY_FAMILY OF_SUPPLY_CHAIN = [P_AFFECTED_CONSTRUCT, P_CONFIGURATION_ENABLES]"

definition DERIVED_PREDICATES :: "predicate set" where
  "DERIVED_PREDICATES = {P_SECURITY_IMPACT}"

definition SECRET_CWES :: "string list" where
  "SECRET_CWES = [''CWE-798'', ''CWE-259'', ''CWE-321'', ''CWE-256'', ''CWE-312'', ''CWE-522'']"

definition SECURITY_PREDICATE_FAMILY :: "(security_predicate, obl_family) dict" where
  "SECURITY_PREDICATE_FAMILY =
     [(SP_CRYPTO_WEAKNESS, OF_CRYPTOGRAPHY), (SP_INSECURE_CONFIGURATION, OF_CONFIGURATION),
      (SP_SUPPLY_CHAIN_COMPROMISE, OF_SUPPLY_CHAIN)]"

definition BUILD_CONFIGURATION_KINDS :: "entity_kind set" where
  "BUILD_CONFIGURATION_KINDS = {EK_BUILD_ACTION, EK_COMPILE_UNIT}"

definition CONFIGURATION_PREDICATE :: predicate where
  "CONFIGURATION_PREDICATE = P_CONFIGURATION_ENABLES"

section \<open>The required predicates\<close>

definition parse_precondition :: "string \<Rightarrow> precondition res" where
  "parse_precondition v = enum_of precondition_members precondition_value (lower (strip v))"

definition obligation_family :: "security_predicate option \<Rightarrow> string option \<Rightarrow> obl_family" where
  "obligation_family sp cwe =
     (if (case cwe of None \<Rightarrow> False | Some c \<Rightarrow> c \<in> set SECRET_CWES) then OF_SECRETS
      else case sp of
        None \<Rightarrow> OF_MEMORY_AND_INPUT
      | Some p \<Rightarrow> (case map_of SECURITY_PREDICATE_FAMILY p of
          None \<Rightarrow> OF_MEMORY_AND_INPUT | Some f \<Rightarrow> f))"

text \<open>An identity that does not parse is skipped, as the \<open>except ValueError: continue\<close> says.\<close>

definition concerns_build :: "string list \<Rightarrow> bool" where
  "concerns_build entities =
     list_ex (\<lambda>v. case parse_identity v of
        Inl _ \<Rightarrow> False | Inr i \<Rightarrow> li_kind i \<in> BUILD_CONFIGURATION_KINDS) entities"

definition required_predicates ::
  "string list \<Rightarrow> security_predicate option \<Rightarrow> string option \<Rightarrow> string list \<Rightarrow> predicate set res" where
  "required_predicates preconditions sp cwe entities =
     rbind (rmap parse_precondition preconditions) (\<lambda>parsed.
       let required = set (REQUIRED_BY_FAMILY (obligation_family sp cwe))
       in Inr (if set parsed \<inter> CONFIGURATION_SCOPED \<noteq> {} \<or> concerns_build entities
               then insert CONFIGURATION_PREDICATE required else required))"

definition required_predicates_for :: "claim \<Rightarrow> predicate set res" where
  "required_predicates_for c =
     required_predicates (c_preconditions c) (Some (c_security_predicate c)) (c_weakness_cwe c)
       (c_affected_entities c)"

section \<open>What every claim owes\<close>

lemma REQUIRED_BY_FAMILY_construct: "P_AFFECTED_CONSTRUCT \<in> set (REQUIRED_BY_FAMILY f)"
  by (cases f) (simp_all add: ALWAYS_REQUIRED_def)

lemma REQUIRED_BY_FAMILY_not_derived: "set (REQUIRED_BY_FAMILY f) \<inter> DERIVED_PREDICATES = {}"
  by (cases f) (simp_all add: ALWAYS_REQUIRED_def DERIVED_PREDICATES_def)

lemma required_predicates_cases:
  assumes "required_predicates pcs sp cwe ents = Inr req"
  shows "req = set (REQUIRED_BY_FAMILY (obligation_family sp cwe)) \<or>
         req = insert P_CONFIGURATION_ENABLES (set (REQUIRED_BY_FAMILY (obligation_family sp cwe)))"
  using assms
  by (auto simp: required_predicates_def rbind_Inr_iff Let_def CONFIGURATION_PREDICATE_def split: if_splits)

lemma required_has_construct:
  "required_predicates pcs sp cwe ents = Inr req \<Longrightarrow> P_AFFECTED_CONSTRUCT \<in> req"
  using required_predicates_cases REQUIRED_BY_FAMILY_construct by blast

lemma required_not_derived:
  "required_predicates pcs sp cwe ents = Inr req \<Longrightarrow> req \<inter> DERIVED_PREDICATES = {}"
  using required_predicates_cases [of pcs sp cwe ents req]
    REQUIRED_BY_FAMILY_not_derived [of "obligation_family sp cwe"]
  by (auto simp: DERIVED_PREDICATES_def)

text \<open>A configuration-scoped precondition always brings the configuration predicate with it.\<close>

lemma required_configuration:
  assumes "required_predicates pcs sp cwe ents = Inr req"
    and "p \<in> set pcs" and "parse_precondition p = Inr q" and "q \<in> CONFIGURATION_SCOPED"
  shows "P_CONFIGURATION_ENABLES \<in> req"
proof -
  from assms(1) obtain parsed where parsed: "rmap parse_precondition pcs = Inr parsed"
    and req: "req = (if set parsed \<inter> CONFIGURATION_SCOPED \<noteq> {} \<or> concerns_build ents
      then insert CONFIGURATION_PREDICATE (set (REQUIRED_BY_FAMILY (obligation_family sp cwe)))
      else set (REQUIRED_BY_FAMILY (obligation_family sp cwe)))"
    by (auto simp: required_predicates_def rbind_Inr_iff Let_def)
  from parsed assms(2,3) have "q \<in> set parsed"
    by (fastforce simp: rmap_Inr_iff list_all2_conv_all_nth in_set_conv_nth)
  with assms(4) req show ?thesis by (auto simp: CONFIGURATION_PREDICATE_def)
qed

end
