(* ===== verification/Graph_Facts.thy ===== *)
theory Graph_Facts
  imports Models
begin

text \<open>
  The code-graph fact contract (\<open>graph/contract.py\<close>) and the destination-bound rule for guards and
  ranges (\<open>graph/bounds.py\<close>). A graph fact is the JSON payload an export published; the functions
  here are total on JSON, so that every malformed payload takes the code's fail-closed branch.
\<close>

section \<open>Vocabulary\<close>

datatype family =
    F_CALL_SITE
  | F_SINK_SITE
  | F_ENTRY_POINT
  | F_FLOW_SUMMARY
  | F_DATAFLOW_PATH
  | F_GUARD_FACT
  | F_RANGE_FACT

definition family_members :: "family list" where
  "family_members = [F_CALL_SITE, F_SINK_SITE, F_ENTRY_POINT, F_FLOW_SUMMARY,
     F_DATAFLOW_PATH, F_GUARD_FACT, F_RANGE_FACT]"

primrec family_value :: "family \<Rightarrow> string" where
  "family_value F_CALL_SITE = ''call_site''"
| "family_value F_SINK_SITE = ''sink_site''"
| "family_value F_ENTRY_POINT = ''entry_point''"
| "family_value F_FLOW_SUMMARY = ''flow_summary''"
| "family_value F_DATAFLOW_PATH = ''dataflow_path''"
| "family_value F_GUARD_FACT = ''guard_fact''"
| "family_value F_RANGE_FACT = ''range_fact''"

datatype (plugins only: code size) sink_class =
    SINK_MEMORY_WRITE
  | SINK_MEMORY_READ
  | SINK_ALLOCATION_SIZE
  | SINK_FORMAT_STRING
  | SINK_COMMAND_EXECUTION
  | SINK_PATH_ACCESS
  | SINK_SQL_QUERY
  | SINK_CODE_INJECTION
  | SINK_DESERIALIZATION
  | SINK_INTEGER_CONVERSION
  | SINK_CRYPTO_MISUSE
  | SINK_LOG_OUTPUT
  | SINK_SERVER_SIDE_REQUEST
  | SINK_XML_EXTERNAL_ENTITY
  | SINK_LDAP_QUERY
  | SINK_XPATH_QUERY
  | SINK_HTML_OUTPUT
  | SINK_TEMPLATE_INJECTION
  | SINK_URL_REDIRECT
  | SINK_HEADER_INJECTION
  | SINK_REGEX_INJECTION
  | SINK_UNSAFE_REFLECTION
  | SINK_UNCLASSIFIED

definition sink_class_members :: "sink_class list" where
  "sink_class_members = [SINK_MEMORY_WRITE, SINK_MEMORY_READ, SINK_ALLOCATION_SIZE,
     SINK_FORMAT_STRING, SINK_COMMAND_EXECUTION, SINK_PATH_ACCESS, SINK_SQL_QUERY,
     SINK_CODE_INJECTION, SINK_DESERIALIZATION, SINK_INTEGER_CONVERSION, SINK_CRYPTO_MISUSE,
     SINK_LOG_OUTPUT, SINK_SERVER_SIDE_REQUEST, SINK_XML_EXTERNAL_ENTITY, SINK_LDAP_QUERY,
     SINK_XPATH_QUERY, SINK_HTML_OUTPUT, SINK_TEMPLATE_INJECTION, SINK_URL_REDIRECT,
     SINK_HEADER_INJECTION, SINK_REGEX_INJECTION, SINK_UNSAFE_REFLECTION,
     SINK_UNCLASSIFIED]"

primrec sink_class_value :: "sink_class \<Rightarrow> string" where
  "sink_class_value SINK_MEMORY_WRITE = ''memory_write''"
| "sink_class_value SINK_MEMORY_READ = ''memory_read''"
| "sink_class_value SINK_ALLOCATION_SIZE = ''allocation_size''"
| "sink_class_value SINK_FORMAT_STRING = ''format_string''"
| "sink_class_value SINK_COMMAND_EXECUTION = ''command_execution''"
| "sink_class_value SINK_PATH_ACCESS = ''path_access''"
| "sink_class_value SINK_SQL_QUERY = ''sql_query''"
| "sink_class_value SINK_CODE_INJECTION = ''code_injection''"
| "sink_class_value SINK_DESERIALIZATION = ''deserialization''"
| "sink_class_value SINK_INTEGER_CONVERSION = ''integer_conversion''"
| "sink_class_value SINK_CRYPTO_MISUSE = ''crypto_misuse''"
| "sink_class_value SINK_LOG_OUTPUT = ''log_output''"
| "sink_class_value SINK_SERVER_SIDE_REQUEST = ''server_side_request''"
| "sink_class_value SINK_XML_EXTERNAL_ENTITY = ''xml_external_entity''"
| "sink_class_value SINK_LDAP_QUERY = ''ldap_query''"
| "sink_class_value SINK_XPATH_QUERY = ''xpath_query''"
| "sink_class_value SINK_HTML_OUTPUT = ''html_output''"
| "sink_class_value SINK_TEMPLATE_INJECTION = ''template_injection''"
| "sink_class_value SINK_URL_REDIRECT = ''url_redirect''"
| "sink_class_value SINK_HEADER_INJECTION = ''header_injection''"
| "sink_class_value SINK_REGEX_INJECTION = ''regex_injection''"
| "sink_class_value SINK_UNSAFE_REFLECTION = ''unsafe_reflection''"
| "sink_class_value SINK_UNCLASSIFIED = ''unclassified''"

datatype source_class =
    SRC_REMOTE
  | SRC_LOCAL_USER
  | SRC_ARGV
  | SRC_ENVIRONMENT
  | SRC_FILE
  | SRC_IPC
  | SRC_DATABASE
  | SRC_INTERNAL
  | SRC_UNCLASSIFIED

definition source_class_members :: "source_class list" where
  "source_class_members = [SRC_REMOTE, SRC_LOCAL_USER, SRC_ARGV, SRC_ENVIRONMENT, SRC_FILE,
     SRC_IPC, SRC_DATABASE, SRC_INTERNAL, SRC_UNCLASSIFIED]"

primrec source_class_value :: "source_class \<Rightarrow> string" where
  "source_class_value SRC_REMOTE = ''remote''"
| "source_class_value SRC_LOCAL_USER = ''local_user''"
| "source_class_value SRC_ARGV = ''argv''"
| "source_class_value SRC_ENVIRONMENT = ''environment''"
| "source_class_value SRC_FILE = ''file''"
| "source_class_value SRC_IPC = ''ipc''"
| "source_class_value SRC_DATABASE = ''database''"
| "source_class_value SRC_INTERNAL = ''internal''"
| "source_class_value SRC_UNCLASSIFIED = ''unclassified''"

datatype guard_state =
    GS_DOMINATING
  | GS_NON_DOMINATING
  | GS_POST_DOMINATING_ONLY
  | GS_NONE

definition guard_state_members :: "guard_state list" where
  "guard_state_members = [GS_DOMINATING, GS_NON_DOMINATING, GS_POST_DOMINATING_ONLY,
     GS_NONE]"

primrec guard_state_value :: "guard_state \<Rightarrow> string" where
  "guard_state_value GS_DOMINATING = ''dominating''"
| "guard_state_value GS_NON_DOMINATING = ''non_dominating''"
| "guard_state_value GS_POST_DOMINATING_ONLY = ''post_dominating_only''"
| "guard_state_value GS_NONE = ''none''"

datatype guard_polarity =
    GP_TRUE_BRANCH
  | GP_FALSE_BRANCH
  | GP_UNKNOWN

definition guard_polarity_members :: "guard_polarity list" where
  "guard_polarity_members = [GP_TRUE_BRANCH, GP_FALSE_BRANCH, GP_UNKNOWN]"

primrec guard_polarity_value :: "guard_polarity \<Rightarrow> string" where
  "guard_polarity_value GP_TRUE_BRANCH = ''true_branch''"
| "guard_polarity_value GP_FALSE_BRANCH = ''false_branch''"
| "guard_polarity_value GP_UNKNOWN = ''unknown''"

datatype guard_operand_kind =
    GO_VARIABLE
  | GO_FIELD
  | GO_CONSTANT
  | GO_SIZEOF
  | GO_CALL
  | GO_OTHER

definition guard_operand_kind_members :: "guard_operand_kind list" where
  "guard_operand_kind_members = [GO_VARIABLE, GO_FIELD, GO_CONSTANT, GO_SIZEOF, GO_CALL,
     GO_OTHER]"

primrec guard_operand_kind_value :: "guard_operand_kind \<Rightarrow> string" where
  "guard_operand_kind_value GO_VARIABLE = ''variable''"
| "guard_operand_kind_value GO_FIELD = ''field''"
| "guard_operand_kind_value GO_CONSTANT = ''constant''"
| "guard_operand_kind_value GO_SIZEOF = ''sizeof''"
| "guard_operand_kind_value GO_CALL = ''call''"
| "guard_operand_kind_value GO_OTHER = ''other''"

datatype cross_check_state =
    CC_AGREE
  | CC_DISAGREE
  | CC_NOT_COVERED
  | CC_PARTIAL

definition cross_check_state_members :: "cross_check_state list" where
  "cross_check_state_members = [CC_AGREE, CC_DISAGREE, CC_NOT_COVERED, CC_PARTIAL]"

primrec cross_check_state_value :: "cross_check_state \<Rightarrow> string" where
  "cross_check_state_value CC_AGREE = ''agree''"
| "cross_check_state_value CC_DISAGREE = ''disagree''"
| "cross_check_state_value CC_NOT_COVERED = ''not_covered''"
| "cross_check_state_value CC_PARTIAL = ''partial''"

datatype coverage =
    COV_COMPLETE
  | COV_PARTIAL
  | COV_UNAVAILABLE

definition coverage_members :: "coverage list" where
  "coverage_members = [COV_COMPLETE, COV_PARTIAL, COV_UNAVAILABLE]"

primrec coverage_value :: "coverage \<Rightarrow> string" where
  "coverage_value COV_COMPLETE = ''complete''"
| "coverage_value COV_PARTIAL = ''partial''"
| "coverage_value COV_UNAVAILABLE = ''unavailable''"

datatype producer =
    PROD_CODEQL_EXPORT
  | PROD_CLANGD
  | PROD_LLVM_IR
  | PROD_CLANG_AST
  | PROD_CLANG_STATIC
  | PROD_JOERN_CPG
  | PROD_SVF

definition producer_members :: "producer list" where
  "producer_members = [PROD_CODEQL_EXPORT, PROD_CLANGD, PROD_LLVM_IR, PROD_CLANG_AST,
     PROD_CLANG_STATIC, PROD_JOERN_CPG, PROD_SVF]"

primrec producer_value :: "producer \<Rightarrow> string" where
  "producer_value PROD_CODEQL_EXPORT = ''codeql-export''"
| "producer_value PROD_CLANGD = ''clangd''"
| "producer_value PROD_LLVM_IR = ''llvm-ir''"
| "producer_value PROD_CLANG_AST = ''clang-ast''"
| "producer_value PROD_CLANG_STATIC = ''clang-static''"
| "producer_value PROD_JOERN_CPG = ''joern-cpg''"
| "producer_value PROD_SVF = ''svf''"

datatype graph_mode =
    MODE_CALLERS
  | MODE_CALLEES
  | MODE_SINKS
  | MODE_ENTRY_POINTS
  | MODE_PATHS
  | MODE_GUARDS
  | MODE_RANGES
  | MODE_SUMMARY
  | MODE_SARIF_PATH

definition graph_mode_members :: "graph_mode list" where
  "graph_mode_members = [MODE_CALLERS, MODE_CALLEES, MODE_SINKS, MODE_ENTRY_POINTS,
     MODE_PATHS, MODE_GUARDS, MODE_RANGES, MODE_SUMMARY, MODE_SARIF_PATH]"

primrec graph_mode_value :: "graph_mode \<Rightarrow> string" where
  "graph_mode_value MODE_CALLERS = ''callers''"
| "graph_mode_value MODE_CALLEES = ''callees''"
| "graph_mode_value MODE_SINKS = ''sinks''"
| "graph_mode_value MODE_ENTRY_POINTS = ''entry_points''"
| "graph_mode_value MODE_PATHS = ''paths''"
| "graph_mode_value MODE_GUARDS = ''guards''"
| "graph_mode_value MODE_RANGES = ''ranges''"
| "graph_mode_value MODE_SUMMARY = ''summary''"
| "graph_mode_value MODE_SARIF_PATH = ''sarif_path''"

interpretation family_enum: str_enum family_members family_value
proof unfold_locales
  show "e \<in> set family_members" for e by (cases e) (simp_all add: family_members_def)
  show "distinct (map family_value family_members)" by (simp add: family_members_def)
qed

interpretation sink_class_enum: str_enum sink_class_members sink_class_value
proof unfold_locales
  show "e \<in> set sink_class_members" for e by (cases e) (simp_all add: sink_class_members_def)
  show "distinct (map sink_class_value sink_class_members)" by (simp add: sink_class_members_def)
qed

interpretation source_class_enum: str_enum source_class_members source_class_value
proof unfold_locales
  show "e \<in> set source_class_members" for e by (cases e) (simp_all add: source_class_members_def)
  show "distinct (map source_class_value source_class_members)" by (simp add: source_class_members_def)
qed

interpretation guard_state_enum: str_enum guard_state_members guard_state_value
proof unfold_locales
  show "e \<in> set guard_state_members" for e by (cases e) (simp_all add: guard_state_members_def)
  show "distinct (map guard_state_value guard_state_members)" by (simp add: guard_state_members_def)
qed

interpretation guard_polarity_enum: str_enum guard_polarity_members guard_polarity_value
proof unfold_locales
  show "e \<in> set guard_polarity_members" for e by (cases e) (simp_all add: guard_polarity_members_def)
  show "distinct (map guard_polarity_value guard_polarity_members)" by (simp add: guard_polarity_members_def)
qed

interpretation guard_operand_kind_enum: str_enum guard_operand_kind_members guard_operand_kind_value
proof unfold_locales
  show "e \<in> set guard_operand_kind_members" for e by (cases e) (simp_all add: guard_operand_kind_members_def)
  show "distinct (map guard_operand_kind_value guard_operand_kind_members)" by (simp add: guard_operand_kind_members_def)
qed

interpretation cross_check_state_enum: str_enum cross_check_state_members cross_check_state_value
proof unfold_locales
  show "e \<in> set cross_check_state_members" for e by (cases e) (simp_all add: cross_check_state_members_def)
  show "distinct (map cross_check_state_value cross_check_state_members)" by (simp add: cross_check_state_members_def)
qed

interpretation coverage_enum: str_enum coverage_members coverage_value
proof unfold_locales
  show "e \<in> set coverage_members" for e by (cases e) (simp_all add: coverage_members_def)
  show "distinct (map coverage_value coverage_members)" by (simp add: coverage_members_def)
qed

interpretation producer_enum: str_enum producer_members producer_value
proof unfold_locales
  show "e \<in> set producer_members" for e by (cases e) (simp_all add: producer_members_def)
  show "distinct (map producer_value producer_members)" by (simp add: producer_members_def)
qed

interpretation graph_mode_enum: str_enum graph_mode_members graph_mode_value
proof unfold_locales
  show "e \<in> set graph_mode_members" for e by (cases e) (simp_all add: graph_mode_members_def)
  show "distinct (map graph_mode_value graph_mode_members)" by (simp add: graph_mode_members_def)
qed

definition GRAPH_FACT_SCHEMA :: string where "GRAPH_FACT_SCHEMA = ''appsec-review/graph-fact/1''"
definition CROSS_CHECK_RULE :: string where "CROSS_CHECK_RULE = ''graph-cross-check/1''"
definition ADMISSIBILITY_RULE :: string where "ADMISSIBILITY_RULE = ''graph-fact-admissibility/1''"
definition AUTHORITY :: string where
  "AUTHORITY = ''computed from accepted run-owned evidence; a graph fact is not a tool finding''"

fun FAMILY_KINDS :: "family \<Rightarrow> entity_kind" where
  "FAMILY_KINDS F_CALL_SITE = EK_CALL_SITE"
| "FAMILY_KINDS F_SINK_SITE = EK_SINK_SITE"
| "FAMILY_KINDS F_ENTRY_POINT = EK_ENTRY_POINT"
| "FAMILY_KINDS F_FLOW_SUMMARY = EK_FLOW_SUMMARY"
| "FAMILY_KINDS F_DATAFLOW_PATH = EK_DATAFLOW_PATH"
| "FAMILY_KINDS F_GUARD_FACT = EK_GUARD_FACT"
| "FAMILY_KINDS F_RANGE_FACT = EK_RANGE_FACT"

definition ATTACKER_REACHABLE_SOURCES :: "source_class set" where
  "ATTACKER_REACHABLE_SOURCES =
     {SRC_REMOTE, SRC_LOCAL_USER, SRC_ARGV, SRC_ENVIRONMENT, SRC_FILE, SRC_IPC}"

fun GRAPH_FACT_PREDICATES :: "family \<Rightarrow> predicate set" where
  "GRAPH_FACT_PREDICATES F_CALL_SITE = {P_AFFECTED_CONSTRUCT}"
| "GRAPH_FACT_PREDICATES F_SINK_SITE = {P_AFFECTED_CONSTRUCT}"
| "GRAPH_FACT_PREDICATES F_ENTRY_POINT = {P_ATTACKER_INPUT_CONTROL}"
| "GRAPH_FACT_PREDICATES F_DATAFLOW_PATH = {P_SOURCE_TO_SINK_REACHABILITY, P_ATTACKER_INPUT_CONTROL}"
| "GRAPH_FACT_PREDICATES F_GUARD_FACT = {P_MISSING_OR_INEFFECTIVE_GUARD}"
| "GRAPH_FACT_PREDICATES F_RANGE_FACT = {P_MISSING_OR_INEFFECTIVE_GUARD}"
| "GRAPH_FACT_PREDICATES F_FLOW_SUMMARY = {}"

lemma FAMILY_KINDS_value: "entity_kind_value (FAMILY_KINDS f) = family_value f"
  by (cases f) simp_all

section \<open>Reading payloads\<close>

fun truthy :: "json \<Rightarrow> bool" where
  "truthy JNull = False"
| "truthy (JBool b) = b"
| "truthy (JInt i) = (i \<noteq> 0)"
| "truthy (JStr s) = (s \<noteq> [])"
| "truthy (JArr xs) = (xs \<noteq> [])"
| "truthy (JObj m) = (fmdom m \<noteq> {||})"

text \<open>\<open>value.get(k, default)\<close>.\<close>

fun jget_default :: "string \<Rightarrow> json \<Rightarrow> json \<Rightarrow> json" where
  "jget_default k d (JObj m) = (case fmlookup m k of None \<Rightarrow> d | Some v \<Rightarrow> v)"
| "jget_default k d _ = d"

text \<open>\<open>v if isinstance(v, Mapping) else {}\<close>.\<close>

definition obj_or_empty :: "json \<Rightarrow> json" where
  "obj_or_empty v = (if is_obj v then v else jobj [])"

text \<open>How a value reads inside a diagnostic; only its emptiness is ever decided upon.\<close>

fun text_or :: "string \<Rightarrow> json \<Rightarrow> string" where
  "text_or d (JStr s) = (if s = [] then d else s)"
| "text_or d (JInt i) = (if i = 0 then d else int_str i)"
| "text_or d (JBool b) = (if b then ''True'' else d)"
| "text_or d _ = d"

section \<open>Eligibility\<close>

definition source_class_in :: "source_class set \<Rightarrow> json \<Rightarrow> bool" where
  "source_class_in S v = (\<exists>c\<in>S. v = JStr (source_class_value c))"

definition mapped_predicates :: "family \<Rightarrow> json \<Rightarrow> predicate set" where
  "mapped_predicates f result =
     (let mapped = GRAPH_FACT_PREDICATES f
      in if f = F_ENTRY_POINT \<and>
            \<not> source_class_in ATTACKER_REACHABLE_SOURCES (jget_or_null ''source_class'' result)
         then {}
         else if f = F_DATAFLOW_PATH \<and>
            \<not> source_class_in ATTACKER_REACHABLE_SOURCES
               (jget_or_null ''source_class'' (obj_or_empty (jget_or_null ''source'' result)))
         then mapped - {P_ATTACKER_INPUT_CONTROL}
         else mapped)"

definition unclassified :: json where
  "unclassified = JStr (sink_class_value SINK_UNCLASSIFIED)"

text \<open>
  The cross-check of a published fact is an object or absent, and its state a string or absent. On a
  payload of another shape, where \<open>get\<close> or the set lookup raises, the model reports the cross-check as
  missing, so that the fact is ineligible.
\<close>

definition ineligibility_reasons :: "json \<Rightarrow> string list" where
  "ineligibility_reasons payload =
     (let family = jget_or_null ''family'' payload;
          result = obj_or_empty (jget_or_null ''result'' payload);
          state = jget_or_null ''state'' (jget_or_null ''cross_check'' payload);
          source = obj_or_empty (jget_or_null ''source'' result);
          sink = obj_or_empty (jget_or_null ''sink'' result)
      in (if jget_or_null ''exact'' payload \<noteq> JBool True then [''inexact_location''] else []) @
         (if jget_or_null ''coverage_status'' payload \<noteq> JStr (coverage_value COV_COMPLETE)
          then [''incomplete_coverage''] else []) @
         (if state \<noteq> JStr (cross_check_state_value CC_AGREE) \<and>
             state \<noteq> JStr (cross_check_state_value CC_NOT_COVERED)
          then [''cross_check_'' @ text_or ''missing'' state] else []) @
         (if family = JStr (family_value F_SINK_SITE) \<and>
             jget_default ''sink_class'' unclassified result = unclassified
          then [''unclassified_sink''] else []) @
         (if family = JStr (family_value F_ENTRY_POINT) \<and>
             jget_default ''source_class'' unclassified result = unclassified
          then [''unclassified_source''] else []) @
         (if family = JStr (family_value F_RANGE_FACT) \<and>
             (jget_or_null ''applicability'' result = JStr ''not_applicable'' \<or>
              jget_default ''interval'' (jobj []) result = JNull)
          then [''range_not_applicable''] else []) @
         (if family = JStr (family_value F_DATAFLOW_PATH) \<and>
             jget_default ''source_class'' unclassified source = unclassified
          then [''unclassified_source''] else []) @
         (if family = JStr (family_value F_DATAFLOW_PATH) \<and>
             jget_default ''sink_class'' unclassified sink = unclassified
          then [''unclassified_sink''] else []))"

text \<open>The block a producer must publish.\<close>

definition fact_admissibility :: "json \<Rightarrow> json" where
  "fact_admissibility payload =
     (let reasons = ineligibility_reasons payload
      in jobj [(''rule'', JStr ADMISSIBILITY_RULE), (''direct_eligible'', JBool (reasons = [])),
               (''ineligibility_reasons'', JArr (map JStr reasons))])"

definition none_guard_native :: "string \<Rightarrow> string \<Rightarrow> string \<Rightarrow> int \<Rightarrow> int \<Rightarrow> json" where
  "none_guard_native scope_id sink_identity sink_path sink_start_byte sink_end_byte =
     jobj [(''scope_id'', JStr scope_id), (''sink_identity'', JStr sink_identity),
           (''condition_path'', JStr sink_path), (''condition_start_byte'', JInt sink_start_byte),
           (''condition_end_byte'', JInt sink_end_byte)]"

section \<open>Validation of a published fact\<close>

definition require :: "bool \<Rightarrow> string \<Rightarrow> unit res" where
  "require condition message = rguard condition (ValueError message)"

fun is_int :: "json \<Rightarrow> bool" where
  "is_int (JInt _) = True"
| "is_int _ = False"

fun is_str :: "json \<Rightarrow> bool" where
  "is_str (JStr _) = True"
| "is_str _ = False"

fun is_bool :: "json \<Rightarrow> bool" where
  "is_bool (JBool _) = True"
| "is_bool _ = False"

definition enum_json :: "'e list \<Rightarrow> ('e \<Rightarrow> string) \<Rightarrow> json \<Rightarrow> 'e res" where
  "enum_json members val v =
     (case v of JStr s \<Rightarrow> enum_of members val s | _ \<Rightarrow> Inl (ValueError ''not a member''))"

definition GUARD_OPERAND_TEXT_LIMIT :: nat where
  "GUARD_OPERAND_TEXT_LIMIT = 200"

definition validate_operand :: "json \<Rightarrow> unit res" where
  "validate_operand item =
     rbind (require (jkeys item = {|''role'', ''kind'', ''value'', ''text'', ''location''|})
              ''guard operand keys are invalid'') (\<lambda>_.
     rbind (require (\<exists>k\<in>set guard_operand_kind_members.
                jget_or_null ''kind'' item = JStr (guard_operand_kind_value k))
              ''guard operand kind is not in the closed vocabulary'') (\<lambda>_.
     rbind (require (let v = jget_or_null ''value'' item in v = JNull \<or> is_int v)
              ''guard operand value must be an integer or null'') (\<lambda>_.
     rbind (require (case jget_or_null ''text'' item of JNull \<Rightarrow> True
                | JStr s \<Rightarrow> length s \<le> GUARD_OPERAND_TEXT_LIMIT | _ \<Rightarrow> False)
              ''guard operand text must be null or bounded'') (\<lambda>_.
       require (let l = jget_or_null ''location'' item in l = JNull \<or> is_obj l)
         ''guard operand location must be a source location or null''))))"

definition validate_guard_result :: "json \<Rightarrow> unit res" where
  "validate_guard_result result =
     (let comparison = jget_or_null ''comparison'' result;
          destination = jget_or_null ''destination'' result;
          bytes = jget_or_null ''object_bytes'' destination
      in rbind (if comparison = JNull then Inr ()
           else rbind (require (is_obj comparison \<and>
                    jkeys comparison = {|''operator'', ''bound_display'', ''operands''|})
                    ''guard comparison must name operator, bound_display and operands'') (\<lambda>_.
                case jget_or_null ''operands'' comparison of
                  JArr operands \<Rightarrow>
                    rbind (require (map (\<lambda>i. jget_or_null ''role'' i) operands =
                        [JStr ''lhs'', JStr ''rhs''])
                      ''guard comparison operands must be exactly lhs then rhs'') (\<lambda>_.
                    rbind (rmap validate_operand operands) (\<lambda>_. Inr ()))
                | _ \<Rightarrow> require False ''guard comparison operands must be exactly lhs then rhs'')) (\<lambda>_.
         rbind (require (is_obj destination \<and> jkeys destination = {|''object_bytes''|})
                  ''guard destination must name object_bytes'') (\<lambda>_.
           require (bytes = JNull \<or> (case bytes of JInt n \<Rightarrow> n > 0 | _ \<Rightarrow> False))
             ''guard destination object_bytes must be a positive integer or null'')))"

definition PAYLOAD_KEYS :: "string fset" where
  "PAYLOAD_KEYS = {|''schema'', ''family'', ''producer'', ''scope'', ''exact'', ''coverage_status'', ''gaps'',
     ''cross_check'', ''admissibility'', ''result'', ''upstream'', ''authority''|}"

definition PRODUCER_KEYS :: "string fset" where
  "PRODUCER_KEYS = {|''name'', ''tool_version'', ''export_pack_sha256'', ''catalog_version'', ''rule_version''|}"

definition SCOPE_KEYS :: "string fset" where
  "SCOPE_KEYS = {|''scope_id'', ''language'', ''build_unit_id'', ''component_id''|}"

definition upstream_ok :: "json \<Rightarrow> bool" where
  "upstream_ok v = (case v of
     JArr items \<Rightarrow> list_all (\<lambda>i. is_obj i \<and> jkeys i = {|''index'', ''shard_id'', ''sha256''|} \<and>
        (case jget_or_null ''sha256'' i of JStr s \<Rightarrow> is_sha256 s | _ \<Rightarrow> False)) items
   | _ \<Rightarrow> False)"

definition gaps_ok :: "json \<Rightarrow> bool" where
  "gaps_ok v = (case v of JArr gs \<Rightarrow> list_all (\<lambda>g. is_str g \<and> truthy g) gs | _ \<Rightarrow> False)"

definition validate_payload :: "json \<Rightarrow> unit res" where
  "validate_payload p =
     rbind (require (jkeys p = PAYLOAD_KEYS) ''graph fact payload keys are not exact'') (\<lambda>_.
     rbind (require (jget_or_null ''schema'' p = JStr GRAPH_FACT_SCHEMA \<and>
                jget_or_null ''authority'' p = JStr AUTHORITY)
              ''graph fact schema or authority is invalid'') (\<lambda>_.
     rbind (enum_json family_members family_value (jget_or_null ''family'' p)) (\<lambda>family.
     let prod = jget_or_null ''producer'' p; scope = jget_or_null ''scope'' p;
         cc = jget_or_null ''cross_check'' p
     in
     rbind (require (is_obj prod \<and> jkeys prod = PRODUCER_KEYS) ''graph fact producer is invalid'') (\<lambda>_.
     rbind (enum_json producer_members producer_value (jget_or_null ''name'' prod)) (\<lambda>name.
     rbind (require (is_obj scope \<and> jkeys scope = SCOPE_KEYS \<and> truthy (jget_or_null ''scope_id'' scope))
              ''graph fact scope is invalid'') (\<lambda>_.
     rbind (require (is_bool (jget_or_null ''exact'' p)) ''graph fact exact must be a boolean'') (\<lambda>_.
     rbind (enum_json coverage_members coverage_value (jget_or_null ''coverage_status'' p)) (\<lambda>cov.
     rbind (require (gaps_ok (jget_or_null ''gaps'' p)) ''graph fact gaps must be strings'') (\<lambda>_.
     rbind (require (cov = COV_COMPLETE \<or> truthy (jget_or_null ''gaps'' p))
              ''an incomplete graph fact must name its gaps'') (\<lambda>_.
     rbind (require (is_obj cc \<and> jkeys cc = {|''rule'', ''state'', ''producers''|} \<and>
                jget_or_null ''rule'' cc = JStr CROSS_CHECK_RULE)
              ''graph fact cross_check is invalid'') (\<lambda>_.
     rbind (enum_json cross_check_state_members cross_check_state_value (jget_or_null ''state'' cc)) (\<lambda>_.
     rbind (require (is_obj (jget_or_null ''result'' p)) ''graph fact result must be an object'') (\<lambda>_.
     rbind (if family = F_GUARD_FACT \<and> name = PROD_CODEQL_EXPORT
            then validate_guard_result (jget_or_null ''result'' p) else Inr ()) (\<lambda>_.
     rbind (require (upstream_ok (jget_or_null ''upstream'' p))
              ''graph fact upstream entries are invalid'') (\<lambda>_.
       require (jget_or_null ''admissibility'' p = fact_admissibility p)
         ''published admissibility differs from graph-fact-admissibility/1'')))))))))))))))"

section \<open>Destination bounds\<close>

datatype bound_reason =
    GuardMissing
  | NotDominating json
  | NotConstraining json
  | DestinationUnknown
  | NotAComparison
  | BadOperator json
  | OperandsMissing
  | BadPolarity json
  | BothConstant
  | NoConstant
  | NotUpper string int
  | ExceedsDestination string int int
  | WithinDestination string int int
  | RangeMissing
  | NoInterval
  | SignChange
  | NoUpper
  | RangeExceeds int int
  | RangeWithin int int
  | NotABoundFamily string

record guard_bound =
  bounds :: bool
  bound_reason :: bound_reason

abbreviation no_bound :: "bound_reason \<Rightarrow> guard_bound" where
  "no_bound r \<equiv> \<lparr>bounds = False, bound_reason = r\<rparr>"

definition FLIP :: "(string, string) dict" where
  "FLIP = [(''<'', ''>''), (''<='', ''>=''), (''>'', ''<''), (''>='', ''<=''), (''=='', ''==''), (''!='', ''!='')]"

definition NEGATE :: "(string, string) dict" where
  "NEGATE = [(''<'', ''>=''), (''<='', ''>''), (''>'', ''<=''), (''>='', ''<''), (''=='', ''!=''), (''!='', ''=='')]"

definition UPPER :: "string list" where
  "UPPER = [''<'', ''<='', ''=='']"

definition operand_constant :: "json \<Rightarrow> int option" where
  "operand_constant operand =
     (if is_obj operand \<and> jget_or_null ''kind'' operand \<in> {JStr ''constant'', JStr ''sizeof''}
      then (case jget_or_null ''value'' operand of JInt v \<Rightarrow> Some v | _ \<Rightarrow> None) else None)"

definition destination_bytes :: "json \<Rightarrow> int option" where
  "destination_bytes result =
     (case jget_or_null ''object_bytes'' (jget_or_null ''destination'' result) of
        JInt v \<Rightarrow> if v > 0 then Some v else None
      | _ \<Rightarrow> None)"

definition sink_destination_bytes :: "json list \<Rightarrow> int option" where
  "sink_destination_bytes results =
     (case remdups (List.map_filter destination_bytes results) of [s] \<Rightarrow> Some s | _ \<Rightarrow> None)"

text \<open>\<open>{item.get("role"): item for item in operands if isinstance(item, Mapping)}\<close>.\<close>

definition by_role :: "json \<Rightarrow> (json, json) dict" where
  "by_role operands =
     (case operands of
        JArr items \<Rightarrow> fold (\<lambda>i d. AList.update (jget_or_null ''role'' i) i d) (filter is_obj items) []
      | _ \<Rightarrow> [])"

text \<open>The oriented relation \<open>n REL K\<close> of the comparison on the sink's branch.\<close>

definition oriented :: "string \<Rightarrow> bool \<Rightarrow> bool \<Rightarrow> string" where
  "oriented operator constant_is_rhs on_false_branch =
     (let rel = (if constant_is_rhs then operator else the (map_of FLIP operator))
      in if on_false_branch then the (map_of NEGATE rel) else rel)"

definition guard_bounds_destination :: "json \<Rightarrow> guard_bound" where
  "guard_bounds_destination result =
     (if \<not> is_obj result then no_bound GuardMissing
      else let state = jget_or_null ''guard_state'' result;
               constrains = jget_or_null ''constrains_sink_operand'' result;
               comparison = jget_or_null ''comparison'' result;
               polarity = jget_or_null ''polarity'' result
      in if state \<noteq> JStr ''dominating'' then no_bound (NotDominating state)
      else if constrains \<noteq> JBool True then no_bound (NotConstraining constrains)
      else (case destination_bytes result of None \<Rightarrow> no_bound DestinationUnknown
      | Some capacity \<Rightarrow>
        if \<not> is_obj comparison then no_bound NotAComparison
        else (case jget_or_null ''operator'' comparison of
          JStr operator \<Rightarrow>
            if operator \<notin> fst ` set FLIP then no_bound (BadOperator (JStr operator))
            else let roles = by_role (jget_or_null ''operands'' comparison)
            in if fst ` set roles \<noteq> {JStr ''lhs'', JStr ''rhs''} then no_bound OperandsMissing
            else if polarity \<notin> {JStr ''true_branch'', JStr ''false_branch''} then no_bound (BadPolarity polarity)
            else let lhs = operand_constant (the (map_of roles (JStr ''lhs'')));
                     rhs = operand_constant (the (map_of roles (JStr ''rhs'')))
            in (case (lhs, rhs) of
                 (Some _, Some _) \<Rightarrow> no_bound BothConstant
               | (None, None) \<Rightarrow> no_bound NoConstant
               | _ \<Rightarrow>
                 let limit = (case rhs of Some k \<Rightarrow> k | None \<Rightarrow> the lhs);
                     rel = oriented operator (rhs \<noteq> None) (polarity = JStr ''false_branch'')
                 in if rel \<notin> set UPPER then no_bound (NotUpper rel limit)
                 else if limit > (if rel = ''<'' then capacity + 1 else capacity)
                      then no_bound (ExceedsDestination rel limit capacity)
                 else \<lparr>bounds = True, bound_reason = WithinDestination rel limit capacity\<rparr>)
        | v \<Rightarrow> no_bound (BadOperator v))))"

definition range_bounds_destination :: "json \<Rightarrow> int option \<Rightarrow> guard_bound" where
  "range_bounds_destination result destination =
     (if \<not> is_obj result then no_bound RangeMissing
      else let interval = jget_or_null ''interval'' result
      in if \<not> is_obj interval then no_bound NoInterval
      else if truthy (jget_or_null ''sign_change'' result) then no_bound SignChange
      else (case jget_or_null ''upper'' interval of
        JInt upper \<Rightarrow>
          (case destination of
             None \<Rightarrow> no_bound DestinationUnknown
           | Some d \<Rightarrow>
               if d \<le> 0 then no_bound DestinationUnknown
               else if upper > d then no_bound (RangeExceeds upper d)
               else \<lparr>bounds = True, bound_reason = RangeWithin upper d\<rparr>)
      | _ \<Rightarrow> no_bound NoUpper))"

definition fact_bounds_destination :: "string \<Rightarrow> json \<Rightarrow> int option \<Rightarrow> guard_bound" where
  "fact_bounds_destination family result sink_destination =
     (if family = ''guard_fact'' then guard_bounds_destination result
      else if family = ''range_fact'' then range_bounds_destination result sink_destination
      else no_bound (NotABoundFamily family))"

section \<open>Soundness of the bound\<close>

text \<open>What the recorded comparison says of the values it compares, as the program evaluates it.\<close>

definition cmp_holds :: "string \<Rightarrow> int \<Rightarrow> int \<Rightarrow> bool" where
  "cmp_holds operator a b =
     (if operator = ''<'' then a < b else if operator = ''<='' then a \<le> b
      else if operator = ''>'' then a > b else if operator = ''>='' then a \<ge> b
      else if operator = ''=='' then a = b else a \<noteq> b)"

text \<open>
  \<open>sink_runs_with result n\<close>: the guard is a recorded comparison of the operand value \<open>n\<close> with the
  compile-time constant, and its outcome is the one on whose branch the sink runs.
\<close>

definition sink_runs_with :: "json \<Rightarrow> int \<Rightarrow> bool" where
  "sink_runs_with result n =
     (\<exists>operator roles. jget_or_null ''operator'' (jget_or_null ''comparison'' result) = JStr operator \<and>
        roles = by_role (jget_or_null ''operands'' (jget_or_null ''comparison'' result)) \<and>
        (let lhs = operand_constant (the (map_of roles (JStr ''lhs'')));
             rhs = operand_constant (the (map_of roles (JStr ''rhs'')))
         in cmp_holds operator (case lhs of None \<Rightarrow> n | Some k \<Rightarrow> k) (case rhs of None \<Rightarrow> n | Some k \<Rightarrow> k)
            = (jget_or_null ''polarity'' result = JStr ''true_branch'')))"

lemma FLIP_cases:
  assumes "operator \<in> fst ` set FLIP"
  obtains "operator = ''<''" | "operator = ''<=''" | "operator = ''>''" | "operator = ''>=''"
    | "operator = ''==''" | "operator = ''!=''"
  using assms by (auto simp: FLIP_def)

lemma cmp_holds_simps:
  "cmp_holds ''<'' a b = (a < b)" "cmp_holds ''<='' a b = (a \<le> b)" "cmp_holds ''>'' a b = (a > b)"
  "cmp_holds ''>='' a b = (a \<ge> b)" "cmp_holds ''=='' a b = (a = b)" "cmp_holds ''!='' a b = (a \<noteq> b)"
  by (simp_all add: cmp_holds_def)

lemmas oriented_simps = oriented_def FLIP_def NEGATE_def cmp_holds_simps

lemma oriented_sound:
  assumes "operator \<in> fst ` set FLIP"
  shows "cmp_holds (oriented operator True neg) n k \<longleftrightarrow> cmp_holds operator n k \<noteq> neg"
    and "cmp_holds (oriented operator False neg) n k \<longleftrightarrow> cmp_holds operator k n \<noteq> neg"
  by (rule FLIP_cases [OF assms]; cases neg; simp add: oriented_simps; arith)+

lemma upper_bound_sound:
  assumes "cmp_holds rel n k" and "rel \<in> set UPPER" and "\<not> k > (if rel = ''<'' then cap + 1 else cap)"
  shows "n \<le> cap"
  using assms by (auto simp: UPPER_def cmp_holds_def split: if_splits)

text \<open>When the rule answers that the guard bounds, it has found exactly one constant operand.\<close>

lemma guard_bounds_elim:
  assumes "bounds (guard_bounds_destination result)"
  obtains operator roles limit capacity rhs_const where
    "destination_bytes result = Some capacity"
    "jget_or_null ''operator'' (jget_or_null ''comparison'' result) = JStr operator"
    "operator \<in> fst ` set FLIP"
    "roles = by_role (jget_or_null ''operands'' (jget_or_null ''comparison'' result))"
    "if rhs_const
     then operand_constant (the (map_of roles (JStr ''lhs''))) = None \<and>
          operand_constant (the (map_of roles (JStr ''rhs''))) = Some limit
     else operand_constant (the (map_of roles (JStr ''lhs''))) = Some limit \<and>
          operand_constant (the (map_of roles (JStr ''rhs''))) = None"
    "jget_or_null ''polarity'' result \<in> {JStr ''true_branch'', JStr ''false_branch''}"
    "oriented operator rhs_const (jget_or_null ''polarity'' result = JStr ''false_branch'') \<in> set UPPER"
    "\<not> limit > (if oriented operator rhs_const (jget_or_null ''polarity'' result = JStr ''false_branch'') = ''<''
       then capacity + 1 else capacity)"
proof -
  let ?c = "jget_or_null ''comparison'' result"
  let ?roles = "by_role (jget_or_null ''operands'' ?c)"
  let ?lhs = "operand_constant (the (map_of ?roles (JStr ''lhs'')))"
  let ?rhs = "operand_constant (the (map_of ?roles (JStr ''rhs'')))"
  note b = assms [unfolded guard_bounds_destination_def Let_def]
  from b obtain capacity where cap: "destination_bytes result = Some capacity"
    by (cases "destination_bytes result") (simp_all split: if_splits)
  from b cap obtain operator where op: "jget_or_null ''operator'' ?c = JStr operator"
    by (cases "jget_or_null ''operator'' ?c") (simp_all split: if_splits)
  from b cap op show thesis
    by (cases ?lhs; cases ?rhs; simp split: if_splits)
      (use that [OF cap op _ refl, of True] that [OF cap op _ refl, of False] in auto)
qed

lemma guard_bounds_dominates:
  assumes "bounds (guard_bounds_destination result)"
  shows "jget_or_null ''guard_state'' result = JStr ''dominating''" "jget_or_null ''constrains_sink_operand'' result = JBool True"
  using assms by (auto simp: guard_bounds_destination_def Let_def split: if_split_asm)

lemma guard_bounds_sound:
  assumes "bounds (guard_bounds_destination result)" and runs: "sink_runs_with result n"
  shows "\<exists>cap. destination_bytes result = Some cap \<and> n \<le> cap"
proof -
  from assms(1) show ?thesis
  proof (rule guard_bounds_elim)
    fix operator roles limit capacity rhs_const
    let ?neg = "jget_or_null ''polarity'' result = JStr ''false_branch''"
    assume *: "destination_bytes result = Some capacity"
      "jget_or_null ''operator'' (jget_or_null ''comparison'' result) = JStr operator"
      "operator \<in> fst ` set FLIP"
      "roles = by_role (jget_or_null ''operands'' (jget_or_null ''comparison'' result))"
      "if rhs_const
       then operand_constant (the (map_of roles (JStr ''lhs''))) = None \<and>
            operand_constant (the (map_of roles (JStr ''rhs''))) = Some limit
       else operand_constant (the (map_of roles (JStr ''lhs''))) = Some limit \<and>
            operand_constant (the (map_of roles (JStr ''rhs''))) = None"
      "jget_or_null ''polarity'' result \<in> {JStr ''true_branch'', JStr ''false_branch''}"
    assume upper: "oriented operator rhs_const ?neg \<in> set UPPER"
      "\<not> limit > (if oriented operator rhs_const ?neg = ''<'' then capacity + 1 else capacity)"
    have "cmp_holds (oriented operator rhs_const ?neg) n limit"
      using runs * oriented_sound [OF *(3)]
      by (cases rhs_const) (auto simp: sink_runs_with_def Let_def)
    then have "n \<le> capacity" using upper by (rule upper_bound_sound)
    with *(1) show ?thesis by simp
  qed
qed
lemma range_bounds_sound:
  assumes "bounds (range_bounds_destination result dest)"
  shows "\<exists>upper d. jget_or_null ''upper'' (jget_or_null ''interval'' result) = JInt upper \<and>
           dest = Some d \<and> 0 < d \<and> upper \<le> d"
  using assms
  by (cases "jget_or_null ''upper'' (jget_or_null ''interval'' result)"; cases dest)
    (simp_all add: range_bounds_destination_def Let_def not_less not_le split: if_splits)

section \<open>Facts about eligibility\<close>

lemma GRAPH_FACT_PREDICATES_not_impact: "P_SECURITY_IMPACT \<notin> GRAPH_FACT_PREDICATES f"
  by (cases f) simp_all

lemma mapped_predicates_subset: "mapped_predicates f result \<subseteq> GRAPH_FACT_PREDICATES f"
  by (auto simp: mapped_predicates_def Let_def)

lemma eligible_iff_no_reasons:
  "jget_or_null ''direct_eligible'' (fact_admissibility p) = JBool True \<longleftrightarrow> ineligibility_reasons p = []"
  by (simp add: fact_admissibility_def Let_def)

text \<open>A published payload that passes validation carries the admissibility the rule computes.\<close>

lemma validate_payload_admissibility:
  "validate_payload p = Inr () \<Longrightarrow> jget_or_null ''admissibility'' p = fact_admissibility p"
  by (auto simp: validate_payload_def Let_def rbind_Inr_iff require_def)

lemma sink_destination_bytes_agree:
  assumes "sink_destination_bytes results = Some s" and "r \<in> set results" and "destination_bytes r = Some t"
  shows "t = s"
proof -
  from assms(1) have "remdups (List.map_filter destination_bytes results) = [s]"
    by (auto simp: sink_destination_bytes_def split: list.splits)
  then have "set (List.map_filter destination_bytes results) = {s}"
    by (metis list.set(1) list.simps(15) set_remdups)
  moreover have "t \<in> set (List.map_filter destination_bytes results)"
    using assms(2,3) by (force simp: List.map_filter_def)
  ultimately show ?thesis by simp
qed

end
