(* ===== verification/Evidence.thy ===== *)
theory Evidence
  imports Obligations Graph_Facts
begin

text \<open>
  Evidence admissibility: the predicate-admission table (\<open>review/admission.py\<close>), the
  classification of a cited entity, and the re-resolution of a model citation into an evidence
  relation or a gap (\<open>review/evidence.py\<close>). The retrieval core is a record of its query
  functions: what a query returns is the environment's, what is made of it is modelled.
\<close>

section \<open>Predicate admission\<close>

definition COLUMNS :: "predicate list" where
  "COLUMNS = [P_AFFECTED_CONSTRUCT, P_ATTACKER_INPUT_CONTROL, P_SOURCE_TO_SINK_REACHABILITY,
     P_MISSING_OR_INEFFECTIVE_GUARD, P_CONFIGURATION_ENABLES, P_SECURITY_IMPACT]"

definition ADMISSION_ROWS :: "(entity_kind, admissibility list) dict" where
  "ADMISSION_ROWS =
     [(EK_SOURCE_SPAN, [DIRECT, ANALYST_ASSESSED, ANALYST_ASSESSED, ANALYST_ASSESSED, ANALYST_ASSESSED, ANALYST_ASSESSED]),
      (EK_AST_NODE, [DIRECT, ANALYST_ASSESSED, ANALYST_ASSESSED, ANALYST_ASSESSED, ANALYST_ASSESSED, ANALYST_ASSESSED]),
      (EK_SYMBOL, [DIRECT, ANALYST_ASSESSED, ANALYST_ASSESSED, ANALYST_ASSESSED, INDIRECT, ANALYST_ASSESSED]),
      (EK_IR_ENTITY, [DIRECT, ANALYST_ASSESSED, ANALYST_ASSESSED, ANALYST_ASSESSED, INDIRECT, INDIRECT]),
      (EK_BUILD_ACTION, [DIRECT, INDIRECT, INDIRECT, INDIRECT, DIRECT, INDIRECT]),
      (EK_COMPILE_UNIT, [DIRECT, INDIRECT, INDIRECT, INDIRECT, DIRECT, INDIRECT]),
      (EK_OBJECT_FILE, [DIRECT, INDIRECT, INDIRECT, INDIRECT, INDIRECT, INDIRECT]),
      (EK_LIBRARY, [DIRECT, INDIRECT, INDIRECT, INDIRECT, INDIRECT, INDIRECT]),
      (EK_EXECUTABLE, [DIRECT, INDIRECT, INDIRECT, INDIRECT, ANALYST_ASSESSED, INDIRECT]),
      (EK_BUILD_ARTIFACT, [DIRECT, INDIRECT, INDIRECT, INDIRECT, ANALYST_ASSESSED, INDIRECT]),
      (EK_PACKAGE, [DIRECT, INDIRECT, INDIRECT, INDIRECT, INDIRECT, INDIRECT]),
      (EK_ARCHIVE_MEMBER, [DIRECT, INDIRECT, INDIRECT, INDIRECT, INDIRECT, INDIRECT]),
      (EK_BYTECODE_MODULE, [DIRECT, INDIRECT, INDIRECT, INDIRECT, INDIRECT, INDIRECT]),
      (EK_MANAGED_ASSEMBLY, [DIRECT, INDIRECT, INDIRECT, INDIRECT, INDIRECT, INDIRECT]),
      (EK_WASM_MODULE, [DIRECT, INDIRECT, INDIRECT, INDIRECT, INDIRECT, INDIRECT]),
      (EK_EVIDENCE_ARTIFACT, [DIRECT, ANALYST_ASSESSED, ANALYST_ASSESSED, ANALYST_ASSESSED, ANALYST_ASSESSED, ANALYST_ASSESSED]),
      (EK_BINARY_FUNCTION, [DIRECT, ANALYST_ASSESSED, ANALYST_ASSESSED, ANALYST_ASSESSED, INDIRECT, INDIRECT]),
      (EK_BINARY_CALL_SITE, [DIRECT, ANALYST_ASSESSED, ANALYST_ASSESSED, ANALYST_ASSESSED, INDIRECT, INDIRECT])]"

definition admission :: "entity_kind \<Rightarrow> predicate \<Rightarrow> admissibility" where
  "admission kind p =
     (case map_of ADMISSION_ROWS kind of
        None \<Rightarrow> INDIRECT
      | Some row \<Rightarrow> the (map_of (zip COLUMNS row) p))"

section \<open>Kinds\<close>

definition EVIDENCE_RELATION_KINDS :: "relation_kind set" where
  "EVIDENCE_RELATION_KINDS = {SUPPORTS, CONTRADICTS, QUALIFIES}"

definition SATISFYING_ADMISSIBILITY :: "admissibility set" where
  "SATISFYING_ADMISSIBILITY = {DIRECT, DIRECT_FOR_MAPPED_PREDICATE}"

definition DIRECT_KINDS :: "entity_kind set" where
  "DIRECT_KINDS =
     {EK_SOURCE_SPAN, EK_AST_NODE, EK_IR_ENTITY, EK_SYMBOL, EK_BUILD_ACTION, EK_COMPILE_UNIT,
      EK_OBJECT_FILE, EK_LIBRARY, EK_EXECUTABLE, EK_BUILD_ARTIFACT, EK_PACKAGE, EK_ARCHIVE_MEMBER,
      EK_BYTECODE_MODULE, EK_MANAGED_ASSEMBLY, EK_WASM_MODULE, EK_EVIDENCE_ARTIFACT,
      EK_BINARY_FUNCTION, EK_BINARY_CALL_SITE}"

definition MAPPED_KINDS :: "entity_kind set" where
  "MAPPED_KINDS = {EK_TOOL_OBSERVATION}"

definition REFERENCE_KINDS :: "entity_kind set" where
  "REFERENCE_KINDS = {EK_ADVISORY, EK_DEPENDENCY_PACKAGE, EK_PRECOMPUTED_FACT}"

definition INDIRECT_KINDS :: "entity_kind set" where
  "INDIRECT_KINDS =
     {EK_HOTSPOT, EK_PRIORITY_ITEM, EK_HISTORY_SIGNAL, EK_CHANGE, EK_CHANGE_CONTEXT_SIGNAL,
      EK_REVIEW_SIGNAL, EK_TAG_ASSIGNMENT, EK_REVIEW_UNIT} \<union> REFERENCE_KINDS"

definition GRAPH_KINDS :: "entity_kind set" where
  "GRAPH_KINDS = FAMILY_KINDS ` set family_members"

definition EVIDENCE_BEARING :: "entity_kind set" where
  "EVIDENCE_BEARING = {EK_TOOL_OBSERVATION, EK_EVIDENCE_ARTIFACT, EK_FINDING_PACKAGE}"

definition BINARY_KINDS :: "entity_kind set" where
  "BINARY_KINDS = {EK_BINARY_FUNCTION, EK_BINARY_CALL_SITE, EK_BINARY_IMPORT, EK_BINARY_STRING}"

definition GUARD_KINDS :: "entity_kind set" where
  "GUARD_KINDS = {EK_GUARD_FACT, EK_RANGE_FACT}"

definition GUARD_CONTRADICTION_ROLES :: "string list" where
  "GUARD_CONTRADICTION_ROLES = [''blue_team_refuter'', ''independent_verifier'', ''judge'']"

definition MAX_RELATION_REASON :: nat where
  "MAX_RELATION_REASON = 200"

definition BINARY_CITATION_GAP :: string where
  "BINARY_CITATION_GAP =
     ''binary-derived evidence must cite binary hash, function address and pseudo-C line''"

section \<open>Classification\<close>

definition family_of_kind :: "entity_kind \<Rightarrow> family option" where
  "family_of_kind k = List.find (\<lambda>f. FAMILY_KINDS f = k) family_members"

text \<open>
  The reasons recorded in a fact's admissibility block are a list or absent; a truthy value of another
  type, on which \<open>list\<close> raises, is denied here as a recorded reason is.
\<close>

definition graph_fact_predicates :: "entity_kind \<Rightarrow> json option \<Rightarrow> predicate set" where
  "graph_fact_predicates kind fact_payload =
     (case (family_of_kind kind, fact_payload) of
        (Some family, Some payload) \<Rightarrow>
          let block = jget_or_null ''admissibility'' payload;
              result = jget_or_null ''result'' payload
          in if \<not> is_obj payload then {}
             else if jget_or_null ''schema'' payload \<noteq> JStr GRAPH_FACT_SCHEMA \<or>
                     jget_or_null ''family'' payload \<noteq> JStr (entity_kind_value kind) then {}
             else if \<not> is_obj block \<or> jget_or_null ''rule'' block \<noteq> JStr ADMISSIBILITY_RULE then {}
             else if jget_or_null ''direct_eligible'' block \<noteq> JBool True \<or>
                     truthy (jget_or_null ''ineligibility_reasons'' block) then {}
             else if ineligibility_reasons payload \<noteq> [] then {}
             else mapped_predicates family (obj_or_empty result)
      | _ \<Rightarrow> {})"

definition classify :: "entity_kind \<Rightarrow> predicate \<Rightarrow> predicate set \<Rightarrow> json option \<Rightarrow> admissibility" where
  "classify kind p tool_rule_mapping fact_payload =
     (if kind \<in> REFERENCE_KINDS then INDIRECT
      else if kind \<in> DIRECT_KINDS then admission kind p
      else if kind \<in> MAPPED_KINDS then
        (if p \<in> tool_rule_mapping then DIRECT_FOR_MAPPED_PREDICATE else INDIRECT)
      else if kind \<in> GRAPH_KINDS then
        (if p \<in> graph_fact_predicates kind fact_payload then DIRECT_FOR_MAPPED_PREDICATE else INDIRECT)
      else INDIRECT)"

definition satisfies :: "evidence_relation \<Rightarrow> bool" where
  "satisfies r = (er_complete r \<and> er_admissibility r \<in> SATISFYING_ADMISSIBILITY)"

section \<open>The retrieval core\<close>

record response =
  results :: "json list"
  truncated :: bool
  coverage_gaps :: "json list"

text \<open>
  A query may raise: \<open>IntegrityError\<close> stands for \<open>RetrievalIntegrityError\<close>, \<open>ValueError\<close> and
  \<open>KeyError\<close> for the unavailability exceptions (\<open>RetrievalGap\<close>, \<open>LookupError\<close>, \<open>ValueError\<close>).
\<close>

record core =
  core_find :: "string \<Rightarrow> response res"
  core_read_excerpt :: "string \<Rightarrow> response res"
  core_resolve_evidence :: "string \<Rightarrow> response res"
  core_trace :: "string \<Rightarrow> string list \<Rightarrow> int \<Rightarrow> int \<Rightarrow> response res"
  core_max_results :: int
  core_manifest_sha256 :: string

fun unavailable :: "py_error \<Rightarrow> bool" where
  "unavailable (ValueError _) = True"
| "unavailable KeyError = True"
| "unavailable _ = False"

text \<open>The guard fact behind one \<open>GUARDS\<close> row, when it names this sink and resolves to a guard fact.\<close>

definition guard_row_result :: "core \<Rightarrow> string \<Rightarrow> json \<Rightarrow> json option res" where
  "guard_row_result core sink row =
     (if jget_or_null ''target_id'' row \<noteq> JStr sink \<or> jget_or_null ''source_id'' row = JNull then Inr None
      else rbind (rbind (jget ''source_id'' row) jstr) (\<lambda>source.
        rbind (core_find core source) (\<lambda>found.
          Inr (case results found of
                 [] \<Rightarrow> None
               | e # _ \<Rightarrow>
                   (let payload = (if jget_or_null ''kind'' e = JStr (entity_kind_value EK_GUARD_FACT)
                                   then jget_or_null ''payload'' e else JNull);
                        result = jget_or_null ''result'' payload
                    in if is_obj payload \<and> is_obj result then Some result else None)))))"

definition sink_destination :: "core \<Rightarrow> json \<Rightarrow> int option res" where
  "sink_destination core sink =
     (case sink of
        JStr s \<Rightarrow>
          if s = [] then Inr None
          else (case rbind (core_trace core s [''GUARDS''] 1 (min 100 (core_max_results core)))
                       (\<lambda>related. rmap (guard_row_result core s) (results related)) of
                  Inr rs \<Rightarrow> Inr (sink_destination_bytes (List.map_filter id rs))
                | Inl e \<Rightarrow> if unavailable e then Inr None else Inl e)
      | _ \<Rightarrow> Inr None)"

text \<open>
  \<open>show_reason\<close> renders the diagnostic text of a bound decision; no decision reads it back.
\<close>

definition guard_relation_kind ::
  "(bound_reason \<Rightarrow> string) \<Rightarrow> core \<Rightarrow> entity_kind \<Rightarrow> json option \<Rightarrow> string option \<Rightarrow>
   (relation_kind \<times> string option) res" where
  "guard_relation_kind show_reason core kind payload role =
     (let result = (case payload of None \<Rightarrow> JNull | Some p \<Rightarrow> jget_or_null ''result'' p);
          sink = jget_or_null ''sink_site'' (jget_or_null ''sink'' result)
      in rbind (if kind = EK_RANGE_FACT then sink_destination core sink else Inr None) (\<lambda>destination.
           let bound = fact_bounds_destination (entity_kind_value kind) result destination
           in if \<not> bounds bound
              then Inr (QUALIFIES, Some (take MAX_RELATION_REASON
                     (''guard_not_shown_to_bound_destination:'' @ show_reason (bound_reason bound))))
              else if (case role of None \<Rightarrow> True | Some r \<Rightarrow> r \<notin> set GUARD_CONTRADICTION_ROLES)
              then Inr (QUALIFIES, Some (take MAX_RELATION_REASON
                     (''contradiction_role_not_permitted:'' @
                      (case role of None \<Rightarrow> ''None'' | Some r \<Rightarrow> r))))
              else Inr (CONTRADICTS, None)))"

section \<open>Re-resolving a citation\<close>

definition content_record :: "json \<Rightarrow> string option \<Rightarrow> json" where
  "content_record entity excerpt =
     jobj (map (\<lambda>k. (k, jget_or_null k entity))
             [''identity'', ''kind'', ''native_id'', ''name'', ''payload'', ''location''] @
           (case excerpt of None \<Rightarrow> [] | Some x \<Rightarrow> [(''excerpt'', JStr x)]))"

text \<open>A member inside an f-string; locations hold strings and integers.\<close>

definition fget :: "string \<Rightarrow> json \<Rightarrow> string res" where
  "fget k v = rbind (jget k v) (\<lambda>x. case x of JStr s \<Rightarrow> Inr s | JInt i \<Rightarrow> Inr (int_str i) | _ \<Rightarrow> Inl TypeError)"

definition locator :: "json \<Rightarrow> string res" where
  "locator entity =
     (let location = jget_or_null ''location'' entity
      in if truthy location
         then rbind (fget ''path'' location) (\<lambda>p. rbind (fget ''start_line'' location) (\<lambda>sl.
              rbind (fget ''end_line'' location) (\<lambda>el. rbind (fget ''start_byte'' location) (\<lambda>sb.
              rbind (fget ''end_byte'' location) (\<lambda>eb. rbind (fget ''file_sha256'' location) (\<lambda>sha.
                Inr (p @ '':'' @ sl @ ''-'' @ el @ ''#b'' @ sb @ ''-'' @ eb @ ''@'' @ sha)))))))
         else rbind (fget ''index'' entity) (\<lambda>i. rbind (fget ''shard_id'' entity) (\<lambda>sh.
              rbind (fget ''identity'' entity) (\<lambda>ident. Inr (i @ ''/'' @ sh @ '':'' @ ident)))))"

text \<open>\<open>@binary/<sha256>/0x<1 to 16 hex digits>.c\<close>.\<close>

definition parse_binary_source_path :: "string \<Rightarrow> (string \<times> string) option" where
  "parse_binary_source_path path =
     (let rest = drop 8 path; sha = take 64 rest; tail = drop 64 rest;
          addr = take (length tail - 3) (drop 1 tail)
      in if starts_with ''@binary/'' path \<and> is_sha256 sha \<and> starts_with ''/'' tail \<and>
            starts_with ''0x'' addr \<and> list_all is_lower_hex (drop 2 addr) \<and>
            1 \<le> length (drop 2 addr) \<and> length (drop 2 addr) \<le> 16 \<and>
            drop (length tail - 2) tail = ''.c'' \<and> 3 \<le> length tail
         then Some (sha, addr) else None)"

definition binary_anchor :: "json \<Rightarrow> (string \<times> string \<times> int \<times> int) option res" where
  "binary_anchor entity =
     (let location = jget_or_null ''location'' entity; payload = jget_or_null ''payload'' entity
      in if \<not> is_obj location \<or> \<not> is_obj payload then Inr None
         else (case (case jget_default ''path'' (JStr []) location of
                       JStr p \<Rightarrow> parse_binary_source_path p | _ \<Rightarrow> None) of
                 None \<Rightarrow> Inr None
               | Some (sha, addr) \<Rightarrow>
                   if JStr sha \<noteq> jget_or_null ''binary_sha256'' payload \<or>
                      JStr addr \<noteq> jget_or_null ''function_address'' payload then Inr None
                   else rbind (rbind (jget ''start_line'' location) jint) (\<lambda>a.
                        rbind (rbind (jget ''end_line'' location) jint) (\<lambda>b.
                          Inr (Some (sha, addr, a, b))))))"

record citation =
  ct_claim_id :: string
  ct_predicate :: predicate
  ct_kind :: relation_kind
  ct_entity_id :: string
  ct_producing_cell_id :: string
  ct_receipt :: "string option"
  ct_rule_predicates :: "predicate set"
  ct_round :: int
  ct_role :: "string option"

definition evidence_gap :: "hash \<Rightarrow> citation \<Rightarrow> string \<Rightarrow> gap" where
  "evidence_gap H ct reason =
     make_gap H GC_EVIDENCE_GAP (ct_claim_id ct) reason (Some (ct_predicate ct)) (ct_round ct)"

definition relation_body ::
  "citation \<Rightarrow> core \<Rightarrow> relation_kind \<Rightarrow> logical_identity \<Rightarrow> admissibility \<Rightarrow> string \<Rightarrow> string \<Rightarrow> string \<Rightarrow> bool \<Rightarrow>
   string option \<Rightarrow> json" where
  "relation_body ct core kind parsed adm shard sha loc cmpl reason =
     jobj ([(''claim_id'', JStr (ct_claim_id ct)), (''predicate'', JStr (predicate_value (ct_predicate ct))),
            (''kind'', JStr (relation_kind_value kind)), (''entity_id'', JStr (li_value parsed)),
            (''entity_kind'', JStr (entity_kind_value (li_kind parsed))),
            (''admissibility'', JStr (admissibility_value adm)), (''shard_id'', JStr shard),
            (''content_sha256'', JStr sha), (''locator'', JStr loc), (''complete'', JBool cmpl),
            (''producing_cell_id'', JStr (ct_producing_cell_id ct)),
            (''retrieval_receipt_sha256'', opt_json (ct_receipt ct)),
            (''manifest_sha256'', JStr (core_manifest_sha256 core)),
            (''admissibility_rules'', JStr ''evidence-admissibility/3''),
            (''predicate_admission'', JStr ''predicate-admission/2'')] @
           (case reason of None \<Rightarrow> [] | Some r \<Rightarrow> [(''reason'', JStr r)]))"

text \<open>
  The source excerpt of a located entity: a gap, or the text and whether it is complete.
\<close>

definition read_location :: "core \<Rightarrow> string \<Rightarrow> json \<Rightarrow> (string + string option \<times> bool) res" where
  "read_location core ident entity =
     (if jget_or_null ''location'' entity = JNull then Inr (Inr (None, True))
      else rbind (core_read_excerpt core ident) (\<lambda>response.
        case results response of
          [] \<Rightarrow> Inr (Inl ''cited source location did not re-resolve'')
        | resolved # _ \<Rightarrow>
            rbind (fget ''excerpt'' resolved) (\<lambda>text.
              Inr (Inr (Some text, \<not> truncated response \<and>
                \<not> truthy (jget_or_null ''excerpt_truncated'' resolved))))))"

definition read_evidence :: "core \<Rightarrow> logical_identity \<Rightarrow> (string + bool) res" where
  "read_evidence core parsed =
     (if li_kind parsed \<notin> EVIDENCE_BEARING then Inr (Inr True)
      else rbind (core_resolve_evidence core (li_value parsed)) (\<lambda>response.
        let result = (case results response of [] \<Rightarrow> jobj [] | r # _ \<Rightarrow> r)
        in Inr (if \<not> truthy (jget_or_null ''entity'' result) then Inl ''cited evidence did not re-resolve''
                else Inr (\<not> truncated response \<and> coverage_gaps response = []))))"

text \<open>The last step: classify, weaken an unproven guard contradiction, and mint the relation.\<close>

definition mint_relation ::
  "hash \<Rightarrow> (bound_reason \<Rightarrow> string) \<Rightarrow> core \<Rightarrow> citation \<Rightarrow> logical_identity \<Rightarrow> json \<Rightarrow> string option \<Rightarrow> bool \<Rightarrow>
   evidence_relation res" where
  "mint_relation H show_reason core ct parsed entity excerpt cmpl =
     rbind (fget ''index'' entity) (\<lambda>index. rbind (fget ''shard_id'' entity) (\<lambda>shard.
     rbind (locator entity) (\<lambda>loc.
     let shard_id = index @ ''/'' @ shard;
         sha = H (content_record entity excerpt);
         payload = (if li_kind parsed \<in> GRAPH_KINDS \<and> is_obj (jget_or_null ''payload'' entity)
                    then Some (jget_or_null ''payload'' entity) else None);
         adm = classify (li_kind parsed) (ct_predicate ct) (ct_rule_predicates ct) payload
     in rbind (if ct_kind ct = CONTRADICTS \<and> ct_predicate ct = P_MISSING_OR_INEFFECTIVE_GUARD \<and>
                  li_kind parsed \<in> GUARD_KINDS \<and> adm = DIRECT_FOR_MAPPED_PREDICATE
               then guard_relation_kind show_reason core (li_kind parsed) payload (ct_role ct)
               else Inr (ct_kind ct, None)) (\<lambda>(kind, reason).
          Inr \<lparr>er_relation_id = id_of H ''evidence_relation'' 1
                 (relation_body ct core kind parsed adm shard_id sha loc cmpl reason),
               er_claim_id = ct_claim_id ct, er_predicate = ct_predicate ct, er_kind = kind,
               er_entity_id = li_value parsed, er_entity_kind = entity_kind_value (li_kind parsed),
               er_admissibility = adm, er_shard_id = shard_id, er_content_sha256 = sha,
               er_locator = loc, er_complete = cmpl,
               er_producing_cell_id = ct_producing_cell_id ct,
               er_retrieval_receipt_sha256 = ct_receipt ct, er_reason = reason,
               er_provenance = None\<rparr>))))"

definition resolve_relation ::
  "hash \<Rightarrow> (bound_reason \<Rightarrow> string) \<Rightarrow> core \<Rightarrow> citation \<Rightarrow> (gap + evidence_relation) res" where
  "resolve_relation H show_reason core ct =
     (let gap = (\<lambda>reason. Inr (Inl (evidence_gap H ct reason)))
      in if ct_kind ct \<notin> EVIDENCE_RELATION_KINDS
         then Inl (ValueError ''evidence relations are supports, contradicts, or qualifies'')
         else (case parse_identity (ct_entity_id ct) of
           Inl _ \<Rightarrow> gap ''citation is not a canonical logical identity''
         | Inr parsed \<Rightarrow>
           rbind (core_find core (li_value parsed)) (\<lambda>found.
           case results found of
             [] \<Rightarrow> gap ''citation did not resolve in the accepted manifest''
           | entity # _ \<Rightarrow>
             if jget_or_null ''identity'' entity \<noteq> JStr (li_value parsed) \<or>
                jget_or_null ''kind'' entity \<noteq> JStr (entity_kind_value (li_kind parsed))
             then Inl (IntegrityError ''accepted index returned an entity that differs from the cited identity'')
             else rbind (if li_kind parsed \<in> BINARY_KINDS then binary_anchor entity
                         else Inr (Some ([], [], 0, 0))) (\<lambda>anchor.
               if anchor = None then gap BINARY_CITATION_GAP
               else rbind (read_location core (li_value parsed) entity) (\<lambda>loc.
                 case loc of
                   Inl reason \<Rightarrow> gap reason
                 | Inr (excerpt, excerpt_complete) \<Rightarrow>
                   rbind (read_evidence core parsed) (\<lambda>ev.
                   case ev of
                     Inl reason \<Rightarrow> gap reason
                   | Inr evidence_complete \<Rightarrow>
                     rbind (mint_relation H show_reason core ct parsed entity excerpt
                        (\<not> truncated found \<and> excerpt_complete \<and> evidence_complete)) (\<lambda>r.
                       Inr (Inr r))))))))"

section \<open>What can satisfy an obligation\<close>

lemma admission_total: "kind \<in> DIRECT_KINDS \<Longrightarrow> \<exists>row. map_of ADMISSION_ROWS kind = Some row \<and> length row = 6"
  by (auto simp: DIRECT_KINDS_def ADMISSION_ROWS_def)

lemma ADMISSION_ROWS_kinds: "fst ` set ADMISSION_ROWS = DIRECT_KINDS"
  by (auto simp: DIRECT_KINDS_def ADMISSION_ROWS_def)

lemma admission_impact: "admission kind P_SECURITY_IMPACT \<noteq> DIRECT"
proof (cases "map_of ADMISSION_ROWS kind")
  case None
  then show ?thesis by (simp add: admission_def)
next
  case (Some row)
  then have "(kind, row) \<in> set ADMISSION_ROWS" by (rule map_of_SomeD)
  then have "length row = 6 \<and> row ! 5 \<noteq> DIRECT" by (auto simp: ADMISSION_ROWS_def)
  with Some show ?thesis
    by (auto simp: admission_def COLUMNS_def numeral_eq_Suc length_Suc_conv)
qed

lemma admission_never_mapped: "admission kind p \<noteq> DIRECT_FOR_MAPPED_PREDICATE"
proof (cases "map_of ADMISSION_ROWS kind")
  case None
  then show ?thesis by (simp add: admission_def)
next
  case (Some row)
  then have "(kind, row) \<in> set ADMISSION_ROWS" by (rule map_of_SomeD)
  then have "length row = 6 \<and> DIRECT_FOR_MAPPED_PREDICATE \<notin> set row" by (auto simp: ADMISSION_ROWS_def)
  with Some show ?thesis
    by (cases p) (auto simp: admission_def COLUMNS_def numeral_eq_Suc length_Suc_conv)
qed

lemma graph_fact_predicates_not_impact: "P_SECURITY_IMPACT \<notin> graph_fact_predicates kind payload"
  using mapped_predicates_subset GRAPH_FACT_PREDICATES_not_impact
  by (fastforce simp: graph_fact_predicates_def Let_def split: option.splits if_splits)

lemma classify_impact:
  "classify kind P_SECURITY_IMPACT mapped payload \<in> SATISFYING_ADMISSIBILITY \<Longrightarrow>
   kind \<in> MAPPED_KINDS \<and> P_SECURITY_IMPACT \<in> mapped"
  using admission_impact [of kind] admission_never_mapped [of kind] graph_fact_predicates_not_impact [of kind payload]
  by (auto simp: classify_def SATISFYING_ADMISSIBILITY_def split: if_splits)

lemma classify_reference: "kind \<in> INDIRECT_KINDS \<Longrightarrow> classify kind p mapped payload = INDIRECT"
proof -
  assume "kind \<in> INDIRECT_KINDS"
  moreover have "FAMILY_KINDS f \<notin> INDIRECT_KINDS" for f
    by (cases f) (simp_all add: INDIRECT_KINDS_def REFERENCE_KINDS_def)
  ultimately have "kind \<notin> DIRECT_KINDS" "kind \<notin> MAPPED_KINDS" "kind \<notin> GRAPH_KINDS"
    by (auto simp: INDIRECT_KINDS_def REFERENCE_KINDS_def DIRECT_KINDS_def MAPPED_KINDS_def GRAPH_KINDS_def)
  then show ?thesis by (simp add: classify_def)
qed

section \<open>What a minted relation says\<close>

text \<open>
  The payload of a re-resolved graph entity, as the minting step reads it.
\<close>

definition cited_payload :: "entity_kind \<Rightarrow> json \<Rightarrow> json option" where
  "cited_payload kind entity =
     (if kind \<in> GRAPH_KINDS \<and> is_obj (jget_or_null ''payload'' entity)
      then Some (jget_or_null ''payload'' entity) else None)"

lemma guard_relation_kind_range:
  "guard_relation_kind sr core kind payload role = Inr (k, reason) \<Longrightarrow> k = QUALIFIES \<or> k = CONTRADICTS"
  by (auto simp: guard_relation_kind_def Let_def rbind_Inr_iff split: if_split_asm)

lemma mint_relation_elim:
  assumes "mint_relation H sr core ct parsed entity excerpt cmpl = Inr r"
  obtains "er_claim_id r = ct_claim_id ct" "er_predicate r = ct_predicate ct"
    "er_entity_id r = li_value parsed" "er_entity_kind r = entity_kind_value (li_kind parsed)"
    "er_admissibility r = classify (li_kind parsed) (ct_predicate ct) (ct_rule_predicates ct)
       (cited_payload (li_kind parsed) entity)"
    "er_complete r = cmpl" "er_provenance r = None" "er_content_sha256 r = H (content_record entity excerpt)"
    "er_kind r = ct_kind ct \<or> er_kind r = QUALIFIES"
    "ct_predicate ct = P_MISSING_OR_INEFFECTIVE_GUARD \<Longrightarrow> li_kind parsed \<in> GUARD_KINDS \<Longrightarrow>
     er_admissibility r = DIRECT_FOR_MAPPED_PREDICATE \<Longrightarrow> er_kind r = CONTRADICTS \<Longrightarrow>
     guard_relation_kind sr core (li_kind parsed) (cited_payload (li_kind parsed) entity) (ct_role ct) =
       Inr (CONTRADICTS, er_reason r)"
  using assms
  by (auto simp: mint_relation_def Let_def rbind_Inr_iff cited_payload_def [symmetric]
        split: if_split_asm prod.split_asm)
    (use guard_relation_kind_range in blast)

lemma resolve_relation_elim:
  assumes "resolve_relation H sr core ct = Inr (Inr r)"
  obtains parsed found entity excerpt cmpl where
    "ct_kind ct \<in> EVIDENCE_RELATION_KINDS" "parse_identity (ct_entity_id ct) = Inr parsed"
    "core_find core (li_value parsed) = Inr found" "results found \<noteq> []" "entity = hd (results found)"
    "jget_or_null ''identity'' entity = JStr (li_value parsed)"
    "jget_or_null ''kind'' entity = JStr (entity_kind_value (li_kind parsed))"
    "li_kind parsed \<in> BINARY_KINDS \<Longrightarrow> \<exists>a. binary_anchor entity = Inr (Some a)"
    "cmpl \<Longrightarrow> \<not> truncated found"
    "mint_relation H sr core ct parsed entity excerpt cmpl = Inr r"
proof -
  from assms obtain parsed where kinds: "ct_kind ct \<in> EVIDENCE_RELATION_KINDS"
    and parsed: "parse_identity (ct_entity_id ct) = Inr parsed"
    by (auto simp: resolve_relation_def Let_def split: if_split_asm sum.split_asm)
  have R: "resolve_relation H sr core ct = Inr (Inr r)" by (rule assms)
  note R = R [unfolded resolve_relation_def Let_def parsed, simplified kinds, simplified]
  from R obtain found where found: "core_find core (li_value parsed) = Inr found"
    by (auto simp: rbind_Inr_iff)
  with R obtain entity rest where entity: "results found = entity # rest"
    by (cases "results found") auto
  note R = R [unfolded found, simplified, unfolded entity, simplified]
  from R have same: "jget_or_null ''identity'' entity = JStr (li_value parsed)"
      "jget_or_null ''kind'' entity = JStr (entity_kind_value (li_kind parsed))"
    by (auto split: if_split_asm)
  note R = R [unfolded same, simplified]
  from R obtain anchor where anchor: "(if li_kind parsed \<in> BINARY_KINDS then binary_anchor entity
      else Inr (Some ([], [], 0, 0))) = Inr (Some anchor)"
    by (auto simp: rbind_Inr_iff split: if_split_asm)
  note R = R [unfolded anchor, simplified]
  from R obtain loc where loc: "read_location core (li_value parsed) entity = Inr loc"
    by (auto simp: rbind_Inr_iff)
  note R = R [unfolded loc, simplified]
  from R obtain excerpt ec where e: "loc = Inr (excerpt, ec)"
    by (auto split: sum.split_asm)
  note R = R [unfolded e, simplified]
  from R obtain ev where ev: "read_evidence core parsed = Inr ev" by (auto simp: rbind_Inr_iff)
  note R = R [unfolded ev, simplified]
  from R obtain v where v: "ev = Inr v" by (auto split: sum.split_asm)
  from R [unfolded v, simplified]
  have "mint_relation H sr core ct parsed entity excerpt (\<not> truncated found \<and> ec \<and> v) = Inr r"
    by (simp add: rbind_Inr_iff)
  with kinds parsed found entity same anchor show ?thesis
    by (intro that [of parsed found entity "\<not> truncated found \<and> ec \<and> v" excerpt]; cases anchor)
      (auto split: if_split_asm)
qed

lemma guard_contradiction_elim:
  assumes "guard_relation_kind sr core kind payload role = Inr (CONTRADICTS, reason)"
  obtains result destination who where
    "result = (case payload of None \<Rightarrow> JNull | Some p \<Rightarrow> jget_or_null ''result'' p)"
    "bounds (fact_bounds_destination (entity_kind_value kind) result destination)"
    "role = Some who" "who \<in> set GUARD_CONTRADICTION_ROLES"
  using assms
  by (auto simp: guard_relation_kind_def Let_def rbind_Inr_iff split: if_splits option.splits)

section \<open>A concrete citation\<close>

text \<open>
  A small accepted manifest used to evaluate the resolver: it answers every lookup with one
  unlocated entity, and resolves its evidence completely.
\<close>

definition sample_identity :: "string \<Rightarrow> string" where
  "sample_identity kind = ''asr:'' @ kind @ '':'' @ replicate 64 CHR ''0''"

definition sample_response :: "json list \<Rightarrow> response" where
  "sample_response rs = \<lparr>results = rs, truncated = False, coverage_gaps = []\<rparr>"

definition sample_core :: "string \<Rightarrow> json \<Rightarrow> core" where
  "sample_core kind payload =
     (let entity = jobj [(''identity'', JStr (sample_identity kind)), (''kind'', JStr kind),
                         (''payload'', payload), (''index'', JStr ''target''), (''shard_id'', JStr ''s0'')]
      in \<lparr>core_find = (\<lambda>_. Inr (sample_response [entity])),
          core_read_excerpt = (\<lambda>_. Inr (sample_response [])),
          core_resolve_evidence = (\<lambda>_. Inr (sample_response [jobj [(''entity'', entity)]])),
          core_trace = (\<lambda>_ _ _ _. Inr (sample_response [])),
          core_max_results = 100, core_manifest_sha256 = replicate 64 CHR ''1''\<rparr>)"

definition sample_citation :: "string \<Rightarrow> predicate \<Rightarrow> relation_kind \<Rightarrow> citation" where
  "sample_citation kind p rel =
     \<lparr>ct_claim_id = ''c1'', ct_predicate = p, ct_kind = rel, ct_entity_id = sample_identity kind,
      ct_producing_cell_id = ''cell'', ct_receipt = None, ct_rule_predicates = {p}, ct_round = 0,
      ct_role = Some ''judge''\<rparr>"

definition sample_guard_fact :: json where
  "sample_guard_fact =
     (let body = [(''schema'', JStr GRAPH_FACT_SCHEMA), (''family'', JStr ''guard_fact''), (''exact'', JBool True),
                  (''coverage_status'', JStr (coverage_value COV_COMPLETE)),
                  (''cross_check'', jobj [(''state'', JStr (cross_check_state_value CC_AGREE))]),
                  (''result'', jobj [(''guard_state'', JStr ''dominating''),
                     (''constrains_sink_operand'', JBool True), (''polarity'', JStr ''true_branch''),
                     (''destination'', jobj [(''object_bytes'', JInt 64)]),
                     (''comparison'', jobj [(''operator'', JStr ''<=''), (''operands'', JArr
                        [jobj [(''role'', JStr ''lhs''), (''kind'', JStr ''variable'')],
                         jobj [(''role'', JStr ''rhs''), (''kind'', JStr ''constant''), (''value'', JInt 64)]])])])]
      in jobj (body @ [(''admissibility'', fact_admissibility (jobj body))]))"

lemma sample_impact_resolves:
  "case resolve_relation (\<lambda>_. ''h'') (\<lambda>_. []) (sample_core ''tool_observation'' JNull)
     (sample_citation ''tool_observation'' P_SECURITY_IMPACT SUPPORTS) of
     Inr (Inr r) \<Rightarrow> satisfies r \<and> er_predicate r = P_SECURITY_IMPACT | _ \<Rightarrow> False"
  by code_simp

lemma sample_guard_resolves:
  "case resolve_relation (\<lambda>_. ''h'') (\<lambda>_. []) (sample_core ''guard_fact'' sample_guard_fact)
     (sample_citation ''guard_fact'' P_MISSING_OR_INEFFECTIVE_GUARD CONTRADICTS) of
     Inr (Inr r) \<Rightarrow> satisfies r \<and> er_predicate r = P_MISSING_OR_INEFFECTIVE_GUARD \<and>
       er_kind r = CONTRADICTS \<and> er_entity_kind r = entity_kind_value EK_GUARD_FACT
   | _ \<Rightarrow> False"
  by code_simp

section \<open>Properties\<close>

text \<open>
  C3. Security impact is never read off code. A relation the resolver mints for the
  \<open>security_impact\<close> predicate counts (complete and direct) only when the cited entity is a tool
  observation whose producing rule is mapped to that predicate: no source span, binary, artifact or
  graph fact can satisfy it, whatever the retrieval core answers.
\<close>

theorem impact_needs_mapped_tool:
  assumes "resolve_relation H show_reason core ct = Inr (Inr r)"
    and "satisfies r" and "er_predicate r = P_SECURITY_IMPACT"
  shows "er_entity_kind r = entity_kind_value EK_TOOL_OBSERVATION \<and> P_SECURITY_IMPACT \<in> ct_rule_predicates ct"
proof -
  from assms(1) obtain parsed entity excerpt cmpl
    where mint: "mint_relation H show_reason core ct parsed entity excerpt cmpl = Inr r"
    by (rule resolve_relation_elim)
  from mint have "er_entity_kind r = entity_kind_value (li_kind parsed)"
    and "er_admissibility r = classify (li_kind parsed) (er_predicate r) (ct_rule_predicates ct)
       (cited_payload (li_kind parsed) entity)"
    by (auto elim: mint_relation_elim)
  moreover from this assms(2,3) have "li_kind parsed \<in> MAPPED_KINDS \<and> P_SECURITY_IMPACT \<in> ct_rule_predicates ct"
    by (intro classify_impact [of _ _ "cited_payload (li_kind parsed) entity"]) (simp add: satisfies_def)
  ultimately show ?thesis by (simp add: MAPPED_KINDS_def)
qed

theorem impact_needs_mapped_tool_witness:
  "\<exists>r. resolve_relation (\<lambda>_. ''h'') (\<lambda>_. []) (sample_core ''tool_observation'' JNull)
      (sample_citation ''tool_observation'' P_SECURITY_IMPACT SUPPORTS) = Inr (Inr r) \<and>
    satisfies r \<and> er_entity_kind r = entity_kind_value EK_TOOL_OBSERVATION"
  using sample_impact_resolves impact_needs_mapped_tool by (fastforce split: sum.split_asm)

text \<open>
  C4. A guard fact contradicts the missing-guard predicate only when it really bounds the
  destination. If a minted guard-fact relation contradicts \<open>missing_or_ineffective_guard\<close> and counts,
  the citing role is one of the refuting roles, the re-resolved fact is of a guard that dominates the
  sink and constrains its operand, and its recorded comparison implies, for every operand value with which the guarded sink runs, that the value fits the
  destination.
\<close>

theorem guard_contradiction_sound:
  assumes "resolve_relation H show_reason core ct = Inr (Inr r)"
    and "satisfies r" and "er_predicate r = P_MISSING_OR_INEFFECTIVE_GUARD" and "er_kind r = CONTRADICTS"
    and "er_entity_kind r = entity_kind_value EK_GUARD_FACT"
  shows "\<exists>found who. core_find core (er_entity_id r) = Inr found \<and> results found \<noteq> [] \<and>
           ct_role ct = Some who \<and> who \<in> set GUARD_CONTRADICTION_ROLES \<and>
           (let result = jget_or_null ''result'' (jget_or_null ''payload'' (hd (results found)))
            in jget_or_null ''guard_state'' result = JStr ''dominating'' \<and>
               jget_or_null ''constrains_sink_operand'' result = JBool True \<and>
               (\<forall>n. sink_runs_with result n \<longrightarrow> (\<exists>cap. destination_bytes result = Some cap \<and> n \<le> cap)))"
proof -
  from assms(1) obtain parsed found entity excerpt cmpl where
    found: "core_find core (li_value parsed) = Inr found" "results found \<noteq> []" "entity = hd (results found)"
    and mint: "mint_relation H show_reason core ct parsed entity excerpt cmpl = Inr r"
    by (rule resolve_relation_elim)
  from mint have facts: "er_predicate r = ct_predicate ct" "er_entity_id r = li_value parsed"
    "er_entity_kind r = entity_kind_value (li_kind parsed)"
    "er_admissibility r = classify (li_kind parsed) (ct_predicate ct) (ct_rule_predicates ct)
       (cited_payload (li_kind parsed) entity)"
    by (auto elim: mint_relation_elim)
  have kind: "li_kind parsed = EK_GUARD_FACT"
    using assms(5) facts(3) by (simp only: entity_kind_enum.val_inj)
  have adm: "er_admissibility r = DIRECT_FOR_MAPPED_PREDICATE" and payload:
      "cited_payload EK_GUARD_FACT entity \<noteq> None"
    using assms(2) facts(4) kind
    by (auto simp: satisfies_def SATISFYING_ADMISSIBILITY_def classify_def REFERENCE_KINDS_def
          DIRECT_KINDS_def MAPPED_KINDS_def graph_fact_predicates_def split: if_splits option.splits)
  have "guard_relation_kind show_reason core EK_GUARD_FACT (cited_payload EK_GUARD_FACT entity) (ct_role ct) =
      Inr (CONTRADICTS, er_reason r)"
    using mint assms(3,4) facts(1) adm kind by (auto elim!: mint_relation_elim simp: GUARD_KINDS_def)
  then obtain result destination who where *:
    "result = (case cited_payload EK_GUARD_FACT entity of None \<Rightarrow> JNull | Some p \<Rightarrow> jget_or_null ''result'' p)"
    "bounds (fact_bounds_destination (entity_kind_value EK_GUARD_FACT) result destination)"
    "ct_role ct = Some who" "who \<in> set GUARD_CONTRADICTION_ROLES"
    by (rule guard_contradiction_elim)
  have "result = jget_or_null ''result'' (jget_or_null ''payload'' entity)"
    using *(1) payload by (auto simp: cited_payload_def split: if_splits)
  moreover have "bounds (guard_bounds_destination result)"
    using *(2) by (simp add: fact_bounds_destination_def)
  ultimately show ?thesis
    using found *(3,4) facts(2) guard_bounds_sound guard_bounds_dominates by (simp add: Let_def)
qed

theorem guard_contradiction_sound_witness:
  "\<exists>r who. resolve_relation (\<lambda>_. ''h'') (\<lambda>_. []) (sample_core ''guard_fact'' sample_guard_fact)
      (sample_citation ''guard_fact'' P_MISSING_OR_INEFFECTIVE_GUARD CONTRADICTS) = Inr (Inr r) \<and>
    satisfies r \<and> who \<in> set GUARD_CONTRADICTION_ROLES \<and>
    ct_role (sample_citation ''guard_fact'' P_MISSING_OR_INEFFECTIVE_GUARD CONTRADICTS) = Some who"
proof -
  let ?R = "resolve_relation (\<lambda>_. ''h'') (\<lambda>_. []) (sample_core ''guard_fact'' sample_guard_fact)
      (sample_citation ''guard_fact'' P_MISSING_OR_INEFFECTIVE_GUARD CONTRADICTS)"
  from sample_guard_resolves obtain r where r: "?R = Inr (Inr r)" "satisfies r"
    "er_predicate r = P_MISSING_OR_INEFFECTIVE_GUARD" "er_kind r = CONTRADICTS"
    "er_entity_kind r = entity_kind_value EK_GUARD_FACT"
    by (auto split: sum.split_asm)
  with guard_contradiction_sound [OF r] show ?thesis by blast
qed

end
