(* ===== verification/Adjudication.thy ===== *)
theory Adjudication
  imports Evidence
begin

text \<open>
  The decision table of \<open>review/adjudication.py\<close> and the blind-verifier check of
  \<open>review/independence.py\<close>.

  \<open>adjudicate\<close> counts complete, direct relations that no judge produced, asks of each predicate
  whether it has such support and such contradiction, and takes the first matching row. The digest
  of the rule documents (\<open>POLICY_SHA256\<close>) is published with the decision and read by none; it is the
  parameter \<open>policy\<close>.
\<close>

section \<open>Rows and outcomes\<close>

datatype deciding_row =
    ROW_DUPLICATE | ROW_OUT_OF_SCOPE | ROW_UNRESOLVED_CONTRADICTION | ROW_DIRECT_CONTRADICTION
  | ROW_CONFIRMED | ROW_SUPPORTED | ROW_INSUFFICIENT_EVIDENCE

fun deciding_row_value :: "deciding_row \<Rightarrow> string" where
  "deciding_row_value ROW_DUPLICATE = ''r1_duplicate''"
| "deciding_row_value ROW_OUT_OF_SCOPE = ''r2_out_of_scope''"
| "deciding_row_value ROW_UNRESOLVED_CONTRADICTION = ''r3_unresolved_contradiction''"
| "deciding_row_value ROW_DIRECT_CONTRADICTION = ''r4_direct_contradiction''"
| "deciding_row_value ROW_CONFIRMED = ''r5_confirmed''"
| "deciding_row_value ROW_SUPPORTED = ''r6_supported''"
| "deciding_row_value ROW_INSUFFICIENT_EVIDENCE = ''r7_insufficient_evidence''"

datatype predicate_outcome = SATISFIED | PO_CONTRADICTED | CONFLICTED | UNRESOLVED

fun predicate_outcome_value :: "predicate_outcome \<Rightarrow> string" where
  "predicate_outcome_value SATISFIED = ''satisfied''"
| "predicate_outcome_value PO_CONTRADICTED = ''contradicted''"
| "predicate_outcome_value CONFLICTED = ''conflicted''"
| "predicate_outcome_value UNRESOLVED = ''unresolved''"

definition CONTRADICTION_STATES :: "(predicate \<times> claim_state) list" where
  "CONTRADICTION_STATES =
     [(P_SOURCE_TO_SINK_REACHABILITY, NOT_REACHABLE),
      (P_CONFIGURATION_ENABLES, NOT_EXPLOITABLE_IN_OBSERVED_CONFIGURATION)]"

record predicate_status =
  ps_predicate :: predicate
  ps_required :: bool
  ps_outcome :: predicate_outcome
  ps_supporting :: "string list"
  ps_contradicting :: "string list"

record adjudication =
  a_adjudication_id :: string
  a_claim_id :: string
  a_prior_state :: claim_state
  a_state :: claim_state
  a_deciding_row :: deciding_row
  a_predicates :: "predicate_status list"
  a_verifier_independent :: bool
  a_duplicate_of :: "string option"
  a_gaps :: "gap list"
  a_counted_relation_ids :: "string list"
  a_policy_sha256 :: string
  a_linked_gap_ids :: "string list"

definition gap_ids :: "adjudication \<Rightarrow> string list" where
  "gap_ids a = sorted_set (map g_gap_id (a_gaps a) @ a_linked_gap_ids a)"

section \<open>Counting evidence\<close>

text \<open>A relation derived from a judge's citations carries a provenance and is never counted.\<close>

definition counted :: "evidence_relation \<Rightarrow> bool" where
  "counted r = (er_provenance r = None \<and> satisfies r)"

definition counted_ids :: "relation_kind \<Rightarrow> predicate \<Rightarrow> evidence_relation list \<Rightarrow> string list" where
  "counted_ids k p rs =
     sorted_set (map er_relation_id (filter (\<lambda>r. counted r \<and> er_kind r = k \<and> er_predicate r = p) rs))"

definition outcome_of :: "bool \<Rightarrow> bool \<Rightarrow> predicate_outcome" where
  "outcome_of has_support has_contra =
     (if has_support \<and> has_contra then CONFLICTED
      else if has_support then SATISFIED
      else if has_contra then PO_CONTRADICTED
      else UNRESOLVED)"

definition predicate_status_of :: "evidence_relation list \<Rightarrow> predicate set \<Rightarrow> predicate \<Rightarrow> predicate_status" where
  "predicate_status_of rs required p =
     (let support = counted_ids SUPPORTS p rs; contra = counted_ids CONTRADICTS p rs
      in \<lparr>ps_predicate = p, ps_required = (p \<in> required),
          ps_outcome = outcome_of (support \<noteq> []) (contra \<noteq> []),
          ps_supporting = support, ps_contradicting = contra\<rparr>)"

definition sorted_predicates :: "predicate list" where
  "sorted_predicates = sort_key predicate_value predicate_members"

definition predicate_statuses ::
  "claim \<Rightarrow> evidence_relation list \<Rightarrow> predicate set \<Rightarrow> (predicate_status list \<times> string list) res" where
  "predicate_statuses c rs required =
     rbind (rguard (\<forall>r\<in>set rs. er_claim_id r = c_claim_id c)
              (ValueError ''evidence relation belongs to a different claim'')) (\<lambda>_.
       Inr (map (predicate_status_of rs required) sorted_predicates,
            sorted_set (map er_relation_id
              (filter (\<lambda>r. counted r \<and> er_kind r \<in> {SUPPORTS, CONTRADICTS}) rs))))"

section \<open>The table\<close>

definition required_with :: "predicate_status list \<Rightarrow> predicate_outcome \<Rightarrow> predicate list" where
  "required_with statuses outcome =
     map ps_predicate (filter (\<lambda>s. ps_required s \<and> ps_outcome s = outcome) statuses)"

definition contradiction_state :: "predicate list \<Rightarrow> claim_state" where
  "contradiction_state contradicted =
     (case List.find (\<lambda>(p, s). p \<in> set contradicted) CONTRADICTION_STATES of
        None \<Rightarrow> CONTRADICTED | Some (_, s) \<Rightarrow> s)"

definition is_duplicate :: "claim \<Rightarrow> string set \<Rightarrow> bool" where
  "is_duplicate c existing =
     (c_claim_id c \<in> existing \<or> (case c_duplicate_of c of None \<Rightarrow> False | Some d \<Rightarrow> d \<in> existing))"

definition out_of_scope :: "claim \<Rightarrow> string set \<Rightarrow> bool" where
  "out_of_scope c scope = (\<forall>e\<in>set (c_affected_entities c). e \<notin> scope)"

definition decide_row ::
  "claim \<Rightarrow> predicate_status list \<Rightarrow> bool \<Rightarrow> string set \<Rightarrow> string set \<Rightarrow> deciding_row \<times> claim_state" where
  "decide_row c statuses verifier_independent scope existing =
     (if is_duplicate c existing then (ROW_DUPLICATE, DUPLICATE)
      else if out_of_scope c scope then (ROW_OUT_OF_SCOPE, OUT_OF_SCOPE)
      else if required_with statuses CONFLICTED \<noteq> []
        then (ROW_UNRESOLVED_CONTRADICTION, INSUFFICIENT_EVIDENCE)
      else if required_with statuses PO_CONTRADICTED \<noteq> []
        then (ROW_DIRECT_CONTRADICTION, contradiction_state (required_with statuses PO_CONTRADICTED))
      else if (\<forall>s\<in>set statuses. ps_required s \<longrightarrow> ps_outcome s = SATISFIED) \<and> verifier_independent
        then (ROW_CONFIRMED, CONFIRMED)
      else if required_with statuses SATISFIED \<noteq> [] then (ROW_SUPPORTED, SUPPORTED)
      else (ROW_INSUFFICIENT_EVIDENCE, INSUFFICIENT_EVIDENCE))"

definition duplicate_target :: "claim \<Rightarrow> string set \<Rightarrow> deciding_row \<Rightarrow> string option" where
  "duplicate_target c existing row =
     (if row \<noteq> ROW_DUPLICATE then None
      else (case c_duplicate_of c of
              Some d \<Rightarrow> Some (if d \<in> existing then d else c_claim_id c)
            | None \<Rightarrow> Some (c_claim_id c)))"

definition row_gaps :: "hash \<Rightarrow> string \<Rightarrow> int \<Rightarrow> predicate_status list \<Rightarrow> deciding_row \<Rightarrow> gap list" where
  "row_gaps H claim_id rnd statuses row =
     sort_key g_gap_id
       ((if row = ROW_UNRESOLVED_CONTRADICTION
         then map (\<lambda>p. make_gap H GC_EVIDENCE_GAP claim_id ''unresolved_contradiction'' (Some p) rnd)
                (required_with statuses CONFLICTED)
         else []) @
        (if row \<in> {ROW_SUPPORTED, ROW_INSUFFICIENT_EVIDENCE}
         then map (\<lambda>p. make_gap H GC_EVIDENCE_GAP claim_id ''missing_direct_evidence'' (Some p) rnd)
                (required_with statuses UNRESOLVED)
         else []))"

definition status_json :: "predicate_status \<Rightarrow> json" where
  "status_json s =
     jobj [(''predicate'', JStr (predicate_value (ps_predicate s))), (''required'', JBool (ps_required s)),
           (''outcome'', JStr (predicate_outcome_value (ps_outcome s))),
           (''supporting'', JArr (map JStr (ps_supporting s))),
           (''contradicting'', JArr (map JStr (ps_contradicting s)))]"

definition adjudicate ::
  "hash \<Rightarrow> string \<Rightarrow> claim \<Rightarrow> evidence_relation list \<Rightarrow> bool \<Rightarrow> string set \<Rightarrow> string set \<Rightarrow> claim_state \<Rightarrow>
   gap option \<Rightarrow> int \<Rightarrow> adjudication res" where
  "adjudicate H policy c relations verifier_independent scope existing prior verifier_gap rnd =
     rbind (required_predicates_for c) (\<lambda>required.
     rbind (predicate_statuses c relations required) (\<lambda>(statuses, counted).
       let (row, state) = decide_row c statuses verifier_independent scope existing;
           dup = duplicate_target c existing row;
           gaps = row_gaps H (c_claim_id c) rnd statuses row;
           linked = (case verifier_gap of None \<Rightarrow> [] | Some g \<Rightarrow> [g_gap_id g]);
           body = jobj [(''claim_id'', JStr (c_claim_id c)), (''prior_state'', JStr (claim_state_value prior)),
                        (''state'', JStr (claim_state_value state)),
                        (''deciding_row'', JStr (deciding_row_value row)), (''duplicate_of'', opt_json dup),
                        (''verifier_independent'', JBool verifier_independent),
                        (''predicates'', JArr (map status_json statuses)),
                        (''gap_ids'', JArr (map JStr (sorted_set (map g_gap_id gaps @ linked)))),
                        (''policy_sha256'', JStr policy)]
       in Inr \<lparr>a_adjudication_id = id_of H ''adjudication'' 1 body, a_claim_id = c_claim_id c,
               a_prior_state = prior, a_state = state, a_deciding_row = row, a_predicates = statuses,
               a_verifier_independent = verifier_independent, a_duplicate_of = dup, a_gaps = gaps,
               a_counted_relation_ids = counted, a_policy_sha256 = policy, a_linked_gap_ids = linked\<rparr>))"

section \<open>The blind verifier\<close>

record actor_record =
  actor_id :: string
  actor_provider :: string
  actor_model :: string
  actor_conversation_id :: string
  actor_prior_response_sha256 :: "string option"
  actor_cache_key :: "string option"

definition provider_distinct :: "actor_record \<Rightarrow> actor_record list \<Rightarrow> bool" where
  "provider_distinct v others = list_all (\<lambda>a. actor_provider v \<noteq> actor_provider a) others"

definition model_distinct :: "actor_record \<Rightarrow> actor_record list \<Rightarrow> bool" where
  "model_distinct v reds =
     list_all (\<lambda>a. (actor_provider v, actor_model v) \<noteq> (actor_provider a, actor_model a)) reds"

text \<open>A marker is a text, encoded as UTF-8, or bytes (code points below 256 take one or two bytes).\<close>

datatype marker = MarkerText string | MarkerBytes string

definition utf8_char :: "char \<Rightarrow> string" where
  "utf8_char c = (let n = of_char c :: nat in
     if n < 128 then [c] else [char_of (192 + n div 64), char_of (128 + n mod 64)])"

fun encode_marker :: "marker \<Rightarrow> string" where
  "encode_marker (MarkerText s) = concat (map utf8_char s)"
| "encode_marker (MarkerBytes b) = b"

fun occurs_in :: "string \<Rightarrow> string \<Rightarrow> bool" where
  "occurs_in m [] = (m = [])"
| "occurs_in m (c # cs) = (starts_with m (c # cs) \<or> occurs_in m cs)"

definition independently_supported :: "string \<Rightarrow> string set \<Rightarrow> evidence_relation list \<Rightarrow> predicate \<Rightarrow> bool" where
  "independently_supported claim_id receipts rs p =
     (\<exists>r\<in>set rs. er_claim_id r = claim_id \<and> er_kind r = SUPPORTS \<and> satisfies r \<and> er_predicate r = p \<and>
        (case er_retrieval_receipt_sha256 r of None \<Rightarrow> False | Some x \<Rightarrow> x \<in> receipts))"

definition independence_reasons ::
  "actor_record \<Rightarrow> actor_record list \<Rightarrow> string \<Rightarrow> marker list \<Rightarrow> evidence_relation list \<Rightarrow> predicate list \<Rightarrow>
   string set \<Rightarrow> string \<Rightarrow> bool \<Rightarrow> (string \<times> predicate option) list" where
  "independence_reasons v others request markers rs required receipts claim_id require_distinct_provider =
     (if list_ex (\<lambda>a. actor_id a = actor_id v) others then [(''verifier_actor_not_distinct'', None)] else []) @
     (if actor_prior_response_sha256 v \<noteq> None
      then [(''verifier_conversation_has_prior_response'', None)] else []) @
     (if actor_conversation_id v = [] \<or>
         list_ex (\<lambda>a. actor_conversation_id a = actor_conversation_id v) others
      then [(''verifier_conversation_not_fresh'', None)] else []) @
     (if actor_cache_key v \<noteq> None \<and> list_ex (\<lambda>a. actor_cache_key a = actor_cache_key v) others
      then [(''verifier_shares_cache_entry'', None)] else []) @
     (if list_ex (\<lambda>m. occurs_in (encode_marker m) request)
           (markers @ map (\<lambda>a. MarkerText (actor_id a)) others)
      then [(''verifier_request_contains_forbidden_marker'', None)] else []) @
     map (\<lambda>p. (''verifier_lacks_independent_support'', Some p))
       (sort_key predicate_value
         (filter (\<lambda>p. \<not> independently_supported claim_id receipts rs p) (remdups required))) @
     (if require_distinct_provider \<and> \<not> provider_distinct v others
      then [(''verifier_provider_not_distinct'', None)] else [])"

definition verify_independence ::
  "hash \<Rightarrow> actor_record \<Rightarrow> actor_record list \<Rightarrow> string \<Rightarrow> marker list \<Rightarrow> evidence_relation list \<Rightarrow> predicate list \<Rightarrow>
   string set \<Rightarrow> string \<Rightarrow> bool \<Rightarrow> int \<Rightarrow> (bool \<times> gap list) res" where
  "verify_independence H v others request markers rs required receipts claim_id require_distinct_provider rnd =
     rbind (rguard (\<forall>m\<in>set (markers @ map (\<lambda>a. MarkerText (actor_id a)) others). encode_marker m \<noteq> [])
              (ValueError ''forbidden markers must be non-empty'')) (\<lambda>_.
       let gaps = sort_key g_gap_id
             (map (\<lambda>(reason, p). make_gap H GC_INDEPENDENCE_GAP claim_id reason p rnd)
               (independence_reasons v others request markers rs required receipts claim_id
                  require_distinct_provider))
       in Inr (gaps = [], gaps))"

section \<open>Reading the statuses\<close>

definition supported_by :: "evidence_relation list \<Rightarrow> predicate \<Rightarrow> bool" where
  "supported_by rs p = (\<exists>r\<in>set rs. counted r \<and> er_kind r = SUPPORTS \<and> er_predicate r = p)"

definition contradicted_by :: "evidence_relation list \<Rightarrow> predicate \<Rightarrow> bool" where
  "contradicted_by rs p = (\<exists>r\<in>set rs. counted r \<and> er_kind r = CONTRADICTS \<and> er_predicate r = p)"

lemma set_sorted_predicates [simp]: "set sorted_predicates = UNIV"
  using predicate_enum.complete by (auto simp: sorted_predicates_def)

lemma counted_ids_empty [simp]:
  "counted_ids SUPPORTS p rs = [] \<longleftrightarrow> \<not> supported_by rs p"
  "counted_ids CONTRADICTS p rs = [] \<longleftrightarrow> \<not> contradicted_by rs p"
  by (auto simp: counted_ids_def supported_by_def contradicted_by_def filter_empty_conv)

lemma predicate_status_of_fields [simp]:
  "ps_predicate (predicate_status_of rs R p) = p"
  "ps_required (predicate_status_of rs R p) \<longleftrightarrow> p \<in> R"
  "ps_outcome (predicate_status_of rs R p) = outcome_of (supported_by rs p) (contradicted_by rs p)"
  by (simp_all add: predicate_status_of_def Let_def)

lemma outcome_of_iff [simp]:
  "outcome_of s c = SATISFIED \<longleftrightarrow> s \<and> \<not> c" "outcome_of s c = CONFLICTED \<longleftrightarrow> s \<and> c"
  "outcome_of s c = PO_CONTRADICTED \<longleftrightarrow> \<not> s \<and> c" "outcome_of s c = UNRESOLVED \<longleftrightarrow> \<not> s \<and> \<not> c"
  by (auto simp: outcome_of_def)

lemma set_required_with [simp]:
  "set (required_with (map (predicate_status_of rs R) sorted_predicates) o') =
     {p \<in> R. outcome_of (supported_by rs p) (contradicted_by rs p) = o'}"
  by (force simp: required_with_def)

lemma required_with_empty [simp]:
  "required_with (map (predicate_status_of rs R) sorted_predicates) o' = [] \<longleftrightarrow>
     (\<forall>p\<in>R. outcome_of (supported_by rs p) (contradicted_by rs p) \<noteq> o')"
  by (auto simp: required_with_def filter_empty_conv)

lemma adjudicate_elim:
  assumes "adjudicate H policy c rs vi scope existing prior vg rnd = Inr a"
  obtains R where "required_predicates_for c = Inr R" "\<forall>r\<in>set rs. er_claim_id r = c_claim_id c"
    "(a_deciding_row a, a_state a) =
       decide_row c (map (predicate_status_of rs R) sorted_predicates) vi scope existing"
    "a_gaps a = row_gaps H (c_claim_id c) rnd (map (predicate_status_of rs R) sorted_predicates) (a_deciding_row a)"
    "a_duplicate_of a = duplicate_target c existing (a_deciding_row a)" "a_claim_id a = c_claim_id c"
proof -
  from assms obtain R where R: "required_predicates_for c = Inr R" "\<forall>r\<in>set rs. er_claim_id r = c_claim_id c"
    by (auto simp: adjudicate_def predicate_statuses_def rbind_Inr_iff)
  obtain row st where row: "decide_row c (map (predicate_status_of rs R) sorted_predicates) vi scope existing = (row, st)"
    by fastforce
  from assms R row show ?thesis
    by (intro that [OF R]) (auto simp: adjudicate_def predicate_statuses_def Let_def simp del: fmap_of_list_simps)
qed

lemma decide_row_confirmed:
  "snd (decide_row c (map (predicate_status_of rs R) sorted_predicates) vi scope existing) = CONFIRMED \<longleftrightarrow>
     \<not> is_duplicate c existing \<and> \<not> out_of_scope c scope \<and> vi \<and>
     (\<forall>p\<in>R. supported_by rs p \<and> \<not> contradicted_by rs p)"
proof -
  have "contradiction_state ps \<noteq> CONFIRMED" for ps
    by (simp add: contradiction_state_def CONTRADICTION_STATES_def)
  then show ?thesis by (auto simp: decide_row_def)
qed

text \<open>The decision reads the relations only through what is supported and what is contradicted.\<close>

lemma counted_ids_cong:
  assumes "set (filter counted rs) = set (filter counted rs')"
  shows "counted_ids k p rs = counted_ids k p rs'"
proof -
  have "set (filter (\<lambda>r. counted r \<and> er_kind r = k \<and> er_predicate r = p) rs) =
        set (filter (\<lambda>r. counted r \<and> er_kind r = k \<and> er_predicate r = p) rs')"
    using assms by auto
  then show ?thesis unfolding counted_ids_def by (intro sorted_set_cong) (simp only: set_map)
qed

lemma predicate_statuses_cong:
  assumes "set (filter counted rs) = set (filter counted rs')"
    and "\<forall>r\<in>set rs. er_claim_id r = c_claim_id c" and "\<forall>r\<in>set rs'. er_claim_id r = c_claim_id c"
  shows "predicate_statuses c rs R = predicate_statuses c rs' R"
proof -
  have "predicate_status_of rs R = predicate_status_of rs' R"
    by (rule ext) (simp add: predicate_status_of_def counted_ids_cong [OF assms(1)])
  moreover have "sorted_set (map er_relation_id (filter (\<lambda>r. counted r \<and> er_kind r \<in> {SUPPORTS, CONTRADICTS}) rs)) =
      sorted_set (map er_relation_id (filter (\<lambda>r. counted r \<and> er_kind r \<in> {SUPPORTS, CONTRADICTS}) rs'))"
    by (rule sorted_set_cong) (use assms(1) in auto)
  ultimately show ?thesis
    using assms(2,3) by (simp add: predicate_statuses_def)
qed

lemma if_Nil: "(if b then [x] else []) = [] \<longleftrightarrow> \<not> b"
  by simp

text \<open>How far a claim is established.\<close>

definition verdict_rank :: "claim_state \<Rightarrow> nat" where
  "verdict_rank s = (if s = CONFIRMED then 2 else if s = SUPPORTED then 1 else 0)"

section \<open>A concrete claim\<close>

text \<open>
  A memory-corruption claim on one entity, with a supporting source span for each predicate it owes;
  the witnesses evaluate the table on it.
\<close>

definition sample_claim :: claim where
  "sample_claim =
     \<lparr>c_claim_id = ''c1'', c_lane = LEAD, c_package_id = ''p1'', c_affected_entities = [''e1''],
      c_weakness_cwe = Some ''CWE-787'', c_security_predicate = SP_MEMORY_CORRUPTION, c_preconditions = [],
      c_statement = ''overflow'', c_state = PROPOSED, c_duplicate_of = None, c_origin_cell_ids = [''cell'']\<rparr>"

definition sample_relation :: "relation_kind \<Rightarrow> predicate \<Rightarrow> evidence_relation" where
  "sample_relation k p =
     \<lparr>er_relation_id = predicate_value p, er_claim_id = ''c1'', er_predicate = p, er_kind = k,
      er_entity_id = ''e1'', er_entity_kind = entity_kind_value EK_SOURCE_SPAN, er_admissibility = DIRECT,
      er_shard_id = ''s'', er_content_sha256 = ''h'', er_locator = ''l'', er_complete = True,
      er_producing_cell_id = ''verifier'', er_retrieval_receipt_sha256 = Some ''receipt'', er_reason = None,
      er_provenance = None\<rparr>"

definition sample_support :: "evidence_relation list" where
  "sample_support = map (sample_relation SUPPORTS) predicate_members"

definition sample_adjudication :: "evidence_relation list \<Rightarrow> adjudication res" where
  "sample_adjudication rs =
     adjudicate (\<lambda>_. ''h'') ''policy'' sample_claim rs True {''e1''} {} PROPOSED None 0"

definition sample_actor :: "string \<Rightarrow> actor_record" where
  "sample_actor who =
     \<lparr>actor_id = who, actor_provider = ''p'', actor_model = ''m'', actor_conversation_id = who,
      actor_prior_response_sha256 = None, actor_cache_key = None\<rparr>"

section \<open>Properties\<close>

text \<open>
  C1. Confirmation, exactly. Adjudication ends in \<open>confirmed\<close> if and only if the claim is no
  duplicate, touches the scope, its verifier was independent, and every predicate the claim's
  obligations require has counted support and no counted contradiction.
\<close>

theorem adjudicate_confirmed_iff:
  assumes "adjudicate H policy c rs vi scope existing prior vg rnd = Inr a"
    and "required_predicates_for c = Inr R"
  shows "a_state a = CONFIRMED \<longleftrightarrow>
     \<not> is_duplicate c existing \<and> \<not> out_of_scope c scope \<and> vi \<and>
     (\<forall>p\<in>R. supported_by rs p \<and> \<not> contradicted_by rs p)"
  using assms decide_row_confirmed [of c rs R vi scope existing]
  by (elim adjudicate_elim) (metis Inr_inject snd_conv)

theorem adjudicate_confirmed_iff_witness:
  "\<exists>a R. sample_adjudication sample_support = Inr a \<and> required_predicates_for sample_claim = Inr R \<and>
     a_state a = CONFIRMED \<and> (\<forall>p\<in>R. supported_by sample_support p \<and> \<not> contradicted_by sample_support p)"
proof -
  have "case sample_adjudication sample_support of Inr a \<Rightarrow> a_state a = CONFIRMED | _ \<Rightarrow> False" by code_simp
  then obtain a where a: "sample_adjudication sample_support = Inr a" "a_state a = CONFIRMED"
    by (auto split: sum.split_asm)
  then obtain R where R: "required_predicates_for sample_claim = Inr R"
    by (auto simp: sample_adjudication_def elim: adjudicate_elim)
  with a adjudicate_confirmed_iff [OF a(1) [unfolded sample_adjudication_def] R] show ?thesis by blast
qed

text \<open>
  C2. Opinions are not counted. Two bodies of evidence of the claim with the same set of counted
  relations (complete, direct, not derived from a judge) are adjudicated identically: order,
  repetition, indirect or incomplete relations and a judge's own relations change nothing, not even
  the adjudication's identity.
\<close>

theorem adjudicate_counts_only:
  assumes "set (filter counted rs) = set (filter counted rs')"
    and "\<forall>r\<in>set rs. er_claim_id r = c_claim_id c" and "\<forall>r\<in>set rs'. er_claim_id r = c_claim_id c"
  shows "adjudicate H policy c rs vi scope existing prior vg rnd =
         adjudicate H policy c rs' vi scope existing prior vg rnd"
  by (simp add: adjudicate_def predicate_statuses_cong [OF assms])

theorem adjudicate_counts_only_witness:
  "sample_adjudication (rev sample_support @ [sample_relation QUALIFIES P_SECURITY_IMPACT\<lparr>er_complete := False\<rparr>]) =
   sample_adjudication sample_support"
  unfolding sample_adjudication_def
  by (rule adjudicate_counts_only)
    (auto simp: sample_support_def sample_relation_def sample_claim_def counted_def satisfies_def)

text \<open>
  C5. More support never weakens a verdict. When nothing counted contradicts a required predicate,
  adding relations that do not contradict moves an in-scope, new claim only upwards in
  insufficient evidence, supported, confirmed.
\<close>

theorem adjudicate_support_monotone:
  assumes "adjudicate H policy c rs vi scope existing prior vg rnd = Inr a"
    and "adjudicate H policy c (rs @ extra) vi scope existing prior' vg' rnd' = Inr b"
    and "\<forall>r\<in>set (rs @ extra). er_kind r \<noteq> CONTRADICTS"
  shows "verdict_rank (a_state a) \<le> verdict_rank (a_state b)"
proof -
  let ?S = "\<lambda>rs R. map (predicate_status_of rs R) sorted_predicates"
  from assms(1) obtain R where R: "required_predicates_for c = Inr R"
    "(a_deciding_row a, a_state a) = decide_row c (?S rs R) vi scope existing"
    by (rule adjudicate_elim)
  from assms(2) R(1) have b: "(a_deciding_row b, a_state b) = decide_row c (?S (rs @ extra) R) vi scope existing"
    by (elim adjudicate_elim) simp
  have nc: "\<not> contradicted_by rs p" "\<not> contradicted_by (rs @ extra) p" for p
    using assms(3) by (auto simp: contradicted_by_def)
  have mono: "supported_by rs p \<Longrightarrow> supported_by (rs @ extra) p" for p
    by (auto simp: supported_by_def)
  show ?thesis
    using R(2) b mono by (auto simp: decide_row_def nc verdict_rank_def split: if_splits)
qed

theorem adjudicate_support_monotone_witness:
  "\<exists>a b. sample_adjudication [] = Inr a \<and> sample_adjudication ([] @ sample_support) = Inr b \<and>
     verdict_rank (a_state a) \<le> verdict_rank (a_state b)"
proof -
  have "case sample_adjudication [] of Inr a \<Rightarrow> True | _ \<Rightarrow> False"
    "case sample_adjudication ([] @ sample_support) of Inr a \<Rightarrow> True | _ \<Rightarrow> False" by code_simp+
  then obtain a b where ab: "sample_adjudication [] = Inr a" "sample_adjudication ([] @ sample_support) = Inr b"
    by (auto split: sum.split_asm)
  moreover have "\<forall>r\<in>set ([] @ sample_support). er_kind r \<noteq> CONTRADICTS"
    by (simp add: sample_support_def sample_relation_def)
  ultimately show ?thesis
    using adjudicate_support_monotone [OF ab [unfolded sample_adjudication_def]] by blast
qed

text \<open>
  Every shortfall is on record. A claim left \<open>supported\<close> or without sufficient evidence by
  rows 6 and 7 carries, for each required predicate with neither support nor contradiction, a
  missing-evidence gap naming the predicate, and no other gap.
\<close>

lemma adjudicate_gaps_complete:
  assumes "adjudicate H policy c rs vi scope existing prior vg rnd = Inr a"
    and "required_predicates_for c = Inr R"
    and "a_deciding_row a = ROW_SUPPORTED \<or> a_deciding_row a = ROW_INSUFFICIENT_EVIDENCE"
  shows "set (a_gaps a) =
     (\<lambda>p. make_gap H GC_EVIDENCE_GAP (c_claim_id c) ''missing_direct_evidence'' (Some p) rnd) `
       {p \<in> R. \<not> supported_by rs p \<and> \<not> contradicted_by rs p}"
  using assms by (elim adjudicate_elim) (auto simp: row_gaps_def)

text \<open>
  Independence, exactly. The verifier is found independent if and only if it is an actor of its
  own with no prior response, in a conversation and cache entry no other actor uses, none of the
  forbidden markers or other actors' identities occurs in its request, each required predicate has a
  satisfying support of the verifier's own with one of its own retrieval receipts, and, where policy
  asks for it, its provider is distinct.
\<close>

lemma verify_independence_iff:
  assumes "verify_independence H v others request markers rs required receipts claim_id distinct_provider rnd =
      Inr (indep, gaps)"
  shows "indep \<longleftrightarrow>
     (\<forall>a\<in>set others. actor_id a \<noteq> actor_id v \<and> actor_conversation_id a \<noteq> actor_conversation_id v \<and>
        (actor_cache_key v \<noteq> None \<longrightarrow> actor_cache_key a \<noteq> actor_cache_key v) \<and>
        \<not> occurs_in (encode_marker (MarkerText (actor_id a))) request) \<and>
     actor_prior_response_sha256 v = None \<and> actor_conversation_id v \<noteq> [] \<and>
     (\<forall>m\<in>set markers. \<not> occurs_in (encode_marker m) request) \<and>
     (\<forall>p\<in>set required. independently_supported claim_id receipts rs p) \<and>
     (distinct_provider \<longrightarrow> provider_distinct v others)"
proof -
  from assms have "indep \<longleftrightarrow>
      independence_reasons v others request markers rs required receipts claim_id distinct_provider = []"
    by (auto simp: verify_independence_def rbind_Inr_iff Let_def)
  then show ?thesis
    unfolding independence_reasons_def append_is_Nil_conv if_Nil
    by (cases "actor_cache_key v"; simp add: list_ex_iff filter_empty_conv ball_Un ball_conj_distrib; blast)
qed

end
