(* ===== verification/Attack_Chains.thy ===== *)
theory Attack_Chains
  imports Adjudication
begin

text \<open>
  Attack chains (\<open>review/attack_chains.py\<close>): ordered paths of adjudicated claims whose edges carry
  five continuity obligations each, independent challenges to them, and the deterministic policy
  \<open>decide\<close>. The constructors' \<open>__post_init__\<close> checks are the \<open>check_*\<close> functions; a value of a record
  type stands for an object of the class exactly when its check returns. Reading a record from JSON
  (\<open>*_from_json\<close>) builds it, checks it and compares it with its own document, so that a record has
  one accepted document. A member of the wrong JSON type raises \<open>TypeError\<close> at once here; the code
  rejects it at that comparison or in \<open>__post_init__\<close>.
\<close>

section \<open>Paths of artifacts\<close>

fun split_on :: "char \<Rightarrow> string \<Rightarrow> string list" where
  "split_on d [] = [[]]"
| "split_on d (c # cs) =
     (if c = d then [] # split_on d cs
      else (case split_on d cs of [] \<Rightarrow> [[c]] | w # ws \<Rightarrow> (c # w) # ws))"

definition is_letter :: "char \<Rightarrow> bool" where
  "is_letter c = (let n = of_char c :: nat in (65 \<le> n \<and> n \<le> 90) \<or> (97 \<le> n \<and> n \<le> 122))"

text \<open>\<open>PurePosixPath\<close> drops empty and \<open>.\<close> components; the empty path reads \<open>.\<close>.\<close>

definition normalize_relative_path :: "string \<Rightarrow> string res" where
  "normalize_relative_path v =
     (if v = [] \<or> char_of (0 :: nat) \<in> set v then Inl (ValueError ''relative path is required'')
      else let raw = map (\<lambda>c. if c = char_of (92 :: nat) then CHR ''/'' else c) v;
               parts = filter (\<lambda>p. p \<noteq> [] \<and> p \<noteq> ''.'') (split_on (CHR ''/'') raw)
           in if starts_with ''/'' raw \<or> (2 \<le> length raw \<and> is_letter (raw ! 0) \<and> raw ! 1 = CHR '':'')
              then Inl (ValueError ''absolute paths are not allowed'')
              else if ''..'' \<in> set parts
              then Inl (ValueError ''path traversal or non-canonical path is not allowed'')
              else Inr (if parts = [] then ''.'' else join ''/'' parts))"

section \<open>Records\<close>

text \<open>\<open><prefix>-<64 hex digits>\<close>.\<close>

definition is_digest_id :: "string \<Rightarrow> string \<Rightarrow> bool" where
  "is_digest_id prefix s = (starts_with (prefix @ ''-'') s \<and> is_sha256 (drop (length prefix + 1) s))"

definition chain_digest :: "hash \<Rightarrow> string \<Rightarrow> json \<Rightarrow> string" where
  "chain_digest H kind body =
     kind @ ''-'' @ H (jobj [(''kind'', JStr kind), (''version'', JInt 1), (''body'', body)])"

definition texts_ok :: "string list \<Rightarrow> bool" where
  "texts_ok values = (length values \<le> 256 \<and> list_all (\<lambda>v. 1 \<le> length v \<and> length v \<le> 2000) values \<and> distinct values)"

definition actor_ok :: "actor_record \<Rightarrow> bool" where
  "actor_ok a =
     (list_all (\<lambda>v. 1 \<le> length v \<and> length v \<le> 200)
        [actor_id a, actor_provider a, actor_model a, actor_conversation_id a] \<and>
      (case actor_prior_response_sha256 a of None \<Rightarrow> True | Some s \<Rightarrow> is_sha256 s))"

abbreviation texts_check :: "string list \<Rightarrow> bool \<times> string" where
  "texts_check vs \<equiv> (texts_ok vs, ''chain text lists must be unique, bounded strings'')"

abbreviation actor_check :: "actor_record \<Rightarrow> bool \<times> string" where
  "actor_check a \<equiv> (actor_ok a, ''chain actors require bounded, explicit model and conversation identities'')"

record artifact =
  art_path :: string
  art_sha256 :: string

definition check_artifact :: "artifact \<Rightarrow> unit res" where
  "check_artifact a =
     rbind (normalize_relative_path (art_path a)) (\<lambda>p.
       rchecks [(p = art_path a \<and> is_sha256 (art_sha256 a),
                 ''chain artifact must be a canonical run-relative path with a SHA-256'')])"

record component =
  cp_claim_id :: string
  cp_adjudication_id :: string
  cp_state :: claim_state
  cp_missing_predicates :: "string list"
  cp_requires_extra_verifier :: bool

definition check_component :: "component \<Rightarrow> unit res" where
  "check_component c =
     rchecks
       [(cp_state c \<in> {SUPPORTED, CONFIRMED}, ''chain components must be supported or confirmed''),
        (is_digest_id ''claim'' (cp_claim_id c) \<and> is_digest_id ''adjudication'' (cp_adjudication_id c),
         ''chain component identities are required''),
        texts_check (cp_missing_predicates c),
        (cp_state c = SUPPORTED \<longrightarrow> cp_missing_predicates c \<noteq> [],
         ''supported chain components must name their missing confirmation'')]"

record continuity_evidence =
  ce_relation_id :: string
  ce_index :: string
  ce_shard_id :: string
  ce_shard_sha256 :: string
  ce_content_sha256 :: string
  ce_outcome :: continuity_outcome
  ce_reason :: string

definition check_evidence :: "continuity_evidence \<Rightarrow> unit res" where
  "check_evidence e =
     rchecks
       [(starts_with ''rel:'' (ce_relation_id e) \<and> is_sha256 (drop 4 (ce_relation_id e)) \<and>
         is_sha256 (ce_shard_sha256 e) \<and> is_sha256 (ce_content_sha256 e) \<and> ce_index e \<noteq> [] \<and>
         ce_shard_id e \<noteq> [] \<and> ce_reason e \<noteq> [] \<and> length (ce_reason e) \<le> 256,
         ''invalid accepted continuity evidence identity'')]"

record obligation =
  ob_dimension :: dimension
  ob_evidence :: "continuity_evidence list"

definition check_obligation :: "obligation \<Rightarrow> unit res" where
  "check_obligation b =
     rchecks [(length (ob_evidence b) \<le> 32,
               ''continuity obligations require a dimension and bounded immutable evidence'')]"

definition ob_outcome :: "obligation \<Rightarrow> continuity_outcome" where
  "ob_outcome b =
     (if list_ex (\<lambda>e. ce_outcome e = CONT_CONTRADICTED) (ob_evidence b) then CONT_CONTRADICTED
      else if list_ex (\<lambda>e. ce_outcome e = CONT_SATISFIED) (ob_evidence b) then CONT_SATISFIED
      else CONT_UNRESOLVED)"

record edge =
  ed_from_claim_id :: string
  ed_to_claim_id :: string
  ed_output_entity :: string
  ed_input_entity :: string
  ed_obligations :: "obligation list"

definition evidence_key :: "continuity_evidence \<Rightarrow> string \<times> string \<times> string" where
  "evidence_key e = (ce_index e, ce_shard_id e, ce_relation_id e)"

definition check_edge :: "edge \<Rightarrow> unit res" where
  "check_edge e =
     rbind (parse_identity (ed_output_entity e)) (\<lambda>_.
     rbind (parse_identity (ed_input_entity e)) (\<lambda>_.
       rchecks
         ((map ob_dimension (ed_obligations e) = dimension_members,
           ''each chain edge must have all five canonical continuity obligations'') #
          map (\<lambda>b. (map evidence_key (ob_evidence b) = sorted_set (map evidence_key (ob_evidence b)),
                    ''continuity evidence must be unique and canonically ordered'')) (ed_obligations e))))"

definition semantic :: "edge \<Rightarrow> json" where
  "semantic e =
     jobj [(''from_claim_id'', JStr (ed_from_claim_id e)), (''to_claim_id'', JStr (ed_to_claim_id e)),
           (''output_entity'', JStr (ed_output_entity e)), (''input_entity'', JStr (ed_input_entity e))]"

definition chain_identity :: "hash \<Rightarrow> component list \<Rightarrow> edge list \<Rightarrow> string \<Rightarrow> string \<Rightarrow> string" where
  "chain_identity H components edges objective environment =
     chain_digest H ''chain'' (jobj
       [(''components'', JArr (map (\<lambda>c. jobj [(''claim_id'', JStr (cp_claim_id c)),
            (''adjudication_id'', JStr (cp_adjudication_id c))]) components)),
        (''edges'', JArr (map semantic edges)), (''objective'', JStr objective), (''environment'', JStr environment)])"

record proposal =
  pr_chain_id :: string
  pr_objective :: string
  pr_environment :: string
  pr_components :: "component list"
  pr_edges :: "edge list"
  pr_prerequisites :: "string list"
  pr_composer :: actor_record

definition check_proposal :: "hash \<Rightarrow> proposal \<Rightarrow> unit res" where
  "check_proposal H p =
     (let ids = map cp_claim_id (pr_components p)
      in rchecks
        [(1 \<le> length (pr_objective p) \<and> length (pr_objective p) \<le> 1000 \<and>
          1 \<le> length (pr_environment p) \<and> length (pr_environment p) \<le> 2000,
          ''bounded chain objective and observed environment identity are required''),
         texts_check (pr_prerequisites p),
         actor_check (pr_composer p),
         (2 \<le> length ids \<and> length ids \<le> 8 \<and> distinct ids \<and> length (pr_edges p) = length ids - 1,
          ''a chain must be a simple ordered path of 2..8 adjudicated components''),
         (map (\<lambda>e. (ed_from_claim_id e, ed_to_claim_id e)) (pr_edges p) = zip ids (tl ids),
          ''chain edges must connect exactly the ordered components''),
         (pr_chain_id p = chain_identity H (pr_components p) (pr_edges p) (pr_objective p) (pr_environment p),
          ''chain semantic identity does not match components, edges, objective and environment'')])"

definition requires_extra_verifier :: "proposal \<Rightarrow> bool" where
  "requires_extra_verifier p = list_ex cp_requires_extra_verifier (pr_components p)"

definition actor_doc :: "actor_record \<Rightarrow> json" where
  "actor_doc a =
     jobj [(''actor_id'', JStr (actor_id a)), (''provider'', JStr (actor_provider a)),
           (''model'', JStr (actor_model a)), (''conversation_id'', JStr (actor_conversation_id a)),
           (''prior_response_sha256'', opt_json (actor_prior_response_sha256 a)),
           (''cache_key'', opt_json (actor_cache_key a))]"

record challenge =
  ch_challenge_id :: string
  ch_chain_id :: string
  ch_kind :: string
  ch_actor :: actor_record
  ch_status :: string
  ch_request_sha256 :: string
  ch_receipt :: "artifact option"
  ch_edges :: "edge list"
  ch_independent :: bool
  ch_gaps :: "string list"

definition challenge_identity :: "hash \<Rightarrow> string \<Rightarrow> string \<Rightarrow> actor_record \<Rightarrow> string" where
  "challenge_identity H chain_id kind actor =
     chain_digest H ''chain_challenge''
       (jobj [(''chain_id'', JStr chain_id), (''kind'', JStr kind), (''actor'', actor_doc actor)])"

definition check_challenge :: "hash \<Rightarrow> challenge \<Rightarrow> unit res" where
  "check_challenge H c =
     rchecks
       [actor_check (ch_actor c),
        texts_check (ch_gaps c),
        (1 \<le> length (ch_edges c) \<and> length (ch_edges c) \<le> 7,
         ''chain challenges require bounded edges and explicit boolean independence''),
        (ch_kind c \<in> {''refuter'', ''weakest_link_verifier''}, ''unknown chain challenge kind''),
        (ch_status c \<in> {''succeeded'', ''failed'', ''timed_out'', ''invalid'', ''not_launched'', ''blocked'', ''canceled''},
         ''unknown chain challenge status''),
        (is_sha256 (ch_request_sha256 c), ''challenge request digest is required''),
        (ch_status c = ''succeeded'' \<longrightarrow> ch_receipt c \<noteq> None,
         ''successful challenge requires an immutable cell receipt''),
        (ch_challenge_id c = challenge_identity H (ch_chain_id c) (ch_kind c) (ch_actor c),
         ''challenge identity mismatch'')]"

definition CHAIN_POLICY :: string where
  "CHAIN_POLICY = ''attack-chain-continuity/1''"

record decision =
  de_chain_id :: string
  de_status :: chain_status
  de_limitations :: "string list"
  de_challenge_ids :: "string list"
  de_artifact :: artifact
  de_policy :: string

definition check_decision :: "decision \<Rightarrow> unit res" where
  "check_decision d =
     rchecks
       [texts_check (de_limitations d),
        (is_digest_id ''chain'' (de_chain_id d) \<and> length (de_challenge_ids d) \<le> 2 \<and>
         distinct (de_challenge_ids d) \<and> list_all (is_digest_id ''chain_challenge'') (de_challenge_ids d) \<and>
         de_policy d = CHAIN_POLICY,
         ''chain decision must use canonical identities, a status and the current policy'')]"

section \<open>The continuity policy\<close>

definition independent_actor :: "actor_record \<Rightarrow> actor_record list \<Rightarrow> bool \<Rightarrow> bool" where
  "independent_actor a others distinct_model =
     (actor_conversation_id a \<noteq> [] \<and> actor_prior_response_sha256 a = None \<and>
      list_all (\<lambda>b. actor_id a \<noteq> actor_id b \<and> actor_conversation_id a \<noteq> actor_conversation_id b \<and>
         (actor_cache_key a = None \<or> actor_cache_key a \<noteq> actor_cache_key b)) others \<and>
      (\<not> distinct_model \<or> model_distinct a others))"

definition add_challenge :: "proposal \<Rightarrow> challenge \<Rightarrow> (string, challenge) dict \<Rightarrow> (string, challenge) dict res" where
  "add_challenge p c by_kind =
     rbind (rguard (ch_chain_id c = pr_chain_id p \<and> map_of by_kind (ch_kind c) = None)
              (IntegrityError ''challenge is duplicated or belongs to a different chain'')) (\<lambda>_.
     rbind (rguard (map semantic (ch_edges c) = map semantic (pr_edges p))
              (IntegrityError ''challenge changed chain endpoints'')) (\<lambda>_.
       Inr (AList.update (ch_kind c) c by_kind)))"

definition contradicted_obligations :: "edge list \<Rightarrow> string list" where
  "contradicted_obligations edges =
     concat (map (\<lambda>e. map (\<lambda>b. ed_from_claim_id e @ ''->'' @ ed_to_claim_id e @ '':'' @
                        dimension_value (ob_dimension b) @ '':contradicted'')
                   (filter (\<lambda>b. ob_outcome b = CONT_CONTRADICTED) (ed_obligations e))) edges)"

definition required_challenges :: "proposal \<Rightarrow> string list" where
  "required_challenges p =
     (if requires_extra_verifier p then [''refuter'', ''weakest_link_verifier''] else [''refuter''])"

definition challenge_failures :: "proposal \<Rightarrow> (string, challenge) dict \<Rightarrow> string \<Rightarrow> string list" where
  "challenge_failures p by_kind kind =
     (let others = pr_composer p #
            (if kind = ''weakest_link_verifier''
             then (case map_of by_kind ''refuter'' of None \<Rightarrow> [] | Some r \<Rightarrow> [ch_actor r]) else [])
      in case map_of by_kind kind of
           None \<Rightarrow> [kind @ '':missing'']
         | Some c \<Rightarrow>
             if ch_status c \<noteq> ''succeeded'' then [kind @ '':'' @ ch_status c]
             else if \<not> ch_independent c \<or> \<not> independent_actor (ch_actor c) others (kind = ''weakest_link_verifier'')
             then [kind @ '':independence_not_established'']
             else map (\<lambda>g. kind @ '':'' @ g) (ch_gaps c))"

definition component_limitations :: "component list \<Rightarrow> string list" where
  "component_limitations cs =
     map (\<lambda>c. ''component:'' @ cp_claim_id c @ '':supported:'' @ join '','' (cp_missing_predicates c))
       (filter (\<lambda>c. cp_state c = SUPPORTED) cs)"

definition checked_outcome :: "(string, challenge) dict \<Rightarrow> string \<Rightarrow> nat \<Rightarrow> dimension \<Rightarrow> continuity_outcome" where
  "checked_outcome by_kind kind index d =
     ob_outcome (ed_obligations (ch_edges (the (map_of by_kind kind)) ! index) ! enum_index dimension_members d)"

definition obligation_limitations ::
  "(string, challenge) dict \<Rightarrow> string list \<Rightarrow> nat \<Rightarrow> obligation \<Rightarrow> string list" where
  "obligation_limitations by_kind required index b =
     (let pos = ''edge:'' @ nat_str index @ '':'' @ dimension_value (ob_dimension b) @ '':''
      in (if ob_outcome b \<noteq> CONT_SATISFIED then [pos @ ''unresolved''] else []) @
         map (\<lambda>kind. pos @ kind @ ''_lacks_counted_support'')
           (filter (\<lambda>kind. checked_outcome by_kind kind index (ob_dimension b) \<noteq> CONT_SATISFIED) required))"

definition edge_limitations :: "proposal \<Rightarrow> (string, challenge) dict \<Rightarrow> string list" where
  "edge_limitations p by_kind =
     concat (map (\<lambda>(i, e). concat (map (obligation_limitations by_kind (required_challenges p) i) (ed_obligations e)))
       (enumerate 0 (pr_edges p)))"

definition meaningful :: "proposal \<Rightarrow> bool" where
  "meaningful p = list_ex (\<lambda>e. list_ex (\<lambda>b. ob_outcome b = CONT_SATISFIED) (ed_obligations e)) (pr_edges p)"

definition chain_decide :: "proposal \<Rightarrow> challenge list \<Rightarrow> (chain_status \<times> string list) res" where
  "chain_decide p challenges =
     rbind (rfold (add_challenge p) challenges []) (\<lambda>by_kind.
       let defeated = contradicted_obligations (pr_edges p @ concat (map ch_edges challenges));
           failures = concat (map (challenge_failures p by_kind) (required_challenges p));
           limitations = component_limitations (pr_components p) @ edge_limitations p by_kind
       in Inr (if defeated \<noteq> [] then (CHAIN_REFUTED, sorted_set defeated)
               else if failures \<noteq> [] then (CHAIN_INSUFFICIENT_EVIDENCE, sorted_set failures)
               else if \<not> meaningful p then (CHAIN_INSUFFICIENT_EVIDENCE,
                 sorted_set (limitations @ [''no_meaningful_accepted_continuity_evidence'']))
               else if limitations \<noteq> [] then (CHAIN_QUALIFIED_SUPPORTED, sorted_set limitations)
               else (CHAIN_CONFIRMED, [])))"

section \<open>Native continuity facts\<close>

definition fact_fields :: "dimension \<Rightarrow> string fset" where
  "fact_fields d = (case d of
     DIM_IDENTITY \<Rightarrow> {|''output_identity'', ''input_identity''|}
   | DIM_PRIVILEGE \<Rightarrow> {|''principal_out'', ''principal_in'', ''provided'', ''required''|}
   | DIM_TRUST_BOUNDARY \<Rightarrow> {|''destination_zone'', ''source_zone'', ''transport_out'', ''transport_in'',
        ''enforcement_point_out'', ''enforcement_point_in''|}
   | DIM_ARTIFACT_DEPLOYMENT \<Rightarrow> {|''artifact_out'', ''artifact_in'', ''deployment_out'', ''deployment_in'',
        ''configuration_out'', ''configuration_in''|}
   | DIM_TEMPORAL \<Rightarrow> {|''a_start'', ''a_end'', ''b_start'', ''b_end'', ''output_at'', ''input_at'',
        ''version_out'', ''version_in'', ''configuration_out'', ''configuration_in''|})"

fun bounded_text :: "json \<Rightarrow> bool" where
  "bounded_text (JStr s) = (1 \<le> length s \<and> length s \<le> 2000)"
| "bounded_text _ = False"

fun privilege_list :: "json \<Rightarrow> bool" where
  "privilege_list (JArr xs) = (length xs \<le> 64 \<and> list_all bounded_text xs \<and> distinct xs)"
| "privilege_list _ = False"

definition fact_pairs :: "dimension \<Rightarrow> (string \<times> string) list" where
  "fact_pairs d = (case d of
     DIM_IDENTITY \<Rightarrow> [(''output_identity'', ''input_identity'')]
   | DIM_TRUST_BOUNDARY \<Rightarrow> [(''destination_zone'', ''source_zone''), (''transport_out'', ''transport_in''),
        (''enforcement_point_out'', ''enforcement_point_in'')]
   | DIM_ARTIFACT_DEPLOYMENT \<Rightarrow> [(''artifact_out'', ''artifact_in''), (''deployment_out'', ''deployment_in''),
        (''configuration_out'', ''configuration_in'')]
   | _ \<Rightarrow> [])"

fun jint_val :: "json \<Rightarrow> int" where
  "jint_val (JInt i) = i"
| "jint_val _ = 0"

fun jlist_val :: "json \<Rightarrow> json list" where
  "jlist_val (JArr xs) = xs"
| "jlist_val _ = []"

definition same_members :: "json \<Rightarrow> (string \<times> string) list \<Rightarrow> bool" where
  "same_members values pairs = list_all (\<lambda>(l, r). jget_or_null l values = jget_or_null r values) pairs"

definition temporal_window :: "json \<Rightarrow> string \<Rightarrow> string \<Rightarrow> bool" where
  "temporal_window values start stop =
     (let t = (\<lambda>k. jint_val (jget_or_null k values))
      in t start \<le> t ''output_at'' \<and> t ''output_at'' \<le> t ''input_at'' \<and> t ''input_at'' \<le> t stop)"

abbreviation settled :: "bool \<Rightarrow> continuity_outcome \<times> string" where
  "settled holds \<equiv> (if holds then (CONT_SATISFIED, ''native_values_establish_continuity'')
     else (CONT_CONTRADICTED, ''native_values_contradict_continuity''))"

definition fact_outcome :: "dimension \<Rightarrow> json \<Rightarrow> continuity_outcome \<times> string" where
  "fact_outcome d values =
     (let get = (\<lambda>k. jget_or_null k values)
      in if jkeys values \<noteq> fact_fields d then (CONT_UNRESOLVED, ''native_fact_fields_missing_or_unknown'')
      else if d = DIM_PRIVILEGE then
        (if \<not> privilege_list (get ''provided'') \<or> \<not> privilege_list (get ''required'') \<or>
            get ''required'' = JArr [] \<or>
            \<not> bounded_text (get ''principal_out'') \<or> \<not> bounded_text (get ''principal_in'')
         then (CONT_UNRESOLVED, ''native_privilege_values_invalid'')
         else settled (get ''principal_out'' = get ''principal_in'' \<and>
                       set (jlist_val (get ''required'')) \<subseteq> set (jlist_val (get ''provided''))))
      else if d = DIM_TEMPORAL then
        (if \<not> list_all (\<lambda>k. is_int (get k)) [''a_start'', ''a_end'', ''b_start'', ''b_end'', ''output_at'', ''input_at'']
         then (CONT_UNRESOLVED, ''native_temporal_values_invalid'')
         else if \<not> list_all (\<lambda>k. bounded_text (get k))
                    [''version_out'', ''version_in'', ''configuration_out'', ''configuration_in'']
         then (CONT_UNRESOLVED, ''native_temporal_identity_missing'')
         else settled (temporal_window values ''a_start'' ''a_end'' \<and> temporal_window values ''b_start'' ''b_end'' \<and>
                       same_members values [(''version_out'', ''version_in''), (''configuration_out'', ''configuration_in'')]))
      else if \<not> fBall (jkeys values) (\<lambda>k. bounded_text (get k))
        then (CONT_UNRESOLVED, ''native_identity_values_missing'')
      else settled (same_members values (fact_pairs d)))"

section \<open>Resolving an edge against the accepted index\<close>

record manifest_core = core +
  core_max_depth :: int
  core_indexes :: "json list"

definition ARTIFACT_KINDS :: "entity_kind list" where
  "ARTIFACT_KINDS = [EK_OBJECT_FILE, EK_LIBRARY, EK_EXECUTABLE, EK_BUILD_ARTIFACT, EK_PACKAGE,
     EK_MANAGED_ASSEMBLY, EK_BYTECODE_MODULE, EK_WASM_MODULE]"

definition expected_kinds :: "(string \<times> entity_kind list) list" where
  "expected_kinds =
     [(''artifact_out'', ARTIFACT_KINDS), (''artifact_in'', ARTIFACT_KINDS),
      (''deployment_out'', [EK_DEPLOYMENT_EVENT]), (''deployment_in'', [EK_DEPLOYMENT_EVENT]),
      (''configuration_out'', [EK_BUILD_ACTION, EK_COMPILE_UNIT]),
      (''configuration_in'', [EK_BUILD_ACTION, EK_COMPILE_UNIT])]"

definition incomplete :: "response \<Rightarrow> bool" where
  "incomplete r = (truncated r \<or> coverage_gaps r \<noteq> [])"

definition resolves_as :: "('a core_scheme) \<Rightarrow> json \<Rightarrow> entity_kind list \<Rightarrow> bool res" where
  "resolves_as core v kinds =
     (case (case v of JStr s \<Rightarrow> parse_identity s | _ \<Rightarrow> Inl TypeError) of
        Inl e \<Rightarrow> (case e of ValueError _ \<Rightarrow> Inr False | _ \<Rightarrow> Inl e)
      | Inr i \<Rightarrow>
          if li_kind i \<notin> set kinds then Inr False
          else rbind (core_find core (li_value i)) (\<lambda>found. Inr (results found \<noteq> [] \<and> \<not> incomplete found)))"

text \<open>\<open>for\<close> with an early \<open>return False\<close>: the remaining items are not evaluated.\<close>

fun rall :: "('a \<Rightarrow> bool res) \<Rightarrow> 'a list \<Rightarrow> bool res" where
  "rall f [] = Inr True"
| "rall f (x # xs) = rbind (f x) (\<lambda>b. if b then rall f xs else Inr False)"

text \<open>One exact, unambiguous row adds a deployment observation or an adjacency.\<close>

definition graph_row ::
  "json \<Rightarrow> json \<Rightarrow> json \<Rightarrow> bool \<times> (json \<times> json) list \<Rightarrow> (bool \<times> (json \<times> json) list) res" where
  "graph_row artifact deployment row st =
     (if \<not> truthy (jget_or_null ''exact'' row) \<or> truthy (jget_or_null ''ambiguity'' row) then Inr st
      else rbind (jget ''source_id'' row) (\<lambda>l. rbind (jget ''target_id'' row) (\<lambda>r.
           rbind (jget ''kind'' row) (\<lambda>k.
             if k = JStr ''OBSERVED_AT'' then Inr (fst st \<or> (l, r) = (artifact, deployment), snd st)
             else if k = JStr ''GENERATED_FROM'' then Inr (fst st, snd st @ [(r, l)])
             else Inr (fst st, snd st @ [(l, r)])))))"

definition successors :: "('v \<times> 'v) list \<Rightarrow> 'v list \<Rightarrow> 'v list" where
  "successors adj frontier = map snd (filter (\<lambda>(l, r). l \<in> set frontier) adj)"

fun reaches_within :: "nat \<Rightarrow> ('v \<times> 'v) list \<Rightarrow> 'v \<Rightarrow> 'v list \<Rightarrow> 'v list \<Rightarrow> bool" where
  "reaches_within 0 adj goal visited frontier = (goal \<in> set frontier)"
| "reaches_within (Suc n) adj goal visited frontier =
     (goal \<in> set frontier \<or>
      (let nxt = filter (\<lambda>v. v \<notin> set visited) (successors adj frontier)
       in reaches_within n adj goal (visited @ nxt) nxt))"

definition reaches :: "('v \<times> 'v) list \<Rightarrow> 'v \<Rightarrow> 'v \<Rightarrow> bool" where
  "reaches adj goal start = reaches_within 3 adj goal [start] [start]"

definition side_connected :: "('a manifest_core_scheme) \<Rightarrow> json \<Rightarrow> string \<Rightarrow> json \<Rightarrow> bool res" where
  "side_connected core values side source =
     rbind (jget (''artifact_'' @ side) values) (\<lambda>artifact.
     rbind (jstr artifact) (\<lambda>a.
     rbind (core_trace core a [''GENERATED_FROM'', ''COMPILES_TO'', ''LINKS_INTO'', ''OBSERVED_AT'']
              (min 3 (core_max_depth core)) (min 100 (core_max_results core))) (\<lambda>response.
       if incomplete response then Inr False
       else rbind (jget (''deployment_'' @ side) values) (\<lambda>deployment.
            rbind (jget (''configuration_'' @ side) values) (\<lambda>configuration.
            rbind (rfold (graph_row artifact deployment) (results response) (False, [])) (\<lambda>(deployed, adj).
              Inr (deployed \<and> reaches adj artifact source \<and> reaches adj artifact configuration)))))))"

definition artifact_resolution :: "('a manifest_core_scheme) \<Rightarrow> edge \<Rightarrow> json \<Rightarrow> bool res" where
  "artifact_resolution core e values =
     rbind (rall (\<lambda>(key, kinds). rbind (jget key values) (\<lambda>v. resolves_as core v kinds)) expected_kinds) (\<lambda>ok.
       if \<not> ok then Inr False
       else rall (\<lambda>(side, source). side_connected core values side (JStr source))
              [(''out'', ed_output_entity e), (''in'', ed_input_entity e)])"

definition DIMENSION_KINDS :: "dimension \<Rightarrow> string list" where
  "DIMENSION_KINDS d = (case d of
     DIM_IDENTITY \<Rightarrow> [''SAME_AS'', ''FLOWS_TO'']
   | DIM_PRIVILEGE \<Rightarrow> [''SUPPORTS'', ''FLOWS_TO'']
   | DIM_TRUST_BOUNDARY \<Rightarrow> [''FLOWS_TO'']
   | DIM_ARTIFACT_DEPLOYMENT \<Rightarrow> [''GENERATED_FROM'', ''COMPILES_TO'', ''LINKS_INTO'', ''OBSERVED_AT'']
   | DIM_TEMPORAL \<Rightarrow> [''FLOWS_TO'', ''OBSERVED_AT''])"

definition FACT_SCHEMA :: string where
  "FACT_SCHEMA = ''appsec-review/chain-continuity-fact/1''"

text \<open>\<open>str(value)\<close> of a shard name; names are strings or numbers.\<close>

fun json_text :: "json \<Rightarrow> string" where
  "json_text (JStr s) = s"
| "json_text (JInt i) = int_str i"
| "json_text (JBool b) = (if b then ''True'' else ''False'')"
| "json_text _ = ''None''"

definition shard_of :: "json \<Rightarrow> string" where
  "shard_of item = json_text (jget_default ''shard_id'' (JStr ''default'') item)"

definition shard_table :: "json list \<Rightarrow> (json \<times> string, json) dict res" where
  "shard_table indexes =
     rfold (\<lambda>item d. rbind (jget ''name'' item) (\<lambda>n. Inr (AList.update (n, shard_of item) item d))) indexes []"

type_synonym evidence_table = "dimension \<Rightarrow> (string \<times> string \<times> string, continuity_evidence) dict"

record edge_state =
  es_evidence :: evidence_table
  es_artifact :: "((string \<times> string \<times> string) \<times> json) list"
  es_temporal :: "((string \<times> string \<times> string) \<times> json) list"

definition put_evidence :: "dimension \<Rightarrow> continuity_evidence \<Rightarrow> evidence_table \<Rightarrow> evidence_table" where
  "put_evidence d item t = t(d := AList.update (evidence_key item) item (t d))"

text \<open>The fact a row carries for this edge, when its producer is commissioned and its shape is closed.\<close>

definition row_fact ::
  "(json \<times> string, json) dict \<Rightarrow> string list \<Rightarrow> edge \<Rightarrow> string \<Rightarrow> string list option \<Rightarrow> json \<Rightarrow>
   (json \<times> dimension \<times> json) option res" where
  "row_fact shards producers e environment selected row =
     (if (case selected of None \<Rightarrow> False
            | Some ids \<Rightarrow> jget_or_null ''relation_id'' row \<notin> set (map JStr ids)) then Inr None
      else if jget_or_null ''source_id'' row \<noteq> JStr (ed_output_entity e) \<or>
              jget_or_null ''target_id'' row \<noteq> JStr (ed_input_entity e) then Inr None
      else case map_of shards (jget_or_null ''index'' row, shard_of row) of
        None \<Rightarrow> Inl (IntegrityError ''continuity query returned a relation outside the accepted manifest'')
      | Some shard \<Rightarrow>
          let provenance = jget_default ''producer'' (jobj []) shard;
              producer = json_text (jget_default ''job_id'' (JStr []) provenance) @ ''/'' @
                         json_text (jget_default ''rule_id'' (JStr []) provenance);
              payload = jget_or_null ''payload'' row
          in if producer \<notin> set producers \<or> \<not> is_obj payload \<or>
                jget_or_null ''schema'' payload \<noteq> JStr FACT_SCHEMA then Inr None
             else case enum_json dimension_members dimension_value (jget_or_null ''dimension'' payload) of
               Inl _ \<Rightarrow> Inr None
             | Inr d \<Rightarrow>
                 if jkeys payload \<noteq> {|''schema'', ''dimension'', ''observed_scope'', ''values''|} \<or>
                    jget_or_null ''observed_scope'' payload \<noteq> JStr environment \<or>
                    jget_or_null ''kind'' row \<notin> set (map JStr (DIMENSION_KINDS d)) \<or>
                    jget_or_null ''exact'' row \<notin> {JBool True, JInt 1} \<or>
                    truthy (jget_or_null ''ambiguity'' row) \<or> \<not> is_obj (jget_or_null ''values'' payload)
                 then Inr None
                 else Inr (Some (shard, d, jget_or_null ''values'' payload)))"

definition resolved_outcome ::
  "('a manifest_core_scheme) \<Rightarrow> edge \<Rightarrow> bool \<Rightarrow> dimension \<Rightarrow> json \<Rightarrow> (continuity_outcome \<times> string) res" where
  "resolved_outcome core e lookup_incomplete d values =
     rbind (if d = DIM_ARTIFACT_DEPLOYMENT \<and> fst (fact_outcome d values) \<noteq> CONT_UNRESOLVED
            then artifact_resolution core e values else Inr True) (\<lambda>connected.
       Inr (if lookup_incomplete then (CONT_UNRESOLVED, ''continuity_lookup_incomplete'')
            else if \<not> connected
            then (CONT_UNRESOLVED, ''source_build_artifact_configuration_deployment_not_connected'')
            else fact_outcome d values))"

definition row_evidence ::
  "hash \<Rightarrow> json \<Rightarrow> json \<Rightarrow> continuity_outcome \<times> string \<Rightarrow> continuity_evidence res" where
  "row_evidence H row shard outcome =
     rbind (rbind (jget ''relation_id'' row) jstr) (\<lambda>rid.
     rbind (rbind (jget ''index'' row) jstr) (\<lambda>index.
     rbind (rbind (jget ''sha256'' shard) jstr) (\<lambda>sha.
       let item = \<lparr>ce_relation_id = rid, ce_index = index, ce_shard_id = shard_of row, ce_shard_sha256 = sha,
             ce_content_sha256 = H (jobj (map (\<lambda>k. (k, jget_or_null k row))
                [''relation_id'', ''kind'', ''source_id'', ''target_id'', ''exact'', ''ambiguity'', ''payload''])),
             ce_outcome = fst outcome, ce_reason = snd outcome\<rparr>
       in rbind (check_evidence item) (\<lambda>_. Inr item))))"

definition resolve_row ::
  "hash \<Rightarrow> ('a manifest_core_scheme) \<Rightarrow> (json \<times> string, json) dict \<Rightarrow> string list \<Rightarrow> edge \<Rightarrow> string \<Rightarrow>
   string list option \<Rightarrow> bool \<Rightarrow> json \<Rightarrow> edge_state \<Rightarrow> edge_state res" where
  "resolve_row H core shards producers e environment selected lookup_incomplete row st =
     rbind (row_fact shards producers e environment selected row) (\<lambda>fact.
       case fact of
         None \<Rightarrow> Inr st
       | Some (shard, d, values) \<Rightarrow>
           rbind (resolved_outcome core e lookup_incomplete d values) (\<lambda>outcome.
           rbind (row_evidence H row shard outcome) (\<lambda>item.
             let st' = st\<lparr>es_evidence := put_evidence d item (es_evidence st)\<rparr>;
                 entry = (evidence_key item, values)
             in Inr (if fst outcome = CONT_UNRESOLVED then st'
                     else if d = DIM_ARTIFACT_DEPLOYMENT then st'\<lparr>es_artifact := es_artifact st @ [entry]\<rparr>
                     else if d = DIM_TEMPORAL then st'\<lparr>es_temporal := es_temporal st @ [entry]\<rparr>
                     else st'))))"

definition mark_disagreement :: "dimension \<Rightarrow> string \<times> string \<times> string \<Rightarrow> evidence_table \<Rightarrow> evidence_table" where
  "mark_disagreement d k t =
     (case map_of (t d) k of
        None \<Rightarrow> t
      | Some item \<Rightarrow> t(d := AList.update k (item\<lparr>ce_outcome := CONT_CONTRADICTED,
            ce_reason := ''artifact_and_temporal_configurations_disagree''\<rparr>) (t d)))"

definition cross_check :: "edge_state \<Rightarrow> evidence_table" where
  "cross_check st =
     fold (\<lambda>(ka, va) t. fold (\<lambda>(kt, vt) t.
         if list_ex (\<lambda>n. jget_or_null n va \<noteq> jget_or_null n vt) [''configuration_out'', ''configuration_in'']
         then mark_disagreement DIM_TEMPORAL kt (mark_disagreement DIM_ARTIFACT_DEPLOYMENT ka t) else t)
       (es_temporal st) t) (es_artifact st) (es_evidence st)"

definition close_obligation ::
  "nat \<Rightarrow> evidence_table \<Rightarrow> dimension \<Rightarrow> obligation \<times> string list" where
  "close_obligation evidence_limit t d =
     (let items = t d; over = length items > evidence_limit;
          items' = (if over then map (\<lambda>(k, i). (k, i\<lparr>ce_outcome := CONT_UNRESOLVED,
                       ce_reason := ''continuity_evidence_cap''\<rparr>)) items else items);
          kept = take evidence_limit (sort (map fst items'))
      in (\<lparr>ob_dimension = d, ob_evidence = List.map_filter (map_of items') kept\<rparr>,
          if over then [dimension_value d @ '':evidence_cap''] else []))"

definition resolve_edge ::
  "hash \<Rightarrow> ('a manifest_core_scheme) \<Rightarrow> edge \<Rightarrow> string \<Rightarrow> string list \<Rightarrow> int \<Rightarrow> nat \<Rightarrow> string list option \<Rightarrow>
   (edge \<times> string list) res" where
  "resolve_edge H core e environment producers limit evidence_limit cited =
     rbind (core_trace core (ed_output_entity e)
              (sorted_set (concat (map DIMENSION_KINDS dimension_members))) 1 limit) (\<lambda>response.
     rbind (rmap jstr (coverage_gaps response)) (\<lambda>reported.
     rbind (shard_table (core_indexes core)) (\<lambda>shards.
       let gaps = reported @ (if truncated response then [''continuity_query_truncated''] else [])
       in rbind (rfold (resolve_row H core shards producers e environment cited (truncated response \<or> gaps \<noteq> []))
                   (results response) \<lparr>es_evidence = (\<lambda>_. []), es_artifact = [], es_temporal = []\<rparr>) (\<lambda>st.
          let closed = map (close_obligation evidence_limit (cross_check st)) dimension_members;
              result = e\<lparr>ed_obligations := map fst closed\<rparr>
          in rbind (rmap check_obligation (ed_obligations result)) (\<lambda>_.
             rbind (check_edge result) (\<lambda>_.
               Inr (result, sorted_set (gaps @ concat (map snd closed)))))))))"

section \<open>Documents\<close>

definition artifact_doc :: "artifact \<Rightarrow> json" where
  "artifact_doc a = jobj [(''path'', JStr (art_path a)), (''sha256'', JStr (art_sha256 a))]"

definition component_doc :: "component \<Rightarrow> json" where
  "component_doc c =
     jobj [(''claim_id'', JStr (cp_claim_id c)), (''adjudication_id'', JStr (cp_adjudication_id c)),
           (''state'', JStr (claim_state_value (cp_state c))),
           (''missing_predicates'', JArr (map JStr (cp_missing_predicates c))),
           (''requires_extra_verifier'', JBool (cp_requires_extra_verifier c))]"

definition evidence_doc :: "continuity_evidence \<Rightarrow> json" where
  "evidence_doc e =
     jobj [(''relation_id'', JStr (ce_relation_id e)), (''index'', JStr (ce_index e)),
           (''shard_id'', JStr (ce_shard_id e)), (''shard_sha256'', JStr (ce_shard_sha256 e)),
           (''content_sha256'', JStr (ce_content_sha256 e)),
           (''outcome'', JStr (continuity_outcome_value (ce_outcome e))), (''reason'', JStr (ce_reason e))]"

definition obligation_doc :: "obligation \<Rightarrow> json" where
  "obligation_doc b =
     jobj [(''dimension'', JStr (dimension_value (ob_dimension b))),
           (''evidence'', JArr (map evidence_doc (ob_evidence b)))]"

definition edge_doc :: "edge \<Rightarrow> json" where
  "edge_doc e =
     jobj [(''from_claim_id'', JStr (ed_from_claim_id e)), (''to_claim_id'', JStr (ed_to_claim_id e)),
           (''output_entity'', JStr (ed_output_entity e)), (''input_entity'', JStr (ed_input_entity e)),
           (''obligations'', JArr (map obligation_doc (ed_obligations e)))]"

definition proposal_doc :: "proposal \<Rightarrow> json" where
  "proposal_doc p =
     jobj [(''chain_id'', JStr (pr_chain_id p)), (''objective'', JStr (pr_objective p)),
           (''environment'', JStr (pr_environment p)), (''components'', JArr (map component_doc (pr_components p))),
           (''edges'', JArr (map edge_doc (pr_edges p))),
           (''prerequisites'', JArr (map JStr (pr_prerequisites p))), (''composer'', actor_doc (pr_composer p))]"

definition challenge_doc :: "challenge \<Rightarrow> json" where
  "challenge_doc c =
     jobj [(''challenge_id'', JStr (ch_challenge_id c)), (''chain_id'', JStr (ch_chain_id c)),
           (''kind'', JStr (ch_kind c)), (''actor'', actor_doc (ch_actor c)), (''status'', JStr (ch_status c)),
           (''request_sha256'', JStr (ch_request_sha256 c)),
           (''receipt'', case ch_receipt c of None \<Rightarrow> JNull | Some a \<Rightarrow> artifact_doc a),
           (''edges'', JArr (map edge_doc (ch_edges c))), (''independent'', JBool (ch_independent c)),
           (''gaps'', JArr (map JStr (ch_gaps c)))]"

definition decision_doc :: "decision \<Rightarrow> json" where
  "decision_doc d =
     jobj [(''chain_id'', JStr (de_chain_id d)), (''status'', JStr (chain_status_value (de_status d))),
           (''limitations'', JArr (map JStr (de_limitations d))),
           (''challenge_ids'', JArr (map JStr (de_challenge_ids d))),
           (''artifact'', artifact_doc (de_artifact d)), (''policy'', JStr (de_policy d))]"

text \<open>Reading: \<open>Record(**value)\<close> rejects unknown members, the rest subscript the ones they need.\<close>

abbreviation jfield :: "string \<Rightarrow> (json \<Rightarrow> 'a res) \<Rightarrow> json \<Rightarrow> 'a res" where
  "jfield k f v \<equiv> rbind (jget k v) f"

definition jobjs :: "(json \<Rightarrow> 'a res) \<Rightarrow> json \<Rightarrow> 'a list res" where
  "jobjs f v = rbind (jlist v) (rmap f)"

definition checked :: "('a \<Rightarrow> unit res) \<Rightarrow> 'a \<Rightarrow> 'a res" where
  "checked check x = rbind (check x) (\<lambda>_. Inr x)"

definition canonical :: "('a \<Rightarrow> json) \<Rightarrow> json \<Rightarrow> 'a \<Rightarrow> 'a res" where
  "canonical doc v x = (if doc x = v then Inr x else Inl (ValueError ''noncanonical or unknown fields''))"

definition artifact_from_json :: "json \<Rightarrow> artifact res" where
  "artifact_from_json v =
     rbind (rguard (jkeys v = {|''path'', ''sha256''|}) TypeError) (\<lambda>_.
     rbind (jfield ''path'' jstr v) (\<lambda>p. rbind (jfield ''sha256'' jstr v) (\<lambda>s.
       checked check_artifact \<lparr>art_path = p, art_sha256 = s\<rparr>)))"

definition actor_from_json :: "json \<Rightarrow> actor_record res" where
  "actor_from_json v =
     rbind (rguard (is_obj v \<and> jkeys v |\<subseteq>| {|''actor_id'', ''provider'', ''model'', ''conversation_id'',
        ''prior_response_sha256'', ''cache_key''|}) TypeError) (\<lambda>_.
     rbind (jfield ''actor_id'' jstr v) (\<lambda>i. rbind (jfield ''provider'' jstr v) (\<lambda>p.
     rbind (jfield ''model'' jstr v) (\<lambda>m. rbind (jfield ''conversation_id'' jstr v) (\<lambda>c.
     rbind (jstr_opt (jget_or_null ''prior_response_sha256'' v)) (\<lambda>r.
     rbind (jstr_opt (jget_or_null ''cache_key'' v)) (\<lambda>k.
       Inr \<lparr>actor_id = i, actor_provider = p, actor_model = m, actor_conversation_id = c,
            actor_prior_response_sha256 = r, actor_cache_key = k\<rparr>)))))))"

definition component_from_json :: "json \<Rightarrow> component res" where
  "component_from_json v =
     rbind (jfield ''claim_id'' jstr v) (\<lambda>c. rbind (jfield ''adjudication_id'' jstr v) (\<lambda>a.
     rbind (jfield ''state'' (enum_json claim_state_members claim_state_value) v) (\<lambda>s.
     rbind (jfield ''missing_predicates'' jstrs v) (\<lambda>m. rbind (jfield ''requires_extra_verifier'' jbool v) (\<lambda>x.
       checked check_component \<lparr>cp_claim_id = c, cp_adjudication_id = a, cp_state = s,
         cp_missing_predicates = m, cp_requires_extra_verifier = x\<rparr>)))))"

definition evidence_from_json :: "json \<Rightarrow> continuity_evidence res" where
  "evidence_from_json v =
     rbind (jfield ''outcome'' (enum_json continuity_outcome_members continuity_outcome_value) v) (\<lambda>out.
     rbind (rguard (jkeys v = {|''relation_id'', ''index'', ''shard_id'', ''shard_sha256'', ''content_sha256'',
        ''outcome'', ''reason''|}) TypeError) (\<lambda>_.
     rbind (jfield ''relation_id'' jstr v) (\<lambda>r. rbind (jfield ''index'' jstr v) (\<lambda>i.
     rbind (jfield ''shard_id'' jstr v) (\<lambda>s. rbind (jfield ''shard_sha256'' jstr v) (\<lambda>h.
     rbind (jfield ''content_sha256'' jstr v) (\<lambda>c. rbind (jfield ''reason'' jstr v) (\<lambda>why.
       checked check_evidence \<lparr>ce_relation_id = r, ce_index = i, ce_shard_id = s, ce_shard_sha256 = h,
         ce_content_sha256 = c, ce_outcome = out, ce_reason = why\<rparr>))))))))"

definition obligation_from_json :: "json \<Rightarrow> obligation res" where
  "obligation_from_json v =
     rbind (jfield ''dimension'' (enum_json dimension_members dimension_value) v) (\<lambda>d.
     rbind (jfield ''evidence'' (jobjs evidence_from_json) v) (\<lambda>es.
       checked check_obligation \<lparr>ob_dimension = d, ob_evidence = es\<rparr>))"

definition edge_from_json :: "json \<Rightarrow> edge res" where
  "edge_from_json v =
     rbind (jfield ''from_claim_id'' jstr v) (\<lambda>f. rbind (jfield ''to_claim_id'' jstr v) (\<lambda>t.
     rbind (jfield ''output_entity'' jstr v) (\<lambda>out. rbind (jfield ''input_entity'' jstr v) (\<lambda>inp.
     rbind (jfield ''obligations'' (jobjs obligation_from_json) v) (\<lambda>bs.
     rbind (checked check_edge \<lparr>ed_from_claim_id = f, ed_to_claim_id = t, ed_output_entity = out,
              ed_input_entity = inp, ed_obligations = bs\<rparr>) (canonical edge_doc v))))))"

definition proposal_from_json :: "hash \<Rightarrow> json \<Rightarrow> proposal res" where
  "proposal_from_json H v =
     rbind (jfield ''chain_id'' jstr v) (\<lambda>i. rbind (jfield ''objective'' jstr v) (\<lambda>obj.
     rbind (jfield ''environment'' jstr v) (\<lambda>env.
     rbind (jfield ''components'' (jobjs component_from_json) v) (\<lambda>cs.
     rbind (jfield ''edges'' (jobjs edge_from_json) v) (\<lambda>es. rbind (jfield ''prerequisites'' jstrs v) (\<lambda>ps.
     rbind (jfield ''composer'' actor_from_json v) (\<lambda>a.
     rbind (checked (check_proposal H) \<lparr>pr_chain_id = i, pr_objective = obj, pr_environment = env,
              pr_components = cs, pr_edges = es, pr_prerequisites = ps, pr_composer = a\<rparr>)
       (canonical proposal_doc v))))))))"

definition receipt_from_json :: "json \<Rightarrow> artifact option res" where
  "receipt_from_json v = (if v = JNull then Inr None else rbind (artifact_from_json v) (\<lambda>a. Inr (Some a)))"

definition challenge_from_json :: "hash \<Rightarrow> json \<Rightarrow> challenge res" where
  "challenge_from_json H v =
     rbind (jfield ''challenge_id'' jstr v) (\<lambda>i. rbind (jfield ''chain_id'' jstr v) (\<lambda>cid.
     rbind (jfield ''kind'' jstr v) (\<lambda>k. rbind (jfield ''actor'' actor_from_json v) (\<lambda>a.
     rbind (jfield ''status'' jstr v) (\<lambda>s. rbind (jfield ''request_sha256'' jstr v) (\<lambda>q.
     rbind (jfield ''receipt'' receipt_from_json v) (\<lambda>r.
     rbind (jfield ''edges'' (jobjs edge_from_json) v) (\<lambda>es. rbind (jfield ''independent'' jbool v) (\<lambda>ind.
     rbind (jfield ''gaps'' jstrs v) (\<lambda>gs.
     rbind (checked (check_challenge H) \<lparr>ch_challenge_id = i, ch_chain_id = cid, ch_kind = k, ch_actor = a,
              ch_status = s, ch_request_sha256 = q, ch_receipt = r, ch_edges = es, ch_independent = ind,
              ch_gaps = gs\<rparr>) (canonical challenge_doc v)))))))))))"

definition decision_from_json :: "json \<Rightarrow> decision res" where
  "decision_from_json v =
     rbind (jfield ''chain_id'' jstr v) (\<lambda>i.
     rbind (jfield ''status'' (enum_json chain_status_members chain_status_value) v) (\<lambda>s.
     rbind (jfield ''limitations'' jstrs v) (\<lambda>ls. rbind (jfield ''challenge_ids'' jstrs v) (\<lambda>cs.
     rbind (jfield ''artifact'' artifact_from_json v) (\<lambda>a. rbind (jfield ''policy'' jstr v) (\<lambda>p.
     rbind (checked check_decision \<lparr>de_chain_id = i, de_status = s, de_limitations = ls,
              de_challenge_ids = cs, de_artifact = a, de_policy = p\<rparr>) (canonical decision_doc v)))))))"

section \<open>Readers accept exactly the documents of valid records\<close>

definition valid_artifact :: "artifact \<Rightarrow> bool" where
  "valid_artifact a = (check_artifact a = Inr ())"

definition valid_obligation :: "obligation \<Rightarrow> bool" where
  "valid_obligation b = (list_all (\<lambda>e. check_evidence e = Inr ()) (ob_evidence b) \<and> check_obligation b = Inr ())"

definition valid_edge :: "edge \<Rightarrow> bool" where
  "valid_edge e = (list_all valid_obligation (ed_obligations e) \<and> check_edge e = Inr ())"

definition valid_proposal :: "hash \<Rightarrow> proposal \<Rightarrow> bool" where
  "valid_proposal H p =
     (list_all (\<lambda>c. check_component c = Inr ()) (pr_components p) \<and> list_all valid_edge (pr_edges p) \<and>
      check_proposal H p = Inr ())"

definition valid_challenge :: "hash \<Rightarrow> challenge \<Rightarrow> bool" where
  "valid_challenge H c =
     (list_all valid_edge (ch_edges c) \<and> (case ch_receipt c of None \<Rightarrow> True | Some a \<Rightarrow> valid_artifact a) \<and>
      check_challenge H c = Inr ())"

definition valid_decision :: "decision \<Rightarrow> bool" where
  "valid_decision d = (valid_artifact (de_artifact d) \<and> check_decision d = Inr ())"

lemma checked_Inr_iff [simp]: "checked f x = Inr y \<longleftrightarrow> f x = Inr () \<and> y = x"
  by (auto simp: checked_def rbind_Inr_iff)

lemma canonical_Inr_iff [simp]: "canonical doc v x = Inr y \<longleftrightarrow> doc x = v \<and> y = x"
  by (auto simp: canonical_def)

lemma checked_ok: "f x = Inr () \<Longrightarrow> checked f x = Inr x"
  by simp

lemma jstrs_Inr_iff: "jstrs v = Inr xs \<longleftrightarrow> v = JArr (map JStr xs)"
proof
  assume "jstrs v = Inr xs"
  then obtain vs where v: "v = JArr vs" and vs: "rmap jstr vs = Inr xs"
    by (cases v) (auto simp: jstrs_def)
  have "jstr w = Inr x \<Longrightarrow> w = JStr x" for w x by (cases w) auto
  then have "vs = map JStr xs"
    using vs by (auto simp: rmap_Inr_iff list_all2_conv_all_nth intro: nth_equalityI)
  with v show "v = JArr (map JStr xs)" by simp
qed simp

interpretation component_codec: codec component_doc component_from_json "\<lambda>c. check_component c = Inr ()"
  by unfold_locales (rename_tac x, case_tac x, simp add: component_doc_def component_from_json_def enum_json_def claim_state_enum.of_val checked_ok)

interpretation evidence_codec: codec evidence_doc evidence_from_json "\<lambda>e. check_evidence e = Inr ()"
  by unfold_locales (rename_tac x, case_tac x, simp add: evidence_doc_def evidence_from_json_def enum_json_def continuity_outcome_enum.of_val checked_ok)

interpretation actor_codec: codec actor_doc actor_from_json "\<lambda>_. True"
  by unfold_locales (rename_tac x, case_tac x, simp add: actor_doc_def actor_from_json_def)

interpretation artifact_codec: codec artifact_doc artifact_from_json valid_artifact
  by unfold_locales (rename_tac x, case_tac x, simp add: artifact_doc_def artifact_from_json_def valid_artifact_def checked_ok)

interpretation obligation_codec: codec obligation_doc obligation_from_json valid_obligation
  by unfold_locales (rename_tac x, case_tac x, simp add: obligation_doc_def obligation_from_json_def valid_obligation_def enum_json_def dimension_enum.of_val jobjs_def evidence_codec.parse_docs checked_ok)

lemma jobjs_all: "jobjs f v = Inr xs \<Longrightarrow> (\<And>v x. f v = Inr x \<Longrightarrow> P x) \<Longrightarrow> list_all P xs"
  by (auto simp: jobjs_def rbind_Inr_iff intro: rmap_all)

lemma from_json_valid:
  "component_from_json v = Inr c \<Longrightarrow> check_component c = Inr ()"
  "evidence_from_json v = Inr e \<Longrightarrow> check_evidence e = Inr ()"
  "artifact_from_json v = Inr a \<Longrightarrow> valid_artifact a"
  by (auto simp: component_from_json_def evidence_from_json_def artifact_from_json_def valid_artifact_def
        rbind_Inr_iff)

lemma receipt_round_trip:
  "(case r of None \<Rightarrow> True | Some a \<Rightarrow> valid_artifact a) \<Longrightarrow>
   receipt_from_json (case r of None \<Rightarrow> JNull | Some a \<Rightarrow> artifact_doc a) = Inr r"
proof (cases r)
  case (Some a)
  moreover have "artifact_doc a \<noteq> JNull" by (simp add: artifact_doc_def)
  moreover assume "case r of None \<Rightarrow> True | Some a \<Rightarrow> valid_artifact a"
  ultimately show ?thesis by (simp add: receipt_from_json_def artifact_codec.parse_doc)
qed (simp add: receipt_from_json_def)

lemma obligation_from_json_valid: "obligation_from_json v = Inr b \<Longrightarrow> valid_obligation b"
  by (auto simp: obligation_from_json_def valid_obligation_def rbind_Inr_iff
        elim!: jobjs_all dest: from_json_valid)

lemma edge_from_json_valid: "edge_from_json v = Inr e \<Longrightarrow> valid_edge e"
  by (auto simp: edge_from_json_def valid_edge_def rbind_Inr_iff
        elim!: jobjs_all dest: obligation_from_json_valid)

interpretation edge_codec: strict_codec edge_doc edge_from_json valid_edge
proof
  fix x
  assume "valid_edge x"
  then show "edge_from_json (edge_doc x) = Inr x"
    by (cases x) (simp add: edge_from_json_def edge_doc_def valid_edge_def jobjs_def
       obligation_codec.parse_docs checked_ok canonical_def)
next
  fix v x
  assume e: "edge_from_json v = Inr x"
  then have "v = edge_doc x" by (auto simp: edge_from_json_def rbind_Inr_iff)
  with edge_from_json_valid [OF e] show "v = edge_doc x \<and> valid_edge x" by blast
qed

interpretation proposal_codec: strict_codec proposal_doc "proposal_from_json H" "valid_proposal H" for H
proof
  fix x
  assume "valid_proposal H x"
  then show "proposal_from_json H (proposal_doc x) = Inr x"
    by (cases x) (simp add: proposal_from_json_def proposal_doc_def valid_proposal_def jobjs_def
       component_codec.parse_docs edge_codec.parse_docs actor_codec.parse_doc checked_ok canonical_def)
next
  fix v x
  assume "proposal_from_json H v = Inr x"
  then show "v = proposal_doc x \<and> valid_proposal H x"
    by (auto simp: proposal_from_json_def valid_proposal_def rbind_Inr_iff
          elim!: jobjs_all dest: from_json_valid edge_from_json_valid)
qed

interpretation challenge_codec: strict_codec challenge_doc "challenge_from_json H" "valid_challenge H" for H
proof
  fix x
  assume "valid_challenge H x"
  then show "challenge_from_json H (challenge_doc x) = Inr x"
    by (cases x) (simp add: challenge_from_json_def challenge_doc_def valid_challenge_def jobjs_def
       receipt_round_trip edge_codec.parse_docs actor_codec.parse_doc checked_ok canonical_def)
next
  fix v x
  assume "challenge_from_json H v = Inr x"
  then show "v = challenge_doc x \<and> valid_challenge H x"
    by (auto simp: challenge_from_json_def valid_challenge_def receipt_from_json_def rbind_Inr_iff
          elim!: jobjs_all dest: from_json_valid edge_from_json_valid split: if_splits)
qed

interpretation decision_codec: strict_codec decision_doc decision_from_json valid_decision
proof
  fix x
  assume "valid_decision x"
  then show "decision_from_json (decision_doc x) = Inr x"
    by (cases x) (simp add: decision_from_json_def decision_doc_def valid_decision_def enum_json_def
       chain_status_enum.of_val artifact_codec.parse_doc checked_ok canonical_def)
next
  fix v x
  assume "decision_from_json v = Inr x"
  then show "v = decision_doc x \<and> valid_decision x"
    by (auto simp: decision_from_json_def valid_decision_def rbind_Inr_iff dest: from_json_valid)
qed

section \<open>Reading a decision\<close>

definition challenge_of :: "challenge list \<Rightarrow> string \<Rightarrow> challenge option" where
  "challenge_of cs kind = List.find (\<lambda>c. ch_kind c = kind) cs"

lemma add_challenges_lookup:
  "rfold (add_challenge p) cs acc = Inr by_kind \<Longrightarrow>
   map_of by_kind k = (case map_of acc k of Some c \<Rightarrow> Some c | None \<Rightarrow> challenge_of cs k)"
  by (induction cs arbitrary: acc)
    (auto simp: challenge_of_def add_challenge_def rbind_Inr_iff split: option.split)

lemmas by_kind_lookup = add_challenges_lookup [where acc = "[]", simplified]

lemma chain_decide_elim:
  assumes "chain_decide p cs = Inr (status, lims)"
  obtains by_kind where "rfold (add_challenge p) cs [] = Inr by_kind" "map_of by_kind = challenge_of cs"
    "(status, lims) =
      (if contradicted_obligations (pr_edges p @ concat (map ch_edges cs)) \<noteq> []
       then (CHAIN_REFUTED, sorted_set (contradicted_obligations (pr_edges p @ concat (map ch_edges cs))))
       else if concat (map (challenge_failures p by_kind) (required_challenges p)) \<noteq> []
       then (CHAIN_INSUFFICIENT_EVIDENCE, sorted_set (concat (map (challenge_failures p by_kind) (required_challenges p))))
       else if \<not> meaningful p then (CHAIN_INSUFFICIENT_EVIDENCE,
         sorted_set ((component_limitations (pr_components p) @ edge_limitations p by_kind) @
           [''no_meaningful_accepted_continuity_evidence'']))
       else if component_limitations (pr_components p) @ edge_limitations p by_kind \<noteq> []
       then (CHAIN_QUALIFIED_SUPPORTED, sorted_set (component_limitations (pr_components p) @ edge_limitations p by_kind))
       else (CHAIN_CONFIRMED, []))"
proof -
  from assms obtain by_kind where b: "rfold (add_challenge p) cs [] = Inr by_kind"
    by (auto simp: chain_decide_def rbind_Inr_iff)
  have "map_of by_kind = challenge_of cs" using by_kind_lookup [OF b] by (rule ext)
  with assms b show ?thesis
    by (intro that [of by_kind]) (simp_all add: chain_decide_def Let_def)
qed

lemma contradicted_obligations_empty:
  "contradicted_obligations es = [] \<longleftrightarrow>
     (\<forall>e\<in>set es. \<forall>b\<in>set (ed_obligations e). ob_outcome b \<noteq> CONT_CONTRADICTED)"
  by (auto simp: contradicted_obligations_def filter_empty_conv)

lemma edge_limitations_empty:
  "edge_limitations p by_kind = [] \<longleftrightarrow>
     (\<forall>i<length (pr_edges p). \<forall>b\<in>set (ed_obligations (pr_edges p ! i)). ob_outcome b = CONT_SATISFIED \<and>
        (\<forall>k\<in>set (required_challenges p). checked_outcome by_kind k i (ob_dimension b) = CONT_SATISFIED))"
proof -
  have ball: "(\<forall>x\<in>set (enumerate 0 xs). P x) \<longleftrightarrow> (\<forall>i<length xs. P (i, xs ! i))" for P and xs :: "edge list"
    by (auto simp: in_set_enumerate_eq)
  show ?thesis
    by (simp add: edge_limitations_def ball) (auto simp: obligation_limitations_def Let_def filter_empty_conv)
qed

text \<open>A challenge that stands: it ran, was independent of the other actors, and left no gap.\<close>

definition stands :: "challenge \<Rightarrow> actor_record list \<Rightarrow> bool \<Rightarrow> bool" where
  "stands c others distinct_model =
     (ch_status c = ''succeeded'' \<and> ch_independent c \<and> independent_actor (ch_actor c) others distinct_model \<and>
      ch_gaps c = [])"

definition resatisfies :: "challenge \<Rightarrow> nat \<Rightarrow> bool" where
  "resatisfies c n =
     (\<forall>i<n. \<forall>d. ob_outcome (ed_obligations (ch_edges c ! i) ! enum_index dimension_members d) = CONT_SATISFIED)"

lemma challenge_failures_empty:
  assumes "challenge_failures p by_kind kind = []" and "map_of by_kind = challenge_of cs"
  obtains c where "challenge_of cs kind = Some c"
    "stands c (pr_composer p # (if kind = ''weakest_link_verifier''
       then (case challenge_of cs ''refuter'' of None \<Rightarrow> [] | Some r \<Rightarrow> [ch_actor r]) else []))
       (kind = ''weakest_link_verifier'')"
proof (cases "challenge_of cs kind")
  case None
  with assms show ?thesis by (simp add: challenge_failures_def Let_def)
next
  case (Some c)
  with assms have "stands c (pr_composer p # (if kind = ''weakest_link_verifier''
       then (case challenge_of cs ''refuter'' of None \<Rightarrow> [] | Some r \<Rightarrow> [ch_actor r]) else []))
       (kind = ''weakest_link_verifier'')"
    unfolding challenge_failures_def Let_def assms(2) stands_def by (simp split: if_split_asm)
  with Some show ?thesis by (rule that)
qed

lemma challenge_of_SomeD: "challenge_of cs k = Some c \<Longrightarrow> c \<in> set cs \<and> ch_kind c = k"
  by (auto simp: challenge_of_def find_Some_iff)

lemma valid_proposal_facts:
  assumes "valid_proposal H p"
  shows "c \<in> set (pr_components p) \<Longrightarrow> cp_state c = SUPPORTED \<or> cp_state c = CONFIRMED"
    and "e \<in> set (pr_edges p) \<Longrightarrow> ob_dimension ` set (ed_obligations e) = UNIV"
proof -
  assume "c \<in> set (pr_components p)"
  with assms show "cp_state c = SUPPORTED \<or> cp_state c = CONFIRMED"
    by (auto simp: valid_proposal_def check_component_def list_all_iff)
next
  assume "e \<in> set (pr_edges p)"
  with assms have "map ob_dimension (ed_obligations e) = dimension_members"
    by (auto simp: valid_proposal_def valid_edge_def check_edge_def list_all_iff rbind_Inr_iff)
  then show "ob_dimension ` set (ed_obligations e) = UNIV"
    using dimension_enum.complete by (metis UNIV_eq_I set_map)
qed

section \<open>A concrete chain\<close>

text \<open>Two confirmed claims joined by one edge with accepted evidence in every dimension, and a refuter.\<close>

definition sample_hex :: "char \<Rightarrow> string" where
  "sample_hex c = replicate 64 c"

definition sample_hash :: hash where
  "sample_hash = (\<lambda>_. sample_hex CHR ''a'')"

definition sample_component :: "char \<Rightarrow> component" where
  "sample_component c =
     \<lparr>cp_claim_id = ''claim-'' @ sample_hex c, cp_adjudication_id = ''adjudication-'' @ sample_hex c,
      cp_state = CONFIRMED, cp_missing_predicates = [], cp_requires_extra_verifier = False\<rparr>"

definition sample_evidence :: "continuity_outcome \<Rightarrow> continuity_evidence" where
  "sample_evidence out =
     \<lparr>ce_relation_id = ''rel:'' @ sample_hex CHR ''1'', ce_index = ''runtime'', ce_shard_id = ''s0'',
      ce_shard_sha256 = sample_hex CHR ''2'', ce_content_sha256 = sample_hex CHR ''3'', ce_outcome = out,
      ce_reason = ''native_values''\<rparr>"

definition sample_edge :: "continuity_outcome \<Rightarrow> edge" where
  "sample_edge out =
     \<lparr>ed_from_claim_id = ''claim-'' @ sample_hex CHR ''0'', ed_to_claim_id = ''claim-'' @ sample_hex CHR ''1'',
      ed_output_entity = sample_identity ''symbol'', ed_input_entity = sample_identity ''symbol'',
      ed_obligations = map (\<lambda>d. \<lparr>ob_dimension = d, ob_evidence = [sample_evidence out]\<rparr>) dimension_members\<rparr>"

definition sample_proposal :: "continuity_outcome \<Rightarrow> proposal" where
  "sample_proposal out =
     \<lparr>pr_chain_id = ''chain-'' @ sample_hex CHR ''a'', pr_objective = ''root'', pr_environment = ''prod'',
      pr_components = [sample_component CHR ''0'', sample_component CHR ''1''], pr_edges = [sample_edge out],
      pr_prerequisites = [], pr_composer = sample_actor ''composer''\<rparr>"

definition sample_refuter :: "continuity_outcome \<Rightarrow> challenge" where
  "sample_refuter out =
     \<lparr>ch_challenge_id = ''chain_challenge-'' @ sample_hex CHR ''a'', ch_chain_id = ''chain-'' @ sample_hex CHR ''a'',
      ch_kind = ''refuter'', ch_actor = sample_actor ''refuter'', ch_status = ''succeeded'',
      ch_request_sha256 = sample_hex CHR ''4'', ch_receipt = None, ch_edges = [sample_edge out],
      ch_independent = True, ch_gaps = []\<rparr>"

definition sample_index :: manifest_core where
  "sample_index = core.extend (sample_core ''symbol'' JNull) (manifest_core.fields 3 [])"

section \<open>Properties of the policy\<close>

text \<open>
  C6. A confirmed chain is confirmed link by link. If the policy confirms a valid proposal, every
  component claim is confirmed, every continuity obligation of every edge is satisfied by accepted
  evidence and contradicted nowhere, and an independent refuter succeeded without gaps and
  re-established every obligation; where a component asks for it, so did a weakest-link verifier
  independent of composer and refuter and on another model.
\<close>

theorem chain_confirmed_sound:
  assumes "chain_decide p cs = Inr (CHAIN_CONFIRMED, lims)" and "valid_proposal H p"
  shows "lims = [] \<and> (\<forall>c\<in>set (pr_components p). cp_state c = CONFIRMED) \<and>
    (\<forall>e\<in>set (pr_edges p). \<forall>b\<in>set (ed_obligations e). ob_outcome b = CONT_SATISFIED) \<and>
    (\<forall>c\<in>set cs. \<forall>e\<in>set (ch_edges c). \<forall>b\<in>set (ed_obligations e). ob_outcome b \<noteq> CONT_CONTRADICTED) \<and>
    (\<exists>r\<in>set cs. ch_kind r = ''refuter'' \<and> stands r [pr_composer p] False \<and>
       resatisfies r (length (pr_edges p)) \<and>
       (requires_extra_verifier p \<longrightarrow>
         (\<exists>v\<in>set cs. ch_kind v = ''weakest_link_verifier'' \<and> stands v [pr_composer p, ch_actor r] True \<and>
            resatisfies v (length (pr_edges p)))))"
proof -
  from assms(1) obtain bk where bk: "map_of bk = challenge_of cs"
    and l: "lims = []"
    and nc: "contradicted_obligations (pr_edges p @ concat (map ch_edges cs)) = []"
    and f: "concat (map (challenge_failures p bk) (required_challenges p)) = []"
    and lim: "component_limitations (pr_components p) = []" "edge_limitations p bk = []"
    by (rule chain_decide_elim) (auto split: if_split_asm)
  have comp: "\<forall>c\<in>set (pr_components p). cp_state c = CONFIRMED"
    using lim(1) valid_proposal_facts(1) [OF assms(2)]
    by (fastforce simp: component_limitations_def filter_empty_conv)
  have edges: "\<forall>i<length (pr_edges p). \<forall>b\<in>set (ed_obligations (pr_edges p ! i)). ob_outcome b = CONT_SATISFIED \<and>
      (\<forall>k\<in>set (required_challenges p). checked_outcome bk k i (ob_dimension b) = CONT_SATISFIED)"
    using lim(2) by (simp only: edge_limitations_empty)
  have re: "resatisfies c (length (pr_edges p))"
    if "k \<in> set (required_challenges p)" "challenge_of cs k = Some c" for k c
    unfolding resatisfies_def
  proof (intro allI impI)
    fix i d
    assume i: "i < length (pr_edges p)"
    then have "ob_dimension ` set (ed_obligations (pr_edges p ! i)) = UNIV"
      by (intro valid_proposal_facts(2) [OF assms(2)]) simp
    then obtain b where "b \<in> set (ed_obligations (pr_edges p ! i))" "d = ob_dimension b" by blast
    with edges i that(1) have "checked_outcome bk k i d = CONT_SATISFIED" by blast
    then show "ob_outcome (ed_obligations (ch_edges c ! i) ! enum_index dimension_members d) = CONT_SATISFIED"
      by (simp add: checked_outcome_def bk that(2))
  qed
  have ref: "''refuter'' \<in> set (required_challenges p)" by (simp add: required_challenges_def)
  with f have "challenge_failures p bk ''refuter'' = []" by simp
  then obtain r where r: "challenge_of cs ''refuter'' = Some r" "stands r [pr_composer p] False"
    by (rule challenge_failures_empty [OF _ bk]) simp
  have wlv: "\<exists>v\<in>set cs. ch_kind v = ''weakest_link_verifier'' \<and> stands v [pr_composer p, ch_actor r] True \<and>
      resatisfies v (length (pr_edges p))" if "requires_extra_verifier p"
  proof -
    have k: "''weakest_link_verifier'' \<in> set (required_challenges p)"
      using that by (simp add: required_challenges_def)
    with f have "challenge_failures p bk ''weakest_link_verifier'' = []" by simp
    then obtain v where v: "challenge_of cs ''weakest_link_verifier'' = Some v"
      "stands v [pr_composer p, ch_actor r] True"
      by (rule challenge_failures_empty [OF _ bk]) (simp add: r(1))
    with re [OF k v(1)] challenge_of_SomeD show ?thesis by blast
  qed
  have all: "\<forall>e\<in>set (pr_edges p). \<forall>b\<in>set (ed_obligations e). ob_outcome b = CONT_SATISFIED"
    using edges by (metis in_set_conv_nth)
  have none: "\<forall>c\<in>set cs. \<forall>e\<in>set (ch_edges c). \<forall>b\<in>set (ed_obligations e). ob_outcome b \<noteq> CONT_CONTRADICTED"
    using nc by (auto simp: contradicted_obligations_empty)
  show ?thesis
    using l comp all none wlv r(2) re [OF ref r(1)] challenge_of_SomeD [OF r(1)] by blast
qed

theorem chain_confirmed_sound_witness:
  "chain_decide (sample_proposal CONT_SATISFIED) [sample_refuter CONT_SATISFIED] = Inr (CHAIN_CONFIRMED, []) \<and>
   (\<exists>r\<in>set [sample_refuter CONT_SATISFIED]. stands r [pr_composer (sample_proposal CONT_SATISFIED)] False)"
proof -
  have d: "chain_decide (sample_proposal CONT_SATISFIED) [sample_refuter CONT_SATISFIED] = Inr (CHAIN_CONFIRMED, [])"
    by code_simp
  have v: "valid_proposal sample_hash (sample_proposal CONT_SATISFIED)" by code_simp
  from d chain_confirmed_sound [OF d v] show ?thesis by blast
qed

text \<open>
  Refutation needs and takes one contradiction. Whatever the challenges claim of themselves,
  the policy refutes a chain if and only if some obligation of the proposal or of a challenge is
  contradicted by accepted evidence.
\<close>

lemma chain_refuted_iff:
  assumes "chain_decide p cs = Inr (status, lims)"
  shows "status = CHAIN_REFUTED \<longleftrightarrow>
    (\<exists>e\<in>set (pr_edges p) \<union> (\<Union>c\<in>set cs. set (ch_edges c)). \<exists>b\<in>set (ed_obligations e).
       ob_outcome b = CONT_CONTRADICTED)"
proof -
  have "status = CHAIN_REFUTED \<longleftrightarrow> contradicted_obligations (pr_edges p @ concat (map ch_edges cs)) \<noteq> []"
    using assms by (rule chain_decide_elim) (auto split: if_split_asm)
  then show ?thesis by (auto simp: contradicted_obligations_empty)
qed

section \<open>Only complete lookups of commissioned producers settle an obligation\<close>

lemma in_set_map_filter: "y \<in> set (List.map_filter f xs) \<longleftrightarrow> (\<exists>x\<in>set xs. f x = Some y)"
  by (induction xs) (auto split: option.split)

definition all_unresolved :: "edge_state \<Rightarrow> bool" where
  "all_unresolved st =
     ((\<forall>d. \<forall>ki\<in>set (es_evidence st d). ce_outcome (snd ki) = CONT_UNRESOLVED) \<and>
      es_artifact st = [] \<and> es_temporal st = [])"

lemma put_evidence_unresolved:
  "all_unresolved st \<Longrightarrow> ce_outcome item = CONT_UNRESOLVED \<Longrightarrow>
   all_unresolved (st\<lparr>es_evidence := put_evidence d item (es_evidence st)\<rparr>)"
  using set_update_subset by (fastforce simp: all_unresolved_def put_evidence_def)

lemma row_evidence_outcome: "row_evidence H row shard out = Inr item \<Longrightarrow> ce_outcome item = fst out"
  by (auto simp: row_evidence_def rbind_Inr_iff Let_def)

lemma row_fact_no_producer: "row_fact shards [] e env sel row = Inr fc \<Longrightarrow> fc = None"
  by (auto simp: row_fact_def Let_def split: if_split_asm option.split_asm)

lemma resolve_row_unresolved:
  assumes "resolve_row H core shards producers e env sel incomp row st = Inr st'"
    and "all_unresolved st" and "producers = [] \<or> incomp"
  shows "all_unresolved st'"
proof -
  from assms(1) obtain fc where fc: "row_fact shards producers e env sel row = Inr fc"
    by (auto simp: resolve_row_def rbind_Inr_iff)
  show ?thesis
  proof (cases fc)
    case None
    with assms(1,2) fc show ?thesis by (simp add: resolve_row_def)
  next
    case (Some sdv)
    then have incomp using assms(3) fc row_fact_no_producer by blast
    obtain shard d vals where "sdv = (shard, d, vals)" by (cases sdv)
    with assms(1) fc Some \<open>incomp\<close> obtain item
      where "row_evidence H row shard (CONT_UNRESOLVED, ''continuity_lookup_incomplete'') = Inr item"
        "st' = st\<lparr>es_evidence := put_evidence d item (es_evidence st)\<rparr>"
      by (auto simp: resolve_row_def resolved_outcome_def rbind_Inr_iff Let_def split: if_split_asm)
    with put_evidence_unresolved [OF assms(2)] row_evidence_outcome show ?thesis by fastforce
  qed
qed

lemma close_obligation_unresolved:
  assumes "\<forall>ki\<in>set (t d). ce_outcome (snd ki) = CONT_UNRESOLVED"
  shows "ob_outcome (fst (close_obligation n t d)) = CONT_UNRESOLVED"
proof -
  have "ce_outcome i = CONT_UNRESOLVED" if "i \<in> set (ob_evidence (fst (close_obligation n t d)))" for i
    using that assms
    by (auto simp: close_obligation_def Let_def in_set_map_filter split: if_split_asm dest!: map_of_SomeD)
  then show ?thesis by (auto simp: ob_outcome_def list_ex_iff)
qed

text \<open>
  Continuity is established only from complete answers of commissioned producers. If no
  producer is commissioned, or the index answer for the edge was truncated or reported coverage
  gaps, then every obligation of the resolved edge is unresolved: nothing is satisfied, and nothing
  is contradicted either.
\<close>

lemma resolve_edge_unresolved:
  assumes "resolve_edge H core e env producers limit n cited = Inr (e', gaps)"
    and "core_trace core (ed_output_entity e) (sorted_set (concat (map DIMENSION_KINDS dimension_members))) 1 limit =
      Inr response"
    and "producers = [] \<or> truncated response \<or> coverage_gaps response \<noteq> []"
  shows "\<forall>b\<in>set (ed_obligations e'). ob_outcome b = CONT_UNRESOLVED"
proof -
  let ?init = "\<lparr>es_evidence = (\<lambda>_. []), es_artifact = [], es_temporal = []\<rparr>"
  from assms(1,2) obtain reported shards st
    where rep: "rmap jstr (coverage_gaps response) = Inr reported"
      and loop: "rfold (resolve_row H core shards producers e env cited (truncated response \<or>
         reported @ (if truncated response then [''continuity_query_truncated''] else []) \<noteq> []))
         (results response) ?init = Inr st"
      and e': "ed_obligations e' = map fst (map (close_obligation n (cross_check st)) dimension_members)"
    by (auto simp: resolve_edge_def rbind_Inr_iff Let_def simp del: map_map)
  have "reported = [] \<Longrightarrow> coverage_gaps response = []"
    using rep by (cases "coverage_gaps response") (auto simp: rbind_Inr_iff)
  with assms(3) have stop: "producers = [] \<or> (truncated response \<or>
      reported @ (if truncated response then [''continuity_query_truncated''] else []) \<noteq> [])"
    by auto
  have "all_unresolved ?init" by (simp add: all_unresolved_def)
  with loop have "all_unresolved st"
    by (rule rfold_invariant) (erule resolve_row_unresolved [OF _ _ stop])
  then have "\<forall>ki\<in>set (cross_check st d). ce_outcome (snd ki) = CONT_UNRESOLVED" for d
    by (simp add: cross_check_def all_unresolved_def)
  then show ?thesis using e' close_obligation_unresolved by auto
qed

section \<open>The bounded search is reachability\<close>

text \<open>
  A path from the visited part to an unvisited goal first leaves it through the frontier, when all
  edges of the older vertices lead into the visited part.
\<close>

lemma path_leaves_by_frontier:
  assumes "(y, goal) \<in> R ^^ m" and "y \<in> V" and "goal \<notin> V"
    and "\<And>l r. (l, r) \<in> R \<Longrightarrow> l \<in> V - F \<Longrightarrow> r \<in> V"
  shows "\<exists>x k. k < m \<and> (x, goal) \<in> R ^^ k \<and> x \<notin> V \<and> (\<exists>l\<in>F. (l, x) \<in> R)"
  using assms(1,2)
proof (induction m arbitrary: y)
  case 0
  with assms(3) show ?case by simp
next
  case (Suc m)
  then obtain z where z: "(y, z) \<in> R" "(z, goal) \<in> R ^^ m" by (meson relpow_Suc_D2)
  show ?case
  proof (cases "z \<in> V")
    case True
    with Suc.IH [OF z(2)] show ?thesis using less_Suc_eq by blast
  next
    case False
    then have "y \<in> F" using assms(4) z(1) Suc.prems(2) by blast
    with z False show ?thesis by blast
  qed
qed

lemma set_successors: "set (successors adj frontier) = {r. \<exists>l\<in>set frontier. (l, r) \<in> set adj}"
  by (force simp: successors_def)

lemma reaches_within_iff:
  assumes "set F \<subseteq> set V" and "goal \<notin> set V - set F"
    and "\<And>l r. (l, r) \<in> set adj \<Longrightarrow> l \<in> set V - set F \<Longrightarrow> r \<in> set V"
  shows "reaches_within n adj goal V F \<longleftrightarrow> (\<exists>x\<in>set F. \<exists>m\<le>n. (x, goal) \<in> set adj ^^ m)"
  using assms
proof (induction n arbitrary: V F)
  case 0
  then show ?case by simp
next
  case (Suc n)
  let ?N = "filter (\<lambda>v. v \<notin> set V) (successors adj F)"
  show ?case
  proof (cases "goal \<in> set F")
    case True
    then show ?thesis by (auto intro!: bexI [of _ goal] exI [of _ 0])
  next
    case False
    then have out: "goal \<notin> set V" using Suc.prems(2) by blast
    have step: "reaches_within n adj goal (V @ ?N) ?N \<longleftrightarrow> (\<exists>x\<in>set ?N. \<exists>m\<le>n. (x, goal) \<in> set adj ^^ m)"
    proof (rule Suc.IH)
      show "set ?N \<subseteq> set (V @ ?N)" by simp
      show "goal \<notin> set (V @ ?N) - set ?N" using out by auto
      show "r \<in> set (V @ ?N)" if "(l, r) \<in> set adj" "l \<in> set (V @ ?N) - set ?N" for l r
        using that Suc.prems(3) [of l r] by (auto simp: set_successors)
    qed
    have "(\<exists>x\<in>set ?N. \<exists>m\<le>n. (x, goal) \<in> set adj ^^ m) \<longleftrightarrow> (\<exists>x\<in>set F. \<exists>m\<le>Suc n. (x, goal) \<in> set adj ^^ m)"
    proof
      assume "\<exists>x\<in>set ?N. \<exists>m\<le>n. (x, goal) \<in> set adj ^^ m"
      then obtain x m l where "m \<le> n" "(x, goal) \<in> set adj ^^ m" "l \<in> set F" "(l, x) \<in> set adj"
        by (auto simp: set_successors)
      then show "\<exists>x\<in>set F. \<exists>m\<le>Suc n. (x, goal) \<in> set adj ^^ m"
        by (meson relpow_Suc_I2 Suc_le_mono)
    next
      assume "\<exists>x\<in>set F. \<exists>m\<le>Suc n. (x, goal) \<in> set adj ^^ m"
      then obtain y m where ym: "y \<in> set F" "m \<le> Suc n" "(y, goal) \<in> set adj ^^ m" by blast
      then have "y \<in> set V" using Suc.prems(1) by blast
      then have "\<exists>x k. k < m \<and> (x, goal) \<in> set adj ^^ k \<and> x \<notin> set V \<and> (\<exists>l\<in>set F. (l, x) \<in> set adj)"
        by (rule path_leaves_by_frontier [OF ym(3) _ out]) (fact Suc.prems(3))
      then obtain x k l where "k < m" "(x, goal) \<in> set adj ^^ k" "x \<notin> set V" "l \<in> set F" "(l, x) \<in> set adj"
        by blast
      moreover from this ym(2) have "k \<le> n" "x \<in> set ?N" by (auto simp: set_successors)
      ultimately show "\<exists>x\<in>set ?N. \<exists>m\<le>n. (x, goal) \<in> set adj ^^ m" by blast
    qed
    with step False show ?thesis by (simp add: Let_def)
  qed
qed

section \<open>Further properties\<close>

text \<open>
  C7. The pruned breadth-first search of \<open>_artifact_resolution\<close> is exactly reachability in at most
  three steps: \<open>reaches\<close> holds if and only if the recorded relations contain a path of length at
  most three from the start to the artifact.
\<close>

theorem reaches_iff: "reaches adj goal start \<longleftrightarrow> (\<exists>m\<le>3. (start, goal) \<in> set adj ^^ m)"
  unfolding reaches_def by (subst reaches_within_iff) auto

text \<open>
  C8. One document per chain record. The readers of proposals, challenges, decisions and edges
  accept a JSON value if and only if it is the document of a record that passes all constructor
  checks, and return that record; so documents and valid records correspond one to one.
\<close>

theorem chain_codecs_exact:
  "(proposal_from_json H v = Inr p \<longleftrightarrow> v = proposal_doc p \<and> valid_proposal H p) \<and>
   (challenge_from_json H v = Inr c \<longleftrightarrow> v = challenge_doc c \<and> valid_challenge H c) \<and>
   (decision_from_json v = Inr d \<longleftrightarrow> v = decision_doc d \<and> valid_decision d) \<and>
   (edge_from_json v = Inr e \<longleftrightarrow> v = edge_doc e \<and> valid_edge e)"
  by (simp only: proposal_codec.parse_iff challenge_codec.parse_iff decision_codec.parse_iff
      edge_codec.parse_iff simp_thms)

end
