(* ===== verification/Ledger.thy ===== *)
theory Ledger
  imports Attack_Chains
begin

text \<open>
  The append-only claim ledger of \<open>review/ledger.py\<close>: record documents, the hash-chained event
  stream a \<open>LedgerWriter\<close> builds, verification of a shard and the canonical merge of shards.

  An event is the record \<open>event\<close>, its JSON object \<open>event_json\<close>. Verification reads JSON values, as the
  code does after decoding a shard's lines; a member of the wrong JSON type is an invalid shape. Files
  are values: a shard is the list of its decoded lines, and sealing compares with the list already
  on disk. What merge and projection read of an event is its \<open>content\<close> (stream, kind, subject, body);
  chain metadata never enters.
\<close>

section \<open>Events\<close>

datatype event_kind =
    E_CLAIM_PROPOSED
  | E_RELATION_ADDED
  | E_EVIDENCE_REQUEST_OPENED
  | E_EVIDENCE_REQUEST_CLOSED
  | E_DUPLICATE_MARKED
  | E_STATE_TRANSITION
  | E_GAP_RECORDED
  | E_CELL_TERMINAL
  | E_JUDGE_VERDICT
  | E_CHAIN_PROPOSED
  | E_CHAIN_CHALLENGED
  | E_CHAIN_DECIDED

definition event_kind_members :: "event_kind list" where
  "event_kind_members = [E_CLAIM_PROPOSED, E_RELATION_ADDED, E_EVIDENCE_REQUEST_OPENED,
     E_EVIDENCE_REQUEST_CLOSED, E_DUPLICATE_MARKED, E_STATE_TRANSITION, E_GAP_RECORDED,
     E_CELL_TERMINAL, E_JUDGE_VERDICT, E_CHAIN_PROPOSED, E_CHAIN_CHALLENGED,
     E_CHAIN_DECIDED]"

primrec event_kind_value :: "event_kind \<Rightarrow> string" where
  "event_kind_value E_CLAIM_PROPOSED = ''claim_proposed''"
| "event_kind_value E_RELATION_ADDED = ''relation_added''"
| "event_kind_value E_EVIDENCE_REQUEST_OPENED = ''evidence_request_opened''"
| "event_kind_value E_EVIDENCE_REQUEST_CLOSED = ''evidence_request_closed''"
| "event_kind_value E_DUPLICATE_MARKED = ''duplicate_marked''"
| "event_kind_value E_STATE_TRANSITION = ''state_transition''"
| "event_kind_value E_GAP_RECORDED = ''gap_recorded''"
| "event_kind_value E_CELL_TERMINAL = ''cell_terminal''"
| "event_kind_value E_JUDGE_VERDICT = ''judge_verdict''"
| "event_kind_value E_CHAIN_PROPOSED = ''chain_proposed''"
| "event_kind_value E_CHAIN_CHALLENGED = ''chain_challenged''"
| "event_kind_value E_CHAIN_DECIDED = ''chain_decided''"


interpretation event_kind_enum: str_enum event_kind_members event_kind_value
proof unfold_locales
  show "e \<in> set event_kind_members" for e by (cases e) (simp_all add: event_kind_members_def)
  show "distinct (map event_kind_value event_kind_members)" by (simp add: event_kind_members_def)
qed


datatype request_outcome =
    RO_SATISFIED
  | RO_UNSATISFIED
  | RO_SUPERSEDED
  | RO_WITHDRAWN

definition request_outcome_members :: "request_outcome list" where
  "request_outcome_members = [RO_SATISFIED, RO_UNSATISFIED, RO_SUPERSEDED, RO_WITHDRAWN]"

primrec request_outcome_value :: "request_outcome \<Rightarrow> string" where
  "request_outcome_value RO_SATISFIED = ''satisfied''"
| "request_outcome_value RO_UNSATISFIED = ''unsatisfied''"
| "request_outcome_value RO_SUPERSEDED = ''superseded''"
| "request_outcome_value RO_WITHDRAWN = ''withdrawn''"


interpretation request_outcome_enum: str_enum request_outcome_members request_outcome_value
proof unfold_locales
  show "e \<in> set request_outcome_members" for e by (cases e) (simp_all add: request_outcome_members_def)
  show "distinct (map request_outcome_value request_outcome_members)" by (simp add: request_outcome_members_def)
qed


section \<open>Claim states\<close>

definition LEGAL_TRANSITIONS :: "claim_state \<Rightarrow> claim_state list" where
  "LEGAL_TRANSITIONS s = (case s of
     PROPOSED \<Rightarrow> [DUPLICATE, OUT_OF_SCOPE, COVERAGE_GAP, CONTRADICTED, INSUFFICIENT_EVIDENCE, SUPPORTED]
   | SUPPORTED \<Rightarrow> [CONFIRMED, CONTRADICTED, NOT_REACHABLE, NOT_EXPLOITABLE_IN_OBSERVED_CONFIGURATION,
       INSUFFICIENT_EVIDENCE]
   | CONFIRMED \<Rightarrow> [SUPPORTED, CONTRADICTED, NOT_REACHABLE, NOT_EXPLOITABLE_IN_OBSERVED_CONFIGURATION]
   | _ \<Rightarrow> [])"

definition check_transition :: "claim_state \<Rightarrow> claim_state \<Rightarrow> unit res" where
  "check_transition from_state to_state =
     rguard (to_state \<in> set (LEGAL_TRANSITIONS from_state)) (IntegrityError ''illegal claim transition'')"

section \<open>Record documents\<close>

definition claim_json :: "claim \<Rightarrow> json" where
  "claim_json c =
     jobj [(''schema'', JStr ''appsec-review/claim/1''), (''claim_id'', JStr (c_claim_id c)),
           (''lane'', JStr (lane_value (c_lane c))), (''package_id'', JStr (c_package_id c)),
           (''affected_entities'', JArr (map JStr (c_affected_entities c))),
           (''weakness_cwe'', opt_json (c_weakness_cwe c)),
           (''security_predicate'', JStr (security_predicate_value (c_security_predicate c))),
           (''preconditions'', JArr (map JStr (c_preconditions c))), (''statement'', JStr (c_statement c)),
           (''state'', JStr (claim_state_value (c_state c))), (''duplicate_of'', opt_json (c_duplicate_of c)),
           (''origin_cell_ids'', JArr (map JStr (c_origin_cell_ids c)))]"

definition claim_from_json :: "json \<Rightarrow> claim res" where
  "claim_from_json v =
     rbind (jfield ''claim_id'' jstr v) (\<lambda>i. rbind (jfield ''lane'' (enum_json lane_members lane_value) v) (\<lambda>l.
     rbind (jfield ''package_id'' jstr v) (\<lambda>p. rbind (jfield ''affected_entities'' jstrs v) (\<lambda>es.
     rbind (jfield ''weakness_cwe'' jstr_opt v) (\<lambda>w.
     rbind (jfield ''security_predicate'' (enum_json security_predicate_members security_predicate_value) v) (\<lambda>sp.
     rbind (jfield ''preconditions'' jstrs v) (\<lambda>pre. rbind (jfield ''statement'' jstr v) (\<lambda>st.
     rbind (jfield ''state'' (enum_json claim_state_members claim_state_value) v) (\<lambda>s.
     rbind (jfield ''duplicate_of'' jstr_opt v) (\<lambda>d. rbind (jfield ''origin_cell_ids'' jstrs v) (\<lambda>cs.
       Inr \<lparr>c_claim_id = i, c_lane = l, c_package_id = p, c_affected_entities = es, c_weakness_cwe = w,
            c_security_predicate = sp, c_preconditions = pre, c_statement = st, c_state = s,
            c_duplicate_of = d, c_origin_cell_ids = cs\<rparr>)))))))))))"

definition relation_json :: "evidence_relation \<Rightarrow> json" where
  "relation_json r =
     jobj ([(''schema'', JStr ''appsec-review/evidence-relation/1''), (''relation_id'', JStr (er_relation_id r)),
            (''claim_id'', JStr (er_claim_id r)), (''predicate'', JStr (predicate_value (er_predicate r))),
            (''kind'', JStr (relation_kind_value (er_kind r))), (''entity_id'', JStr (er_entity_id r)),
            (''entity_kind'', JStr (er_entity_kind r)),
            (''admissibility'', JStr (admissibility_value (er_admissibility r))),
            (''shard_id'', JStr (er_shard_id r)), (''content_sha256'', JStr (er_content_sha256 r)),
            (''locator'', JStr (er_locator r)), (''complete'', JBool (er_complete r)),
            (''producing_cell_id'', JStr (er_producing_cell_id r)),
            (''retrieval_receipt_sha256'', opt_json (er_retrieval_receipt_sha256 r)),
            (''reason'', opt_json (er_reason r))] @
           (case er_provenance r of None \<Rightarrow> [] | Some p \<Rightarrow> [(''provenance'', JStr p)]))"

definition relation_from_json :: "json \<Rightarrow> evidence_relation res" where
  "relation_from_json v =
     rbind (jfield ''relation_id'' jstr v) (\<lambda>i. rbind (jfield ''claim_id'' jstr v) (\<lambda>c.
     rbind (jfield ''predicate'' (enum_json predicate_members predicate_value) v) (\<lambda>p.
     rbind (jfield ''kind'' (enum_json relation_kind_members relation_kind_value) v) (\<lambda>k.
     rbind (jfield ''entity_id'' jstr v) (\<lambda>e. rbind (jfield ''entity_kind'' jstr v) (\<lambda>ek.
     rbind (jfield ''admissibility'' (enum_json admissibility_members admissibility_value) v) (\<lambda>a.
     rbind (jfield ''shard_id'' jstr v) (\<lambda>s. rbind (jfield ''content_sha256'' jstr v) (\<lambda>h.
     rbind (jfield ''locator'' jstr v) (\<lambda>l. rbind (jfield ''complete'' jbool v) (\<lambda>b.
     rbind (jfield ''producing_cell_id'' jstr v) (\<lambda>cell.
     rbind (jfield ''retrieval_receipt_sha256'' jstr_opt v) (\<lambda>rc.
     rbind (jstr_opt (jget_or_null ''reason'' v)) (\<lambda>why.
     rbind (jstr_opt (jget_or_null ''provenance'' v)) (\<lambda>prov.
       Inr \<lparr>er_relation_id = i, er_claim_id = c, er_predicate = p, er_kind = k, er_entity_id = e,
            er_entity_kind = ek, er_admissibility = a, er_shard_id = s, er_content_sha256 = h, er_locator = l,
            er_complete = b, er_producing_cell_id = cell, er_retrieval_receipt_sha256 = rc, er_reason = why,
            er_provenance = prov\<rparr>)))))))))))))))"

definition gap_json :: "gap \<Rightarrow> json" where
  "gap_json g =
     jobj [(''schema'', JStr ''appsec-review/gap/1''), (''gap_id'', JStr (g_gap_id g)),
           (''gap_class'', JStr (gap_class_value (g_gap_class g))), (''subject_id'', JStr (g_subject_id g)),
           (''reason'', JStr (g_reason g)), (''predicate'', pred_json (g_predicate g)), (''round'', JInt (g_round g))]"

definition predicate_or_none :: "json \<Rightarrow> predicate option res" where
  "predicate_or_none v =
     (if truthy v then rbind (enum_json predicate_members predicate_value v) (\<lambda>p. Inr (Some p)) else Inr None)"

definition gap_from_json :: "json \<Rightarrow> gap res" where
  "gap_from_json v =
     rbind (jfield ''gap_id'' jstr v) (\<lambda>i.
     rbind (jfield ''gap_class'' (enum_json gap_class_members gap_class_value) v) (\<lambda>c.
     rbind (jfield ''subject_id'' jstr v) (\<lambda>s. rbind (jfield ''reason'' jstr v) (\<lambda>r.
     rbind (jfield ''predicate'' predicate_or_none v) (\<lambda>p. rbind (jfield ''round'' jint v) (\<lambda>n.
       Inr \<lparr>g_gap_id = i, g_gap_class = c, g_subject_id = s, g_reason = r, g_predicate = p, g_round = n\<rparr>))))))"

definition side_map_json :: "(string \<times> string) list \<Rightarrow> json" where
  "side_map_json sides = jobj (map (\<lambda>(k, v). (k, JStr v)) sides)"

fun side_map_from_json :: "json \<Rightarrow> (string \<times> string) list option res" where
  "side_map_from_json JNull = Inr None"
| "side_map_from_json (JObj m) =
     rbind (rmap (\<lambda>(k, v). rbind (jstr v) (\<lambda>s. Inr (k, s))) (sorted_list_of_fmap m)) (\<lambda>sides. Inr (Some sides))"
| "side_map_from_json _ = Inl TypeError"

definition cell_json :: "cell_record \<Rightarrow> json" where
  "cell_json c =
     jobj ([(''schema'', JStr ''appsec-review/cell-record/1''), (''cell_id'', JStr (cell_id c)),
            (''lane'', JStr (lane_value (cell_lane c))), (''package_id'', JStr (cell_package_id c)),
            (''role'', JStr (role_value (cell_role c))), (''persona'', JStr (cell_persona c)),
            (''stack_profile'', JStr (cell_stack_profile c)), (''task'', JStr (cell_task c)),
            (''claim_id'', opt_json (cell_claim_id c)), (''status'', JStr (cell_status_value (cell_status c))),
            (''attempts'', JInt (cell_attempts c)), (''gap_ids'', JArr (map JStr (cell_gap_ids c))),
            (''receipt_sha256'', opt_json (cell_receipt_sha256 c))] @
           (case cell_side_map c of None \<Rightarrow> [] | Some sides \<Rightarrow> [(''side_map'', side_map_json sides)]))"

definition cell_from_json :: "json \<Rightarrow> cell_record res" where
  "cell_from_json v =
     rbind (jfield ''cell_id'' jstr v) (\<lambda>i. rbind (jfield ''lane'' (enum_json lane_members lane_value) v) (\<lambda>l.
     rbind (jfield ''package_id'' jstr v) (\<lambda>p. rbind (jfield ''role'' (enum_json role_members role_value) v) (\<lambda>r.
     rbind (jfield ''persona'' jstr v) (\<lambda>pe. rbind (jfield ''stack_profile'' jstr v) (\<lambda>sp.
     rbind (jfield ''task'' jstr v) (\<lambda>t. rbind (jfield ''claim_id'' jstr_opt v) (\<lambda>c.
     rbind (jfield ''status'' (enum_json cell_status_members cell_status_value) v) (\<lambda>s.
     rbind (jfield ''attempts'' jint v) (\<lambda>n. rbind (jfield ''gap_ids'' jstrs v) (\<lambda>gs.
     rbind (jfield ''receipt_sha256'' jstr_opt v) (\<lambda>h.
     rbind (side_map_from_json (jget_or_null ''side_map'' v)) (\<lambda>sides.
       Inr \<lparr>cell_id = i, cell_lane = l, cell_package_id = p, cell_role = r, cell_persona = pe,
            cell_stack_profile = sp, cell_task = t, cell_claim_id = c, cell_status = s, cell_attempts = n,
            cell_gap_ids = gs, cell_receipt_sha256 = h, cell_side_map = sides\<rparr>)))))))))))))"

definition predicate_verdict_json :: "judge_predicate_verdict \<Rightarrow> json" where
  "predicate_verdict_json p =
     jobj [(''predicate'', JStr (predicate_value (jpv_predicate p))),
           (''verdict'', JStr (judge_verdict_value_value (jpv_verdict p))),
           (''cites'', JArr (map JStr (jpv_cites p)))]"

definition judge_verdict_json :: "judge_verdict \<Rightarrow> json" where
  "judge_verdict_json j =
     jobj [(''verdict_id'', JStr (jv_verdict_id j)), (''claim_id'', JStr (jv_claim_id j)),
           (''verdict'', JStr (judge_verdict_value_value (jv_verdict j))),
           (''per_predicate'', JArr (map predicate_verdict_json (jv_per_predicate j))),
           (''citations'', JArr (map JStr (sorted_set (concat (map jpv_cites (jv_per_predicate j)))))),
           (''reason'', JStr (jv_reason j)), (''cell_id'', JStr (jv_cell_id j)),
           (''judge_model_distinct'', JBool (jv_model_distinct j))]"

definition predicate_verdict_from_json :: "json \<Rightarrow> judge_predicate_verdict res" where
  "predicate_verdict_from_json v =
     rbind (jfield ''predicate'' (enum_json predicate_members predicate_value) v) (\<lambda>p.
     rbind (jfield ''verdict'' (enum_json judge_verdict_value_members judge_verdict_value_value) v) (\<lambda>x.
     rbind (jfield ''cites'' jstrs v) (\<lambda>cs. Inr \<lparr>jpv_predicate = p, jpv_verdict = x, jpv_cites = cs\<rparr>)))"

definition judge_verdict_from_json :: "json \<Rightarrow> judge_verdict res" where
  "judge_verdict_from_json v =
     rbind (jfield ''verdict_id'' jstr v) (\<lambda>i. rbind (jfield ''claim_id'' jstr v) (\<lambda>c.
     rbind (jfield ''verdict'' (enum_json judge_verdict_value_members judge_verdict_value_value) v) (\<lambda>x.
     rbind (jfield ''per_predicate'' (jobjs predicate_verdict_from_json) v) (\<lambda>ps.
     rbind (jfield ''reason'' jstr v) (\<lambda>r. rbind (jfield ''cell_id'' jstr v) (\<lambda>cell.
     rbind (jget ''judge_model_distinct'' v) (\<lambda>d.
       Inr \<lparr>jv_verdict_id = i, jv_claim_id = c, jv_verdict = x, jv_per_predicate = ps, jv_reason = r,
            jv_cell_id = cell, jv_model_distinct = truthy d\<rparr>)))))))"

section \<open>The event stream\<close>

definition EVENT_SCHEMA :: string where
  "EVENT_SCHEMA = ''appsec-review/ledger-event/1''"

record event =
  ev_schema :: string
  ev_stream :: string
  ev_sequence :: int
  ev_prev :: "string option"
  ev_kind :: string
  ev_subject :: string
  ev_body :: json
  ev_id :: string

definition event_json :: "event \<Rightarrow> json" where
  "event_json e =
     jobj [(''schema'', JStr (ev_schema e)), (''stream'', JStr (ev_stream e)), (''sequence'', JInt (ev_sequence e)),
           (''prev_event_sha256'', opt_json (ev_prev e)), (''kind'', JStr (ev_kind e)),
           (''subject_id'', JStr (ev_subject e)), (''body'', ev_body e), (''event_id'', JStr (ev_id e))]"

definition event_from_json :: "json \<Rightarrow> event res" where
  "event_from_json v =
     rbind (rguard (jkeys v = {|''schema'', ''stream'', ''sequence'', ''prev_event_sha256'', ''kind'',
        ''subject_id'', ''body'', ''event_id''|}) TypeError) (\<lambda>_.
     rbind (jfield ''schema'' jstr v) (\<lambda>sc. rbind (jfield ''stream'' jstr v) (\<lambda>st.
     rbind (jfield ''sequence'' jint v) (\<lambda>n. rbind (jfield ''prev_event_sha256'' jstr_opt v) (\<lambda>p.
     rbind (jfield ''kind'' jstr v) (\<lambda>k. rbind (jfield ''subject_id'' jstr v) (\<lambda>s.
     rbind (jfield ''event_id'' jstr v) (\<lambda>i. rbind (jget ''body'' v) (\<lambda>b.
     rbind (rguard (is_obj b) TypeError) (\<lambda>_.
       Inr \<lparr>ev_schema = sc, ev_stream = st, ev_sequence = n, ev_prev = p, ev_kind = k, ev_subject = s,
            ev_body = b, ev_id = i\<rparr>))))))))))"

definition event_sha256 :: "hash \<Rightarrow> event \<Rightarrow> string" where
  "event_sha256 H e = H (event_json e)"

definition event_id_of :: "hash \<Rightarrow> string \<Rightarrow> int \<Rightarrow> string option \<Rightarrow> string \<Rightarrow> string \<Rightarrow> json \<Rightarrow> string" where
  "event_id_of H stream n prev kind subject body =
     id_of H ''event'' 1 (jobj [(''stream'', JStr stream), (''sequence'', JInt n),
       (''prev_event_sha256'', opt_json prev), (''kind'', JStr kind), (''subject_id'', JStr subject), (''body'', body)])"

definition MAX_REASON :: nat where
  "MAX_REASON = 2000"

definition bounded :: "string \<Rightarrow> string res" where
  "bounded reason =
     rbind (rguard (length reason \<le> MAX_REASON) (ValueError ''reason must be a string of at most 2000 characters''))
       (\<lambda>_. Inr reason)"

section \<open>The writer\<close>

record shard_receipt =
  sr_stream :: string
  sr_event_count :: int
  sr_head :: "string option"
  sr_content_sha256 :: string

record writer =
  w_stream :: string
  w_events :: "event list"
  w_sealed :: "shard_receipt option"

definition new_writer :: "string \<Rightarrow> writer res" where
  "new_writer stream =
     rbind (rguard (stream \<noteq> [] \<and> length stream \<le> 200) (ValueError ''stream must be 1..200 characters'')) (\<lambda>_.
       Inr \<lparr>w_stream = stream, w_events = [], w_sealed = None\<rparr>)"

definition head_sha256 :: "hash \<Rightarrow> event list \<Rightarrow> string option" where
  "head_sha256 H es = (if es = [] then None else Some (event_sha256 H (last es)))"

definition next_event :: "hash \<Rightarrow> writer \<Rightarrow> event_kind \<Rightarrow> string \<Rightarrow> json \<Rightarrow> event" where
  "next_event H w kind subject body =
     (let n = int (length (w_events w)); prev = head_sha256 H (w_events w)
      in \<lparr>ev_schema = EVENT_SCHEMA, ev_stream = w_stream w, ev_sequence = n, ev_prev = prev,
          ev_kind = event_kind_value kind, ev_subject = subject, ev_body = body,
          ev_id = event_id_of H (w_stream w) n prev (event_kind_value kind) subject body\<rparr>)"

definition append_event :: "hash \<Rightarrow> writer \<Rightarrow> event_kind \<Rightarrow> string \<Rightarrow> json \<Rightarrow> writer res" where
  "append_event H w kind subject body =
     rbind (rguard (w_sealed w = None) (IntegrityError ''ledger shard is sealed'')) (\<lambda>_.
     rbind (rguard (subject \<noteq> []) (ValueError ''subject_id is required'')) (\<lambda>_.
       Inr (w\<lparr>w_events := w_events w @ [next_event H w kind subject body]\<rparr>)))"

definition propose_claim :: "hash \<Rightarrow> writer \<Rightarrow> claim \<Rightarrow> int \<Rightarrow> writer res" where
  "propose_claim H w c rnd =
     rbind (rguard (c_state c = PROPOSED \<and> c_duplicate_of c = None)
              (IntegrityError ''a claim enters the ledger only as proposed'')) (\<lambda>_.
       append_event H w E_CLAIM_PROPOSED (c_claim_id c) (jobj [(''claim'', claim_json c), (''round'', JInt rnd)]))"

definition add_relation :: "hash \<Rightarrow> writer \<Rightarrow> evidence_relation \<Rightarrow> int \<Rightarrow> writer res" where
  "add_relation H w r rnd =
     append_event H w E_RELATION_ADDED (er_relation_id r) (jobj [(''relation'', relation_json r), (''round'', JInt rnd)])"

definition transition ::
  "hash \<Rightarrow> writer \<Rightarrow> string \<Rightarrow> claim_state \<Rightarrow> claim_state \<Rightarrow> string \<Rightarrow> int \<Rightarrow> string option \<Rightarrow> writer res" where
  "transition H w claim_id from_state to_state reason rnd adjudication_id =
     rbind (rguard (to_state \<noteq> DUPLICATE)
              (IntegrityError ''duplicate state is entered only through mark_duplicate'')) (\<lambda>_.
     rbind (check_transition from_state to_state) (\<lambda>_.
     rbind (bounded reason) (\<lambda>why.
       append_event H w E_STATE_TRANSITION claim_id (jobj
         [(''from_state'', JStr (claim_state_value from_state)), (''to_state'', JStr (claim_state_value to_state)),
          (''reason'', JStr why), (''round'', JInt rnd), (''adjudication_id'', opt_json adjudication_id)]))))"

definition mark_duplicate :: "hash \<Rightarrow> writer \<Rightarrow> string \<Rightarrow> string \<Rightarrow> string \<Rightarrow> int \<Rightarrow> writer res" where
  "mark_duplicate H w claim_id duplicate_of reason rnd =
     rbind (rguard (claim_id \<noteq> duplicate_of) (IntegrityError ''a claim cannot duplicate itself'')) (\<lambda>_.
     rbind (bounded reason) (\<lambda>why.
       append_event H w E_DUPLICATE_MARKED claim_id
         (jobj [(''duplicate_of'', JStr duplicate_of), (''reason'', JStr why), (''round'', JInt rnd)])))"

definition open_request ::
  "hash \<Rightarrow> writer \<Rightarrow> string \<Rightarrow> string \<Rightarrow> predicate \<Rightarrow> string \<Rightarrow> int \<Rightarrow> string option \<Rightarrow> string list \<Rightarrow> string option \<Rightarrow>
   string option \<Rightarrow> writer res" where
  "open_request H w request_id claim_id p requested_kind rnd origin anchors question specialist =
     rbind (case question of None \<Rightarrow> Inr [] | Some q \<Rightarrow> rbind (bounded q) (\<lambda>b. Inr [(''question'', JStr b)])) (\<lambda>qs.
       append_event H w E_EVIDENCE_REQUEST_OPENED request_id (jobj
         ([(''claim_id'', JStr claim_id), (''predicate'', JStr (predicate_value p)),
           (''requested_kind'', JStr requested_kind), (''round'', JInt rnd), (''origin_cell_id'', opt_json origin)] @ qs @
          (case specialist of None \<Rightarrow> [] | Some s \<Rightarrow> [(''specialist'', JStr s)]) @
          (if anchors = [] then [] else [(''anchors'', JArr (map JStr (sorted_set anchors)))]))))"

definition close_request ::
  "hash \<Rightarrow> writer \<Rightarrow> string \<Rightarrow> string \<Rightarrow> request_outcome \<Rightarrow> string \<Rightarrow> int \<Rightarrow> writer res" where
  "close_request H w request_id claim_id out reason rnd =
     rbind (bounded reason) (\<lambda>why.
       append_event H w E_EVIDENCE_REQUEST_CLOSED request_id (jobj
         [(''claim_id'', JStr claim_id), (''outcome'', JStr (request_outcome_value out)), (''reason'', JStr why),
          (''round'', JInt rnd)]))"

definition record_gap :: "hash \<Rightarrow> writer \<Rightarrow> gap \<Rightarrow> writer res" where
  "record_gap H w g = append_event H w E_GAP_RECORDED (g_gap_id g) (jobj [(''gap'', gap_json g)])"

definition cell_terminal :: "hash \<Rightarrow> writer \<Rightarrow> cell_record \<Rightarrow> writer res" where
  "cell_terminal H w c = append_event H w E_CELL_TERMINAL (cell_id c) (jobj [(''cell'', cell_json c)])"

definition record_verdict :: "hash \<Rightarrow> writer \<Rightarrow> judge_verdict \<Rightarrow> int \<Rightarrow> writer res" where
  "record_verdict H w j rnd =
     append_event H w E_JUDGE_VERDICT (jv_verdict_id j) (jobj [(''verdict'', judge_verdict_json j), (''round'', JInt rnd)])"

definition propose_chain :: "hash \<Rightarrow> writer \<Rightarrow> proposal \<Rightarrow> artifact \<Rightarrow> writer res" where
  "propose_chain H w p a =
     append_event H w E_CHAIN_PROPOSED (pr_chain_id p) (jobj [(''proposal'', proposal_doc p), (''artifact'', artifact_doc a)])"

definition challenge_chain :: "hash \<Rightarrow> writer \<Rightarrow> challenge \<Rightarrow> writer res" where
  "challenge_chain H w c =
     append_event H w E_CHAIN_CHALLENGED (ch_challenge_id c) (jobj [(''challenge'', challenge_doc c)])"

definition decide_chain :: "hash \<Rightarrow> writer \<Rightarrow> decision \<Rightarrow> writer res" where
  "decide_chain H w d =
     append_event H w E_CHAIN_DECIDED (de_chain_id d) (jobj [(''decision'', decision_doc d)])"

text \<open>\<open>disk\<close> is what the shard's path holds: nothing, or the lines of an earlier seal.\<close>

definition seal :: "hash \<Rightarrow> json list option \<Rightarrow> writer \<Rightarrow> (shard_receipt \<times> json list option \<times> writer) res" where
  "seal H disk w =
     (case w_sealed w of
        Some r \<Rightarrow> Inr (r, disk, w)
      | None \<Rightarrow>
          let payload = map event_json (w_events w);
              r = \<lparr>sr_stream = w_stream w, sr_event_count = int (length (w_events w)),
                   sr_head = head_sha256 H (w_events w), sr_content_sha256 = H (JArr payload)\<rparr>
          in if disk \<noteq> None \<and> disk \<noteq> Some payload
             then Inl (IntegrityError ''ledger shard already exists with different content'')
             else Inr (r, Some payload, w\<lparr>w_sealed := Some r\<rparr>))"

section \<open>Verification\<close>

definition CHAIN_KINDS :: "event_kind list" where
  "CHAIN_KINDS = [E_CHAIN_PROPOSED, E_CHAIN_CHALLENGED, E_CHAIN_DECIDED]"

definition chain_body_identity :: "hash \<Rightarrow> event_kind \<Rightarrow> json \<Rightarrow> string res" where
  "chain_body_identity H kind body =
     (if kind = E_CHAIN_PROPOSED then
        rbind (rguard (jkeys body = {|''proposal'', ''artifact''|}) (ValueError ''chain proposal body is not closed'')) (\<lambda>_.
        rbind (jfield ''proposal'' (proposal_from_json H) body) (\<lambda>p.
        rbind (jfield ''artifact'' artifact_from_json body) (\<lambda>_. Inr (pr_chain_id p))))
      else if kind = E_CHAIN_CHALLENGED then
        rbind (rguard (jkeys body = {|''challenge''|}) (ValueError ''chain challenge body is not closed'')) (\<lambda>_.
        rbind (jfield ''challenge'' (challenge_from_json H) body) (\<lambda>c. Inr (ch_challenge_id c)))
      else
        rbind (rguard (jkeys body = {|''decision''|}) (ValueError ''chain decision body is not closed'')) (\<lambda>_.
        rbind (jfield ''decision'' decision_from_json body) (\<lambda>d. Inr (de_chain_id d))))"

definition malformed :: "string \<Rightarrow> 'a res \<Rightarrow> 'a res" where
  "malformed m r = (case r of
     Inl KeyError \<Rightarrow> Inl (IntegrityError m)
   | Inl TypeError \<Rightarrow> Inl (IntegrityError m)
   | Inl (ValueError _) \<Rightarrow> Inl (IntegrityError m)
   | _ \<Rightarrow> r)"

definition validate_chain_body :: "hash \<Rightarrow> event_kind \<Rightarrow> string \<Rightarrow> json \<Rightarrow> unit res" where
  "validate_chain_body H kind subject body =
     malformed ''chain event body is malformed''
       (rbind (chain_body_identity H kind body) (\<lambda>i.
          rguard (i = subject) (ValueError ''chain event subject does not match record identity'')))"

abbreviation integrity :: "bool \<Rightarrow> string \<Rightarrow> unit res" where
  "integrity c m \<equiv> rguard c (IntegrityError m)"

definition verify_event :: "hash \<Rightarrow> string option \<Rightarrow> string option \<Rightarrow> int \<Rightarrow> json \<Rightarrow> event res" where
  "verify_event H stream prev index j =
     (case event_from_json j of
        Inl _ \<Rightarrow> Inl (IntegrityError ''ledger event has an invalid shape'')
      | Inr e \<Rightarrow>
          rbind (integrity (ev_schema e = EVENT_SCHEMA) ''ledger event has an unknown schema'') (\<lambda>_.
          rbind (integrity (case stream of None \<Rightarrow> True | Some s \<Rightarrow> ev_stream e = s) ''ledger event changes stream'') (\<lambda>_.
          rbind (integrity (ev_sequence e = index) ''ledger event is out of sequence'') (\<lambda>_.
          rbind (integrity (ev_prev e = prev) ''ledger event breaks the hash chain'') (\<lambda>_.
          rbind (case enum_of event_kind_members event_kind_value (ev_kind e) of
                   Inl _ \<Rightarrow> Inl (IntegrityError ''ledger event has an unknown kind'') | Inr k \<Rightarrow> Inr k) (\<lambda>kind.
          rbind (if kind \<in> set CHAIN_KINDS then validate_chain_body H kind (ev_subject e) (ev_body e) else Inr ()) (\<lambda>_.
          rbind (integrity (ev_id e = event_id_of H (ev_stream e) index prev (ev_kind e) (ev_subject e) (ev_body e))
                   ''ledger event identity does not match its content'') (\<lambda>_. Inr e))))))))"

fun verify_from :: "hash \<Rightarrow> string option \<Rightarrow> string option \<Rightarrow> int \<Rightarrow> json list \<Rightarrow> (event list \<times> string option) res" where
  "verify_from H stream prev index [] = Inr ([], prev)"
| "verify_from H stream prev index (j # js) =
     rbind (verify_event H stream prev index j) (\<lambda>e.
     rbind (verify_from H (Some (ev_stream e)) (Some (H j)) (index + 1) js) (\<lambda>(es, head).
       Inr (e # es, head)))"

definition verify_events :: "hash \<Rightarrow> json list \<Rightarrow> string option \<Rightarrow> event list res" where
  "verify_events H js expected_head =
     rbind (verify_from H None None 0 js) (\<lambda>(es, head).
     rbind (integrity (expected_head = None \<or> head = expected_head)
              ''ledger shard head does not match the expected head'') (\<lambda>_. Inr es))"

section \<open>Hash chains\<close>

text \<open>
  Records that carry the digest of their predecessor. Two chains with the same head digest are the
  same chain, or two different records in them have the same digest.
\<close>

locale hash_chain =
  fixes link :: "'e \<Rightarrow> string option" and digest :: "'e \<Rightarrow> string"
begin

fun linked :: "string option \<Rightarrow> 'e list \<Rightarrow> bool" where
  "linked prev [] = True"
| "linked prev (e # es) = (link e = prev \<and> linked (Some (digest e)) es)"

lemma linked_snoc:
  "linked prev (es @ [e]) \<longleftrightarrow> linked prev es \<and> link e = (if es = [] then prev else Some (digest (last es)))"
  by (induction es arbitrary: prev) auto

lemma heads_equal:
  assumes "linked None es" and "linked None es'" and "es \<noteq> []" and "es' \<noteq> []"
    and "digest (last es) = digest (last es')"
    and "\<And>a b. a \<in> set es \<Longrightarrow> b \<in> set es' \<Longrightarrow> digest a = digest b \<Longrightarrow> a = b"
  shows "es = es'"
  using assms
proof (induction es arbitrary: es' rule: rev_induct)
  case (snoc e es)
  from snoc.prems(4) obtain ds d where d: "es' = ds @ [d]" by (cases es' rule: rev_cases) auto
  with snoc.prems have ed: "e = d" by simp
  with snoc.prems(1,2) d
  have link: "(if es = [] then None else Some (digest (last es))) = (if ds = [] then None else Some (digest (last ds)))"
    by (auto simp: linked_snoc)
  have "es = ds"
  proof (cases "es = []")
    case True
    with link show ?thesis by (auto split: if_splits)
  next
    case False
    with link have "ds \<noteq> []" "digest (last es) = digest (last ds)" by (auto split: if_splits)
    with False snoc.IH [of ds] snoc.prems d show ?thesis by (auto simp: linked_snoc)
  qed
  with d ed show ?case by simp
qed simp

end

interpretation ledger_chain: hash_chain ev_prev "event_sha256 H" for H .

section \<open>Shards\<close>

lemma jscalar_Inr_iff:
  shows jstr_Inr_iff: "jstr w = Inr s \<longleftrightarrow> w = JStr s"
    and jint_Inr_iff: "jint w = Inr n \<longleftrightarrow> w = JInt n"
    and jstr_opt_Inr_iff: "jstr_opt w = Inr q \<longleftrightarrow> w = opt_json q"
  by (cases w; cases q; simp add: opt_json_def; blast)+

interpretation event_codec: strict_codec event_json event_from_json "\<lambda>e. is_obj (ev_body e)"
proof
  fix e :: event
  assume "is_obj (ev_body e)"
  then show "event_from_json (event_json e) = Inr e"
    by (cases e) (auto simp: event_from_json_def event_json_def)
next
  fix v and e :: event
  assume v: "event_from_json v = Inr e"
  then have f: "jget ''schema'' v = Inr (JStr (ev_schema e))" "jget ''stream'' v = Inr (JStr (ev_stream e))"
    "jget ''sequence'' v = Inr (JInt (ev_sequence e))" "jget ''prev_event_sha256'' v = Inr (opt_json (ev_prev e))"
    "jget ''kind'' v = Inr (JStr (ev_kind e))" "jget ''subject_id'' v = Inr (JStr (ev_subject e))"
    "jget ''body'' v = Inr (ev_body e)" "jget ''event_id'' v = Inr (JStr (ev_id e))" "is_obj (ev_body e)"
    by (cases e; simp add: event_from_json_def rbind_Inr_iff jscalar_Inr_iff)+
  from v have "jkeys v = fset_of_list (map fst [(''schema'', JStr (ev_schema e)), (''stream'', JStr (ev_stream e)),
      (''sequence'', JInt (ev_sequence e)), (''prev_event_sha256'', opt_json (ev_prev e)), (''kind'', JStr (ev_kind e)),
      (''subject_id'', JStr (ev_subject e)), (''body'', ev_body e), (''event_id'', JStr (ev_id e))])"
    by (cases e) (simp add: event_from_json_def rbind_Inr_iff)
  then have "v = event_json e"
    unfolding event_json_def
  proof (rule jobj_eqI)
    show "is_obj v" using f(1) by (cases v) auto
  qed (simp_all add: f)
  with f(9) show "v = event_json e \<and> is_obj (ev_body e)" by blast
qed

lemma event_json_inj: "event_json a = event_json b \<longleftrightarrow> a = b"
proof
  assume eq: "event_json a = event_json b"
  have "jget k (event_json a) = jget k (event_json b)" for k by (simp only: eq)
  from this [of "''schema''"] this [of "''stream''"] this [of "''sequence''"] this [of "''prev_event_sha256''"]
    this [of "''kind''"] this [of "''subject_id''"] this [of "''body''"] this [of "''event_id''"]
  show "a = b"
    by (cases a; cases b) (simp add: event_json_def opt_json_def split: option.split_asm)
qed simp

text \<open>What one accepted event satisfies.\<close>

definition event_ok :: "hash \<Rightarrow> string option \<Rightarrow> string option \<Rightarrow> int \<Rightarrow> event \<Rightarrow> bool" where
  "event_ok H stream prev index e =
     (is_obj (ev_body e) \<and> ev_schema e = EVENT_SCHEMA \<and> (\<forall>s. stream = Some s \<longrightarrow> ev_stream e = s) \<and>
      ev_sequence e = index \<and> ev_prev e = prev \<and>
      (\<exists>k. ev_kind e = event_kind_value k \<and>
         (k \<in> set CHAIN_KINDS \<longrightarrow> validate_chain_body H k (ev_subject e) (ev_body e) = Inr ())) \<and>
      ev_id e = event_id_of H (ev_stream e) index prev (ev_kind e) (ev_subject e) (ev_body e))"

lemma verify_event_iff:
  "verify_event H stream prev index j = Inr e \<longleftrightarrow> j = event_json e \<and> event_ok H stream prev index e"
proof
  assume v: "verify_event H stream prev index j = Inr e"
  then have p: "event_from_json j = Inr e"
    by (auto simp: verify_event_def rbind_Inr_iff split: sum.split_asm)
  from v p obtain k where k: "enum_of event_kind_members event_kind_value (ev_kind e) = Inr k"
    by (cases "enum_of event_kind_members event_kind_value (ev_kind e)") (auto simp: verify_event_def rbind_Inr_iff)
  have "ev_schema e = EVENT_SCHEMA \<and> (\<forall>s. stream = Some s \<longrightarrow> ev_stream e = s) \<and> ev_sequence e = index \<and>
      ev_prev e = prev \<and> (k \<in> set CHAIN_KINDS \<longrightarrow> validate_chain_body H k (ev_subject e) (ev_body e) = Inr ()) \<and>
      ev_id e = event_id_of H (ev_stream e) index prev (ev_kind e) (ev_subject e) (ev_body e)"
    using v by (cases stream) (simp_all add: verify_event_def p k rbind_Inr_iff split: if_split_asm)
  moreover have "ev_kind e = event_kind_value k" using k by (simp only: event_kind_enum.of_Inr_iff)
  ultimately show "j = event_json e \<and> event_ok H stream prev index e"
    using p unfolding event_ok_def event_codec.parse_iff by blast
next
  assume a: "j = event_json e \<and> event_ok H stream prev index e"
  then have "event_from_json j = Inr e" by (simp add: event_codec.parse_iff event_ok_def)
  moreover from a obtain k where "ev_kind e = event_kind_value k"
    "k \<in> set CHAIN_KINDS \<longrightarrow> validate_chain_body H k (ev_subject e) (ev_body e) = Inr ()"
    by (auto simp: event_ok_def)
  ultimately show "verify_event H stream prev index j = Inr e"
    using a by (cases stream) (simp_all add: verify_event_def event_ok_def event_kind_enum.of_val)
qed

lemma verify_from_snoc:
  assumes "verify_from H stream prev index js = Inr (es, head)"
    and "event_ok H (if es = [] then stream else Some (ev_stream (last es))) head (index + int (length js)) e"
  shows "verify_from H stream prev index (js @ [event_json e]) = Inr (es @ [e], Some (event_sha256 H e))"
  using assms
proof (induction js arbitrary: stream prev index es)
  case Nil
  then have "verify_event H stream prev index (event_json e) = Inr e" by (simp add: verify_event_iff)
  then show ?case using Nil by (simp add: event_sha256_def)
next
  case (Cons j js)
  from Cons.prems(1) obtain d ds where d: "verify_event H stream prev index j = Inr d"
    and ds: "verify_from H (Some (ev_stream d)) (Some (H j)) (index + 1) js = Inr (ds, head)" and es: "es = d # ds"
    by (auto simp: rbind_Inr_iff split: prod.split_asm)
  have "event_ok H (if ds = [] then Some (ev_stream d) else Some (ev_stream (last ds))) head
      (index + 1 + int (length js)) e"
    using Cons.prems(2) es by (simp add: algebra_simps split: if_split_asm)
  with Cons.IH [OF ds] d es show ?case by simp
qed

lemma verify_from_Cons:
  "verify_from H stream prev index (j # js) = Inr (es, head) \<longleftrightarrow>
     (\<exists>d ds. verify_event H stream prev index j = Inr d \<and> es = d # ds \<and>
        verify_from H (Some (ev_stream d)) (Some (H j)) (index + 1) js = Inr (ds, head))"
  by (auto simp: rbind_Inr_iff split: prod.split_asm)

lemma verify_from_facts:
  "verify_from H stream prev index js = Inr (es, head) \<Longrightarrow>
   js = map event_json es \<and> ledger_chain.linked H prev es \<and>
   head = (if es = [] then prev else Some (event_sha256 H (last es)))"
proof (induction js arbitrary: stream prev index es)
  case (Cons j js)
  from Cons.prems obtain d ds where d: "verify_event H stream prev index j = Inr d" and es: "es = d # ds"
    and ds: "verify_from H (Some (ev_stream d)) (Some (H j)) (index + 1) js = Inr (ds, head)"
    unfolding verify_from_Cons by blast
  from d have "j = event_json d" "ev_prev d = prev" by (auto simp: verify_event_iff event_ok_def)
  moreover from this have "H j = event_sha256 H d" by (simp add: event_sha256_def)
  ultimately show ?case using Cons.IH [OF ds] es by simp
qed simp

lemma verify_from_stream:
  "verify_from H (Some s) prev index js = Inr (es, head) \<Longrightarrow> \<forall>e\<in>set es. ev_stream e = s"
proof (induction js arbitrary: prev index es)
  case (Cons j js)
  from Cons.prems obtain d ds where d: "verify_event H (Some s) prev index j = Inr d" and es: "es = d # ds"
    and ds: "verify_from H (Some (ev_stream d)) (Some (H j)) (index + 1) js = Inr (ds, head)"
    unfolding verify_from_Cons by blast
  from d have "ev_stream d = s" by (auto simp: verify_event_iff event_ok_def)
  with Cons.IH ds es show ?case by simp
qed simp

lemma verify_events_elim:
  assumes "verify_events H js h = Inr es"
  obtains head where "verify_from H None None 0 js = Inr (es, head)" "h = None \<or> head = h"
  using assms by (auto simp: verify_events_def rbind_Inr_iff split: prod.split_asm)

lemma verify_events_facts:
  assumes "verify_events H js h = Inr es"
  shows "js = map event_json es" and "ledger_chain.linked H None es"
    and "h \<noteq> None \<Longrightarrow> es \<noteq> [] \<and> h = Some (event_sha256 H (last es))"
proof -
  from assms obtain head where v: "verify_from H None None 0 js = Inr (es, head)" and h: "h = None \<or> head = h"
    by (rule verify_events_elim)
  from verify_from_facts [OF v] h show "js = map event_json es" "ledger_chain.linked H None es"
    "h \<noteq> None \<Longrightarrow> es \<noteq> [] \<and> h = Some (event_sha256 H (last es))"
    by (auto split: if_split_asm)
qed

lemma verify_events_stream:
  assumes "verify_events H js h = Inr es" and "e \<in> set es"
  shows "ev_stream e = ev_stream (hd es)"
proof -
  from assms(1) obtain head where v: "verify_from H None None 0 js = Inr (es, head)" by (rule verify_events_elim)
  show ?thesis
  proof (cases js)
    case Nil
    with v assms(2) show ?thesis by simp
  next
    case (Cons j js')
    with v obtain d ds where "es = d # ds"
      "verify_from H (Some (ev_stream d)) (Some (H j)) (0 + 1) js' = Inr (ds, head)"
      unfolding Cons verify_from_Cons by blast
    with verify_from_stream assms(2) show ?thesis by fastforce
  qed
qed

section \<open>The writer's runs\<close>

text \<open>
  One call on a writer. Chain records are objects of their classes, hence valid; \<open>seal\<close> may find any
  file in place.
\<close>

inductive ledger_op :: "hash \<Rightarrow> writer \<Rightarrow> writer \<Rightarrow> bool" for H where
  op_propose_claim: "propose_claim H w c n = Inr w' \<Longrightarrow> ledger_op H w w'"
| op_add_relation: "add_relation H w r n = Inr w' \<Longrightarrow> ledger_op H w w'"
| op_transition: "transition H w i s t why n a = Inr w' \<Longrightarrow> ledger_op H w w'"
| op_mark_duplicate: "mark_duplicate H w i d why n = Inr w' \<Longrightarrow> ledger_op H w w'"
| op_open_request: "open_request H w q i p k n cell anchors quest spec = Inr w' \<Longrightarrow> ledger_op H w w'"
| op_close_request: "close_request H w q i out why n = Inr w' \<Longrightarrow> ledger_op H w w'"
| op_record_gap: "record_gap H w g = Inr w' \<Longrightarrow> ledger_op H w w'"
| op_cell_terminal: "cell_terminal H w cell = Inr w' \<Longrightarrow> ledger_op H w w'"
| op_record_verdict: "record_verdict H w j n = Inr w' \<Longrightarrow> ledger_op H w w'"
| op_propose_chain: "valid_proposal H p \<Longrightarrow> valid_artifact a \<Longrightarrow> propose_chain H w p a = Inr w' \<Longrightarrow> ledger_op H w w'"
| op_challenge_chain: "valid_challenge H ch \<Longrightarrow> challenge_chain H w ch = Inr w' \<Longrightarrow> ledger_op H w w'"
| op_decide_chain: "valid_decision d \<Longrightarrow> decide_chain H w d = Inr w' \<Longrightarrow> ledger_op H w w'"
| op_seal: "seal H disk w = Inr (r, disk', w') \<Longrightarrow> ledger_op H w w'"

inductive_cases ledger_opE: "ledger_op H w w'"

text \<open>Every operation but \<open>seal\<close> appends one event whose body verification will accept.\<close>

definition acceptable :: "hash \<Rightarrow> event_kind \<Rightarrow> string \<Rightarrow> json \<Rightarrow> bool" where
  "acceptable H kind subject body =
     (is_obj body \<and> (kind \<in> set CHAIN_KINDS \<longrightarrow> validate_chain_body H kind subject body = Inr ()))"

lemmas writer_op_defs = propose_claim_def add_relation_def transition_def mark_duplicate_def open_request_def
  close_request_def record_gap_def cell_terminal_def record_verdict_def propose_chain_def challenge_chain_def
  decide_chain_def

lemma chain_bodies_valid:
  "valid_proposal H p \<Longrightarrow> valid_artifact a \<Longrightarrow>
     acceptable H E_CHAIN_PROPOSED (pr_chain_id p) (jobj [(''proposal'', proposal_doc p), (''artifact'', artifact_doc a)])"
  "valid_challenge H c \<Longrightarrow> acceptable H E_CHAIN_CHALLENGED (ch_challenge_id c) (jobj [(''challenge'', challenge_doc c)])"
  "valid_decision d \<Longrightarrow> acceptable H E_CHAIN_DECIDED (de_chain_id d) (jobj [(''decision'', decision_doc d)])"
  by (simp_all add: acceptable_def validate_chain_body_def chain_body_identity_def malformed_def
        proposal_codec.parse_doc challenge_codec.parse_doc decision_codec.parse_doc artifact_codec.parse_doc)

lemma acceptable_other: "kind \<notin> set CHAIN_KINDS \<Longrightarrow> acceptable H kind subject (JObj m)"
  by (simp add: acceptable_def)

lemma ledger_op_cases:
  assumes "ledger_op H w w'"
  obtains (append) kind subject body where "append_event H w kind subject body = Inr w'" "acceptable H kind subject body"
    | (seal) disk r disk' where "seal H disk w = Inr (r, disk', w')"
  using assms
  by (elim ledger_opE)
    (auto simp: writer_op_defs rbind_Inr_iff CHAIN_KINDS_def
       intro: append [OF _ acceptable_other] append [OF _ chain_bodies_valid(1)]
         append [OF _ chain_bodies_valid(2)] append [OF _ chain_bodies_valid(3)] seal
       simp del: fmap_of_list_simps)

definition wf_writer :: "hash \<Rightarrow> writer \<Rightarrow> bool" where
  "wf_writer H w =
     (verify_from H None None 0 (map event_json (w_events w)) = Inr (w_events w, head_sha256 H (w_events w)) \<and>
      (\<forall>e\<in>set (w_events w). ev_stream e = w_stream w))"

lemma append_event_Inr_iff:
  "append_event H w kind subject body = Inr w' \<longleftrightarrow>
     w_sealed w = None \<and> subject \<noteq> [] \<and> w' = w\<lparr>w_events := w_events w @ [next_event H w kind subject body]\<rparr>"
  by (auto simp: append_event_def rbind_Inr_iff)

lemma next_event_ok:
  assumes "wf_writer H w" and "acceptable H kind subject body"
  shows "event_ok H (if w_events w = [] then None else Some (ev_stream (last (w_events w))))
      (head_sha256 H (w_events w)) (int (length (w_events w))) (next_event H w kind subject body)"
  using assms by (auto simp: event_ok_def next_event_def Let_def acceptable_def wf_writer_def)

lemma wf_writer_append:
  assumes "wf_writer H w" and "append_event H w kind subject body = Inr w'" and "acceptable H kind subject body"
  shows "wf_writer H w'"
proof -
  let ?e = "next_event H w kind subject body"
  have w': "w_events w' = w_events w @ [?e]" "w_stream w' = w_stream w"
    using assms(2) by (simp_all add: append_event_Inr_iff)
  have "verify_from H None None 0 (map event_json (w_events w) @ [event_json ?e]) =
      Inr (w_events w @ [?e], Some (event_sha256 H ?e))"
    using verify_from_snoc [of H None None 0 "map event_json (w_events w)" "w_events w" "head_sha256 H (w_events w)" ?e]
      next_event_ok [OF assms(1,3)] assms(1) by (simp add: wf_writer_def)
  with assms(1) w' show ?thesis
    by (simp add: wf_writer_def head_sha256_def next_event_def Let_def)
qed

lemma seal_Inr_facts:
  "seal H disk w = Inr (r, disk', w') \<Longrightarrow>
   w_events w' = w_events w \<and> w_stream w' = w_stream w \<and> w_sealed w' = Some r \<and> (w_sealed w \<noteq> None \<longrightarrow> w' = w)"
  by (auto simp: seal_def Let_def split: option.split_asm if_split_asm)

lemma ledger_op_wf: "ledger_op H w w' \<Longrightarrow> wf_writer H w \<Longrightarrow> wf_writer H w'"
  by (erule ledger_op_cases, erule (2) wf_writer_append) (auto dest!: seal_Inr_facts simp: wf_writer_def)

lemma ledger_op_appends:
  "ledger_op H w w' \<Longrightarrow> (\<exists>es. w_events w' = w_events w @ es) \<and> (w_sealed w \<noteq> None \<longrightarrow> w' = w)"
  by (erule ledger_op_cases) (auto simp: append_event_Inr_iff dest!: seal_Inr_facts)

lemma new_writer_wf: "new_writer stream = Inr w \<Longrightarrow> wf_writer H w"
  by (auto simp: new_writer_def rbind_Inr_iff wf_writer_def head_sha256_def)

lemma reachable_wf: "(ledger_op H)\<^sup>*\<^sup>* w w' \<Longrightarrow> wf_writer H w \<Longrightarrow> wf_writer H w'"
  by (induction rule: rtranclp_induct) (auto intro: ledger_op_wf)

section \<open>A concrete stream\<close>

text \<open>A digest that reads the stream name, and a stream with one recorded gap.\<close>

definition sample_digest :: hash where
  "sample_digest j = (case jget_or_null ''stream'' j of JStr s \<Rightarrow> s | _ \<Rightarrow> [])"

definition sample_gap :: gap where
  "sample_gap = \<lparr>g_gap_id = ''gap-1'', g_gap_class = GC_EVIDENCE_GAP, g_subject_id = ''claim-1'',
     g_reason = ''missing'', g_predicate = None, g_round = 0\<rparr>"

definition sample_writer :: "string \<Rightarrow> writer" where
  "sample_writer s = \<lparr>w_stream = s, w_events = [], w_sealed = None\<rparr>"

definition sample_written :: "string \<Rightarrow> writer" where
  "sample_written s = (case record_gap sample_digest (sample_writer s) sample_gap of Inr w \<Rightarrow> w | Inl _ \<Rightarrow> sample_writer s)"

definition sample_shard :: "string \<Rightarrow> json list" where
  "sample_shard s = map event_json (w_events (sample_written s))"

lemma sample_run:
  "new_writer ''u1'' = Inr (sample_writer ''u1'')"
  "(ledger_op sample_digest)\<^sup>*\<^sup>* (sample_writer ''u1'') (sample_written ''u1'')"
proof -
  show "new_writer ''u1'' = Inr (sample_writer ''u1'')" by (simp add: new_writer_def sample_writer_def)
  have "record_gap sample_digest (sample_writer ''u1'') sample_gap = Inr (sample_written ''u1'')" by code_simp
  then have "ledger_op sample_digest (sample_writer ''u1'') (sample_written ''u1'')" by (rule op_record_gap)
  then show "(ledger_op sample_digest)\<^sup>*\<^sup>* (sample_writer ''u1'') (sample_written ''u1'')"
    by (rule r_into_rtranclp)
qed

section \<open>Properties of the stream\<close>

text \<open>
  C11. Whatever a unit writes, verifies. After any sequence of writer operations on a fresh stream,
  the shard's lines pass verification against the writer's own head, and reading them back gives
  the writer's events.
\<close>

theorem writer_stream_verifies:
  assumes "new_writer stream = Inr w0" and "(ledger_op H)\<^sup>*\<^sup>* w0 w"
  shows "verify_events H (map event_json (w_events w)) (head_sha256 H (w_events w)) = Inr (w_events w)"
  using reachable_wf [OF assms(2) new_writer_wf [OF assms(1)]]
  by (simp add: verify_events_def wf_writer_def)

theorem writer_stream_verifies_witness:
  "verify_events sample_digest (map event_json (w_events (sample_written ''u1'')))
     (head_sha256 sample_digest (w_events (sample_written ''u1''))) = Inr (w_events (sample_written ''u1'')) \<and>
   w_events (sample_written ''u1'') \<noteq> []"
proof
  show "verify_events sample_digest (map event_json (w_events (sample_written ''u1'')))
     (head_sha256 sample_digest (w_events (sample_written ''u1''))) = Inr (w_events (sample_written ''u1''))"
    by (rule writer_stream_verifies [OF sample_run(1) sample_run(2)])
  show "w_events (sample_written ''u1'') \<noteq> []" by code_simp
qed

text \<open>
  The stream is append-only and sealing ends it. Any sequence of operations only extends the
  events, and a sealed writer never changes again.
\<close>

lemma writer_append_only:
  assumes "(ledger_op H)\<^sup>*\<^sup>* w w'"
  shows "(\<exists>es. w_events w' = w_events w @ es) \<and> (w_sealed w \<noteq> None \<longrightarrow> w' = w)"
  using assms
proof (induction rule: rtranclp_induct)
  case (step w1 w2)
  with ledger_op_appends [OF step.hyps(2)] show ?case by (metis append.assoc)
qed simp

text \<open>
  C10. Tamper evidence. Two shards that both verify against the same expected head are identical,
  line by line, unless two different lines of them have the same digest.
\<close>

theorem shard_tamper_evident:
  assumes "verify_events H js (Some h) = Inr es" and "verify_events H js' (Some h) = Inr es'"
  shows "js = js' \<or> (\<exists>a\<in>set js. \<exists>b\<in>set js'. a \<noteq> b \<and> H a = H b)"
proof (rule disjCI)
  assume no: "\<not> (\<exists>a\<in>set js. \<exists>b\<in>set js'. a \<noteq> b \<and> H a = H b)"
  note F = verify_events_facts [OF assms(1)] and F' = verify_events_facts [OF assms(2)]
  have "es = es'"
  proof (rule ledger_chain.heads_equal)
    show "ledger_chain.linked H None es" "ledger_chain.linked H None es'" by (fact F(2) F'(2))+
    show "es \<noteq> []" "es' \<noteq> []" "event_sha256 H (last es) = event_sha256 H (last es')"
      using F(3) F'(3) by auto
    show "a = b" if "a \<in> set es" "b \<in> set es'" "event_sha256 H a = event_sha256 H b" for a b
      using that no F(1) F'(1) by (auto simp: event_sha256_def event_json_inj)
  qed
  with F(1) F'(1) show "js = js'" by simp
qed

theorem shard_tamper_evident_witness:
  "\<exists>es. verify_events sample_digest (sample_shard ''u1'') (Some ''u1'') = Inr es \<and> es \<noteq> [] \<and>
     (sample_shard ''u1'' = sample_shard ''u1'' \<or>
      (\<exists>a\<in>set (sample_shard ''u1''). \<exists>b\<in>set (sample_shard ''u1''). a \<noteq> b \<and> sample_digest a = sample_digest b))"
proof -
  have "case verify_events sample_digest (sample_shard ''u1'') (Some ''u1'') of Inr es \<Rightarrow> es \<noteq> [] | _ \<Rightarrow> False"
    by code_simp
  then obtain es where v: "verify_events sample_digest (sample_shard ''u1'') (Some ''u1'') = Inr es" "es \<noteq> []"
    by (auto split: sum.split_asm)
  with shard_tamper_evident [OF v(1) v(1)] show ?thesis by blast
qed

end
