(* ===== verification/Merge.thy ===== *)
theory Merge
  imports Ledger
begin

text \<open>
  The canonical merge of verified shards (\<open>review/ledger.py\<close>: \<open>event_content\<close>, \<open>canonical_key\<close>,
  \<open>ledger_head\<close>, \<open>merge_shards\<close>): events are ordered by claim, kind, subject, round and content
  digest. The theory shows that neither the head nor the merged ledger depends on the order in which
  the shards are enumerated, as long as no two different contents have the same digest.
\<close>

section \<open>Contents and keys\<close>

record content =
  co_stream :: string
  co_kind :: string
  co_subject :: string
  co_body :: json

definition event_content :: "event \<Rightarrow> content" where
  "event_content e = \<lparr>co_stream = ev_stream e, co_kind = ev_kind e, co_subject = ev_subject e, co_body = ev_body e\<rparr>"

definition content_json :: "content \<Rightarrow> json" where
  "content_json c =
     jobj [(''stream'', JStr (co_stream c)), (''kind'', JStr (co_kind c)), (''subject_id'', JStr (co_subject c)),
           (''body'', co_body c)]"

definition content_sha256 :: "hash \<Rightarrow> content \<Rightarrow> string" where
  "content_sha256 H c = H (content_json c)"

definition kind_of :: "content \<Rightarrow> event_kind res" where
  "kind_of c = enum_of event_kind_members event_kind_value (co_kind c)"

definition member_str :: "string \<Rightarrow> string \<Rightarrow> json \<Rightarrow> string res" where
  "member_str outer inner body = rbind (jget outer body) (\<lambda>v. jfield inner jstr v)"

definition claim_key_of :: "event_kind \<Rightarrow> content \<Rightarrow> string res" where
  "claim_key_of kind c = (case kind of
     E_CHAIN_CHALLENGED \<Rightarrow> member_str ''challenge'' ''chain_id'' (co_body c)
   | E_CHAIN_PROPOSED \<Rightarrow> Inr (co_subject c)
   | E_CHAIN_DECIDED \<Rightarrow> Inr (co_subject c)
   | E_CLAIM_PROPOSED \<Rightarrow> Inr (co_subject c)
   | E_STATE_TRANSITION \<Rightarrow> Inr (co_subject c)
   | E_DUPLICATE_MARKED \<Rightarrow> Inr (co_subject c)
   | E_RELATION_ADDED \<Rightarrow> member_str ''relation'' ''claim_id'' (co_body c)
   | E_EVIDENCE_REQUEST_OPENED \<Rightarrow> jfield ''claim_id'' jstr (co_body c)
   | E_EVIDENCE_REQUEST_CLOSED \<Rightarrow> jfield ''claim_id'' jstr (co_body c)
   | E_GAP_RECORDED \<Rightarrow>
       rbind (member_str ''gap'' ''subject_id'' (co_body c)) (\<lambda>s. Inr (if starts_with ''claim-'' s then s else []))
   | E_JUDGE_VERDICT \<Rightarrow> member_str ''verdict'' ''claim_id'' (co_body c)
   | E_CELL_TERMINAL \<Rightarrow>
       rbind (jget ''cell'' (co_body c)) (\<lambda>v. rbind (jfield ''claim_id'' jstr_opt v) (\<lambda>i.
         Inr (case i of None \<Rightarrow> [] | Some s \<Rightarrow> s))))"

definition claim_key :: "content \<Rightarrow> string res" where
  "claim_key c = rbind (kind_of c) (\<lambda>k. claim_key_of k c)"

definition event_round :: "content \<Rightarrow> int res" where
  "event_round c =
     (if co_kind c = event_kind_value E_GAP_RECORDED
      then rbind (jget ''gap'' (co_body c)) (jfield ''round'' jint)
      else jint (jget_default ''round'' (JInt 0) (co_body c)))"

type_synonym event_key = "string \<times> nat \<times> string \<times> int \<times> string"

definition canonical_key :: "hash \<Rightarrow> content \<Rightarrow> event_key res" where
  "canonical_key H c =
     rbind (claim_key c) (\<lambda>i. rbind (kind_of c) (\<lambda>k. rbind (event_round c) (\<lambda>n.
       Inr (i, enum_index event_kind_members k, co_subject c, n, content_sha256 H c))))"

text \<open>The key of a content known to have one.\<close>

definition key_of :: "hash \<Rightarrow> content \<Rightarrow> event_key" where
  "key_of H c = (case canonical_key H c of Inr k \<Rightarrow> k | Inl _ \<Rightarrow> ([], 0, [], 0, []))"

section \<open>Merging\<close>

record merged_ledger =
  ml_events :: "event list"
  ml_head :: string
  ml_streams :: "string list"

text \<open>\<open>sorted(events, key=canonical_key)\<close> computes every key once, then sorts the pairs stably by key.\<close>

definition sorted_events :: "hash \<Rightarrow> event list \<Rightarrow> event list res" where
  "sorted_events H es =
     rbind (rmap (\<lambda>e. canonical_key H (event_content e)) es) (\<lambda>keys.
       Inr (map snd (sort_key fst (zip keys es))))"

definition ledger_head :: "hash \<Rightarrow> event list \<Rightarrow> string res" where
  "ledger_head H es =
     rbind (sorted_events H es) (\<lambda>ordered. Inr (H (JArr (map (\<lambda>e. content_json (event_content e)) ordered))))"

definition gather_shard ::
  "hash \<Rightarrow> json list \<Rightarrow> event list \<times> string list \<Rightarrow> (event list \<times> string list) res" where
  "gather_shard H shard st =
     rbind (verify_events H shard None) (\<lambda>es.
       case es of
         [] \<Rightarrow> Inr st
       | e # _ \<Rightarrow>
           if ev_stream e \<in> set (snd st)
           then Inl (IntegrityError ''ledger stream appears in more than one shard'')
           else Inr (fst st @ es, snd st @ [ev_stream e]))"

definition merge_shards :: "hash \<Rightarrow> json list list \<Rightarrow> merged_ledger res" where
  "merge_shards H shards =
     rbind (rfold (gather_shard H) shards ([], [])) (\<lambda>(events, streams).
     rbind (malformed ''ledger event body is malformed'' (sorted_events H events)) (\<lambda>ordered.
     rbind (ledger_head H ordered) (\<lambda>head.
       Inr \<lparr>ml_events = ordered, ml_head = head, ml_streams = sort streams\<rparr>)))"

section \<open>Keys separate contents\<close>

definition no_collision :: "hash \<Rightarrow> json set \<Rightarrow> bool" where
  "no_collision H J = inj_on H J"

lemma content_json_inj: "content_json a = content_json b \<longleftrightarrow> a = b"
proof
  assume eq: "content_json a = content_json b"
  have "jget k (content_json a) = jget k (content_json b)" for k by (simp only: eq)
  from this [of "''stream''"] this [of "''kind''"] this [of "''subject_id''"] this [of "''body''"]
  show "a = b" by (cases a; cases b) (simp add: content_json_def)
qed simp

lemma canonical_key_sha:
  "canonical_key H c = Inr k \<Longrightarrow> snd (snd (snd (snd k))) = content_sha256 H c"
  by (cases k) (auto simp: canonical_key_def rbind_Inr_iff)

lemma key_of_separates:
  assumes "canonical_key H a = Inr k" and "canonical_key H b = Inr l" and "key_of H a = key_of H b"
    and "no_collision H J" and "content_json a \<in> J" and "content_json b \<in> J"
  shows "a = b"
proof -
  from assms(1-3) have "k = l" by (simp add: key_of_def)
  then have "H (content_json a) = H (content_json b)"
    using canonical_key_sha [OF assms(1)] canonical_key_sha [OF assms(2)] by (simp add: content_sha256_def)
  with assms(4-6) show ?thesis by (simp add: no_collision_def inj_on_eq_iff content_json_inj)
qed

section \<open>Gathering\<close>

text \<open>The event lists of the non-empty shards, and their streams.\<close>

definition shard_events :: "hash \<Rightarrow> json list \<Rightarrow> event list" where
  "shard_events H shard = (case verify_events H shard None of Inr es \<Rightarrow> es | Inl _ \<Rightarrow> [])"

definition shard_blocks :: "hash \<Rightarrow> json list list \<Rightarrow> event list list" where
  "shard_blocks H shards = filter (\<lambda>es. es \<noteq> []) (map (shard_events H) shards)"

definition block_stream :: "event list \<Rightarrow> string" where
  "block_stream es = ev_stream (hd es)"

lemma gather_iff:
  "rfold (gather_shard H) shards (es0, ss0) = Inr (es, ss) \<longleftrightarrow>
     (\<forall>s\<in>set shards. \<exists>x. verify_events H s None = Inr x) \<and>
     distinct (map block_stream (shard_blocks H shards)) \<and>
     set (map block_stream (shard_blocks H shards)) \<inter> set ss0 = {} \<and>
     es = es0 @ concat (shard_blocks H shards) \<and> ss = ss0 @ map block_stream (shard_blocks H shards)"
proof (induction shards arbitrary: es0 ss0)
  case Nil
  then show ?case by (auto simp: shard_blocks_def)
next
  case (Cons s shards)
  show ?case
  proof (cases "verify_events H s None")
    case (Inl e)
    then show ?thesis by (simp add: gather_shard_def)
  next
    case (Inr x)
    then have ev: "shard_events H s = x" by (simp add: shard_events_def)
    show ?thesis
    proof (cases x)
      case Nil
      with Inr ev Cons.IH [of es0 ss0] show ?thesis by (simp add: gather_shard_def shard_blocks_def)
    next
      case (Cons e es')
      then have blocks: "shard_blocks H (s # shards) = x # shard_blocks H shards" "block_stream x = ev_stream e"
        using ev by (simp_all add: shard_blocks_def block_stream_def)
      have "rfold (gather_shard H) (s # shards) (es0, ss0) =
          (if ev_stream e \<in> set ss0 then Inl (IntegrityError ''ledger stream appears in more than one shard'')
           else rfold (gather_shard H) shards (es0 @ x, ss0 @ [ev_stream e]))"
        using Inr Cons by (simp add: gather_shard_def)
      with Cons.IH [of "es0 @ x" "ss0 @ [ev_stream e]"] Inr blocks show ?thesis by auto
    qed
  qed
qed

section \<open>Order independence\<close>

lemma mset_short_list_eq:
  assumes "mset xs = mset ys" and "length xs \<le> 1"
  shows "xs = ys"
proof -
  have "length ys = length xs" using assms(1) by (metis mset_eq_length)
  with assms show ?thesis by (cases xs; cases ys) auto
qed

lemma filter_at_most_one:
  assumes "distinct (map f xs)" and "\<And>x. x \<in> set xs \<Longrightarrow> P x \<Longrightarrow> f x = c"
  shows "length (filter P xs) \<le> 1"
  using assms
proof (induction xs)
  case (Cons x xs)
  show ?case
  proof (cases "P x")
    case True
    have "filter P xs = []"
      using Cons.prems True by (force simp: filter_empty_conv)
    with True show ?thesis by simp
  next
    case False
    with Cons show ?thesis by simp
  qed
qed simp

text \<open>
  Blocks with distinct names, each element of a block carrying the name of its block: a filter that
  keeps elements of one name sees one block, wherever it stands.
\<close>

lemma filter_concat_blocks:
  assumes "mset bs = mset bs'" and "distinct (map name bs)"
    and "\<And>b x. b \<in> set bs \<Longrightarrow> x \<in> set b \<Longrightarrow> label x = name b"
    and "\<And>b x. b \<in> set bs \<Longrightarrow> x \<in> set b \<Longrightarrow> P x \<Longrightarrow> label x = c"
  shows "filter P (concat bs) = filter P (concat bs')"
proof -
  let ?Q = "\<lambda>b. \<exists>x\<in>set b. P x"
  have keep: "filter P (concat xs) = concat (map (filter P) (filter ?Q xs))" for xs
    by (induction xs) (auto simp: filter_empty_conv)
  have "length (filter ?Q bs) \<le> 1"
    by (rule filter_at_most_one [OF assms(2), where c = c]) (use assms(3,4) in force)
  moreover have "mset (filter ?Q bs) = mset (filter ?Q bs')" by (simp only: mset_filter assms(1))
  ultimately have "filter ?Q bs = filter ?Q bs'" by (intro mset_short_list_eq)
  then show ?thesis by (simp only: keep)
qed

lemma shard_blocks_stream:
  assumes "\<forall>s\<in>set shards. \<exists>x. verify_events H s None = Inr x" and "b \<in> set (shard_blocks H shards)" and "e \<in> set b"
  shows "ev_stream e = block_stream b"
proof -
  from assms(1,2) obtain s where "verify_events H s None = Inr b"
    by (auto simp: shard_blocks_def shard_events_def split: sum.split_asm)
  from verify_events_stream [OF this assms(3)] show ?thesis by (simp only: block_stream_def)
qed

lemma shard_blocks_mset: "mset shards = mset shards' \<Longrightarrow> mset (shard_blocks H shards) = mset (shard_blocks H shards')"
  by (simp only: shard_blocks_def mset_filter mset_map)

lemma sorted_events_blocks:
  assumes keys: "\<forall>e\<in>set (concat bs). \<exists>k. canonical_key H (event_content e) = Inr k"
    and perm: "mset bs = mset bs'" and dist: "distinct (map block_stream bs)"
    and streams: "\<And>b e. b \<in> set bs \<Longrightarrow> e \<in> set b \<Longrightarrow> ev_stream e = block_stream b"
    and nc: "no_collision H (content_json ` event_content ` set (concat bs))"
  shows "sort_key (\<lambda>e. key_of H (event_content e)) (concat bs) = sort_key (\<lambda>e. key_of H (event_content e)) (concat bs')"
proof (rule properties_for_sort_key)
  let ?f = "\<lambda>e. key_of H (event_content e)"
  have m: "mset (concat bs) = mset (concat bs')" by (metis mset_concat mset_map perm sum_mset_sum_list)
  then show "mset (sort_key ?f (concat bs')) = mset (concat bs)" by simp
  show "sorted (map ?f (sort_key ?f (concat bs')))" by simp
  show "filter (\<lambda>x. ?f k = ?f x) (sort_key ?f (concat bs')) = filter (\<lambda>x. ?f k = ?f x) (concat bs)"
    if "k \<in> set (sort_key ?f (concat bs'))" for k
  proof -
    have k: "k \<in> set (concat bs)" using that mset_eq_setD [OF m] by simp
    have same: "event_content x = event_content k" if "x \<in> set (concat bs)" "?f k = ?f x" for x
    proof -
      from keys k that(1) obtain i j where "canonical_key H (event_content x) = Inr i"
        "canonical_key H (event_content k) = Inr j" by blast
      then show ?thesis
        by (rule key_of_separates [OF _ _ that(2) [symmetric] nc]) (use k that(1) in auto)
    qed
    have "filter (\<lambda>x. ?f k = ?f x) (concat bs) = filter (\<lambda>x. ?f k = ?f x) (concat bs')"
    proof (rule filter_concat_blocks [OF perm dist streams])
      show "ev_stream x = ev_stream k" if "b \<in> set bs" "x \<in> set b" "?f k = ?f x" for b x
        using same [of x] that by (auto simp: event_content_def)
    qed
    moreover have "(\<lambda>x. ?f k = ?f x) = (\<lambda>x. ?f x = ?f k)" by auto
    ultimately show ?thesis by (simp only: sort_key_stable)
  qed
qed

lemma rmap_ok_iff: "(\<exists>ys. rmap f xs = Inr ys) \<longleftrightarrow> (\<forall>x\<in>set xs. \<exists>y. f x = Inr y)"
  by (induction xs) (auto simp: rbind_Inr_iff)

lemma insort_decorated:
  "insort_key fst (f x, x) (map (\<lambda>y. (f y, y)) ys) = map (\<lambda>y. (f y, y)) (insort_key f x ys)"
  by (induction ys) auto

lemma sort_decorated: "sort_key fst (map (\<lambda>y. (f y, y)) xs) = map (\<lambda>y. (f y, y)) (sort_key f xs)"
  by (induction xs) (simp_all add: sort_key_def insort_decorated flip: sort_key_def)

lemma keys_decorate:
  "rmap (\<lambda>e. canonical_key H (event_content e)) es = Inr keys \<Longrightarrow>
   zip keys es = map (\<lambda>e. (key_of H (event_content e), e)) es"
  by (induction es arbitrary: keys) (auto simp: rbind_Inr_iff key_of_def)

lemma sorted_events_Inr_iff:
  "sorted_events H es = Inr out \<longleftrightarrow>
     (\<forall>e\<in>set es. \<exists>k. canonical_key H (event_content e) = Inr k) \<and>
     out = sort_key (\<lambda>e. key_of H (event_content e)) es"
  using rmap_ok_iff [of "\<lambda>e. canonical_key H (event_content e)" es]
  by (auto simp: sorted_events_def rbind_Inr_iff keys_decorate sort_decorated comp_def)

lemma ledger_head_sorted:
  assumes "sorted_events H es = Inr out"
  shows "ledger_head H out = Inr (H (JArr (map (\<lambda>e. content_json (event_content e)) out)))"
proof -
  have "sorted_events H out = Inr out"
    using assms unfolding sorted_events_Inr_iff
    by (auto intro!: sort_key_id_if_sorted [symmetric])
  then show ?thesis by (simp add: ledger_head_def)
qed

lemma malformed_Inr_iff [simp]: "malformed m r = Inr x \<longleftrightarrow> r = Inr x"
  by (auto simp: malformed_def split: sum.splits py_error.splits)

lemma merge_shards_Inr_iff:
  "merge_shards H shards = Inr m \<longleftrightarrow>
     (\<forall>s\<in>set shards. \<exists>x. verify_events H s None = Inr x) \<and>
     distinct (map block_stream (shard_blocks H shards)) \<and>
     sorted_events H (concat (shard_blocks H shards)) = Inr (ml_events m) \<and>
     m = \<lparr>ml_events = ml_events m,
          ml_head = H (JArr (map (\<lambda>e. content_json (event_content e)) (ml_events m))),
          ml_streams = sort (map block_stream (shard_blocks H shards))\<rparr>"
proof -
  have "merge_shards H shards = Inr m \<longleftrightarrow>
      (\<exists>es ss out. rfold (gather_shard H) shards ([], []) = Inr (es, ss) \<and> sorted_events H es = Inr out \<and>
         m = \<lparr>ml_events = out, ml_head = H (JArr (map (\<lambda>e. content_json (event_content e)) out)), ml_streams = sort ss\<rparr>)"
    by (auto simp: merge_shards_def rbind_Inr_iff ledger_head_sorted split: prod.splits)
  also have "\<dots> \<longleftrightarrow> (\<forall>s\<in>set shards. \<exists>x. verify_events H s None = Inr x) \<and>
     distinct (map block_stream (shard_blocks H shards)) \<and>
     sorted_events H (concat (shard_blocks H shards)) = Inr (ml_events m) \<and>
     m = \<lparr>ml_events = ml_events m,
          ml_head = H (JArr (map (\<lambda>e. content_json (event_content e)) (ml_events m))),
          ml_streams = sort (map block_stream (shard_blocks H shards))\<rparr>"
    by (cases m) (auto simp: gather_iff)
  finally show ?thesis .
qed

text \<open>
  C12. The merged ledger does not depend on how shards are enumerated. If merging succeeds for one
  enumeration and no two different event contents in it share a digest, merging any rearrangement
  of the shards succeeds with the same events in the same order, the same head and the same streams.
\<close>

theorem merge_order_independent:
  assumes "merge_shards H shards = Inr m" and "mset shards' = mset shards"
    and "no_collision H (content_json ` event_content ` set (ml_events m))"
  shows "merge_shards H shards' = Inr m"
proof -
  let ?B = "shard_blocks H shards" and ?B' = "shard_blocks H shards'"
  from assms(1) have ok: "\<forall>s\<in>set shards. \<exists>x. verify_events H s None = Inr x"
    and dist: "distinct (map block_stream ?B)" and srt: "sorted_events H (concat ?B) = Inr (ml_events m)"
    and m: "m = \<lparr>ml_events = ml_events m,
          ml_head = H (JArr (map (\<lambda>e. content_json (event_content e)) (ml_events m))),
          ml_streams = sort (map block_stream ?B)\<rparr>"
    unfolding merge_shards_Inr_iff by blast+
  have perm: "mset ?B' = mset ?B" by (rule shard_blocks_mset [OF assms(2)])
  have ok': "\<forall>s\<in>set shards'. \<exists>x. verify_events H s None = Inr x"
    using ok mset_eq_setD [OF assms(2)] by simp
  have streams: "mset (map block_stream ?B') = mset (map block_stream ?B)" using perm by simp
  then have dist': "distinct (map block_stream ?B')" using dist by (metis mset_eq_imp_distinct_iff)
  have keys: "\<forall>e\<in>set (concat ?B). \<exists>k. canonical_key H (event_content e) = Inr k"
    and out: "ml_events m = sort_key (\<lambda>e. key_of H (event_content e)) (concat ?B)"
    using srt unfolding sorted_events_Inr_iff by blast+
  have sets: "set (concat ?B') = set (concat ?B)" using mset_eq_setD [OF perm] by simp
  have "sort_key (\<lambda>e. key_of H (event_content e)) (concat ?B) = sort_key (\<lambda>e. key_of H (event_content e)) (concat ?B')"
    by (rule sorted_events_blocks [OF keys perm [symmetric] dist shard_blocks_stream [OF ok]])
      (use assms(3) out in simp_all)
  with keys out sets have "sorted_events H (concat ?B') = Inr (ml_events m)"
    unfolding sorted_events_Inr_iff by simp
  moreover have "sort (map block_stream ?B') = sort (map block_stream ?B)"
    by (metis streams properties_for_sort sorted_sort mset_sort)
  ultimately show ?thesis
    unfolding merge_shards_Inr_iff using ok' dist' m by simp
qed

theorem merge_order_independent_witness:
  "\<exists>m. merge_shards sample_digest [sample_shard ''u1'', sample_shard ''u2''] = Inr m \<and>
     merge_shards sample_digest [sample_shard ''u2'', sample_shard ''u1''] = Inr m \<and> ml_streams m = [''u1'', ''u2'']"
proof -
  let ?M = "merge_shards sample_digest [sample_shard ''u1'', sample_shard ''u2'']"
  have "case ?M of Inr m \<Rightarrow> map co_stream (map event_content (ml_events m)) = [''u1'', ''u2''] \<and>
      ml_streams m = [''u1'', ''u2''] | _ \<Rightarrow> False" by code_simp
  then obtain m where m: "?M = Inr m" "ml_streams m = [''u1'', ''u2'']"
    and s: "map co_stream (map event_content (ml_events m)) = [''u1'', ''u2'']"
    by (auto split: sum.split_asm)
  from s obtain a b where "map event_content (ml_events m) = [a, b]" "co_stream a = ''u1''" "co_stream b = ''u2''"
    by (auto simp: map_eq_Cons_conv)
  moreover have "content_json ` event_content ` set (ml_events m) = content_json ` set (map event_content (ml_events m))"
    by simp
  ultimately have "no_collision sample_digest (content_json ` event_content ` set (ml_events m))"
    by (simp add: no_collision_def inj_on_def sample_digest_def content_json_def)
  from merge_order_independent [OF m(1) _ this, of "[sample_shard ''u2'', sample_shard ''u1'']"] m
  show ?thesis by simp
qed

end
