(* ===== verification/Projection.thy ===== *)
theory Projection
  imports Merge
begin

text \<open>
  The projection of ledger events to claim views (\<open>review/ledger.py\<close>: \<open>_merge_proposals\<close>, \<open>_walk\<close>,
  \<open>_chain_projection\<close>, \<open>project\<close>). A claim's state is what its recorded transitions lead to from
  \<open>proposed\<close>, round by round.

  Mappings of the result are association lists sorted by key, as the code builds them with
  \<open>dict(sorted(...))\<close>. The loop reads contents only; the events' chain metadata is dropped before it.
\<close>

section \<open>Views\<close>

record state_change =
  sc_from :: claim_state
  sc_to :: claim_state
  sc_round :: int
  sc_reason :: string
  sc_content_sha256 :: string
  sc_adjudication_id :: "string option"

record claim_view =
  cv_claim :: claim
  cv_history :: "state_change list"
  cv_proposal_sha256s :: "string list"
  cv_proposal_lanes :: "lane list"

record request_view =
  rv_request_id :: string
  rv_claim_id :: string
  rv_predicate :: "predicate option"
  rv_requested_kind :: "string option"
  rv_opened :: nat
  rv_outcomes :: "request_outcome list"
  rv_anchors :: "string list"
  rv_question :: "string option"
  rv_specialist :: "string option"

record chain_view =
  chv_proposal :: proposal
  chv_artifact :: artifact
  chv_challenges :: "challenge list"
  chv_decision :: "decision option"

record projection =
  pj_head :: string
  pj_claims :: "(string, claim_view) dict"
  pj_relations :: "(string, evidence_relation list) dict"
  pj_gaps :: "gap list"
  pj_cells :: "(string, cell_record list) dict"
  pj_requests :: "(string, request_view) dict"
  pj_verdicts :: "(string, judge_verdict list) dict"
  pj_chains :: "(string, chain_view) dict"

text \<open>Proposals beyond the canonical one, counted by the lane that made them.\<close>

definition duplicate_proposals :: "claim_view \<Rightarrow> lane \<Rightarrow> nat" where
  "duplicate_proposals v l = count_list (remove1 (c_lane (cv_claim v)) (cv_proposal_lanes v)) l"

section \<open>Walking a claim's transitions\<close>

record trans_item =
  ti_round :: int
  ti_from :: claim_state
  ti_to :: claim_state
  ti_duplicate_of :: "string option"
  ti_content :: content

record walk_state =
  ws_state :: claim_state
  ws_duplicate_of :: "string option"
  ws_history :: "state_change list"

definition walk_step :: "hash \<Rightarrow> int \<Rightarrow> trans_item \<Rightarrow> walk_state \<Rightarrow> walk_state res" where
  "walk_step H rnd item st =
     rbind (check_transition (ws_state st) (ti_to item)) (\<lambda>_.
     rbind (if ti_to item = DUPLICATE then Inr (ti_duplicate_of item)
            else if ws_duplicate_of st \<noteq> None
            then Inl (IntegrityError ''duplicate claim cannot transition further'')
            else Inr None) (\<lambda>dup.
     rbind (jfield ''reason'' jstr (co_body (ti_content item))) (\<lambda>reason.
     rbind (jstr_opt (jget_or_null ''adjudication_id'' (co_body (ti_content item)))) (\<lambda>adj.
       Inr \<lparr>ws_state = ti_to item, ws_duplicate_of = dup,
            ws_history = ws_history st @
              [\<lparr>sc_from = ti_from item, sc_to = ti_to item, sc_round = rnd, sc_reason = reason,
                sc_content_sha256 = content_sha256 H (ti_content item), sc_adjudication_id = adj\<rparr>]\<rparr>))))"

definition next_item :: "hash \<Rightarrow> claim_state \<Rightarrow> trans_item list \<Rightarrow> trans_item res" where
  "next_item H s pending =
     (let matches = filter (\<lambda>i. ti_from i = s) pending
      in if matches = [] then Inl (IntegrityError ''claim has a transition that does not follow its state'')
         else if length (remdups (map (\<lambda>i. (ti_to i, ti_duplicate_of i)) matches)) > 1
         then Inl (IntegrityError ''claim has ambiguous transitions'')
         else Inr (arg_min_list (\<lambda>i. content_sha256 H (ti_content i)) matches))"

lemma next_item_mem: "next_item H s pending = Inr item \<Longrightarrow> item \<in> set pending \<and> ti_from item = s"
  using arg_min_list_in [of "filter (\<lambda>i. ti_from i = s) pending" "\<lambda>i. content_sha256 H (ti_content i)"]
  by (auto simp: next_item_def Let_def split: if_split_asm)

text \<open>\<open>while pending\<close>: every turn removes the item it applies.\<close>

function walk_pending :: "hash \<Rightarrow> int \<Rightarrow> trans_item list \<Rightarrow> walk_state \<Rightarrow> walk_state res" where
  "walk_pending H rnd pending st =
     (if pending = [] then Inr st
      else case next_item H (ws_state st) pending of
        Inl e \<Rightarrow> Inl e
      | Inr item \<Rightarrow>
          (case walk_step H rnd item st of
             Inl e \<Rightarrow> Inl e
           | Inr st' \<Rightarrow> walk_pending H rnd (remove1 item pending) st'))"
  by auto
termination
  by (relation "measure (\<lambda>(H, rnd, pending, st). length pending)")
    (auto simp: length_remove1 length_greater_0_conv dest: next_item_mem)

declare walk_pending.simps [simp del]

definition walk :: "hash \<Rightarrow> trans_item list \<Rightarrow> walk_state res" where
  "walk H items =
     rfold (\<lambda>rnd. walk_pending H rnd (filter (\<lambda>i. ti_round i = rnd) items)) (sorted_set (map ti_round items))
       \<lparr>ws_state = PROPOSED, ws_duplicate_of = None, ws_history = []\<rparr>"

section \<open>Merging proposals\<close>

definition same_identity :: "claim \<Rightarrow> claim \<Rightarrow> bool" where
  "same_identity a b =
     (c_affected_entities a = c_affected_entities b \<and> c_weakness_cwe a = c_weakness_cwe b \<and>
      c_security_predicate a = c_security_predicate b \<and> c_preconditions a = c_preconditions b)"

definition merge_proposals :: "(claim \<times> string) list \<Rightarrow> (claim \<times> string list) res" where
  "merge_proposals ps =
     rbind (rguard (\<forall>p\<in>set (tl ps). same_identity (fst p) (fst (hd ps)))
              (IntegrityError ''claim identity collision with unequal content'')) (\<lambda>_.
       let canonical = arg_min_list (\<lambda>c. (enum_index lane_members (c_lane c), c_package_id c, c_statement c)) (map fst ps)
       in Inr (canonical\<lparr>c_origin_cell_ids := sorted_set (concat (map (\<lambda>p. c_origin_cell_ids (fst p)) ps))\<rparr>,
               sort (map snd ps)))"

section \<open>The loop over contents\<close>

type_synonym lifecycle = "(string, (claim \<times> string) list) dict \<times> (string, trans_item list) dict"

definition trans_of_body :: "claim_state \<Rightarrow> claim_state \<Rightarrow> string option \<Rightarrow> content \<Rightarrow> trans_item res" where
  "trans_of_body s t dup c =
     rbind (jfield ''round'' jint (co_body c)) (\<lambda>n.
       Inr \<lparr>ti_round = n, ti_from = s, ti_to = t, ti_duplicate_of = dup, ti_content = c\<rparr>)"

text \<open>The three kinds that decide a claim's existence and state.\<close>

definition LIFECYCLE_KINDS :: "event_kind list" where
  "LIFECYCLE_KINDS = [E_CLAIM_PROPOSED, E_STATE_TRANSITION, E_DUPLICATE_MARKED]"

definition lifecycle_event :: "hash \<Rightarrow> event_kind \<Rightarrow> content \<Rightarrow> lifecycle \<Rightarrow> lifecycle res" where
  "lifecycle_event H kind c st =
     (let subject = co_subject c; body = co_body c
      in if kind = E_CLAIM_PROPOSED then
           rbind (jfield ''claim'' claim_from_json body) (\<lambda>cl.
           rbind (integrity (c_claim_id cl = subject \<and> c_state cl = PROPOSED \<and>
                    (case c_duplicate_of cl of None \<Rightarrow> True | Some d \<Rightarrow> d = []))
                    ''claim proposal is not a proposed claim'') (\<lambda>_.
             Inr (dict_append subject (cl, content_sha256 H c) (fst st), snd st)))
         else if kind = E_STATE_TRANSITION then
           rbind (jfield ''to_state'' (enum_json claim_state_members claim_state_value) body) (\<lambda>t.
           rbind (integrity (t \<noteq> DUPLICATE) ''duplicate state is entered only through duplicate_marked'') (\<lambda>_.
           rbind (jfield ''from_state'' (enum_json claim_state_members claim_state_value) body) (\<lambda>s.
           rbind (trans_of_body s t None c) (\<lambda>item. Inr (fst st, dict_append subject item (snd st))))))
         else
           rbind (jfield ''duplicate_of'' jstr body) (\<lambda>d.
           rbind (integrity (d \<noteq> subject) ''claim duplicates itself'') (\<lambda>_.
           rbind (trans_of_body PROPOSED DUPLICATE (Some d) c) (\<lambda>item.
             Inr (fst st, dict_append subject item (snd st))))))"

record loop_state =
  ls_lifecycle :: lifecycle
  ls_relations :: "(string, evidence_relation) dict"
  ls_gaps :: "(string, gap) dict"
  ls_cells :: "(string, cell_record list) dict"
  ls_opened :: "(string, json list) dict"
  ls_closed :: "(string, json list) dict"
  ls_verdicts :: "(string, judge_verdict) dict"

definition put_unique :: "string \<Rightarrow> string \<Rightarrow> string \<Rightarrow> 'v \<Rightarrow> (string, 'v) dict \<Rightarrow> (string, 'v) dict res" where
  "put_unique message subject identity v d =
     rbind (integrity (identity = subject \<and> (case map_of d subject of None \<Rightarrow> True | Some u \<Rightarrow> u = v)) message) (\<lambda>_.
       Inr (AList.update subject v d))"

definition project_kind :: "hash \<Rightarrow> event_kind \<Rightarrow> content \<Rightarrow> loop_state \<Rightarrow> loop_state res" where
  "project_kind H kind c st =
     (let subject = co_subject c; body = co_body c
      in if kind \<in> set CHAIN_KINDS then rbind (validate_chain_body H kind subject body) (\<lambda>_. Inr st)
      else if kind \<in> set LIFECYCLE_KINDS then
        rbind (lifecycle_event H kind c (ls_lifecycle st)) (\<lambda>l. Inr (st\<lparr>ls_lifecycle := l\<rparr>))
      else if kind = E_RELATION_ADDED then
        rbind (jfield ''relation'' relation_from_json body) (\<lambda>r.
        rbind (put_unique ''evidence relation identity collision'' subject (er_relation_id r) r (ls_relations st)) (\<lambda>d.
          Inr (st\<lparr>ls_relations := d\<rparr>)))
      else if kind = E_GAP_RECORDED then
        rbind (jfield ''gap'' gap_from_json body) (\<lambda>g.
        rbind (put_unique ''gap identity collision'' subject (g_gap_id g) g (ls_gaps st)) (\<lambda>d.
          Inr (st\<lparr>ls_gaps := d\<rparr>)))
      else if kind = E_CELL_TERMINAL then
        rbind (jfield ''cell'' cell_from_json body) (\<lambda>cell.
        rbind (integrity (cell_id cell = subject) ''cell record does not match its subject'') (\<lambda>_.
          Inr (st\<lparr>ls_cells := dict_append subject cell (ls_cells st)\<rparr>)))
      else if kind = E_EVIDENCE_REQUEST_OPENED then Inr (st\<lparr>ls_opened := dict_append subject body (ls_opened st)\<rparr>)
      else if kind = E_JUDGE_VERDICT then
        rbind (jfield ''verdict'' judge_verdict_from_json body) (\<lambda>v.
        rbind (put_unique ''judge verdict identity collision'' subject (jv_verdict_id v) v (ls_verdicts st)) (\<lambda>d.
          Inr (st\<lparr>ls_verdicts := d\<rparr>)))
      else
        rbind (jfield ''outcome'' (enum_json request_outcome_members request_outcome_value) body) (\<lambda>_.
          Inr (st\<lparr>ls_closed := dict_append subject body (ls_closed st)\<rparr>)))"

definition project_event :: "hash \<Rightarrow> content \<Rightarrow> loop_state \<Rightarrow> loop_state res" where
  "project_event H c st = rbind (kind_of c) (\<lambda>kind. project_kind H kind c st)"

definition empty_loop :: loop_state where
  "empty_loop = \<lparr>ls_lifecycle = ([], []), ls_relations = [], ls_gaps = [], ls_cells = [], ls_opened = [],
     ls_closed = [], ls_verdicts = []\<rparr>"

section \<open>Assembling the views\<close>

definition claim_view_of :: "hash \<Rightarrow> (string, trans_item list) dict \<Rightarrow> string \<times> (claim \<times> string) list \<Rightarrow> (string \<times> claim_view) res" where
  "claim_view_of H transitions entry =
     (let (claim_id, items) = entry
      in rbind (merge_proposals items) (\<lambda>(cl, digests).
         rbind (walk H (dict_get_list transitions claim_id)) (\<lambda>st.
           Inr (claim_id,
                \<lparr>cv_claim = cl\<lparr>c_state := ws_state st, c_duplicate_of := ws_duplicate_of st\<rparr>,
                 cv_history = ws_history st, cv_proposal_sha256s = digests,
                 cv_proposal_lanes = sort_key (enum_index lane_members) (map (\<lambda>p. c_lane (fst p)) items)\<rparr>))))"

definition claim_views :: "hash \<Rightarrow> lifecycle \<Rightarrow> (string, claim_view) dict res" where
  "claim_views H st =
     rbind (rmap (claim_view_of H (snd st)) (fst st)) (\<lambda>views.
     rbind (integrity (\<forall>k\<in>fst ` set (snd st). k \<in> fst ` set (fst st)) ''state transition for unknown claim'') (\<lambda>_.
       Inr views))"

text \<open>Records grouped by their claim, each of which must be known.\<close>

definition group_by_claim ::
  "string \<Rightarrow> (string, claim_view) dict \<Rightarrow> ('v \<Rightarrow> string) \<Rightarrow> 'v list \<Rightarrow> (string, 'v list) dict res" where
  "group_by_claim message claims claim_of vs =
     rfold (\<lambda>v d. rbind (integrity (claim_of v \<in> fst ` set claims) message) (\<lambda>_. Inr (dict_append (claim_of v) v d))) vs []"

definition sorted_groups :: "('v \<Rightarrow> string) \<Rightarrow> (string, 'v list) dict \<Rightarrow> (string, 'v list) dict" where
  "sorted_groups key d = sort_key fst (map (\<lambda>(k, vs). (k, sort_key key vs)) d)"

abbreviation request_fields :: "string list" where
  "request_fields \<equiv> [''predicate'', ''requested_kind'', ''anchors'', ''question'', ''specialist'']"

definition request_source :: "string \<Rightarrow> json list \<Rightarrow> json option res" where
  "request_source request_id opened =
     (case opened of
        [] \<Rightarrow> Inr None
      | source # _ \<Rightarrow>
          rbind (integrity (\<forall>body\<in>set opened. \<forall>k\<in>set request_fields. jget_or_null k body = jget_or_null k source)
                   ''evidence request changes its question or scope'') (\<lambda>_. Inr (Some source)))"

definition request_view_of ::
  "(string, claim_view) dict \<Rightarrow> string \<Rightarrow> json list \<Rightarrow> json list \<Rightarrow> (string \<times> request_view) res" where
  "request_view_of claims request_id opened closings =
     rbind (rmap (jfield ''claim_id'' jstr) (opened @ closings)) (\<lambda>ids.
     rbind (integrity (\<forall>i\<in>set ids. i = hd ids) ''evidence request changes claim'') (\<lambda>_.
     rbind (integrity (hd ids \<in> fst ` set claims) ''evidence request for unknown claim'') (\<lambda>_.
     rbind (request_source request_id opened) (\<lambda>source.
     rbind (case source of None \<Rightarrow> Inr (None, None, [], None, None)
            | Some s \<Rightarrow>
                rbind (jfield ''predicate'' (enum_json predicate_members predicate_value) s) (\<lambda>p.
                rbind (jfield ''requested_kind'' jstr s) (\<lambda>k.
                rbind (jstrs (jget_default ''anchors'' (JArr []) s)) (\<lambda>as.
                rbind (jstr_opt (jget_or_null ''question'' s)) (\<lambda>q.
                rbind (jstr_opt (jget_or_null ''specialist'' s)) (\<lambda>sp. Inr (Some p, Some k, as, q, sp))))))) (\<lambda>(p, k, as, q, sp).
     rbind (rmap (jfield ''outcome'' (enum_json request_outcome_members request_outcome_value)) closings) (\<lambda>outs.
       Inr (request_id,
            \<lparr>rv_request_id = request_id, rv_claim_id = hd ids, rv_predicate = p, rv_requested_kind = k,
             rv_opened = length opened, rv_outcomes = sort_key request_outcome_value outs, rv_anchors = as,
             rv_question = q, rv_specialist = sp\<rparr>)))))))"

definition request_views :: "(string, claim_view) dict \<Rightarrow> loop_state \<Rightarrow> (string, request_view) dict res" where
  "request_views claims st =
     rmap (\<lambda>i. request_view_of claims i (dict_get_list (ls_opened st) i) (dict_get_list (ls_closed st) i))
       (sorted_set (map fst (ls_opened st) @ map fst (ls_closed st)))"

section \<open>Chains\<close>

record chain_tables =
  ct_proposals :: "(string, proposal \<times> artifact) dict"
  ct_challenges :: "(string, challenge) dict"
  ct_decisions :: "(string, decision) dict"

definition put_same :: "string \<Rightarrow> string \<Rightarrow> 'v \<Rightarrow> (string, 'v) dict \<Rightarrow> (string, 'v) dict res" where
  "put_same message subject v d = put_unique message subject subject v d"

definition chain_event :: "hash \<Rightarrow> content \<Rightarrow> chain_tables \<Rightarrow> chain_tables res" where
  "chain_event H c t =
     rbind (kind_of c) (\<lambda>kind.
       if kind \<notin> set CHAIN_KINDS then Inr t
       else rbind (validate_chain_body H kind (co_subject c) (co_body c)) (\<lambda>_.
         if kind = E_CHAIN_PROPOSED then
           rbind (jfield ''proposal'' (proposal_from_json H) (co_body c)) (\<lambda>p.
           rbind (jfield ''artifact'' artifact_from_json (co_body c)) (\<lambda>a.
           rbind (put_same ''conflicting chain proposals'' (co_subject c) (p, a) (ct_proposals t)) (\<lambda>d.
             Inr (t\<lparr>ct_proposals := d\<rparr>))))
         else if kind = E_CHAIN_CHALLENGED then
           rbind (jfield ''challenge'' (challenge_from_json H) (co_body c)) (\<lambda>ch.
           rbind (put_same ''conflicting chain challenges'' (co_subject c) ch (ct_challenges t)) (\<lambda>d.
             Inr (t\<lparr>ct_challenges := d\<rparr>)))
         else
           rbind (jfield ''decision'' decision_from_json (co_body c)) (\<lambda>de.
           rbind (put_same ''conflicting chain decisions'' (co_subject c) de (ct_decisions t)) (\<lambda>d.
             Inr (t\<lparr>ct_decisions := d\<rparr>)))))"

text \<open>A component is bound to the accepted final adjudication of its claim.\<close>

definition component_bound :: "(string, claim_view) dict \<Rightarrow> component \<Rightarrow> bool" where
  "component_bound claims cp =
     (case map_of claims (cp_claim_id cp) of
        None \<Rightarrow> False
      | Some v \<Rightarrow> c_state (cv_claim v) = cp_state cp \<and> cv_history v \<noteq> [] \<and>
          sc_adjudication_id (last (cv_history v)) = Some (cp_adjudication_id cp))"

definition chain_view_of ::
  "(string, claim_view) dict \<Rightarrow> chain_tables \<Rightarrow> string \<times> (proposal \<times> artifact) \<Rightarrow> (string \<times> chain_view) res" where
  "chain_view_of claims t entry =
     (let (chain_id, p, a) = entry;
          checked = sort_key ch_challenge_id (filter (\<lambda>c. ch_chain_id c = chain_id) (map snd (ct_challenges t)));
          decision = map_of (ct_decisions t) chain_id
      in rbind (integrity (list_all (component_bound claims) (pr_components p))
                  ''chain component is not bound to the accepted final adjudication'') (\<lambda>_.
         rbind (chain_decide p checked) (\<lambda>(status, limitations).
         rbind (integrity (case decision of None \<Rightarrow> True | Some d \<Rightarrow>
                   de_status d = status \<and> de_limitations d = limitations \<and>
                   de_challenge_ids d = map ch_challenge_id checked)
                  ''chain decision does not follow deterministic continuity/challenge policy'') (\<lambda>_.
           Inr (chain_id, \<lparr>chv_proposal = p, chv_artifact = a, chv_challenges = checked, chv_decision = decision\<rparr>)))))"

definition chain_projection :: "hash \<Rightarrow> content list \<Rightarrow> (string, claim_view) dict \<Rightarrow> (string, chain_view) dict res" where
  "chain_projection H cs claims =
     rbind (rfold (chain_event H) cs \<lparr>ct_proposals = [], ct_challenges = [], ct_decisions = []\<rparr>) (\<lambda>t.
     rbind (integrity ((\<forall>k\<in>fst ` set (ct_decisions t). k \<in> fst ` set (ct_proposals t)) \<and>
                       (\<forall>c\<in>snd ` set (ct_challenges t). ch_chain_id c \<in> fst ` set (ct_proposals t)))
              ''chain challenge or decision names an unknown proposal'') (\<lambda>_.
       rmap (chain_view_of claims t) (sort_key fst (ct_proposals t))))"

section \<open>Projecting\<close>

definition sorted_contents :: "hash \<Rightarrow> event list \<Rightarrow> content list res" where
  "sorted_contents H es = rbind (sorted_events H es) (\<lambda>ordered. Inr (map event_content ordered))"

definition contents_head :: "hash \<Rightarrow> content list \<Rightarrow> string" where
  "contents_head H cs = H (JArr (map content_json cs))"

definition project_contents :: "hash \<Rightarrow> content list \<Rightarrow> projection res" where
  "project_contents H cs =
     rbind (malformed ''ledger event body is malformed'' (rfold (project_event H) cs empty_loop)) (\<lambda>st.
     rbind (claim_views H (ls_lifecycle st)) (\<lambda>claims.
     rbind (group_by_claim ''evidence relation for unknown claim'' claims er_claim_id (map snd (ls_relations st))) (\<lambda>rels.
     rbind (group_by_claim ''judge verdict for unknown claim'' claims jv_claim_id (map snd (ls_verdicts st))) (\<lambda>judged.
     rbind (request_views claims st) (\<lambda>requests.
     rbind (chain_projection H cs claims) (\<lambda>chains.
       Inr \<lparr>pj_head = contents_head H cs, pj_claims = sort_key fst claims,
            pj_relations = sorted_groups er_relation_id rels,
            pj_gaps = sort_key g_gap_id (map snd (ls_gaps st)),
            pj_cells = sorted_groups (\<lambda>c. H (cell_json c)) (ls_cells st),
            pj_requests = requests, pj_verdicts = sorted_groups jv_verdict_id judged, pj_chains = chains\<rparr>))))))"

definition project :: "hash \<Rightarrow> event list \<Rightarrow> projection res" where
  "project H es =
     rbind (malformed ''ledger event body is malformed'' (sorted_contents H es)) (project_contents H)"

definition state_count :: "projection \<Rightarrow> claim_state \<Rightarrow> nat" where
  "state_count p s = length (filter (\<lambda>v. c_state (cv_claim (snd v)) = s) (pj_claims p))"

section \<open>Histories\<close>

text \<open>
  A history as a path in the transition table: it starts at \<open>s\<close>, each change is legal and starts
  where the one before ended, and it ends at \<open>t\<close>.
\<close>

fun legal_path :: "claim_state \<Rightarrow> state_change list \<Rightarrow> claim_state \<Rightarrow> bool" where
  "legal_path s [] t = (t = s)"
| "legal_path s (c # cs) t = (sc_from c = s \<and> sc_to c \<in> set (LEGAL_TRANSITIONS s) \<and> legal_path (sc_to c) cs t)"

lemma legal_path_snoc:
  "legal_path s (cs @ [c]) t \<longleftrightarrow>
     (\<exists>u. legal_path s cs u \<and> sc_from c = u \<and> sc_to c \<in> set (LEGAL_TRANSITIONS u) \<and> t = sc_to c)"
  by (induction cs arbitrary: s) auto

definition walk_ok :: "walk_state \<Rightarrow> bool" where
  "walk_ok st = (legal_path PROPOSED (ws_history st) (ws_state st) \<and>
     (ws_duplicate_of st \<noteq> None \<longrightarrow> ws_state st = DUPLICATE))"

lemma walk_step_ok:
  assumes "walk_step H rnd item st = Inr st'" and "walk_ok st" and "ti_from item = ws_state st"
  shows "walk_ok st'"
  using assms
  by (auto simp: walk_step_def walk_ok_def check_transition_def rbind_Inr_iff legal_path_snoc split: if_split_asm)

lemma walk_pending_induct:
  assumes "walk_pending H rnd pending st = Inr st'" and "P st"
    and "\<And>item s s'. P s \<Longrightarrow> item \<in> set pending \<Longrightarrow> ti_from item = ws_state s \<Longrightarrow>
       walk_step H rnd item s = Inr s' \<Longrightarrow> P s'"
  shows "P st'"
  using assms
proof (induction H rnd pending st rule: walk_pending.induct)
  case (1 H rnd pending st)
  show ?case
  proof (cases "pending = []")
    case True
    then have "walk_pending H rnd pending st = Inr st" by (subst walk_pending.simps) simp
    with "1.prems"(1,2) show ?thesis by simp
  next
    case False
    note W = "1.prems"(1) [unfolded walk_pending.simps [of H rnd pending st]]
    from W False obtain item where i: "next_item H (ws_state st) pending = Inr item"
      by (cases "next_item H (ws_state st) pending") simp_all
    from W False i obtain st1 where s: "walk_step H rnd item st = Inr st1"
      by (cases "walk_step H rnd item st") simp_all
    from W False i s have w: "walk_pending H rnd (remove1 item pending) st1 = Inr st'" by simp
    have "P st1" using "1.prems"(2,3) next_item_mem [OF i] s by blast
    moreover have "set (remove1 item pending) \<subseteq> set pending" by (rule set_remove1_subset)
    ultimately show ?thesis
      by (intro "1.IH" [OF False i s w]) (use "1.prems"(3) in blast)+
  qed
qed

lemma walk_invariant:
  assumes "walk H items = Inr st" and "P \<lparr>ws_state = PROPOSED, ws_duplicate_of = None, ws_history = []\<rparr>"
    and "\<And>item s s' rnd. P s \<Longrightarrow> item \<in> set items \<Longrightarrow> ti_from item = ws_state s \<Longrightarrow>
       walk_step H rnd item s = Inr s' \<Longrightarrow> P s'"
  shows "P st"
  using assms(1,2) unfolding walk_def
proof (rule rfold_invariant)
  fix rnd s s'
  assume "P s" "walk_pending H rnd (filter (\<lambda>i. ti_round i = rnd) items) s = Inr s'"
  from this(2,1) show "P s'" by (rule walk_pending_induct) (use assms(3) in auto)
qed

lemma walk_legal: "walk H items = Inr st \<Longrightarrow> walk_ok st"
  by (erule walk_invariant) (simp add: walk_ok_def, erule (2) walk_step_ok [rotated])

lemma legal_path_confirmed:
  "legal_path s h CONFIRMED \<Longrightarrow> s \<noteq> CONFIRMED \<Longrightarrow> h \<noteq> [] \<and> sc_from (last h) = SUPPORTED \<and> sc_to (last h) = CONFIRMED"
proof (cases h rule: rev_cases)
  case (snoc cs c)
  assume "legal_path s h CONFIRMED"
  with snoc have "CONFIRMED \<in> set (LEGAL_TRANSITIONS (sc_from c))" "sc_to c = CONFIRMED"
    by (auto simp: legal_path_snoc)
  then have "sc_from c = SUPPORTED" by (cases "sc_from c") (simp_all add: LEGAL_TRANSITIONS_def)
  with snoc \<open>sc_to c = CONFIRMED\<close> show ?thesis by simp
qed simp

text \<open>States with no way out.\<close>

definition terminal :: "claim_state \<Rightarrow> bool" where
  "terminal s = (LEGAL_TRANSITIONS s = [])"

lemma legal_path_terminal:
  "legal_path s (cs @ c # ds) t \<Longrightarrow> terminal (sc_to c) \<Longrightarrow> ds = []"
  by (induction cs arbitrary: s) (cases ds; auto simp: terminal_def)+

lemma malformed_Inr: "malformed m (Inr x) = Inr x"
  by (simp add: malformed_def)

lemma project_elim:
  assumes "project H es = Inr p"
  obtains cs st claims where "sorted_contents H es = Inr cs" "rfold (project_event H) cs empty_loop = Inr st"
    "claim_views H (ls_lifecycle st) = Inr claims" "pj_claims p = sort_key fst claims"
    "project_contents H cs = Inr p" "pj_head p = contents_head H cs"
proof -
  from assms obtain cs where cs: "sorted_contents H es = Inr cs" and P: "project_contents H cs = Inr p"
    unfolding project_def rbind_Inr_iff malformed_Inr_iff by blast
  note Q = P [unfolded project_contents_def]
  from Q obtain st where st: "rfold (project_event H) cs empty_loop = Inr st"
    unfolding rbind_Inr_iff malformed_Inr_iff by blast
  note Q = Q [unfolded st malformed_Inr rbind_simps]
  from Q obtain claims where claims: "claim_views H (ls_lifecycle st) = Inr claims"
    unfolding rbind_Inr_iff by blast
  note Q = Q [unfolded claims rbind_simps]
  from Q have "pj_claims p = sort_key fst claims \<and> pj_head p = contents_head H cs"
    unfolding rbind_Inr_iff by (elim exE conjE) (simp only: sum.inject, hypsubst, simp)
  with cs P st claims show ?thesis by (intro that [of cs st claims]) blast+
qed

lemma rmap_Inr_mem: "rmap f xs = Inr ys \<Longrightarrow> y \<in> set ys \<Longrightarrow> \<exists>x\<in>set xs. f x = Inr y"
  by (induction xs arbitrary: ys) (auto simp: rbind_Inr_iff)

lemma claim_views_member:
  assumes "claim_views H l = Inr claims" and "(i, v) \<in> set claims"
  obtains items cl digests st where "(i, items) \<in> set (fst l)" "merge_proposals items = Inr (cl, digests)"
    "walk H (dict_get_list (snd l) i) = Inr st" "cv_history v = ws_history st"
    "cv_claim v = cl\<lparr>c_state := ws_state st, c_duplicate_of := ws_duplicate_of st\<rparr>"
proof -
  from assms(1) have "rmap (claim_view_of H (snd l)) (fst l) = Inr claims"
    by (auto simp: claim_views_def rbind_Inr_iff)
  from rmap_Inr_mem [OF this assms(2)]
  obtain entry where e: "entry \<in> set (fst l)" "claim_view_of H (snd l) entry = Inr (i, v)" by blast
  obtain j items where entry: "entry = (j, items)" by (cases entry)
  note E = e(2) [unfolded entry claim_view_of_def Let_def prod.case]
  from E obtain cl digests where m: "merge_proposals items = Inr (cl, digests)"
    by (cases "merge_proposals items") auto
  note E = E [unfolded m rbind_simps prod.case]
  from E obtain st where st: "walk H (dict_get_list (snd l) j) = Inr st"
    by (cases "walk H (dict_get_list (snd l) j)") auto
  from E [unfolded st rbind_simps sum.inject prod.inject] have ji: "j = i"
    and v: "v = \<lparr>cv_claim = cl\<lparr>c_state := ws_state st, c_duplicate_of := ws_duplicate_of st\<rparr>,
       cv_history = ws_history st, cv_proposal_sha256s = digests,
       cv_proposal_lanes = sort_key (enum_index lane_members) (map (\<lambda>p. c_lane (fst p)) items)\<rparr>" by simp_all
  show ?thesis
    by (rule that [of items cl digests st]) (use e(1) entry m st ji v in simp_all)
qed

section \<open>A concrete ledger\<close>

text \<open>
  Two claims, both taken through \<open>supported\<close> to \<open>confirmed\<close>. The digest
  separates contents by the starts and ends of their kind, subject and target state.
\<close>

definition ledger_digest :: hash where
  "ledger_digest j =
     (case jget_or_null ''stream'' j of
        JStr s \<Rightarrow> take 8 (json_text (jget_or_null ''kind'' j)) @ drop 66 (json_text (jget_or_null ''subject_id'' j)) @
          json_text (jget_or_null ''to_state'' (jget_or_null ''body'' j))
      | _ \<Rightarrow> sample_hex CHR ''a'')"

definition ledger_claim :: "char \<Rightarrow> claim" where
  "ledger_claim c = sample_claim\<lparr>c_claim_id := ''claim-'' @ sample_hex c\<rparr>"

definition confirm_claim :: "char \<Rightarrow> writer \<Rightarrow> writer res" where
  "confirm_claim c w =
     rbind (propose_claim ledger_digest w (ledger_claim c) 0) (\<lambda>w.
     rbind (transition ledger_digest w (''claim-'' @ sample_hex c) PROPOSED SUPPORTED ''r6'' 0
              (Some (''adjudication-'' @ sample_hex CHR ''9''))) (\<lambda>w.
       transition ledger_digest w (''claim-'' @ sample_hex c) SUPPORTED CONFIRMED ''r5'' 0
         (Some (''adjudication-'' @ sample_hex c))))"

definition ledger_events :: "event list" where
  "ledger_events =
     (case rbind (confirm_claim CHR ''0'' (sample_writer ''u'')) (confirm_claim CHR ''1'') of
        Inr w \<Rightarrow> w_events w | Inl _ \<Rightarrow> [])"

section \<open>Properties of the projection\<close>

text \<open>
  C9. Every projected state has a legal history. For each claim of a projection, the recorded
  changes form a path of legal transitions from \<open>proposed\<close> to the projected state; a confirmed claim
  was confirmed, last, from \<open>supported\<close>; no change follows one into a terminal state; and a claim
  names another as its original only in state \<open>duplicate\<close>.
\<close>

theorem project_histories_legal:
  assumes "project H es = Inr p" and "(i, v) \<in> set (pj_claims p)"
  shows "legal_path PROPOSED (cv_history v) (c_state (cv_claim v)) \<and>
    (c_state (cv_claim v) = CONFIRMED \<longrightarrow>
       cv_history v \<noteq> [] \<and> sc_from (last (cv_history v)) = SUPPORTED \<and> sc_to (last (cv_history v)) = CONFIRMED) \<and>
    (\<forall>cs c ds. cv_history v = cs @ c # ds \<and> terminal (sc_to c) \<longrightarrow> ds = []) \<and>
    (c_duplicate_of (cv_claim v) \<noteq> None \<longrightarrow> c_state (cv_claim v) = DUPLICATE)"
proof -
  from assms(1) obtain st :: loop_state and claims where cl: "claim_views H (ls_lifecycle st) = Inr claims"
    and "pj_claims p = sort_key fst claims" by (rule project_elim) blast
  with assms(2) have "(i, v) \<in> set claims" by simp
  with cl obtain w c where w: "walk H (dict_get_list (snd (ls_lifecycle st)) i) = Inr w"
    and v: "cv_history v = ws_history w" "cv_claim v = c\<lparr>c_state := ws_state w, c_duplicate_of := ws_duplicate_of w\<rparr>"
    by (rule claim_views_member)
  from walk_legal [OF w] v have path: "legal_path PROPOSED (cv_history v) (c_state (cv_claim v))"
    and dup: "c_duplicate_of (cv_claim v) \<noteq> None \<longrightarrow> c_state (cv_claim v) = DUPLICATE"
    by (simp_all add: walk_ok_def)
  from path dup legal_path_confirmed [of PROPOSED "cv_history v"] legal_path_terminal show ?thesis by auto
qed

lemma sorted_contents_perm:
  assumes "sorted_contents H es = Inr cs" and "mset es' = mset es"
    and "no_collision H (content_json ` event_content ` set es)"
  shows "sorted_contents H es' = Inr cs"
proof -
  let ?f = "\<lambda>e. key_of H (event_content e)"
  from assms(1) have keys: "\<forall>e\<in>set es. \<exists>k. canonical_key H (event_content e) = Inr k"
    and cs: "cs = map event_content (sort_key ?f es)"
    by (auto simp: sorted_contents_def sorted_events_Inr_iff rbind_Inr_iff)
  have "map event_content (sort_key ?f es) = map event_content (sort_key ?f es')"
  proof (rule sort_key_perm [OF assms(2) [symmetric]])
    fix a b
    assume ab: "a \<in> set es" "b \<in> set es" "?f a = ?f b"
    with keys obtain i j where "canonical_key H (event_content a) = Inr i" "canonical_key H (event_content b) = Inr j"
      by blast
    then show "event_content a = event_content b"
      by (rule key_of_separates [OF _ _ ab(3) assms(3)]) (use ab in auto)
  qed
  moreover have "\<forall>e\<in>set es'. \<exists>k. canonical_key H (event_content e) = Inr k"
    using keys mset_eq_setD [OF assms(2)] by simp
  ultimately show ?thesis
    using cs by (simp add: sorted_contents_def sorted_events_Inr_iff rbind_Inr_iff)
qed

text \<open>
  C13. The projection is a function of the set-up of events, not of their order. Projecting any
  rearrangement of the events gives the same claims, relations, gaps, cells, requests, verdicts,
  chains and head, as long as no two different contents share a digest.
\<close>

theorem project_order_independent:
  assumes "project H es = Inr p" and "mset es' = mset es"
    and "no_collision H (content_json ` event_content ` set es)"
  shows "project H es' = Inr p"
  using assms(1) sorted_contents_perm [OF _ assms(2,3)] by (auto simp: project_def rbind_Inr_iff)

section \<open>What decides a claim's state\<close>

definition is_lifecycle :: "content \<Rightarrow> bool" where
  "is_lifecycle c = (co_kind c \<in> event_kind_value ` set LIFECYCLE_KINDS)"

definition lifecycle_step :: "hash \<Rightarrow> content \<Rightarrow> lifecycle \<Rightarrow> lifecycle res" where
  "lifecycle_step H c l = rbind (kind_of c) (\<lambda>k. lifecycle_event H k c l)"

lemma is_lifecycle_kind: "kind_of c = Inr k \<Longrightarrow> is_lifecycle c \<longleftrightarrow> k \<in> set LIFECYCLE_KINDS"
  by (auto simp: kind_of_def is_lifecycle_def event_kind_enum.of_Inr_iff event_kind_enum.val_inj)

lemma project_kind_lifecycle:
  assumes "project_kind H k c st = Inr st'" and "k \<in> set LIFECYCLE_KINDS"
  shows "lifecycle_event H k c (ls_lifecycle st) = Inr (ls_lifecycle st')"
proof -
  have "k \<notin> set CHAIN_KINDS" using assms(2) by (auto simp: CHAIN_KINDS_def LIFECYCLE_KINDS_def)
  with assms show ?thesis by (auto simp: project_kind_def Let_def rbind_Inr_iff)
qed

lemma project_kind_other:
  assumes "project_kind H k c st = Inr st'" and "k \<notin> set LIFECYCLE_KINDS"
  shows "ls_lifecycle st' = ls_lifecycle st"
  using assms by (auto simp: project_kind_def Let_def rbind_Inr_iff split: if_split_asm)

lemma project_loop_lifecycle:
  "rfold (project_event H) cs st = Inr st' \<Longrightarrow>
   rfold (lifecycle_step H) (filter is_lifecycle cs) (ls_lifecycle st) = Inr (ls_lifecycle st')"
proof (induction cs arbitrary: st)
  case (Cons c cs)
  from Cons.prems obtain st1 where p: "project_event H c st = Inr st1"
    and r: "rfold (project_event H) cs st1 = Inr st'" by (auto simp: rbind_Inr_iff)
  from p obtain k where k: "kind_of c = Inr k" and s: "project_kind H k c st = Inr st1"
    by (auto simp: project_event_def rbind_Inr_iff)
  show ?case
  proof (cases "k \<in> set LIFECYCLE_KINDS")
    case True
    with project_kind_lifecycle [OF s True] Cons.IH [OF r] k show ?thesis
      by (simp add: is_lifecycle_kind [OF k] lifecycle_step_def)
  next
    case False
    with project_kind_other [OF s False] Cons.IH [OF r] show ?thesis by (simp add: is_lifecycle_kind [OF k])
  qed
qed simp

lemma sorted_contents_filter:
  "sorted_contents H es = Inr cs \<Longrightarrow>
   sorted_contents H (filter (\<lambda>e. P (event_content e)) es) = Inr (filter P cs)"
  by (auto simp: sorted_contents_def sorted_events_Inr_iff rbind_Inr_iff filter_map comp_def filter_sort)

text \<open>
  C14. Only lifecycle events move claims. If two event sets project and agree, up to order, on their
  claim proposals, state transitions and duplicate marks, they project to the same claims with the
  same states and histories: relations, gaps, cells, evidence requests, judge verdicts and chains
  recorded beside them have no influence on a claim's state.
\<close>

theorem claims_depend_on_lifecycle_only:
  assumes "project H es = Inr p" and "project H es' = Inr p'"
    and "mset (filter (\<lambda>e. is_lifecycle (event_content e)) es) = mset (filter (\<lambda>e. is_lifecycle (event_content e)) es')"
    and "no_collision H (content_json ` event_content ` set es)"
  shows "pj_claims p = pj_claims p'"
proof -
  let ?F = "filter (\<lambda>e. is_lifecycle (event_content e))"
  from assms(1) obtain cs and st :: loop_state and claims where 1: "sorted_contents H es = Inr cs"
    "rfold (project_event H) cs empty_loop = Inr st"
    "claim_views H (ls_lifecycle st) = Inr claims" "pj_claims p = sort_key fst claims"
    by (rule project_elim)
  from assms(2) obtain cs' and st' :: loop_state and claims' where 2: "sorted_contents H es' = Inr cs'"
    "rfold (project_event H) cs' empty_loop = Inr st'"
    "claim_views H (ls_lifecycle st') = Inr claims'" "pj_claims p' = sort_key fst claims'"
    by (rule project_elim)
  have "no_collision H (content_json ` event_content ` set (?F es))"
    using assms(4) by (auto simp: no_collision_def elim: inj_on_subset)
  from sorted_contents_perm [OF sorted_contents_filter [OF 1(1)] assms(3) [symmetric] this]
  have "filter is_lifecycle cs = filter is_lifecycle cs'"
    using sorted_contents_filter [OF 2(1), of is_lifecycle] by simp
  with project_loop_lifecycle [OF 1(2)] project_loop_lifecycle [OF 2(2)]
  have "ls_lifecycle st = ls_lifecycle st'" by simp
  with 1(3,4) 2(3,4) show ?thesis by simp
qed

section \<open>Chains on claims\<close>

lemma map_of_sort_fst:
  assumes "dict_ok d"
  shows "map_of (sort_key fst d) = map_of d"
proof (rule ext)
  fix k
  have ok: "dict_ok (sort_key fst d)" using assms by (simp add: distinct_map)
  have "map_of (sort_key fst d) k = Some v \<longleftrightarrow> map_of d k = Some v" for v
    using assms ok by simp
  then show "map_of (sort_key fst d) k = map_of d k" by (metis not_Some_eq)
qed

lemma lifecycle_event_dict_ok:
  "lifecycle_event H k c l = Inr l' \<Longrightarrow> dict_ok (fst l) \<Longrightarrow> dict_ok (fst l')"
  by (auto simp: lifecycle_event_def Let_def rbind_Inr_iff split: if_split_asm)

lemma claim_views_dict_ok:
  assumes "rfold (project_event H) cs empty_loop = Inr st" and "claim_views H (ls_lifecycle st) = Inr claims"
  shows "dict_ok claims"
proof -
  have "dict_ok (fst (ls_lifecycle st))"
    using project_loop_lifecycle [OF assms(1)]
    by (rule rfold_invariant)
      (auto simp: empty_loop_def lifecycle_step_def rbind_Inr_iff dest: lifecycle_event_dict_ok)
  moreover have "rmap (claim_view_of H T) ps = Inr vs \<Longrightarrow> map fst vs = map fst ps" for T ps vs
    by (induction ps arbitrary: vs)
      (auto simp: rbind_Inr_iff claim_view_of_def Let_def split: prod.split_asm)
  ultimately show ?thesis
    using assms(2) by (auto simp: claim_views_def rbind_Inr_iff)
qed

lemma chain_view_facts:
  assumes "chain_view_of claims t e = Inr (i, cv)"
  shows "list_all (component_bound claims) (pr_components (chv_proposal cv))"
    and "chv_decision cv = Some d \<Longrightarrow>
      chain_decide (chv_proposal cv) (chv_challenges cv) = Inr (de_status d, de_limitations d) \<and>
      de_challenge_ids d = map ch_challenge_id (chv_challenges cv)"
  using assms
  by (auto simp: chain_view_of_def Let_def rbind_Inr_iff split: prod.split_asm option.split_asm)

lemma project_chains_elim:
  assumes "rfold (project_event H) cs empty_loop = Inr st" and "claim_views H (ls_lifecycle st) = Inr claims"
    and "project_contents H cs = Inr p"
  obtains t where "rmap (chain_view_of claims t) (sort_key fst (ct_proposals t)) = Inr (pj_chains p)"
proof -
  note Q = assms(3) [unfolded project_contents_def assms(1) malformed_Inr rbind_simps assms(2)]
  from Q have "chain_projection H cs claims = Inr (pj_chains p)"
    unfolding rbind_Inr_iff by (elim exE conjE) (simp only: sum.inject, hypsubst, simp)
  then show ?thesis by (auto simp: chain_projection_def rbind_Inr_iff intro: that)
qed

text \<open>
  C16. A projected chain stands on the projected claims. Each chain view's components are claims of
  the projection in exactly the recorded state, with the recorded adjudication as the last of their
  history; and a recorded decision is the one the policy derives from the proposal and the recorded
  challenges.
\<close>

theorem projected_chains_sound:
  assumes "project H es = Inr p" and "(i, cv) \<in> set (pj_chains p)"
  shows "list_all (\<lambda>cp. \<exists>v. map_of (pj_claims p) (cp_claim_id cp) = Some v \<and> c_state (cv_claim v) = cp_state cp \<and>
      cv_history v \<noteq> [] \<and> sc_adjudication_id (last (cv_history v)) = Some (cp_adjudication_id cp))
      (pr_components (chv_proposal cv)) \<and>
    (\<forall>d. chv_decision cv = Some d \<longrightarrow>
      chain_decide (chv_proposal cv) (chv_challenges cv) = Inr (de_status d, de_limitations d) \<and>
      de_challenge_ids d = map ch_challenge_id (chv_challenges cv))"
proof -
  from assms(1) obtain cs and st :: loop_state and claims where 1: "rfold (project_event H) cs empty_loop = Inr st"
    "claim_views H (ls_lifecycle st) = Inr claims" "pj_claims p = sort_key fst claims" "project_contents H cs = Inr p"
    by (rule project_elim)
  from 1(1,2,4) obtain t where t: "rmap (chain_view_of claims t) (sort_key fst (ct_proposals t)) = Inr (pj_chains p)"
    by (rule project_chains_elim)
  from rmap_Inr_mem [OF t assms(2)] obtain e where e: "chain_view_of claims t e = Inr (i, cv)" by blast
  have same: "map_of (pj_claims p) = map_of claims"
    unfolding 1(3) by (rule map_of_sort_fst [OF claim_views_dict_ok [OF 1(1,2)]])
  from chain_view_facts [OF e] show ?thesis
    by (auto simp: same list_all_iff component_bound_def split: option.split_asm)
qed

section \<open>A ledger with a chain\<close>

definition is_chain :: "content \<Rightarrow> bool" where
  "is_chain c = (co_kind c \<in> event_kind_value ` set CHAIN_KINDS)"

text \<open>The content that \<open>propose_chain\<close> appends.\<close>

definition chain_content :: "string \<Rightarrow> proposal \<Rightarrow> artifact \<Rightarrow> content" where
  "chain_content stream p a =
     \<lparr>co_stream = stream, co_kind = event_kind_value E_CHAIN_PROPOSED, co_subject = pr_chain_id p,
      co_body = jobj [(''proposal'', proposal_doc p), (''artifact'', artifact_doc a)]\<rparr>"

lemma is_chain_kind: "kind_of c = Inr k \<Longrightarrow> is_chain c \<longleftrightarrow> k \<in> set CHAIN_KINDS"
  by (auto simp: kind_of_def is_chain_def event_kind_enum.of_Inr_iff event_kind_enum.val_inj)

lemma kind_of_chain_content: "kind_of (chain_content s p a) = Inr E_CHAIN_PROPOSED"
  by (simp add: kind_of_def chain_content_def event_kind_enum.of_Inr_iff)

lemma chain_content_valid:
  assumes "valid_proposal H p" and "valid_artifact a"
  shows "validate_chain_body H E_CHAIN_PROPOSED (co_subject (chain_content s p a)) (co_body (chain_content s p a)) = Inr ()"
  using chain_bodies_valid(1) [OF assms] by (simp add: acceptable_def chain_content_def CHAIN_KINDS_def)

lemma chain_content_fields:
  "co_subject (chain_content s p a) = pr_chain_id p"
  "jfield ''proposal'' f (co_body (chain_content s p a)) = f (proposal_doc p)"
  "jfield ''artifact'' g (co_body (chain_content s p a)) = g (artifact_doc a)"
  by (simp_all add: chain_content_def)

lemma project_event_chain:
  assumes "valid_proposal H p" and "valid_artifact a"
  shows "project_event H (chain_content s p a) st = Inr st"
  using chain_content_valid [OF assms, of s]
  by (simp add: project_event_def kind_of_chain_content project_kind_def Let_def CHAIN_KINDS_def)

lemma chain_event_proposed:
  assumes "valid_proposal H p" and "valid_artifact a" and "ct_proposals t = []"
  shows "chain_event H (chain_content s p a) t = Inr (t\<lparr>ct_proposals := [(pr_chain_id p, (p, a))]\<rparr>)"
  using assms
  by (simp add: chain_event_def kind_of_chain_content CHAIN_KINDS_def put_same_def put_unique_def
      chain_content_valid [unfolded chain_content_fields(1)] chain_content_fields proposal_codec.parse_doc
      artifact_codec.parse_doc)

lemma chain_event_other: "kind_of c = Inr k \<Longrightarrow> \<not> is_chain c \<Longrightarrow> chain_event H c t = Inr t"
  by (simp add: chain_event_def is_chain_kind)

lemma chain_events_other:
  "rfold (project_event H) cs st = Inr st' \<Longrightarrow> list_all (\<lambda>c. \<not> is_chain c) cs \<Longrightarrow> rfold (chain_event H) cs t = Inr t"
  by (induction cs arbitrary: st) (auto simp: rbind_Inr_iff project_event_def chain_event_other)

lemma sorted_contents_insert:
  assumes "sorted_contents H es = Inr cs" and "canonical_key H (event_content e) = Inr k"
  obtains xs ys where "cs = xs @ ys" "sorted_contents H (e # es) = Inr (xs @ event_content e # ys)"
proof -
  let ?f = "\<lambda>e. key_of H (event_content e)"
  have split: "\<exists>xs ys. zs = xs @ ys \<and> insort_key ?f e zs = xs @ e # ys" for zs
  proof (induction zs)
    case (Cons z zs)
    then obtain xs ys where "zs = xs @ ys" "insort_key ?f e zs = xs @ e # ys" by blast
    then show ?case
      by (cases "?f e \<le> ?f z") (auto intro: exI [of _ "[]"] exI [of _ "z # xs"])
  qed simp
  from assms(1) have cs: "cs = map event_content (sort_key ?f es)"
    and keys: "\<forall>e\<in>set es. \<exists>k. canonical_key H (event_content e) = Inr k"
    by (auto simp: sorted_contents_def sorted_events_Inr_iff rbind_Inr_iff)
  from split obtain xs ys where "sort_key ?f es = xs @ ys" "sort_key ?f (e # es) = xs @ e # ys"
    using sort_key_simps(2) by metis
  with keys assms(2) cs show ?thesis
    by (intro that [of "map event_content xs" "map event_content ys"])
      (simp_all add: sorted_contents_def sorted_events_Inr_iff rbind_Inr_iff del: sort_key_simps split_paired_Ex)
qed

text \<open>A proposal over components the ledger confirms joins the projection without touching the claims.\<close>

lemma project_add_chain:
  assumes p: "project H es = Inr p" and es: "list_all (\<lambda>e. \<not> is_chain (event_content e)) es"
    and e: "event_content e = chain_content s q a" and k: "canonical_key H (chain_content s q a) = Inr k"
    and q: "valid_proposal H q" "valid_artifact a" "list_all (component_bound (pj_claims p)) (pr_components q)"
    and d: "chain_decide q [] = Inr d"
  shows "\<exists>p'. project H (e # es) = Inr p' \<and> pj_claims p' = pj_claims p \<and>
    pj_chains p' = [(pr_chain_id q, \<lparr>chv_proposal = q, chv_artifact = a, chv_challenges = [], chv_decision = None\<rparr>)]"
proof -
  from p obtain cs and st :: loop_state and claims where 1: "sorted_contents H es = Inr cs"
    "rfold (project_event H) cs empty_loop = Inr st" "claim_views H (ls_lifecycle st) = Inr claims"
    "pj_claims p = sort_key fst claims" "project_contents H cs = Inr p" by (rule project_elim)
  from sorted_contents_insert [OF 1(1), of e, unfolded e, OF k] obtain xs ys where xy: "cs = xs @ ys"
    "sorted_contents H (e # es) = Inr (xs @ chain_content s q a # ys)" by blast
  let ?cs = "xs @ chain_content s q a # ys"
  have loop: "rfold (project_event H) ?cs empty_loop = Inr st"
    using 1(2) by (auto simp: xy(1) rfold_append project_event_chain [OF q(1,2)] rbind_Inr_iff)
  have no: "list_all (\<lambda>c. \<not> is_chain c) cs"
    using 1(1) es by (auto simp: sorted_contents_def sorted_events_Inr_iff rbind_Inr_iff list_all_iff)
  from 1(2) obtain sx where x: "rfold (project_event H) xs empty_loop = Inr sx" "rfold (project_event H) ys sx = Inr st"
    by (auto simp: xy(1) rfold_append rbind_Inr_iff)
  have tables: "rfold (chain_event H) ?cs \<lparr>ct_proposals = [], ct_challenges = [], ct_decisions = []\<rparr> =
    Inr \<lparr>ct_proposals = [(pr_chain_id q, (q, a))], ct_challenges = [], ct_decisions = []\<rparr>"
    using chain_events_other [OF x(1)] chain_events_other [OF x(2)] no
    by (simp add: rfold_append chain_event_proposed [OF q(1,2)] xy(1))
  have same: "map_of (pj_claims p) = map_of claims"
    unfolding 1(4) by (rule map_of_sort_fst [OF claim_views_dict_ok [OF 1(2,3)]])
  have bound: "list_all (component_bound claims) (pr_components q)"
    using q(3) by (simp add: component_bound_def [abs_def] same)
  obtain status limitations where d': "chain_decide q [] = Inr (status, limitations)" using d by (cases d) auto
  let ?chains = "[(pr_chain_id q, \<lparr>chv_proposal = q, chv_artifact = a, chv_challenges = [], chv_decision = None\<rparr>)]"
  have chains: "chain_projection H ?cs claims = Inr ?chains"
    by (simp add: chain_projection_def tables chain_view_of_def Let_def bound d')
  note Q = 1(5) [unfolded project_contents_def 1(2) malformed_Inr rbind_simps 1(3)]
  from Q obtain rels judged requests where r:
    "group_by_claim ''evidence relation for unknown claim'' claims er_claim_id (map snd (ls_relations st)) = Inr rels"
    "group_by_claim ''judge verdict for unknown claim'' claims jv_claim_id (map snd (ls_verdicts st)) = Inr judged"
    "request_views claims st = Inr requests" unfolding rbind_Inr_iff by blast
  show ?thesis
    by (simp add: project_def xy(2) malformed_Inr project_contents_def loop 1(3,4) r chains)
qed

definition chain_artifact :: artifact where
  "chain_artifact = \<lparr>art_path = ''chains/a.json'', art_sha256 = sample_hex CHR ''b''\<rparr>"

definition chain_proposed :: event where
  "chain_proposed =
     next_event ledger_digest (sample_writer ''v'') E_CHAIN_PROPOSED (pr_chain_id (sample_proposal CONT_SATISFIED))
       (co_body (chain_content ''v'' (sample_proposal CONT_SATISFIED) chain_artifact))"

lemma ledger_projects:
  obtains p where "project ledger_digest ledger_events = Inr p"
    and "map (c_state \<circ> cv_claim \<circ> snd) (pj_claims p) = [CONFIRMED, CONFIRMED]"
    and "list_all (component_bound (pj_claims p)) (pr_components (sample_proposal CONT_SATISFIED))"
proof -
  have "case project ledger_digest ledger_events of
     Inl _ \<Rightarrow> False
   | Inr p \<Rightarrow> map (c_state \<circ> cv_claim \<circ> snd) (pj_claims p) = [CONFIRMED, CONFIRMED] \<and>
       list_all (component_bound (pj_claims p)) (pr_components (sample_proposal CONT_SATISFIED))"
    by code_simp
  then show ?thesis by (auto intro: that split: sum.split_asm)
qed

lemma ledger_shape:
  "map ev_sequence ledger_events = [0, 1, 2, 3, 4, 5] \<and>
   list_all (\<lambda>e. \<not> is_chain (event_content e) \<and> is_lifecycle (event_content e)) ledger_events \<and>
   distinct (map (\<lambda>e. ledger_digest (content_json (event_content e))) ledger_events)"
  by code_simp

lemma ledger_no_collision: "no_collision ledger_digest (content_json ` event_content ` set ledger_events)"
proof -
  have "inj_on (\<lambda>e. ledger_digest (content_json (event_content e))) (set ledger_events)"
    using ledger_shape by (simp add: distinct_map)
  then show ?thesis by (auto simp: no_collision_def inj_on_def)
qed

lemma chain_proposed_content:
  "event_content chain_proposed = chain_content ''v'' (sample_proposal CONT_SATISFIED) chain_artifact"
  by (simp add: chain_proposed_def next_event_def Let_def event_content_def chain_content_def sample_writer_def)

lemma chain_ready:
  "valid_proposal ledger_digest (sample_proposal CONT_SATISFIED) \<and> valid_artifact chain_artifact"
  by code_simp

lemma chain_keyed: "\<exists>k. canonical_key ledger_digest (chain_content ''v'' (sample_proposal CONT_SATISFIED) chain_artifact) = Inr k"
proof -
  have "case canonical_key ledger_digest (chain_content ''v'' (sample_proposal CONT_SATISFIED) chain_artifact) of
    Inl _ \<Rightarrow> False | Inr k \<Rightarrow> True" by code_simp
  then show ?thesis by (auto split: sum.split_asm)
qed

lemma chain_undecided: "\<exists>d. chain_decide (sample_proposal CONT_SATISFIED) [] = Inr d"
proof -
  have "case chain_decide (sample_proposal CONT_SATISFIED) [] of Inl _ \<Rightarrow> False | Inr k \<Rightarrow> True" by code_simp
  then show ?thesis by (auto split: sum.split_asm)
qed

lemma chain_ledger_projects:
  obtains p p' where "project ledger_digest ledger_events = Inr p"
    and "project ledger_digest (chain_proposed # ledger_events) = Inr p'"
    and "map (c_state \<circ> cv_claim \<circ> snd) (pj_claims p') = [CONFIRMED, CONFIRMED]"
    and "map fst (pj_chains p') = [pr_chain_id (sample_proposal CONT_SATISFIED)]"
proof -
  obtain p where p: "project ledger_digest ledger_events = Inr p"
    "map (c_state \<circ> cv_claim \<circ> snd) (pj_claims p) = [CONFIRMED, CONFIRMED]"
    "list_all (component_bound (pj_claims p)) (pr_components (sample_proposal CONT_SATISFIED))" by (rule ledger_projects)
  obtain k d where k: "canonical_key ledger_digest (chain_content ''v'' (sample_proposal CONT_SATISFIED) chain_artifact) = Inr k"
    and d: "chain_decide (sample_proposal CONT_SATISFIED) [] = Inr d" using chain_keyed chain_undecided by blast
  have es: "list_all (\<lambda>e. \<not> is_chain (event_content e)) ledger_events"
    using ledger_shape by (simp add: list_all_iff)
  from project_add_chain [OF p(1) es chain_proposed_content k _ _ p(3) d] chain_ready
  obtain p' where "project ledger_digest (chain_proposed # ledger_events) = Inr p'" "pj_claims p' = pj_claims p"
    "map fst (pj_chains p') = [pr_chain_id (sample_proposal CONT_SATISFIED)]" by auto
  with p show ?thesis by (intro that) simp_all
qed

text \<open>The confirmed claims of the ledger have a path that ends in their confirmation.\<close>

theorem project_histories_legal_witness:
  "\<exists>p i v. project ledger_digest ledger_events = Inr p \<and> (i, v) \<in> set (pj_claims p) \<and>
     c_state (cv_claim v) = CONFIRMED \<and> sc_from (last (cv_history v)) = SUPPORTED"
proof -
  obtain p where p: "project ledger_digest ledger_events = Inr p"
    "map (c_state \<circ> cv_claim \<circ> snd) (pj_claims p) = [CONFIRMED, CONFIRMED]" by (rule ledger_projects)
  then obtain i v where "(i, v) \<in> set (pj_claims p)" "c_state (cv_claim v) = CONFIRMED"
    by (cases "pj_claims p") (auto, blast)
  with project_histories_legal [OF p(1) this(1)] p(1) show ?thesis by blast
qed

theorem project_order_independent_witness:
  "\<exists>p. project ledger_digest ledger_events = Inr p \<and> project ledger_digest (rev ledger_events) = Inr p \<and>
     length ledger_events = 6"
proof -
  obtain p where p: "project ledger_digest ledger_events = Inr p" by (rule ledger_projects)
  have "length (map ev_sequence ledger_events) = 6" using ledger_shape by simp
  then have "length ledger_events = 6" by simp
  with p project_order_independent [OF p _ ledger_no_collision, of "rev ledger_events"] show ?thesis by simp
qed

text \<open>The chain beside the claims changes the projection, and not the claims.\<close>

theorem claims_depend_on_lifecycle_only_witness:
  "\<exists>p p'. project ledger_digest ledger_events = Inr p \<and>
     project ledger_digest (chain_proposed # ledger_events) = Inr p' \<and>
     pj_claims p = pj_claims p' \<and> length (pj_chains p') = 1"
proof -
  obtain p p' where p: "project ledger_digest ledger_events = Inr p"
    "project ledger_digest (chain_proposed # ledger_events) = Inr p'"
    "map fst (pj_chains p') = [pr_chain_id (sample_proposal CONT_SATISFIED)]" by (rule chain_ledger_projects)
  have "\<not> is_lifecycle (event_content chain_proposed)"
    by (auto simp: chain_proposed_content is_lifecycle_kind [OF kind_of_chain_content] LIFECYCLE_KINDS_def)
  with claims_depend_on_lifecycle_only [OF p(1,2) _ ledger_no_collision] have "pj_claims p = pj_claims p'" by simp
  moreover have "length (pj_chains p') = 1" using p(3) by (metis length_map list.size(3,4) One_nat_def add_0)
  ultimately show ?thesis using p(1,2) by blast
qed

theorem projected_chains_sound_witness:
  "\<exists>p i cv. project ledger_digest (chain_proposed # ledger_events) = Inr p \<and> (i, cv) \<in> set (pj_chains p) \<and>
     list_all (\<lambda>cp. \<exists>v. map_of (pj_claims p) (cp_claim_id cp) = Some v \<and> c_state (cv_claim v) = cp_state cp)
       (pr_components (chv_proposal cv))"
proof -
  obtain p where p: "project ledger_digest (chain_proposed # ledger_events) = Inr p"
    "map fst (pj_chains p) = [pr_chain_id (sample_proposal CONT_SATISFIED)]" by (rule chain_ledger_projects)
  then obtain i cv where "(i, cv) \<in> set (pj_chains p)" by (cases "pj_chains p") auto
  with projected_chains_sound [OF p(1) this] p(1) show ?thesis by (fastforce simp: list_all_iff)
qed

end
