(* ===== verification/Accounting.thy ===== *)
theory Accounting
  imports Projection
begin

text \<open>
  Exact accounting over a projection (\<open>review/accounting.py\<close>): every claim, expected cell, package,
  evidence request and lead accounted for once, and a violation for each that is not. Ratios are exact
  rationals where the code has floats.
\<close>

datatype pool_outcome =
    POOL_COMPLETE
  | POOL_DEGRADED
  | POOL_FAILED
  | POOL_CANCELED
  | POOL_EMPTY

definition pool_outcome_members :: "pool_outcome list" where
  "pool_outcome_members = [POOL_COMPLETE, POOL_DEGRADED, POOL_FAILED, POOL_CANCELED,
     POOL_EMPTY]"

primrec pool_outcome_value :: "pool_outcome \<Rightarrow> string" where
  "pool_outcome_value POOL_COMPLETE = ''COMPLETE''"
| "pool_outcome_value POOL_DEGRADED = ''DEGRADED''"
| "pool_outcome_value POOL_FAILED = ''FAILED''"
| "pool_outcome_value POOL_CANCELED = ''CANCELED''"
| "pool_outcome_value POOL_EMPTY = ''EMPTY''"

datatype violation_code =
    V_CLAIM_NOT_FINAL
  | V_DUPLICATE_WITHOUT_TARGET
  | V_DUPLICATE_DANGLING
  | V_DUPLICATE_OF_NON_CANONICAL
  | V_CELL_MISSING_TERMINAL
  | V_CELL_MULTIPLE_TERMINAL
  | V_CELL_UNEXPECTED
  | V_CELL_LANE_MISMATCH
  | V_PACKAGE_LANE_MISMATCH
  | V_EVIDENCE_REQUEST_NOT_OPENED
  | V_EVIDENCE_REQUEST_NOT_TERMINAL
  | V_EVIDENCE_REQUEST_MULTIPLE_TERMINAL
  | V_PARTITION_MISMATCH
  | V_LEAD_PACKAGE_UNEXPECTED
  | V_LEAD_OUTCOME_INVALID

definition violation_code_members :: "violation_code list" where
  "violation_code_members = [V_CLAIM_NOT_FINAL, V_DUPLICATE_WITHOUT_TARGET,
     V_DUPLICATE_DANGLING, V_DUPLICATE_OF_NON_CANONICAL, V_CELL_MISSING_TERMINAL,
     V_CELL_MULTIPLE_TERMINAL, V_CELL_UNEXPECTED, V_CELL_LANE_MISMATCH,
     V_PACKAGE_LANE_MISMATCH, V_EVIDENCE_REQUEST_NOT_OPENED,
     V_EVIDENCE_REQUEST_NOT_TERMINAL, V_EVIDENCE_REQUEST_MULTIPLE_TERMINAL,
     V_PARTITION_MISMATCH, V_LEAD_PACKAGE_UNEXPECTED, V_LEAD_OUTCOME_INVALID]"

primrec violation_code_value :: "violation_code \<Rightarrow> string" where
  "violation_code_value V_CLAIM_NOT_FINAL = ''claim_not_final''"
| "violation_code_value V_DUPLICATE_WITHOUT_TARGET = ''duplicate_without_target''"
| "violation_code_value V_DUPLICATE_DANGLING = ''duplicate_dangling''"
| "violation_code_value V_DUPLICATE_OF_NON_CANONICAL = ''duplicate_of_non_canonical''"
| "violation_code_value V_CELL_MISSING_TERMINAL = ''cell_missing_terminal''"
| "violation_code_value V_CELL_MULTIPLE_TERMINAL = ''cell_multiple_terminal''"
| "violation_code_value V_CELL_UNEXPECTED = ''cell_unexpected''"
| "violation_code_value V_CELL_LANE_MISMATCH = ''cell_lane_mismatch''"
| "violation_code_value V_PACKAGE_LANE_MISMATCH = ''package_lane_mismatch''"
| "violation_code_value V_EVIDENCE_REQUEST_NOT_OPENED = ''evidence_request_not_opened''"
| "violation_code_value V_EVIDENCE_REQUEST_NOT_TERMINAL = ''evidence_request_not_terminal''"
| "violation_code_value V_EVIDENCE_REQUEST_MULTIPLE_TERMINAL = ''evidence_request_multiple_terminal''"
| "violation_code_value V_PARTITION_MISMATCH = ''partition_mismatch''"
| "violation_code_value V_LEAD_PACKAGE_UNEXPECTED = ''lead_package_unexpected''"
| "violation_code_value V_LEAD_OUTCOME_INVALID = ''lead_outcome_invalid''"

interpretation violation_code_enum: str_enum violation_code_members violation_code_value
proof unfold_locales
  show "e \<in> set violation_code_members" for e by (cases e) (simp_all add: violation_code_members_def)
  show "distinct (map violation_code_value violation_code_members)" by (simp add: violation_code_members_def)
qed

text \<open>One violation, as a publication-error gap.\<close>

definition violation :: "hash \<Rightarrow> violation_code \<Rightarrow> string \<Rightarrow> gap" where
  "violation H code subject =
     \<lparr>g_gap_id = id_of H ''gap'' 1 (gap_body GC_PUBLICATION_ERROR subject (violation_code_value code) None 0),
      g_gap_class = GC_PUBLICATION_ERROR, g_subject_id = subject, g_reason = violation_code_value code,
      g_predicate = None, g_round = 0\<rparr>"

definition FINAL_CLAIM_STATES :: "claim_state list" where
  "FINAL_CLAIM_STATES = filter (\<lambda>s. s \<noteq> PROPOSED) claim_state_members"

definition LEAD_SUMMARY_OUTCOMES :: "string list" where
  "LEAD_SUMMARY_OUTCOMES = [''proposal'', ''no_proposal'', ''blocked'', ''unaccounted'']"

section \<open>Records\<close>

text \<open>A \<open>Counter\<close> or a mapping with one entry per member is a function on the members.\<close>

record lane_accounting =
  la_lane :: lane
  la_claims_by_state :: "claim_state \<Rightarrow> nat"
  la_claims_total :: nat
  la_cells_expected :: nat
  la_cells_by_status :: "cell_status \<Rightarrow> nat"
  la_cells_missing :: nat
  la_packages_expected :: nat
  la_gapped_cells :: nat
  la_gapped_packages :: nat
  la_gap_ratio :: rat
  la_review_incomplete :: bool
  la_outcome :: pool_outcome
  la_duplicate_proposals :: nat
  la_leads_expected :: nat
  la_leads_by_outcome :: "string \<Rightarrow> nat"

record judge_counts =
  jc_by_outcome :: "judge_verdict_value \<Rightarrow> nat"
  jc_model_distinct :: nat
  jc_not_model_distinct :: nat

record accounting =
  ac_lanes :: "lane_accounting list"
  ac_claims_total :: nat
  ac_claims_by_state :: "claim_state \<Rightarrow> nat"
  ac_gaps_by_class :: "gap_class \<Rightarrow> nat"
  ac_requests_by_outcome :: "request_outcome \<Rightarrow> nat"
  ac_incomplete_gap_ratio :: rat
  ac_gap_ratio :: rat
  ac_review_incomplete :: bool
  ac_outcome :: pool_outcome
  ac_violations :: "gap list"
  ac_duplicate_proposals :: nat
  ac_judge_verdicts :: judge_counts

definition exact :: "accounting \<Rightarrow> bool" where
  "exact a = (ac_violations a = [])"

definition judge_summary :: "judge_verdict list \<Rightarrow> judge_counts" where
  "judge_summary vs =
     \<lparr>jc_by_outcome = count_list (map jv_verdict vs),
      jc_model_distinct = length (filter jv_model_distinct vs),
      jc_not_model_distinct = length (filter (\<lambda>v. \<not> jv_model_distinct v) vs)\<rparr>"

definition gap_ratio :: "nat \<Rightarrow> nat \<Rightarrow> rat" where
  "gap_ratio gapped expected = (if expected \<noteq> 0 then of_nat gapped / of_nat expected else 0)"

text \<open>\<open>statuses\<close> are the terminal statuses counted, one per cell with exactly one record.\<close>

definition pool_outcome_of :: "nat \<Rightarrow> nat \<Rightarrow> cell_status list \<Rightarrow> nat \<Rightarrow> pool_outcome" where
  "pool_outcome_of expected_cells expected_packages statuses gapped =
     (if expected_cells = 0 \<and> expected_packages = 0 then POOL_EMPTY
      else if expected_cells \<noteq> 0 \<and> count_list statuses CELL_SUCCEEDED = 0 then
        if length statuses \<noteq> 0 \<and> count_list statuses CELL_CANCELED = length statuses then POOL_CANCELED else POOL_FAILED
      else if gapped \<noteq> 0 then POOL_DEGRADED else POOL_COMPLETE)"

definition combine_outcomes :: "pool_outcome list \<Rightarrow> pool_outcome" where
  "combine_outcomes os =
     (let active = filter (\<lambda>x. x \<noteq> POOL_EMPTY) os
      in if active = [] then POOL_EMPTY
         else if list_all (\<lambda>x. x = POOL_COMPLETE) active then POOL_COMPLETE
         else if list_all (\<lambda>x. x = POOL_CANCELED) active then POOL_CANCELED
         else if list_all (\<lambda>x. x = POOL_FAILED \<or> x = POOL_CANCELED) active then POOL_FAILED
         else POOL_DEGRADED)"

section \<open>Violations\<close>

type_synonym lanes = "(string, lane) dict"
type_synonym leads = "(string, (string, string option) dict) dict"

definition claim_violations :: "hash \<Rightarrow> (string, claim_view) dict \<Rightarrow> string \<times> claim_view \<Rightarrow> gap list" where
  "claim_violations H claims entry =
     (let (i, v) = entry; c = cv_claim v
      in (if c_state c \<notin> set FINAL_CLAIM_STATES then [violation H V_CLAIM_NOT_FINAL i] else []) @
         (if c_state c = DUPLICATE then
            case c_duplicate_of c of
              None \<Rightarrow> [violation H V_DUPLICATE_WITHOUT_TARGET i]
            | Some d \<Rightarrow>
                (case (if d = [] then None else map_of claims d) of
                   None \<Rightarrow> [violation H V_DUPLICATE_DANGLING i]
                 | Some t \<Rightarrow>
                     if c_state (cv_claim t) = DUPLICATE \<or> c_claim_id (cv_claim t) = i
                     then [violation H V_DUPLICATE_OF_NON_CANONICAL i] else [])
          else []))"

definition cell_violations :: "hash \<Rightarrow> (string, cell_record list) dict \<Rightarrow> lanes \<Rightarrow> lanes \<Rightarrow> string \<Rightarrow> gap list" where
  "cell_violations H cells expected_cells expected_packages i =
     (case map_of expected_cells i of
        None \<Rightarrow> [violation H V_CELL_UNEXPECTED i]
      | Some l \<Rightarrow>
          (case dict_get_list cells i of
             [] \<Rightarrow> [violation H V_CELL_MISSING_TERMINAL i]
           | [r] \<Rightarrow>
               if cell_lane r \<noteq> l then [violation H V_CELL_LANE_MISMATCH i]
               else if (case map_of expected_packages (cell_package_id r) of None \<Rightarrow> False | Some pl \<Rightarrow> pl \<noteq> cell_lane r)
               then [violation H V_PACKAGE_LANE_MISMATCH i] else []
           | _ \<Rightarrow> [violation H V_CELL_MULTIPLE_TERMINAL i]))"

definition request_violations :: "hash \<Rightarrow> string \<times> request_view \<Rightarrow> gap list" where
  "request_violations H entry =
     (let (i, r) = entry
      in (if rv_opened r \<noteq> 1 then [violation H V_EVIDENCE_REQUEST_NOT_OPENED i] else []) @
         (case rv_outcomes r of
            [] \<Rightarrow> [violation H V_EVIDENCE_REQUEST_NOT_TERMINAL i]
          | [_] \<Rightarrow> []
          | _ \<Rightarrow> [violation H V_EVIDENCE_REQUEST_MULTIPLE_TERMINAL i]))"

definition request_outcomes :: "(string, request_view) dict \<Rightarrow> request_outcome list" where
  "request_outcomes requests = concat (map (\<lambda>(_, r). case rv_outcomes r of [x] \<Rightarrow> [x] | _ \<Rightarrow> []) requests)"

text \<open>The leads of one package: a violation for each unknown outcome, and the outcomes counted.\<close>

definition lead_violations :: "hash \<Rightarrow> lanes \<Rightarrow> string \<times> (string, string option) dict \<Rightarrow> gap list" where
  "lead_violations H expected_packages entry =
     (let (package, leads) = entry
      in if map_of expected_packages package = None then [violation H V_LEAD_PACKAGE_UNEXPECTED package]
         else concat (map (\<lambda>(lead, summary).
                if (case summary of None \<Rightarrow> False | Some x \<Rightarrow> x \<in> set LEAD_SUMMARY_OUTCOMES) then []
                else [violation H V_LEAD_OUTCOME_INVALID (package @ '':'' @ lead)]) (sort_key fst leads)))"

definition lane_leads :: "lanes \<Rightarrow> leads \<Rightarrow> lane \<Rightarrow> string list" where
  "lane_leads expected_packages leads l =
     concat (map (\<lambda>(package, ls).
       if map_of expected_packages package = Some l
       then filter (\<lambda>x. x \<in> set LEAD_SUMMARY_OUTCOMES) (List.map_filter (\<lambda>(_, summary). summary) ls) else []) leads)"

section \<open>Accounting for a lane\<close>

definition lane_cell_ids :: "lanes \<Rightarrow> lane \<Rightarrow> string list" where
  "lane_cell_ids expected l = sort (map fst (filter (\<lambda>(_, k). k = l) expected))"

definition cell_statuses :: "(string, cell_record list) dict \<Rightarrow> string list \<Rightarrow> cell_status list" where
  "cell_statuses cells ids = concat (map (\<lambda>i. case dict_get_list cells i of [r] \<Rightarrow> [cell_status r] | _ \<Rightarrow> []) ids)"

definition cells_missing :: "(string, cell_record list) dict \<Rightarrow> string list \<Rightarrow> nat" where
  "cells_missing cells ids = length (filter (\<lambda>i. length (dict_get_list cells i) \<noteq> 1) ids)"

definition lane_packages :: "lanes \<Rightarrow> lane \<Rightarrow> string list" where
  "lane_packages expected l = map fst (filter (\<lambda>(_, k). k = l) expected)"

definition package_gapped :: "gap list \<Rightarrow> string \<Rightarrow> bool" where
  "package_gapped gaps package = list_ex (\<lambda>g. g_subject_id g = package) gaps"

definition lane_states :: "(string, claim_view) dict \<Rightarrow> lane \<Rightarrow> claim_state list" where
  "lane_states claims l = map (\<lambda>(_, v). c_state (cv_claim v)) (filter (\<lambda>(_, v). c_lane (cv_claim v) = l) claims)"

definition lane_account :: "projection \<Rightarrow> lanes \<Rightarrow> lanes \<Rightarrow> leads \<Rightarrow> rat \<Rightarrow> lane \<Rightarrow> lane_accounting" where
  "lane_account p expected_cells expected_packages leads threshold l =
     (let states = lane_states (pj_claims p) l;
          ids = lane_cell_ids expected_cells l;
          statuses = cell_statuses (pj_cells p) ids;
          missing = cells_missing (pj_cells p) ids;
          gapped_cells = missing + length (filter (\<lambda>s. s \<noteq> CELL_SUCCEEDED) statuses);
          packages = lane_packages expected_packages l;
          gapped_packages = length (filter (package_gapped (pj_gaps p)) packages);
          ratio = gap_ratio (gapped_cells + gapped_packages) (length ids + length packages)
      in \<lparr>la_lane = l, la_claims_by_state = count_list states, la_claims_total = length states,
          la_cells_expected = length ids, la_cells_by_status = count_list statuses, la_cells_missing = missing,
          la_packages_expected = length packages, la_gapped_cells = gapped_cells, la_gapped_packages = gapped_packages,
          la_gap_ratio = ratio, la_review_incomplete = ratio > threshold,
          la_outcome = pool_outcome_of (length ids) (length packages) statuses (gapped_cells + gapped_packages),
          la_duplicate_proposals = sum_list (map (\<lambda>(_, v). duplicate_proposals v l) (pj_claims p)),
          la_leads_expected = length (lane_leads expected_packages leads l),
          la_leads_by_outcome = count_list (lane_leads expected_packages leads l)\<rparr>)"

text \<open>The two cross-checks of the counts against themselves.\<close>

definition lane_partition_violations :: "hash \<Rightarrow> lane_accounting \<Rightarrow> gap list" where
  "lane_partition_violations H a =
     (if sum_list (map (la_claims_by_state a) claim_state_members) \<noteq> la_claims_total a \<or>
         sum_list (map (la_cells_by_status a) cell_status_members) + la_cells_missing a \<noteq> la_cells_expected a
      then [violation H V_PARTITION_MISMATCH (''lane:'' @ lane_value (la_lane a))] else [])"

definition total_partition_violations :: "hash \<Rightarrow> lane_accounting list \<Rightarrow> (claim_state \<Rightarrow> nat) \<Rightarrow> nat \<Rightarrow> gap list" where
  "total_partition_violations H lanes by_state claims =
     (if sum_list (map la_claims_total lanes) \<noteq> claims \<or> sum_list (map by_state claim_state_members) \<noteq> claims
      then [violation H V_PARTITION_MISMATCH ''claims''] else [])"

section \<open>The whole account\<close>

definition record_violations :: "hash \<Rightarrow> projection \<Rightarrow> lanes \<Rightarrow> lanes \<Rightarrow> leads \<Rightarrow> gap list" where
  "record_violations H p expected_cells expected_packages leads =
     concat (map (claim_violations H (pj_claims p)) (pj_claims p)) @
     concat (map (cell_violations H (pj_cells p) expected_cells expected_packages)
       (sorted_set (map fst expected_cells @ map fst (pj_cells p)))) @
     concat (map (request_violations H) (pj_requests p)) @
     concat (map (lead_violations H expected_packages) (sort_key fst leads))"

definition unique_gaps :: "gap list \<Rightarrow> gap list" where
  "unique_gaps gs =
     sort_key (\<lambda>g. (g_subject_id g, g_reason g)) (map snd (fold (\<lambda>g. AList.update (g_gap_id g) g) gs []))"

definition exact_accounting :: "hash \<Rightarrow> projection \<Rightarrow> lanes \<Rightarrow> lanes \<Rightarrow> rat \<Rightarrow> leads \<Rightarrow> accounting res" where
  "exact_accounting H p expected_cells expected_packages threshold leads =
     rbind (rguard (0 \<le> threshold \<and> threshold \<le> 1) (ValueError ''incomplete_gap_ratio must lie in [0, 1]'')) (\<lambda>_.
       let lanes = map (lane_account p expected_cells expected_packages leads threshold) lane_members;
           states = map (\<lambda>(_, v). c_state (cv_claim v)) (pj_claims p);
           ratio = gap_ratio (sum_list (map (\<lambda>a. la_gapped_cells a + la_gapped_packages a) lanes))
             (length expected_cells + length expected_packages)
       in Inr \<lparr>ac_lanes = lanes, ac_claims_total = length (pj_claims p), ac_claims_by_state = count_list states,
            ac_gaps_by_class = count_list (map g_gap_class (pj_gaps p)),
            ac_requests_by_outcome = count_list (request_outcomes (pj_requests p)),
            ac_incomplete_gap_ratio = threshold, ac_gap_ratio = ratio,
            ac_review_incomplete = (ratio > threshold \<or> list_ex la_review_incomplete lanes),
            ac_outcome = combine_outcomes (map la_outcome lanes),
            ac_violations = unique_gaps (record_violations H p expected_cells expected_packages leads @
              concat (map (lane_partition_violations H) lanes) @
              total_partition_violations H lanes (count_list states) (length (pj_claims p))),
            ac_duplicate_proposals = sum_list (map la_duplicate_proposals lanes),
            ac_judge_verdicts = judge_summary (concat (map snd (pj_verdicts p)))\<rparr>)"

section \<open>Counts partition\<close>

lemma sum_counts: "distinct ms \<Longrightarrow> set xs \<subseteq> set ms \<Longrightarrow> sum_list (map (count_list xs) ms) = length xs"
proof (induction xs)
  case (Cons x xs)
  have "sum_list (map (count_list (x # xs)) ms) = sum_list (map (count_list xs) ms) + count_list ms x"
    by (induction ms) auto
  also have "count_list ms x = 1" using Cons.prems distinct_count_atmost_1 [of ms] by (simp add: count_mset)
  finally show ?case using Cons by simp
qed simp

lemma enum_sum_counts:
  "sum_list (map (count_list states) claim_state_members) = length states"
  "sum_list (map (count_list statuses) cell_status_members) = length statuses"
  using claim_state_enum.complete cell_status_enum.complete
  by (intro sum_counts; force simp: claim_state_members_def cell_status_members_def)+

lemma statuses_missing: "length (cell_statuses cells ids) + cells_missing cells ids = length ids"
proof (induction ids)
  case (Cons i ids)
  then show ?case
    by (cases "dict_get_list cells i" rule: remdups_adj.cases) (simp_all add: cell_statuses_def cells_missing_def)
qed (simp add: cell_statuses_def cells_missing_def)

lemma lane_cases: "l = LEAD \<or> l = HUNT"
  by (cases l) simp_all

lemma lane_split: "length (filter (\<lambda>x. f x = LEAD) xs) + length (filter (\<lambda>x. f x = HUNT) xs) = length xs"
proof (induction xs)
  case (Cons x xs)
  then show ?case using lane_cases [of "f x"] by auto
qed simp

lemma lane_account_simps [simp]:
  "la_claims_total (lane_account p ec ep ld th l) = length (lane_states (pj_claims p) l)"
  "la_claims_by_state (lane_account p ec ep ld th l) = count_list (lane_states (pj_claims p) l)"
  "la_cells_by_status (lane_account p ec ep ld th l) = count_list (cell_statuses (pj_cells p) (lane_cell_ids ec l))"
  "la_cells_missing (lane_account p ec ep ld th l) = cells_missing (pj_cells p) (lane_cell_ids ec l)"
  "la_cells_expected (lane_account p ec ep ld th l) = length (lane_cell_ids ec l)"
  "la_packages_expected (lane_account p ec ep ld th l) = length (lane_packages ep l)"
  by (simp_all add: lane_account_def Let_def)

lemma lanes_total: "sum_list (map (la_claims_total \<circ> lane_account p ec ep ld th) lane_members) = length (pj_claims p)"
  using lane_split [of "\<lambda>x. c_lane (cv_claim (snd x))" "pj_claims p"]
  by (simp add: lane_members_def lane_states_def case_prod_unfold)

lemma no_partition_violations:
  "lane_partition_violations H (lane_account p ec ep ld th l) = []"
  "total_partition_violations H (map (lane_account p ec ep ld th) lane_members)
     (count_list (map (\<lambda>(_, v). c_state (cv_claim v)) (pj_claims p))) (length (pj_claims p)) = []"
  using lanes_total [of p ec ep ld th]
  by (simp_all add: lane_partition_violations_def total_partition_violations_def enum_sum_counts statuses_missing)

lemma concat_no_violations: "concat (map (\<lambda>_. []) xs) = []"
  by (induction xs) simp_all

lemma concat_map_Nil: "concat (map f xs) = [] \<longleftrightarrow> (\<forall>x\<in>set xs. f x = [])"
  by (induction xs) simp_all

lemma unique_gaps_empty: "unique_gaps gs = [] \<longleftrightarrow> gs = []"
proof -
  have "map fst (fold (\<lambda>g. AList.update (g_gap_id g) g) gs d) = [] \<longleftrightarrow> gs = [] \<and> d = []" for d :: "(string, gap) dict"
  proof (induction gs arbitrary: d)
    case (Cons g gs)
    have "AList.update (g_gap_id g) g d \<noteq> []" by (cases d) auto
    with Cons show ?case by simp
  qed simp
  then show ?thesis by (simp add: unique_gaps_def sort_key_empty)
qed

section \<open>What exact accounting means\<close>

definition claim_accounted :: "(string, claim_view) dict \<Rightarrow> string \<Rightarrow> claim \<Rightarrow> bool" where
  "claim_accounted claims i c =
     (c_state c \<noteq> PROPOSED \<and>
      (c_state c = DUPLICATE \<longrightarrow> (\<exists>d t. c_duplicate_of c = Some d \<and> d \<noteq> [] \<and> map_of claims d = Some t \<and>
         c_state (cv_claim t) \<noteq> DUPLICATE \<and> c_claim_id (cv_claim t) \<noteq> i)))"

definition cell_accounted :: "(string, cell_record list) dict \<Rightarrow> lanes \<Rightarrow> lanes \<Rightarrow> string \<Rightarrow> bool" where
  "cell_accounted cells expected_cells expected_packages i =
     (\<exists>r. dict_get_list cells i = [r] \<and> map_of expected_cells i = Some (cell_lane r) \<and>
        map_of expected_packages (cell_package_id r) \<in> {None, Some (cell_lane r)})"

lemma final_iff: "s \<in> set FINAL_CLAIM_STATES \<longleftrightarrow> s \<noteq> PROPOSED"
  using claim_state_enum.complete by (auto simp: FINAL_CLAIM_STATES_def)

lemma claim_violations_empty: "claim_violations H claims (i, v) = [] \<longleftrightarrow> claim_accounted claims i (cv_claim v)"
  by (cases "c_duplicate_of (cv_claim v)"; cases "map_of claims (the (c_duplicate_of (cv_claim v)))")
    (auto simp: claim_violations_def claim_accounted_def Let_def final_iff)

lemma cell_violations_empty: "cell_violations H cells ec ep i = [] \<longleftrightarrow> cell_accounted cells ec ep i"
  by (auto simp: cell_violations_def cell_accounted_def split: option.split list.split)

lemma request_violations_empty:
  "request_violations H (i, r) = [] \<longleftrightarrow> rv_opened r = 1 \<and> (\<exists>x. rv_outcomes r = [x])"
  by (auto simp: request_violations_def Let_def split: list.split)

lemma lead_violations_empty:
  "lead_violations H ep (package, leads) = [] \<longleftrightarrow>
     map_of ep package \<noteq> None \<and> (\<forall>(lead, s)\<in>set leads. \<exists>x\<in>set LEAD_SUMMARY_OUTCOMES. s = Some x)"
proof -
  have "(case s of None \<Rightarrow> False | Some x \<Rightarrow> x \<in> set LEAD_SUMMARY_OUTCOMES) \<longleftrightarrow>
      (\<exists>x\<in>set LEAD_SUMMARY_OUTCOMES. s = Some x)" for s
    by (cases s) auto
  then show ?thesis
    by (auto simp: lead_violations_def concat_map_Nil case_prod_unfold Let_def simp del: concat_eq_Nil_conv)
qed

text \<open>
  C23. Exact accounting is exactly that. An account is exact, so that publication may proceed, if and
  only if every claim is final and every duplicate names another, canonical, recorded claim; every
  expected cell, and no other, has one terminal record in its own lane with its package; every
  evidence request was opened once and closed once; and every lead of an expected package has a known
  outcome. The cross-checks of the counts never add a violation of their own.
\<close>

theorem accounting_exact_iff:
  assumes "exact_accounting H p ec ep threshold leads = Inr a"
  shows "exact a \<longleftrightarrow>
    (\<forall>(i, v)\<in>set (pj_claims p). claim_accounted (pj_claims p) i (cv_claim v)) \<and>
    (\<forall>i\<in>fst ` set ec \<union> fst ` set (pj_cells p). cell_accounted (pj_cells p) ec ep i) \<and>
    (\<forall>(i, r)\<in>set (pj_requests p). rv_opened r = 1 \<and> (\<exists>x. rv_outcomes r = [x])) \<and>
    (\<forall>(package, ls)\<in>set leads. map_of ep package \<noteq> None \<and>
       (\<forall>(lead, s)\<in>set ls. \<exists>x\<in>set LEAD_SUMMARY_OUTCOMES. s = Some x))"
proof -
  from assms have "ac_violations a = unique_gaps (record_violations H p ec ep leads)"
    by (auto simp: exact_accounting_def rbind_Inr_iff Let_def no_partition_violations comp_def concat_no_violations)
  then have "exact a \<longleftrightarrow> record_violations H p ec ep leads = []" by (simp add: exact_def unique_gaps_empty)
  also have "\<dots> \<longleftrightarrow> (\<forall>x\<in>set (pj_claims p). claim_violations H (pj_claims p) x = []) \<and>
      (\<forall>i\<in>fst ` set ec \<union> fst ` set (pj_cells p). cell_violations H (pj_cells p) ec ep i = []) \<and>
      (\<forall>x\<in>set (pj_requests p). request_violations H x = []) \<and> (\<forall>x\<in>set leads. lead_violations H ep x = [])"
    unfolding record_violations_def append_is_Nil_conv concat_map_Nil by (simp add: sorted_set_def)
  finally show ?thesis
    by (simp only: claim_violations_empty cell_violations_empty request_violations_empty lead_violations_empty
        split_paired_Ball_Sigma Ball_def split_paired_All prod.case)
qed

section \<open>Ratios and outcomes\<close>

lemma lane_gaps_bounded:
  "la_gapped_cells (lane_account p ec ep ld th l) \<le> la_cells_expected (lane_account p ec ep ld th l)"
  "la_gapped_packages (lane_account p ec ep ld th l) \<le> la_packages_expected (lane_account p ec ep ld th l)"
proof -
  let ?ids = "lane_cell_ids ec l"
  have "la_gapped_cells (lane_account p ec ep ld th l) =
      cells_missing (pj_cells p) ?ids + length (filter (\<lambda>s. s \<noteq> CELL_SUCCEEDED) (cell_statuses (pj_cells p) ?ids))"
    by (simp add: lane_account_def Let_def)
  also have "\<dots> \<le> cells_missing (pj_cells p) ?ids + length (cell_statuses (pj_cells p) ?ids)" by simp
  also have "\<dots> = la_cells_expected (lane_account p ec ep ld th l)"
    using statuses_missing [of "pj_cells p" ?ids] by simp
  finally show "la_gapped_cells (lane_account p ec ep ld th l) \<le> la_cells_expected (lane_account p ec ep ld th l)" .
  show "la_gapped_packages (lane_account p ec ep ld th l) \<le> la_packages_expected (lane_account p ec ep ld th l)"
    by (simp add: lane_account_def Let_def)
qed

lemma gap_ratio_bounds: "g \<le> n \<Longrightarrow> 0 \<le> gap_ratio g n \<and> gap_ratio g n \<le> 1"
  by (simp add: gap_ratio_def divide_le_eq)

lemma lanes_expected:
  "(\<Sum>l\<leftarrow>lane_members. length (lane_cell_ids ec l)) = length ec" "(\<Sum>l\<leftarrow>lane_members. length (lane_packages ep l)) = length ep"
  using lane_split [of snd ec] lane_split [of snd ep]
  by (simp_all add: lane_members_def lane_cell_ids_def lane_packages_def case_prod_unfold)

lemma exact_accounting_Inr:
  assumes "exact_accounting H p ec ep th ld = Inr a"
  shows "ac_lanes a = map (lane_account p ec ep ld th) lane_members"
    and "ac_gap_ratio a = gap_ratio (\<Sum>x\<leftarrow>ac_lanes a. la_gapped_cells x + la_gapped_packages x) (length ec + length ep)"
    and "ac_outcome a = combine_outcomes (map la_outcome (ac_lanes a))"
    and "ac_claims_total a = length (pj_claims p)"
    and "ac_claims_by_state a = count_list (map (\<lambda>(_, v). c_state (cv_claim v)) (pj_claims p))"
  using assms by (auto simp: exact_accounting_def rbind_Inr_iff Let_def)

text \<open>
  The counts partition and the ratios are ratios. The claims of the lanes add up to all claims,
  and so do the claims of the states; the expected cells of the lanes add up to all expected cells;
  no lane has more gapped cells or packages than it expects; and every gap ratio lies between 0 and 1.
\<close>

lemma accounting_counts_partition:
  assumes "exact_accounting H p ec ep th ld = Inr a"
  shows "(\<Sum>x\<leftarrow>ac_lanes a. la_claims_total x) = ac_claims_total a \<and>
    (\<Sum>s\<leftarrow>claim_state_members. ac_claims_by_state a s) = ac_claims_total a \<and>
    (\<Sum>x\<leftarrow>ac_lanes a. la_cells_expected x) = length ec \<and>
    (\<forall>x\<in>set (ac_lanes a). la_gapped_cells x \<le> la_cells_expected x \<and> la_gapped_packages x \<le> la_packages_expected x \<and>
       0 \<le> la_gap_ratio x \<and> la_gap_ratio x \<le> 1) \<and>
    0 \<le> ac_gap_ratio a \<and> ac_gap_ratio a \<le> 1"
proof -
  note A = exact_accounting_Inr [OF assms]
  let ?f = "lane_account p ec ep ld th"
  have lane: "0 \<le> la_gap_ratio (?f l) \<and> la_gap_ratio (?f l) \<le> 1" for l
  proof -
    have "la_gap_ratio (?f l) = gap_ratio (la_gapped_cells (?f l) + la_gapped_packages (?f l))
        (la_cells_expected (?f l) + la_packages_expected (?f l))" by (simp add: lane_account_def Let_def)
    with gap_ratio_bounds [OF add_mono [OF lane_gaps_bounded]] show ?thesis by metis
  qed
  have "(\<Sum>l\<leftarrow>lane_members. la_gapped_cells (?f l) + la_gapped_packages (?f l)) \<le>
      (\<Sum>l\<leftarrow>lane_members. la_cells_expected (?f l) + la_packages_expected (?f l))"
    by (intro sum_list_mono add_mono lane_gaps_bounded)
  also have "\<dots> = length ec + length ep"
    using lanes_expected(1) [of ec] lanes_expected(2) [of ep] by (simp add: sum_list_addf)
  finally have total: "0 \<le> ac_gap_ratio a \<and> ac_gap_ratio a \<le> 1"
    unfolding A(2) A(1) by (intro gap_ratio_bounds) (simp add: comp_def)
  show ?thesis
    using lanes_total [of p ec ep ld th] lanes_expected(1) [of ec] lane lane_gaps_bounded total
    by (simp add: A(1,4,5) enum_sum_counts comp_def)
qed

lemma filter_empty_length: "length (filter P xs) = 0 \<longleftrightarrow> (\<forall>x\<in>set xs. \<not> P x)"
  by (simp add: filter_empty_conv)

definition cell_clean :: "(string, cell_record list) dict \<Rightarrow> string \<Rightarrow> bool" where
  "cell_clean cells i = (\<exists>r. dict_get_list cells i = [r] \<and> cell_status r = CELL_SUCCEEDED)"

lemma cells_clean:
  "cells_missing cells ids = 0 \<and> length (filter (\<lambda>s. s \<noteq> CELL_SUCCEEDED) (cell_statuses cells ids)) = 0 \<longleftrightarrow>
     list_all (cell_clean cells) ids"
proof (induction ids)
  case (Cons i ids)
  then show ?case
    by (cases "dict_get_list cells i" rule: remdups_adj.cases)
      (auto simp: cell_statuses_def cells_missing_def cell_clean_def)
qed (simp add: cell_statuses_def cells_missing_def)

lemma clean_statuses: "list_all (cell_clean cells) ids \<Longrightarrow> cell_statuses cells ids = map (\<lambda>_. CELL_SUCCEEDED) ids"
  by (induction ids) (auto simp: cell_statuses_def cell_clean_def)

lemma count_const: "count_list (map (\<lambda>_. x) xs) x = length xs"
  by (induction xs) simp_all

lemma lane_outcome_complete:
  "la_outcome (lane_account p ec ep ld th l) = POOL_COMPLETE \<longleftrightarrow>
     \<not> (lane_cell_ids ec l = [] \<and> lane_packages ep l = []) \<and>
     list_all (cell_clean (pj_cells p)) (lane_cell_ids ec l) \<and>
     list_all (\<lambda>k. \<not> package_gapped (pj_gaps p) k) (lane_packages ep l)"
  using cells_clean [of "pj_cells p" "lane_cell_ids ec l"] clean_statuses [of "pj_cells p" "lane_cell_ids ec l"]
  by (auto simp: lane_account_def Let_def pool_outcome_of_def count_const filter_empty_conv list_all_iff)

lemma lane_outcome_empty:
  "la_outcome (lane_account p ec ep ld th l) = POOL_EMPTY \<longleftrightarrow> lane_cell_ids ec l = [] \<and> lane_packages ep l = []"
  by (simp add: lane_account_def Let_def pool_outcome_of_def)

lemma combine_complete:
  "combine_outcomes os = POOL_COMPLETE \<longleftrightarrow>
     (\<exists>x\<in>set os. x \<noteq> POOL_EMPTY) \<and> (\<forall>x\<in>set os. x \<noteq> POOL_EMPTY \<longrightarrow> x = POOL_COMPLETE)"
  by (auto simp: combine_outcomes_def Let_def list_all_iff filter_empty_conv)

lemma all_lanes: "(\<forall>l\<in>set lane_members. P l) \<longleftrightarrow> (\<forall>l. P l)" "(\<exists>l\<in>set lane_members. P l) \<longleftrightarrow> (\<exists>l. P l)"
  using lane_enum.complete by auto

text \<open>
  C24. A complete outcome is complete. The review's outcome is \<open>COMPLETE\<close> if and only if something was
  expected, every expected cell has exactly one terminal record and it succeeded, and no recorded gap
  names an expected package: missing, duplicated, failed, canceled and unlaunched cells all count.
\<close>

theorem accounting_complete_iff:
  assumes "exact_accounting H p ec ep th ld = Inr a"
  shows "ac_outcome a = POOL_COMPLETE \<longleftrightarrow>
    (ec \<noteq> [] \<or> ep \<noteq> []) \<and>
    (\<forall>i\<in>fst ` set ec. \<exists>r. dict_get_list (pj_cells p) i = [r] \<and> cell_status r = CELL_SUCCEEDED) \<and>
    (\<forall>k\<in>fst ` set ep. \<forall>g\<in>set (pj_gaps p). g_subject_id g \<noteq> k)"
proof -
  note A = exact_accounting_Inr [OF assms]
  have ids: "i \<in> fst ` set ec \<longleftrightarrow> (\<exists>l. i \<in> set (lane_cell_ids ec l))" "k \<in> fst ` set ep \<longleftrightarrow> (\<exists>l. k \<in> set (lane_packages ep l))" for i k
    by (force simp: lane_cell_ids_def lane_packages_def)+
  have none: "ec = [] \<longleftrightarrow> (\<forall>l. lane_cell_ids ec l = [])" "ep = [] \<longleftrightarrow> (\<forall>l. lane_packages ep l = [])"
    using ids by (metis empty_iff image_is_empty list.set(1) set_empty ex_in_conv)+
  have "ac_outcome a = POOL_COMPLETE \<longleftrightarrow>
    (\<exists>l. \<not> (lane_cell_ids ec l = [] \<and> lane_packages ep l = [])) \<and>
    (\<forall>l. list_all (cell_clean (pj_cells p)) (lane_cell_ids ec l) \<and>
       list_all (\<lambda>k. \<not> package_gapped (pj_gaps p) k) (lane_packages ep l))"
    unfolding A(3) A(1) combine_complete
    by (simp add: all_lanes lane_outcome_empty lane_outcome_complete) (metis list.pred_inject(1))
  also have "\<dots> \<longleftrightarrow> (ec \<noteq> [] \<or> ep \<noteq> []) \<and> (\<forall>i\<in>fst ` set ec. cell_clean (pj_cells p) i) \<and>
      (\<forall>k\<in>fst ` set ep. \<not> package_gapped (pj_gaps p) k)"
    unfolding Ball_def ids none list_all_iff by blast
  finally show ?thesis by (simp add: cell_clean_def package_gapped_def list_ex_iff)
qed

section \<open>Samples\<close>

text \<open>A review of one package by two cells that proposed one confirmed claim; the second cell failed.\<close>

definition account_cell :: "string \<Rightarrow> cell_status \<Rightarrow> cell_record" where
  "account_cell i s =
     \<lparr>cell_id = i, cell_lane = LEAD, cell_package_id = ''p1'', cell_role = RED_TEAM_ANALYST, cell_persona = ''a'',
      cell_stack_profile = ''b'', cell_task = ''t'', cell_claim_id = None, cell_status = s, cell_attempts = 1,
      cell_gap_ids = [], cell_receipt_sha256 = None, cell_side_map = None\<rparr>"

definition account_projection :: "cell_status \<Rightarrow> projection" where
  "account_projection s =
     \<lparr>pj_head = ''head'',
      pj_claims = [(''c1'', \<lparr>cv_claim = sample_claim \<lparr>c_state := CONFIRMED\<rparr>, cv_history = [], cv_proposal_sha256s = [''a''],
        cv_proposal_lanes = [LEAD]\<rparr>)],
      pj_relations = [], pj_gaps = [],
      pj_cells = [(''k1'', [account_cell ''k1'' CELL_SUCCEEDED]), (''k2'', [account_cell ''k2'' s])],
      pj_requests = [], pj_verdicts = [], pj_chains = []\<rparr>"

definition sample_account :: "cell_status \<Rightarrow> accounting res" where
  "sample_account s =
     exact_accounting (\<lambda>_. ''h'') (account_projection s) [(''k1'', LEAD), (''k2'', LEAD)] [(''p1'', LEAD)] (1 / 4)
       [(''p1'', [(''l1'', Some ''proposal'')])]"

lemma sample_account_ok: obtains a where "sample_account s = Inr a"
  by (simp add: sample_account_def exact_accounting_def rguard_def Let_def)

text \<open>The failed cell leaves the account exact, and the outcome degraded.\<close>

theorem accounting_exact_iff_witness: "\<exists>a. sample_account CELL_FAILED = Inr a \<and> exact a"
proof -
  obtain a where a: "sample_account CELL_FAILED = Inr a" by (rule sample_account_ok)
  have "exact a"
    by (subst accounting_exact_iff [OF a [unfolded sample_account_def]])
      (simp add: account_projection_def account_cell_def claim_accounted_def cell_accounted_def dict_get_list_def
        sample_claim_def LEAD_SUMMARY_OUTCOMES_def)
  with a show ?thesis by blast
qed

theorem accounting_complete_iff_witness:
  "(\<exists>a. sample_account CELL_SUCCEEDED = Inr a \<and> ac_outcome a = POOL_COMPLETE) \<and>
   (\<exists>a. sample_account CELL_FAILED = Inr a \<and> ac_outcome a \<noteq> POOL_COMPLETE)"
proof -
  obtain a b where a: "sample_account CELL_SUCCEEDED = Inr a" and b: "sample_account CELL_FAILED = Inr b"
    by (metis sample_account_ok)
  have "ac_outcome a = POOL_COMPLETE"
    by (subst accounting_complete_iff [OF a [unfolded sample_account_def]])
      (simp add: account_projection_def account_cell_def dict_get_list_def)
  moreover have "ac_outcome b \<noteq> POOL_COMPLETE"
    by (subst accounting_complete_iff [OF b [unfolded sample_account_def]])
      (simp add: account_projection_def account_cell_def dict_get_list_def)
  ultimately show ?thesis using a b by blast
qed

end
