(* ===== verification/Factors.thy ===== *)
theory Factors
  imports Graph_Facts Models
begin

text \<open>
  Evidence-derived scoring factors (\<open>review/scoring/factors.py\<close>): the closed scales, factor values and
  factor sets.
\<close>

datatype factor_id =
    FI_VERIFICATION
  | FI_TAINT_PATH
  | FI_ATTACKER_CONTROL
  | FI_GUARD_ABSENT
  | FI_EXPOSURE
  | FI_PRIVILEGE
  | FI_DATA_SENSITIVITY
  | FI_IMPACT_CLASS
  | FI_THREAT

definition factor_id_members :: "factor_id list" where
  "factor_id_members = [FI_VERIFICATION, FI_TAINT_PATH, FI_ATTACKER_CONTROL,
     FI_GUARD_ABSENT, FI_EXPOSURE, FI_PRIVILEGE, FI_DATA_SENSITIVITY, FI_IMPACT_CLASS,
     FI_THREAT]"

primrec factor_id_value :: "factor_id \<Rightarrow> string" where
  "factor_id_value FI_VERIFICATION = ''verification''"
| "factor_id_value FI_TAINT_PATH = ''taint_path''"
| "factor_id_value FI_ATTACKER_CONTROL = ''attacker_control''"
| "factor_id_value FI_GUARD_ABSENT = ''guard_absent''"
| "factor_id_value FI_EXPOSURE = ''exposure''"
| "factor_id_value FI_PRIVILEGE = ''privilege''"
| "factor_id_value FI_DATA_SENSITIVITY = ''data_sensitivity''"
| "factor_id_value FI_IMPACT_CLASS = ''impact_class''"
| "factor_id_value FI_THREAT = ''threat''"

interpretation factor_id_enum: str_enum factor_id_members factor_id_value
proof unfold_locales
  show "e \<in> set factor_id_members" for e by (cases e) (simp_all add: factor_id_members_def)
  show "distinct (map factor_id_value factor_id_members)" by (simp add: factor_id_members_def)
qed

datatype citation_kind =
    CK_EVIDENCE_RELATION
  | CK_ENTITY
  | CK_TAG_ASSIGNMENT
  | CK_ADJUDICATION
  | CK_REFERENCE_INPUT
  | CK_CONFIGURATION

definition citation_kind_members :: "citation_kind list" where
  "citation_kind_members = [CK_EVIDENCE_RELATION, CK_ENTITY, CK_TAG_ASSIGNMENT,
     CK_ADJUDICATION, CK_REFERENCE_INPUT, CK_CONFIGURATION]"

primrec citation_kind_value :: "citation_kind \<Rightarrow> string" where
  "citation_kind_value CK_EVIDENCE_RELATION = ''evidence_relation''"
| "citation_kind_value CK_ENTITY = ''entity''"
| "citation_kind_value CK_TAG_ASSIGNMENT = ''tag_assignment''"
| "citation_kind_value CK_ADJUDICATION = ''adjudication''"
| "citation_kind_value CK_REFERENCE_INPUT = ''reference_input''"
| "citation_kind_value CK_CONFIGURATION = ''configuration''"

interpretation citation_kind_enum: str_enum citation_kind_members citation_kind_value
proof unfold_locales
  show "e \<in> set citation_kind_members" for e by (cases e) (simp_all add: citation_kind_members_def)
  show "distinct (map citation_kind_value citation_kind_members)" by (simp add: citation_kind_members_def)
qed

section \<open>Scales and factor values\<close>

text \<open>Closed scales, weakest value first.\<close>

fun SCALES :: "factor_id \<Rightarrow> string list" where
  "SCALES FI_VERIFICATION = [''supported'', ''confirmed'']"
| "SCALES FI_TAINT_PATH = [''code_evidence'', ''tool_observation'', ''codeql_path_observation'', ''graph_dataflow_path'']"
| "SCALES FI_ATTACKER_CONTROL = [''internal'', ''direct_unclassified'', ''local'', ''remote'']"
| "SCALES FI_GUARD_ABSENT = [''code_evidence'', ''tool_observation'', ''graph_fact'']"
| "SCALES FI_EXPOSURE = [''local'', ''internal_network'', ''public'']"
| "SCALES FI_PRIVILEGE = [''sandboxed'', ''elevated'']"
| "SCALES FI_DATA_SENSITIVITY = [''sensitive'', ''secret'']"
| "SCALES FI_IMPACT_CLASS = [''low'', ''medium'', ''high'', ''critical'']"
| "SCALES FI_THREAT = [''not_listed'', ''kev_listed'']"

record score_citation =
  sct_kind :: citation_kind
  sct_id :: string

record factor_value =
  fv_factor :: factor_id
  fv_value :: string
  fv_citations :: "score_citation list"
  fv_detail :: "(string, string list) dict"

record missing_factor =
  mf_factor :: factor_id
  mf_reason :: string

record factor_set =
  fs_values :: "factor_value list"
  fs_missing :: "missing_factor list"

text \<open>\<open>FactorValue(factor, value, citations, detail)\<close>: on its scale, cited, canonical.\<close>

definition mk_factor_value ::
  "factor_id \<Rightarrow> string \<Rightarrow> score_citation list \<Rightarrow> (string, string list) dict \<Rightarrow> factor_value res" where
  "mk_factor_value f v cs detail =
     rbind (rchecks [(v \<in> set (SCALES f), ''value is not on its scale''), (cs \<noteq> [], ''factor has no citation'')]) (\<lambda>_.
       Inr \<lparr>fv_factor = f, fv_value = v,
            fv_citations = sort_key (\<lambda>c. (citation_kind_value (sct_kind c), sct_id c)) (remdups cs),
            fv_detail = map (\<lambda>(k, vs). (k, sorted_set vs)) (sort_key fst detail)\<rparr>)"

definition rank :: "factor_value \<Rightarrow> nat" where
  "rank v = enum_index (SCALES (fv_factor v)) (fv_value v)"

definition mk_factor_set :: "factor_value list \<Rightarrow> missing_factor list \<Rightarrow> factor_set res" where
  "mk_factor_set vs ms =
     (let values = sort_key (\<lambda>v. factor_id_value (fv_factor v)) vs;
          missing = sort_key (\<lambda>m. factor_id_value (mf_factor m)) ms
      in rbind (rguard (distinct (map fv_factor values @ map mf_factor missing))
                  (ValueError ''a factor is both present and missing, or listed twice'')) (\<lambda>_.
           Inr \<lparr>fs_values = values, fs_missing = missing\<rparr>))"

definition fs_get :: "factor_set \<Rightarrow> factor_id \<Rightarrow> factor_value option" where
  "fs_get s f = List.find (\<lambda>v. fv_factor v = f) (fs_values s)"

definition factor_ids :: "factor_set \<Rightarrow> factor_id list" where
  "factor_ids s =
     sort_key factor_id_value (remdups (map fv_factor (fs_values s) @ map mf_factor (fs_missing s)))"


end
