(* ===== verification/Risk_Model.thy ===== *)
theory Risk_Model
  imports Factors
begin

text \<open>
  The declarative risk model and its scoring (\<open>review/scoring/risk_model.py\<close>, the ratings of
  \<open>review/scoring/application_matrix_v3.py\<close>): validated point tables and a severity matrix, points as
  intervals when factors are missing, and the severity band with its bounds.

  Point tables and the matrix are dictionaries of integers and strings; values of other Python types,
  which validation rejects, have no counterpart.
\<close>

section \<open>A dimension\<close>

definition RATINGS :: "string list" where
  "RATINGS = [''low'', ''medium'', ''high'']"

definition BANDS :: "string list" where
  "BANDS = [''low'', ''medium'', ''high'', ''critical'']"

abbreviation IMPACT_CLASSES :: "string list" where
  "IMPACT_CLASSES \<equiv> SCALES FI_IMPACT_CLASS"

definition MAX_POINTS :: int where
  "MAX_POINTS = 1000"

definition DIMENSION_FACTORS :: "(string, factor_id list) dict" where
  "DIMENSION_FACTORS =
     [(''exploitability'', [FI_VERIFICATION, FI_TAINT_PATH, FI_ATTACKER_CONTROL, FI_GUARD_ABSENT, FI_EXPOSURE, FI_PRIVILEGE]),
      (''environmental'', [FI_EXPOSURE, FI_PRIVILEGE, FI_DATA_SENSITIVITY])]"

text \<open>Subscription of a mapping.\<close>

definition subscript :: "('k, 'v) dict \<Rightarrow> 'k \<Rightarrow> 'v res" where
  "subscript d k = (case map_of d k of None \<Rightarrow> Inl KeyError | Some v \<Rightarrow> Inr v)"

record dimension_model =
  dm_name :: string
  dm_points :: "(factor_id, (string, int) dict) dict"
  dm_medium :: int
  dm_high :: int

record point_interval =
  pi_known_points :: int
  pi_floor :: int
  pi_ceiling :: int
  pi_floor_rating :: string
  pi_ceiling_rating :: string
  pi_contributions :: "(factor_id, int) dict"
  pi_unknown :: "(factor_id, int \<times> int) dict"

definition pi_complete :: "point_interval \<Rightarrow> bool" where
  "pi_complete i = (pi_unknown i = [])"

definition pi_rating :: "point_interval \<Rightarrow> string option" where
  "pi_rating i = (if pi_floor_rating i = pi_ceiling_rating i then Some (pi_floor_rating i) else None)"

definition unresolved :: "point_interval \<Rightarrow> string list" where
  "unresolved i = sort (map (factor_id_value \<circ> fst) (filter (\<lambda>(_, low, high). low \<noteq> high) (pi_unknown i)))"

text \<open>One step along a factor's scale: the points are in range and never decrease.\<close>

definition scale_step :: "(string, int) dict \<Rightarrow> string \<Rightarrow> int \<Rightarrow> int res" where
  "scale_step table v previous =
     rbind (subscript table v) (\<lambda>number.
     rbind (rchecks [(0 \<le> number \<and> number \<le> MAX_POINTS, ''points must be an integer between 0 and 1000''),
                     (previous \<le> number, ''points must not decrease along the scale'')]) (\<lambda>_. Inr number))"

definition point_table ::
  "factor_id list \<Rightarrow> string \<times> (string, int) dict \<Rightarrow> (factor_id \<times> (string, int) dict) res" where
  "point_table allowed entry =
     (let (raw, table) = entry
      in rbind (enum_of factor_id_members factor_id_value raw) (\<lambda>f.
         rbind (rchecks [(f \<in> set allowed, ''points may not use this factor''),
                         (set (map fst table) = set (SCALES f), ''points must be given for exactly the scale'')]) (\<lambda>_.
         rbind (rfold (scale_step table) (SCALES f) 0) (\<lambda>_.
         rbind (rmap (\<lambda>v. rbind (subscript table v) (\<lambda>n. Inr (v, n))) (SCALES f)) (\<lambda>row.
           Inr (f, sort_key fst row))))))"

text \<open>\<open>DimensionModel(name, points, bands)\<close>.\<close>

definition mk_dimension ::
  "string \<Rightarrow> (string, (string, int) dict) dict \<Rightarrow> (string, int) dict \<Rightarrow> dimension_model res" where
  "mk_dimension name points bands =
     (case map_of DIMENSION_FACTORS name of
        None \<Rightarrow> Inl (ValueError ''unknown scoring dimension'')
      | Some allowed \<Rightarrow>
          rbind (rguard (points \<noteq> []) (ValueError ''points must name at least one factor'')) (\<lambda>_.
          rbind (rmap (point_table allowed) points) (\<lambda>tables.
          rbind (rguard (set (map fst bands) = {''medium'', ''high''})
                   (ValueError ''bands must give exactly medium and high thresholds'')) (\<lambda>_.
          rbind (subscript bands ''medium'') (\<lambda>medium. rbind (subscript bands ''high'') (\<lambda>high.
          rbind (rchecks [(1 \<le> medium \<and> medium \<le> MAX_POINTS * int (length allowed), ''bands.medium must be a positive integer''),
                          (1 \<le> high \<and> high \<le> MAX_POINTS * int (length allowed), ''bands.high must be a positive integer''),
                          (medium < high, ''bands.medium must be below bands.high'')]) (\<lambda>_.
            Inr \<lparr>dm_name = name, dm_points = sort_key (\<lambda>(f, _). factor_id_value f) tables,
                 dm_medium = medium, dm_high = high\<rparr>)))))))"

definition factors_of :: "dimension_model \<Rightarrow> factor_id list" where
  "factors_of d = map fst (dm_points d)"

definition classify_points :: "dimension_model \<Rightarrow> int \<Rightarrow> string" where
  "classify_points d points =
     (if points \<ge> dm_high d then ''high'' else if points \<ge> dm_medium d then ''medium'' else ''low'')"

definition interval_step ::
  "factor_set \<Rightarrow> factor_id \<times> (string, int) dict \<Rightarrow> (factor_id, int) dict \<times> (factor_id, int \<times> int) dict \<Rightarrow>
   ((factor_id, int) dict \<times> (factor_id, int \<times> int) dict) res" where
  "interval_step fs entry acc =
     (let (f, table) = entry; (known, unknown) = acc
      in (case fs_get fs f of
            Some present \<Rightarrow> rbind (subscript table (fv_value present)) (\<lambda>n. Inr (AList.update f n known, unknown))
          | None \<Rightarrow>
              rbind (subscript table (hd (SCALES f))) (\<lambda>low. rbind (subscript table (last (SCALES f))) (\<lambda>high.
                Inr (known, AList.update f (low, high) unknown)))))"

definition interval :: "dimension_model \<Rightarrow> factor_set \<Rightarrow> point_interval res" where
  "interval d fs =
     rbind (rfold (interval_step fs) (sort_key (\<lambda>(f, _). factor_id_value f) (dm_points d)) ([], [])) (\<lambda>(known, unknown).
       let known_total = sum_list (map snd known);
           floor_points = known_total + sum_list (map (fst \<circ> snd) unknown);
           ceiling_points = known_total + sum_list (map (snd \<circ> snd) unknown)
       in Inr \<lparr>pi_known_points = known_total, pi_floor = floor_points, pi_ceiling = ceiling_points,
               pi_floor_rating = classify_points d floor_points, pi_ceiling_rating = classify_points d ceiling_points,
               pi_contributions = known, pi_unknown = unknown\<rparr>)"

definition dimension_present :: "dimension_model \<Rightarrow> factor_set \<Rightarrow> bool" where
  "dimension_present d fs = list_ex (\<lambda>f. fs_get fs f \<noteq> None) (factors_of d)"

section \<open>The risk model\<close>

record risk_model =
  rm_exploitability :: dimension_model
  rm_environmental :: dimension_model
  rm_technical_severity :: "(string, (string, string) dict) dict"

definition matrix_at :: "(string, (string, string) dict) dict \<Rightarrow> string \<Rightarrow> string \<Rightarrow> string res" where
  "matrix_at matrix impact rating = rbind (subscript matrix impact) (\<lambda>row. subscript row rating)"

text \<open>\<open>row != sorted(row)\<close> over the bands of a row or a column.\<close>

definition bands_rise :: "(string, (string, string) dict) dict \<Rightarrow> (string \<times> string) list \<Rightarrow> unit res" where
  "bands_rise matrix cells =
     rbind (rmap (\<lambda>(impact, rating). matrix_at matrix impact rating) cells) (\<lambda>bands.
       rguard (sorted (map (enum_index BANDS) bands)) (ValueError ''technical_severity must not decrease''))"

definition mk_risk_model ::
  "dimension_model \<Rightarrow> dimension_model \<Rightarrow> (string, (string, string) dict) dict \<Rightarrow> risk_model res" where
  "mk_risk_model exploitability environmental matrix =
     rbind (rchecks
       [(dm_name exploitability = ''exploitability'' \<and> dm_name environmental = ''environmental'',
         ''risk model dimensions are misnamed''),
        (set (map fst matrix) = set IMPACT_CLASSES \<and>
           list_all (\<lambda>(_, row). set (map fst row) = set RATINGS \<and> set (map snd row) \<subseteq> set BANDS) matrix,
         ''technical_severity must map every impact class and exploitability rating to a band'')]) (\<lambda>_.
     rbind (rall (\<lambda>impact. bands_rise matrix (map (\<lambda>rating. (impact, rating)) RATINGS)) IMPACT_CLASSES) (\<lambda>_.
     rbind (rall (\<lambda>rating. bands_rise matrix (map (\<lambda>impact. (impact, rating)) IMPACT_CLASSES)) RATINGS) (\<lambda>_.
     rbind (rmap (\<lambda>impact. rbind (rmap (\<lambda>rating. rbind (matrix_at matrix impact rating) (\<lambda>b. Inr (rating, b))) RATINGS)
              (\<lambda>row. Inr (impact, sort_key fst row))) IMPACT_CLASSES) (\<lambda>rows.
       Inr \<lparr>rm_exploitability = exploitability, rm_environmental = environmental,
            rm_technical_severity = sort_key fst rows\<rparr>))))"

definition consumed_factors :: "risk_model \<Rightarrow> factor_id list" where
  "consumed_factors m =
     sort_key factor_id_value (remdups (factors_of (rm_exploitability m) @ factors_of (rm_environmental m) @
       [FI_VERIFICATION, FI_IMPACT_CLASS, FI_THREAT]))"
section \<open>Scoring\<close>

record severity_assessment =
  sa_assessment :: string
  sa_severity_floor :: "string option"
  sa_severity_ceiling :: "string option"
  sa_unresolved_factors :: "string list"

record risk_score =
  rs_interval :: point_interval
  rs_floor_rating :: string
  rs_ceiling_rating :: string
  rs_kev_raised :: bool
  rs_rating :: "string option"
  rs_band :: "string option"
  rs_assessment :: severity_assessment
  rs_environmental :: "point_interval option"
  rs_missing_factors :: "string list"

text \<open>\<open>RATINGS[RATINGS.index(rating) + 1]\<close>; the callers hold a rating below the last.\<close>

definition next_rating :: "string \<Rightarrow> string" where
  "next_rating r = RATINGS ! Suc (enum_index RATINGS r)"

definition kev_raised :: "factor_set \<Rightarrow> point_interval \<Rightarrow> bool" where
  "kev_raised fs i =
     ((case fs_get fs FI_THREAT of None \<Rightarrow> False | Some threat \<Rightarrow> fv_value threat = ''kev_listed'') \<and>
      pi_floor_rating i \<noteq> last RATINGS)"

definition rated_ends :: "factor_set \<Rightarrow> point_interval \<Rightarrow> string \<times> string" where
  "rated_ends fs i =
     (if kev_raised fs i
      then (next_rating (pi_floor_rating i),
            if pi_ceiling_rating i = last RATINGS then pi_ceiling_rating i else next_rating (pi_ceiling_rating i))
      else (pi_floor_rating i, pi_ceiling_rating i))"

definition severity_ends ::
  "risk_model \<Rightarrow> factor_set \<Rightarrow> string \<times> string \<Rightarrow> (string option \<times> string option) res" where
  "severity_ends m fs ends =
     (case fs_get fs FI_IMPACT_CLASS of
        None \<Rightarrow> Inr (None, None)
      | Some impact \<Rightarrow>
          rbind (matrix_at (rm_technical_severity m) (fv_value impact) (fst ends)) (\<lambda>low.
          rbind (matrix_at (rm_technical_severity m) (fv_value impact) (snd ends)) (\<lambda>high.
            Inr (Some low, Some high))))"

definition assess :: "factor_set \<Rightarrow> point_interval \<Rightarrow> string option \<Rightarrow> string option \<Rightarrow> severity_assessment" where
  "assess fs i low high =
     (let band = (if low = high then low else None)
      in if fs_get fs FI_IMPACT_CLASS = None then
           \<lparr>sa_assessment = ''unrated'', sa_severity_floor = None, sa_severity_ceiling = None,
            sa_unresolved_factors = sorted_set (''impact_class'' # unresolved i)\<rparr>
         else if band = None then
           \<lparr>sa_assessment = ''unrated'', sa_severity_floor = low, sa_severity_ceiling = high,
            sa_unresolved_factors = unresolved i\<rparr>
         else
           \<lparr>sa_assessment = (if pi_complete i then ''complete'' else ''bounded''), sa_severity_floor = low,
            sa_severity_ceiling = high, sa_unresolved_factors = []\<rparr>)"

definition environmental_interval :: "risk_model \<Rightarrow> factor_set \<Rightarrow> point_interval option res" where
  "environmental_interval m fs =
     (if dimension_present (rm_environmental m) fs
      then rbind (interval (rm_environmental m) fs) (\<lambda>i. Inr (Some i)) else Inr None)"

text \<open>
  The ratings of \<open>score\<close>, after its inputs were validated. The package's identity, the digest of its
  native document and the prose of its assumptions and reasons are left out.
\<close>

definition score_factors :: "risk_model \<Rightarrow> factor_set \<Rightarrow> risk_score res" where
  "score_factors m fs =
     rbind (interval (rm_exploitability m) fs) (\<lambda>i.
       let ends = rated_ends fs i
       in rbind (severity_ends m fs ends) (\<lambda>(low, high).
          let band = (if low = high then low else None)
          in rbind (environmental_interval m fs) (\<lambda>environmental.
               Inr \<lparr>rs_interval = i, rs_floor_rating = fst ends, rs_ceiling_rating = snd ends,
                    rs_kev_raised = kev_raised fs i,
                    rs_rating = (if fst ends = snd ends then Some (fst ends) else None),
                    rs_band = band, rs_assessment = assess fs i low high, rs_environmental = environmental,
                    rs_missing_factors = sorted_set (map (factor_id_value \<circ> mf_factor) (fs_missing fs) @
                      (if band = None then [''technical_severity''] else []) @
                      (if environmental = None then [''environmental_business_impact''] else []) @
                      [''remediation_priority''])\<rparr>)))"

section \<open>The default model\<close>

definition DEFAULT_EXPLOITABILITY :: "(string, (string, int) dict) dict" where
  "DEFAULT_EXPLOITABILITY =
     [(''verification'', [(''supported'', 20), (''confirmed'', 40)]),
      (''taint_path'', [(''code_evidence'', 10), (''tool_observation'', 15), (''codeql_path_observation'', 20),
         (''graph_dataflow_path'', 25)]),
      (''attacker_control'', [(''internal'', 0), (''direct_unclassified'', 10), (''local'', 15), (''remote'', 25)]),
      (''guard_absent'', [(''code_evidence'', 15), (''tool_observation'', 15), (''graph_fact'', 20)]),
      (''exposure'', [(''local'', 0), (''internal_network'', 5), (''public'', 10)])]"

definition DEFAULT_ENVIRONMENTAL :: "(string, (string, int) dict) dict" where
  "DEFAULT_ENVIRONMENTAL =
     [(''exposure'', [(''local'', 5), (''internal_network'', 10), (''public'', 30)]),
      (''privilege'', [(''sandboxed'', 0), (''elevated'', 25)]),
      (''data_sensitivity'', [(''sensitive'', 20), (''secret'', 30)])]"

definition DEFAULT_SEVERITY :: "(string, (string, string) dict) dict" where
  "DEFAULT_SEVERITY =
     [(''critical'', [(''low'', ''medium''), (''medium'', ''high''), (''high'', ''critical'')]),
      (''high'', [(''low'', ''low''), (''medium'', ''medium''), (''high'', ''high'')]),
      (''medium'', [(''low'', ''low''), (''medium'', ''low''), (''high'', ''medium'')]),
      (''low'', [(''low'', ''low''), (''medium'', ''low''), (''high'', ''low'')])]"

text \<open>\<open>RiskModel.from_document\<close>.\<close>

definition from_document ::
  "(string, (string, int) dict) dict \<times> (string, int) dict \<Rightarrow> (string, (string, int) dict) dict \<times> (string, int) dict \<Rightarrow>
   (string, (string, string) dict) dict \<Rightarrow> risk_model res" where
  "from_document exploitability environmental matrix =
     rbind (mk_dimension ''exploitability'' (fst exploitability) (snd exploitability)) (\<lambda>x.
     rbind (mk_dimension ''environmental'' (fst environmental) (snd environmental)) (\<lambda>e.
       mk_risk_model x e matrix))"

definition DEFAULT_RISK_MODEL :: "risk_model res" where
  "DEFAULT_RISK_MODEL =
     from_document (DEFAULT_EXPLOITABILITY, [(''medium'', 40), (''high'', 75)])
       (DEFAULT_ENVIRONMENTAL, [(''medium'', 25), (''high'', 50)]) DEFAULT_SEVERITY"
section \<open>Points\<close>

abbreviation points_at :: "(string, int) dict \<Rightarrow> string \<Rightarrow> int" where
  "points_at t v \<equiv> the (map_of t v)"

definition valid_table :: "factor_id \<Rightarrow> (string, int) dict \<Rightarrow> bool" where
  "valid_table f t = ((\<forall>v\<in>set (SCALES f). map_of t v \<noteq> None) \<and> sorted (map (points_at t) (SCALES f)))"

definition valid_dimension :: "dimension_model \<Rightarrow> bool" where
  "valid_dimension d = (dict_ok (dm_points d) \<and> (\<forall>(f, t)\<in>set (dm_points d). valid_table f t))"

definition on_scale :: "factor_set \<Rightarrow> bool" where
  "on_scale fs = (\<forall>v\<in>set (fs_values fs). fv_value v \<in> set (SCALES (fv_factor v)))"

definition low_points :: "factor_set \<Rightarrow> factor_id \<times> (string, int) dict \<Rightarrow> int" where
  "low_points fs e = points_at (snd e) (case fs_get fs (fst e) of Some v \<Rightarrow> fv_value v | None \<Rightarrow> hd (SCALES (fst e)))"

definition high_points :: "factor_set \<Rightarrow> factor_id \<times> (string, int) dict \<Rightarrow> int" where
  "high_points fs e = points_at (snd e) (case fs_get fs (fst e) of Some v \<Rightarrow> fv_value v | None \<Rightarrow> last (SCALES (fst e)))"

lemma SCALES_nonempty [simp]: "SCALES f \<noteq> []"
  by (cases f) simp_all

lemma SCALES_ends [simp]: "hd (SCALES f) \<in> set (SCALES f)" "last (SCALES f) \<in> set (SCALES f)"
  by simp_all

lemma SCALES_distinct [simp]: "distinct (SCALES f)"
  by (cases f) simp_all

lemma fs_get_Some: "fs_get fs f = Some v \<Longrightarrow> v \<in> set (fs_values fs) \<and> fv_factor v = f"
  by (auto simp: fs_get_def find_Some_iff)

lemma on_scale_get: "on_scale fs \<Longrightarrow> fs_get fs f = Some v \<Longrightarrow> fv_value v \<in> set (SCALES f)"
  by (auto simp: on_scale_def dest!: fs_get_Some)

lemma subscript_valid: "valid_table f t \<Longrightarrow> v \<in> set (SCALES f) \<Longrightarrow> subscript t v = Inr (points_at t v)"
  by (auto simp: valid_table_def subscript_def)

text \<open>Positions on a scale and their points.\<close>

lemma enum_index_nth: "v \<in> set vs \<Longrightarrow> enum_index vs v < length vs \<and> vs ! enum_index vs v = v"
  by (induction vs) auto

lemma enum_index_of_nth: "distinct vs \<Longrightarrow> i < length vs \<Longrightarrow> enum_index vs (vs ! i) = i"
  by (induction vs arbitrary: i) (auto simp: nth_Cons split: nat.split)

lemma points_mono:
  assumes "valid_table f t" "v \<in> set (SCALES f)" "w \<in> set (SCALES f)" "enum_index (SCALES f) v \<le> enum_index (SCALES f) w"
  shows "points_at t v \<le> points_at t w"
proof -
  have "map (points_at t) (SCALES f) ! enum_index (SCALES f) v \<le> map (points_at t) (SCALES f) ! enum_index (SCALES f) w"
    using assms enum_index_nth [of w "SCALES f"] by (intro sorted_nth_mono) (auto simp: valid_table_def)
  then show ?thesis using assms(2,3) enum_index_nth [of _ "SCALES f"] by simp
qed

lemma points_ends:
  assumes "valid_table f t" "v \<in> set (SCALES f)"
  shows "points_at t (hd (SCALES f)) \<le> points_at t v" "points_at t v \<le> points_at t (last (SCALES f))"
proof -
  have "enum_index (SCALES f) (hd (SCALES f)) = 0" "enum_index (SCALES f) (last (SCALES f)) = length (SCALES f) - 1"
    using enum_index_of_nth [of "SCALES f"] by (simp_all add: hd_conv_nth last_conv_nth)
  with assms enum_index_nth [of v "SCALES f"] show "points_at t (hd (SCALES f)) \<le> points_at t v"
    "points_at t v \<le> points_at t (last (SCALES f))"
    by (auto intro!: points_mono)
qed

lemma interval_fold:
  assumes "on_scale fs" "\<forall>(f, t)\<in>set es. valid_table f t" "distinct (map fst es)"
    and "fst ` set es \<inter> (fst ` set known \<union> fst ` set unknown) = {}"
  shows "\<exists>k u. rfold (interval_step fs) es (known, unknown) = Inr (k, u) \<and>
    sum_list (map snd k) + sum_list (map (fst \<circ> snd) u) =
      sum_list (map snd known) + sum_list (map (fst \<circ> snd) unknown) + sum_list (map (low_points fs) es) \<and>
    sum_list (map snd k) + sum_list (map (snd \<circ> snd) u) =
      sum_list (map snd known) + sum_list (map (snd \<circ> snd) unknown) + sum_list (map (high_points fs) es) \<and>
    map fst u = map fst unknown @ map fst (filter (\<lambda>(f, _). fs_get fs f = None) es)"
  using assms
proof (induction es arbitrary: known unknown)
  case (Cons e es)
  obtain f t where e: "e = (f, t)" by (cases e)
  with Cons.prems have t: "valid_table f t" and new: "map_of known f = None" "map_of unknown f = None"
    by (auto simp: map_of_eq_None_iff)
  show ?case
  proof (cases "fs_get fs f")
    case None
    with t e new have step: "interval_step fs (f, t) (known, unknown) =
        Inr (known, unknown @ [(f, points_at t (hd (SCALES f)), points_at t (last (SCALES f)))])"
      by (simp add: interval_step_def subscript_valid update_new)
    show ?thesis
      using Cons.IH [of known "unknown @ [(f, points_at t (hd (SCALES f)), points_at t (last (SCALES f)))]"] Cons.prems e None
      by (auto simp: step low_points_def high_points_def)
  next
    case (Some v)
    with t e new on_scale_get [OF assms(1) Some]
    have step: "interval_step fs (f, t) (known, unknown) = Inr (known @ [(f, points_at t (fv_value v))], unknown)"
      by (simp add: interval_step_def subscript_valid update_new)
    show ?thesis
      using Cons.IH [of "known @ [(f, points_at t (fv_value v))]" unknown] Cons.prems e Some
      by (auto simp: step low_points_def high_points_def)
  qed
qed simp

lemma sum_sort_key: "sum_list (map g (sort_key k es)) = sum_list (map g es :: int list)"
  by (metis mset_map mset_sort sum_mset_sum_list)

lemma interval_points:
  assumes "valid_dimension d" "on_scale fs"
  obtains i where "interval d fs = Inr i"
    "pi_floor i = sum_list (map (low_points fs) (dm_points d))"
    "pi_ceiling i = sum_list (map (high_points fs) (dm_points d))"
    "pi_floor_rating i = classify_points d (pi_floor i)" "pi_ceiling_rating i = classify_points d (pi_ceiling i)"
    "pi_complete i \<longleftrightarrow> (\<forall>f\<in>set (factors_of d). fs_get fs f \<noteq> None)"
proof -
  let ?es = "sort_key (\<lambda>(f, _). factor_id_value f) (dm_points d)"
  have "mset (map fst ?es) = mset (map fst (dm_points d))" by simp
  then have "distinct (map fst ?es)" using assms(1) by (metis mset_eq_imp_distinct_iff valid_dimension_def)
  with interval_fold [of fs ?es "[]" "[]"] assms obtain k u where
    ku: "rfold (interval_step fs) ?es ([], []) = Inr (k, u)"
      "sum_list (map snd k) + sum_list (map (fst \<circ> snd) u) = sum_list (map (low_points fs) ?es)"
      "sum_list (map snd k) + sum_list (map (snd \<circ> snd) u) = sum_list (map (high_points fs) ?es)"
      "map fst u = map fst (filter (\<lambda>(f, _). fs_get fs f = None) ?es)"
    by (auto simp: valid_dimension_def)
  from ku(4) have "u = [] \<longleftrightarrow> filter (\<lambda>(f, _). fs_get fs f = None) ?es = []" by (metis map_is_Nil_conv)
  also have "\<dots> \<longleftrightarrow> (\<forall>f\<in>set (factors_of d). fs_get fs f \<noteq> None)"
    by (simp only: filter_empty_conv set_sort factors_of_def) force
  finally have "u = [] \<longleftrightarrow> (\<forall>f\<in>set (factors_of d). fs_get fs f \<noteq> None)" .
  moreover have "interval d fs = Inr \<lparr>pi_known_points = sum_list (map snd k),
      pi_floor = sum_list (map (low_points fs) (dm_points d)), pi_ceiling = sum_list (map (high_points fs) (dm_points d)),
      pi_floor_rating = classify_points d (sum_list (map (low_points fs) (dm_points d))),
      pi_ceiling_rating = classify_points d (sum_list (map (high_points fs) (dm_points d))),
      pi_contributions = k, pi_unknown = u\<rparr>"
    using ku(2,3) by (simp add: interval_def ku(1) Let_def sum_sort_key)
  ultimately show thesis by (intro that) (assumption | simp add: pi_complete_def)+
qed

section \<open>More evidence\<close>

text \<open>\<open>fs'\<close> keeps every value of \<open>fs\<close>, and may supply factors that are missing there.\<close>

definition supplies :: "factor_set \<Rightarrow> factor_set \<Rightarrow> bool" where
  "supplies fs fs' =
     (\<forall>f v. fs_get fs f = Some v \<longrightarrow> (\<exists>v'. fs_get fs' f = Some v' \<and> fv_value v' = fv_value v))"

text \<open>\<open>fs'\<close> is at least as strong on every factor of \<open>fs\<close>, and may supply missing ones.\<close>

definition strengthens :: "factor_set \<Rightarrow> factor_set \<Rightarrow> bool" where
  "strengthens fs fs' = (\<forall>f v. fs_get fs f = Some v \<longrightarrow> (\<exists>v'. fs_get fs' f = Some v' \<and> rank v \<le> rank v'))"

lemma low_le_high:
  "valid_table f t \<Longrightarrow> on_scale fs \<Longrightarrow> low_points fs (f, t) \<le> high_points fs (f, t)"
  using points_ends [of f t "hd (SCALES f)"] by (auto simp: low_points_def high_points_def split: option.split)

lemma low_strengthens:
  assumes "valid_table f t" "on_scale fs" "on_scale fs'" "strengthens fs fs'"
  shows "low_points fs (f, t) \<le> low_points fs' (f, t)"
proof (cases "fs_get fs f")
  case None
  then show ?thesis
    using points_ends(1) [OF assms(1)] on_scale_get [OF assms(3), of f]
    by (auto simp: low_points_def split: option.split)
next
  case (Some v)
  with assms(4) obtain v' where v': "fs_get fs' f = Some v'" "rank v \<le> rank v'" by (auto simp: strengthens_def)
  with Some have "fv_factor v = f" "fv_factor v' = f" using fs_get_Some by auto
  with v' Some show ?thesis
    using points_mono [OF assms(1) on_scale_get [OF assms(2) Some] on_scale_get [OF assms(3) v'(1)]]
    by (simp add: low_points_def rank_def)
qed

lemma high_supplies:
  assumes "valid_table f t" "on_scale fs" "on_scale fs'" "supplies fs fs'"
  shows "high_points fs' (f, t) \<le> high_points fs (f, t)"
proof (cases "fs_get fs f")
  case None
  then show ?thesis
    using points_ends(2) [OF assms(1)] on_scale_get [OF assms(3), of f]
    by (auto simp: high_points_def split: option.split)
next
  case (Some v)
  with assms(4) obtain v' where "fs_get fs' f = Some v'" "fv_value v' = fv_value v" by (auto simp: supplies_def)
  with Some show ?thesis by (simp add: high_points_def)
qed

lemma supplies_strengthens: "supplies fs fs' \<Longrightarrow> strengthens fs fs'"
  unfolding supplies_def strengthens_def
proof (intro allI impI)
  fix f v
  assume s: "\<forall>f v. fs_get fs f = Some v \<longrightarrow> (\<exists>v'. fs_get fs' f = Some v' \<and> fv_value v' = fv_value v)"
    and v: "fs_get fs f = Some v"
  then obtain v' where "fs_get fs' f = Some v'" "fv_value v' = fv_value v" by blast
  moreover from this v have "fv_factor v' = fv_factor v" by (simp add: fs_get_Some)
  ultimately show "\<exists>v'. fs_get fs' f = Some v' \<and> rank v \<le> rank v'" by (auto simp: rank_def)
qed

section \<open>Ratings and bands\<close>

abbreviation rating_index :: "string \<Rightarrow> nat" where
  "rating_index \<equiv> enum_index RATINGS"

abbreviation band_index :: "string \<Rightarrow> nat" where
  "band_index \<equiv> enum_index BANDS"

lemma classify_rating [simp]: "classify_points d n \<in> set RATINGS"
  by (simp add: classify_points_def RATINGS_def)

lemma classify_mono: "n \<le> n' \<Longrightarrow> rating_index (classify_points d n) \<le> rating_index (classify_points d n')"
  by (auto simp: classify_points_def RATINGS_def)

lemma next_rating_values:
  "next_rating ''low'' = ''medium''" "next_rating ''medium'' = ''high''" "last RATINGS = ''high''"
  by (simp_all add: next_rating_def RATINGS_def)

text \<open>A rating raised one band when the claim's advisory is listed, with the last band kept.\<close>

definition lift :: "bool \<Rightarrow> string \<Rightarrow> string" where
  "lift kev r = (if kev \<and> r \<noteq> last RATINGS then next_rating r else r)"

definition kev_listed :: "factor_set \<Rightarrow> bool" where
  "kev_listed fs = (case fs_get fs FI_THREAT of None \<Rightarrow> False | Some threat \<Rightarrow> fv_value threat = ''kev_listed'')"

lemma kev_raised_kev_listed: "kev_raised fs i \<longleftrightarrow> kev_listed fs \<and> pi_floor_rating i \<noteq> last RATINGS"
  by (simp add: kev_raised_def kev_listed_def)

lemma RATINGS_cases: "r \<in> set RATINGS \<longleftrightarrow> r = ''low'' \<or> r = ''medium'' \<or> r = ''high''"
  by (simp add: RATINGS_def)

lemma lift_rating: "r \<in> set RATINGS \<Longrightarrow> lift kev r \<in> set RATINGS"
  by (auto simp: lift_def RATINGS_cases next_rating_values)

lemma lift_mono:
  assumes "r \<in> set RATINGS" "r' \<in> set RATINGS" "rating_index r \<le> rating_index r'" "kev \<longrightarrow> kev'"
  shows "rating_index (lift kev r) \<le> rating_index (lift kev' r')"
  using assms unfolding RATINGS_cases
  by (elim disjE; cases kev; cases kev'; simp add: lift_def next_rating_values) (simp_all add: RATINGS_def)

lemma rated_ends_lift:
  assumes "pi_floor_rating i \<in> set RATINGS" "pi_ceiling_rating i \<in> set RATINGS"
    and "rating_index (pi_floor_rating i) \<le> rating_index (pi_ceiling_rating i)"
  shows "rated_ends fs i = (lift (kev_listed fs) (pi_floor_rating i), lift (kev_listed fs) (pi_ceiling_rating i))"
  using assms unfolding RATINGS_cases rated_ends_def kev_raised_kev_listed
  by (elim disjE; simp add: lift_def next_rating_values) (simp_all add: RATINGS_def)

definition valid_matrix :: "(string, (string, string) dict) dict \<Rightarrow> bool" where
  "valid_matrix m =
     (\<forall>impact\<in>set IMPACT_CLASSES. \<forall>rating\<in>set RATINGS. \<exists>b\<in>set BANDS. matrix_at m impact rating = Inr b \<and>
        (\<forall>impact'\<in>set IMPACT_CLASSES. \<forall>rating'\<in>set RATINGS. \<forall>b'.
           enum_index IMPACT_CLASSES impact \<le> enum_index IMPACT_CLASSES impact' \<longrightarrow>
           rating_index rating \<le> rating_index rating' \<longrightarrow> matrix_at m impact' rating' = Inr b' \<longrightarrow>
           band_index b \<le> band_index b'))"

definition valid_risk_model :: "risk_model \<Rightarrow> bool" where
  "valid_risk_model m =
     (valid_dimension (rm_exploitability m) \<and> valid_dimension (rm_environmental m) \<and> valid_matrix (rm_technical_severity m))"

section \<open>Validation gives a monotone model\<close>

lemma scale_step_Inr: "scale_step t v p = Inr n \<longleftrightarrow> map_of t v = Some n \<and> 0 \<le> n \<and> n \<le> MAX_POINTS \<and> p \<le> n"
  by (auto simp: scale_step_def subscript_def rbind_Inr_iff split: option.splits)

lemma scale_fold:
  "rfold (scale_step t) vs p = Inr q \<Longrightarrow> (\<forall>v\<in>set vs. map_of t v \<noteq> None) \<and> sorted (p # map (points_at t) vs)"
proof (induction vs arbitrary: p)
  case (Cons v vs)
  then obtain n where n: "map_of t v = Some n" "p \<le> n" "rfold (scale_step t) vs n = Inr q"
    by (auto simp: scale_step_Inr rbind_Inr_iff)
  with Cons.IH [OF n(3)] show ?case by auto
qed simp

lemma dict_ok_sort_key: "dict_ok (sort_key k xs) \<longleftrightarrow> dict_ok xs"
  by (metis mset_eq_imp_distinct_iff mset_map mset_sort)

lemma map_of_sort_key: "dict_ok xs \<Longrightarrow> map_of (sort_key k xs) = map_of xs"
  by (subst map_of_inject_set) (simp_all add: dict_ok_sort_key)

lemma rmap_subscript_pairs:
  "rmap (\<lambda>v. rbind (subscript t v) (\<lambda>n. Inr (v, n))) vs = Inr row \<Longrightarrow> row = map (\<lambda>v. (v, the (map_of t v))) vs"
  by (induction vs arbitrary: row) (auto simp: rbind_Inr_iff subscript_def split: option.splits)

lemma point_table_valid:
  assumes "point_table allowed (raw, table) = Inr (f, t)"
  shows "raw = factor_id_value f \<and> f \<in> set allowed \<and> valid_table f t"
proof -
  from assms obtain q where f: "raw = factor_id_value f" "f \<in> set allowed" "rfold (scale_step table) (SCALES f) 0 = Inr q"
    and t: "t = sort_key fst (map (\<lambda>v. (v, points_at table v)) (SCALES f))"
    by (auto simp: point_table_def rbind_Inr_iff factor_id_enum.of_Inr_iff dest!: rmap_subscript_pairs)
  have "map_of t v = Some (points_at table v)" if "v \<in> set (SCALES f)" for v
    unfolding t using that by (subst map_of_sort_key) (simp_all add: comp_def map_of_map_restrict)
  with scale_fold [OF f(3)] f show ?thesis
    by (auto simp: valid_table_def cong: map_cong)
qed

lemma mk_dimension_tables:
  assumes "mk_dimension name points bands = Inr d"
  obtains allowed tables where "map_of DIMENSION_FACTORS name = Some allowed"
    "list_all2 (\<lambda>e y. point_table allowed e = Inr y) points tables"
    "dm_points d = sort_key (\<lambda>(f, _). factor_id_value f) tables" "dm_name d = name" "dm_medium d < dm_high d"
  using assms by (auto simp: mk_dimension_def rbind_Inr_iff rmap_Inr_iff split: option.splits)

lemma mk_dimension_valid:
  assumes "mk_dimension name points bands = Inr d" "dict_ok points"
  shows "valid_dimension d \<and> dm_name d = name \<and> dm_medium d < dm_high d"
proof -
  from assms(1) obtain allowed tables where
    tables: "list_all2 (\<lambda>e y. point_table allowed e = Inr y) points tables" and
    d: "dm_points d = sort_key (\<lambda>(f, _). factor_id_value f) tables" "dm_name d = name" "dm_medium d < dm_high d"
    by (rule mk_dimension_tables)
  from tables have "map fst points = map (factor_id_value \<circ> fst) tables"
    and valid: "\<forall>(f, t)\<in>set tables. valid_table f t"
    by (induction rule: list_all2_induct) (auto dest!: point_table_valid)
  with assms(2) have "distinct (map factor_id_value (map fst tables))" by (simp add: comp_def)
  then have "distinct (map fst tables)" by (metis distinct_map)
  then have "dict_ok (dm_points d)" by (simp add: d dict_ok_sort_key)
  with valid d show ?thesis by (auto simp: valid_dimension_def)
qed

lemma bands_rise_le:
  assumes "bands_rise m (map g xs) = Inr u" "x \<in> set xs" "y \<in> set xs" "enum_index xs x \<le> enum_index xs y"
    and "matrix_at m (fst (g x)) (snd (g x)) = Inr b" "matrix_at m (fst (g y)) (snd (g y)) = Inr b'"
  shows "band_index b \<le> band_index b'"
proof -
  from assms(1) obtain bs where
    bs: "list_all2 (\<lambda>x b. matrix_at m (fst (g x)) (snd (g x)) = Inr b) xs bs" "sorted (map band_index bs)"
    by (auto simp: bands_rise_def rbind_Inr_iff rmap_Inr_iff list_all2_map1 case_prod_unfold)
  let ?i = "enum_index xs x" and ?j = "enum_index xs y"
  have "?i < length xs" "xs ! ?i = x" "?j < length xs" "xs ! ?j = y" using assms(2,3) enum_index_nth by metis+
  with bs(1) assms(5,6) have "bs ! ?i = b" "bs ! ?j = b'" "?j < length bs"
    by (auto simp: list_all2_conv_all_nth)
  with sorted_nth_mono [OF bs(2) assms(4)] assms(4) show ?thesis by simp
qed

lemma mk_risk_model_valid:
  assumes "mk_risk_model x e matrix = Inr m" "valid_dimension x" "valid_dimension e"
  shows "valid_risk_model m"
proof -
  let ?M = "rm_technical_severity m"
  from assms(1) obtain rows where
    keys: "set (map fst matrix) = set IMPACT_CLASSES"
      "list_all (\<lambda>(_, row). set (map fst row) = set RATINGS \<and> set (map snd row) \<subseteq> set BANDS) matrix" and
    rise: "\<forall>i\<in>set IMPACT_CLASSES. bands_rise matrix (map (\<lambda>r. (i, r)) RATINGS) = Inr ()"
      "\<forall>r\<in>set RATINGS. bands_rise matrix (map (\<lambda>i. (i, r)) IMPACT_CLASSES) = Inr ()" and
    rows: "rmap (\<lambda>impact. rbind (rmap (\<lambda>rating. rbind (matrix_at matrix impact rating) (\<lambda>b. Inr (rating, b))) RATINGS)
              (\<lambda>row. Inr (impact, sort_key fst row))) IMPACT_CLASSES = Inr rows" and
    m: "?M = sort_key fst rows" "rm_exploitability m = x" "rm_environmental m = e"
    by (auto simp: mk_risk_model_def rbind_Inr_iff rall_Inr_iff simp del: SCALES.simps)
  have cell: "\<exists>b\<in>set BANDS. matrix_at matrix i r = Inr b" if "i \<in> set IMPACT_CLASSES" "r \<in> set RATINGS" for i r
  proof -
    from that keys(1) obtain row where row: "map_of matrix i = Some row" by (metis map_of_eq_None_iff list.set_map not_None_eq)
    with keys(2) that(2) have "set (map snd row) \<subseteq> set BANDS" "r \<in> fst ` set row"
      by (fastforce simp: list_all_iff dest!: map_of_SomeD)+
    moreover from this(2) obtain b where b: "map_of row r = Some b" by (metis map_of_eq_None_iff not_None_eq)
    moreover from b have "b \<in> set (map snd row)" by (force dest: map_of_SomeD)
    ultimately have "b \<in> set BANDS" by blast
    with row b show ?thesis by (auto simp: matrix_at_def subscript_def)
  qed
  have same: "matrix_at ?M i r = matrix_at matrix i r" if i: "i \<in> set IMPACT_CLASSES" and r: "r \<in> set RATINGS" for i r
  proof -
    define row where "row i = map (\<lambda>r. (r, projr (matrix_at matrix i r))) RATINGS" for i
    have "rmap (\<lambda>rating. rbind (matrix_at matrix i rating) (\<lambda>b. Inr (rating, b))) RATINGS = Inr (row i)"
      if "i \<in> set IMPACT_CLASSES" for i
      unfolding row_def by (rule rmap_pure) (use cell [OF that] in fastforce)
    then have "rmap (\<lambda>impact. rbind (rmap (\<lambda>rating. rbind (matrix_at matrix impact rating) (\<lambda>b. Inr (rating, b))) RATINGS)
              (\<lambda>row. Inr (impact, sort_key fst row))) IMPACT_CLASSES = Inr (map (\<lambda>i. (i, sort_key fst (row i))) IMPACT_CLASSES)"
      by (intro rmap_pure) (simp del: SCALES.simps)
    with rows have "rows = map (\<lambda>i. (i, sort_key fst (row i))) IMPACT_CLASSES" by (simp del: SCALES.simps)
    then have "map_of ?M i = Some (sort_key fst (row i))"
      unfolding m(1) using i by (subst map_of_sort_key) (simp_all add: comp_def map_of_map_restrict del: SCALES.simps)
    moreover have "map_of (sort_key fst (row i)) r = Some (projr (matrix_at matrix i r))"
      unfolding row_def using r by (subst map_of_sort_key) (auto simp: comp_def map_of_map_restrict RATINGS_def simp del: SCALES.simps)
    ultimately show ?thesis using cell [OF i r] by (auto simp: matrix_at_def subscript_def)
  qed
  have "valid_matrix ?M"
    unfolding valid_matrix_def
  proof (intro ballI)
    fix i r
    assume ir: "i \<in> set IMPACT_CLASSES" "r \<in> set RATINGS"
    then obtain b where b: "b \<in> set BANDS" "matrix_at matrix i r = Inr b" using cell by blast
    have "band_index b \<le> band_index b'"
      if ir': "i' \<in> set IMPACT_CLASSES" "r' \<in> set RATINGS" and le: "enum_index IMPACT_CLASSES i \<le> enum_index IMPACT_CLASSES i'"
        "rating_index r \<le> rating_index r'" and b': "matrix_at matrix i' r' = Inr b'" for i' r' b'
    proof -
      obtain c where c: "matrix_at matrix i r' = Inr c" using cell ir(1) ir'(2) by blast
      have "band_index b \<le> band_index c" using bands_rise_le [OF rise(1) [rule_format, OF ir(1)] ir(2) ir'(2) le(2)] b(2) c by simp
      also have "\<dots> \<le> band_index b'"
        using bands_rise_le [OF rise(2) [rule_format, OF ir'(2)] ir(1) ir'(1) le(1)] b' c by simp
      finally show ?thesis .
    qed
    with b ir show "\<exists>b\<in>set BANDS. matrix_at ?M i r = Inr b \<and>
        (\<forall>i'\<in>set IMPACT_CLASSES. \<forall>r'\<in>set RATINGS. \<forall>b'. enum_index IMPACT_CLASSES i \<le> enum_index IMPACT_CLASSES i' \<longrightarrow>
           rating_index r \<le> rating_index r' \<longrightarrow> matrix_at ?M i' r' = Inr b' \<longrightarrow> band_index b \<le> band_index b')"
      by (intro bexI [of _ b]) (auto simp: same simp del: SCALES.simps)
  qed
  with assms m show ?thesis by (simp add: valid_risk_model_def)
qed

lemma from_document_valid:
  assumes "from_document x e matrix = Inr m" "dict_ok (fst x)" "dict_ok (fst e)"
  shows "valid_risk_model m"
  using assms by (auto simp: from_document_def rbind_Inr_iff intro!: mk_risk_model_valid dest!: mk_dimension_valid)

section \<open>What a score says\<close>

lemma score_total:
  assumes "valid_risk_model m" "on_scale fs"
  obtains i s where "interval (rm_exploitability m) fs = Inr i" "score_factors m fs = Inr s"
    "rs_floor_rating s = lift (kev_listed fs) (classify_points (rm_exploitability m) (pi_floor i))"
    "rs_ceiling_rating s = lift (kev_listed fs) (classify_points (rm_exploitability m) (pi_ceiling i))"
    "pi_floor i = sum_list (map (low_points fs) (dm_points (rm_exploitability m)))"
    "pi_ceiling i = sum_list (map (high_points fs) (dm_points (rm_exploitability m)))"
    "pi_floor i \<le> pi_ceiling i"
    "severity_ends m fs (rs_floor_rating s, rs_ceiling_rating s) = Inr (sa_severity_floor (rs_assessment s), sa_severity_ceiling (rs_assessment s))"
    "rs_band s = (if sa_severity_floor (rs_assessment s) = sa_severity_ceiling (rs_assessment s)
       then sa_severity_floor (rs_assessment s) else None)"
    "sa_assessment (rs_assessment s) = ''unrated'' \<longleftrightarrow> rs_band s = None"
    "rs_rating s = (if rs_floor_rating s = rs_ceiling_rating s then Some (rs_floor_rating s) else None)"
proof -
  let ?d = "rm_exploitability m"
  from assms have d: "valid_dimension ?d" "valid_dimension (rm_environmental m)" "valid_matrix (rm_technical_severity m)"
    by (simp_all add: valid_risk_model_def)
  obtain i where i: "interval ?d fs = Inr i" "pi_floor i = sum_list (map (low_points fs) (dm_points ?d))"
    "pi_ceiling i = sum_list (map (high_points fs) (dm_points ?d))"
    "pi_floor_rating i = classify_points ?d (pi_floor i)" "pi_ceiling_rating i = classify_points ?d (pi_ceiling i)"
    by (rule interval_points [OF d(1) assms(2)])
  have le: "pi_floor i \<le> pi_ceiling i"
    unfolding i(2,3) using d(1) assms(2) by (intro sum_list_mono) (auto simp: valid_dimension_def intro: low_le_high)
  have ends: "rated_ends fs i = (lift (kev_listed fs) (pi_floor_rating i), lift (kev_listed fs) (pi_ceiling_rating i))"
    by (rule rated_ends_lift) (simp_all add: i(4,5) classify_mono le)
  have "\<exists>low high. severity_ends m fs (rated_ends fs i) = Inr (low, high)"
  proof (cases "fs_get fs FI_IMPACT_CLASS")
    case (Some v)
    then have "fv_value v \<in> set IMPACT_CLASSES" by (rule on_scale_get [OF assms(2)])
    moreover have "fst (rated_ends fs i) \<in> set RATINGS" "snd (rated_ends fs i) \<in> set RATINGS"
      by (simp_all add: ends i(4,5) lift_rating)
    ultimately obtain b b' where "matrix_at (rm_technical_severity m) (fv_value v) (fst (rated_ends fs i)) = Inr b"
      "matrix_at (rm_technical_severity m) (fv_value v) (snd (rated_ends fs i)) = Inr b'"
      using d(3) unfolding valid_matrix_def by meson
    with Some show ?thesis by (simp add: severity_ends_def)
  qed (simp add: severity_ends_def)
  then obtain low high where sev: "severity_ends m fs (rated_ends fs i) = Inr (low, high)" by blast
  then have none: "fs_get fs FI_IMPACT_CLASS = None \<longleftrightarrow> low = None" "low = None \<longleftrightarrow> high = None"
    by (auto simp: severity_ends_def rbind_Inr_iff split: option.splits)
  obtain env where env: "environmental_interval m fs = Inr env"
    using interval_points [OF d(2) assms(2)] by (metis environmental_interval_def rbind_simps(2))
  obtain s where s: "score_factors m fs = Inr s" "rs_floor_rating s = fst (rated_ends fs i)"
    "rs_ceiling_rating s = snd (rated_ends fs i)" "rs_assessment s = assess fs i low high"
    "rs_band s = (if low = high then low else None)"
    "rs_rating s = (if fst (rated_ends fs i) = snd (rated_ends fs i) then Some (fst (rated_ends fs i)) else None)"
    by (simp add: score_factors_def i(1) sev env Let_def)
  from none have assessed: "sa_severity_floor (assess fs i low high) = low" "sa_severity_ceiling (assess fs i low high) = high"
    "sa_assessment (assess fs i low high) = ''unrated'' \<longleftrightarrow> (if low = high then low else None) = None"
    by (auto simp: assess_def Let_def)
  have "severity_ends m fs (rs_floor_rating s, rs_ceiling_rating s) =
      Inr (sa_severity_floor (rs_assessment s), sa_severity_ceiling (rs_assessment s))"
    using sev unfolding s(2-4) assessed by simp
  moreover have "rs_band s = (if sa_severity_floor (rs_assessment s) = sa_severity_ceiling (rs_assessment s)
      then sa_severity_floor (rs_assessment s) else None)"
    unfolding s(4,5) assessed ..
  moreover have "sa_assessment (rs_assessment s) = ''unrated'' \<longleftrightarrow> rs_band s = None" unfolding s(4,5) assessed ..
  ultimately show thesis
    by (intro that [OF i(1) s(1) _ _ i(2,3) le]) (assumption | simp add: s(2,3,6) ends i(4,5))+
qed

definition floor_points :: "risk_model \<Rightarrow> factor_set \<Rightarrow> int" where
  "floor_points m fs = sum_list (map (low_points fs) (dm_points (rm_exploitability m)))"

definition ceiling_points :: "risk_model \<Rightarrow> factor_set \<Rightarrow> int" where
  "ceiling_points m fs = sum_list (map (high_points fs) (dm_points (rm_exploitability m)))"

lemma score_facts:
  assumes "score_factors m fs = Inr s" "valid_risk_model m" "on_scale fs"
  shows "rs_floor_rating s = lift (kev_listed fs) (classify_points (rm_exploitability m) (floor_points m fs))"
    and "rs_ceiling_rating s = lift (kev_listed fs) (classify_points (rm_exploitability m) (ceiling_points m fs))"
    and "floor_points m fs \<le> ceiling_points m fs"
    and "severity_ends m fs (rs_floor_rating s, rs_ceiling_rating s) =
       Inr (sa_severity_floor (rs_assessment s), sa_severity_ceiling (rs_assessment s))"
    and "rs_band s = (if sa_severity_floor (rs_assessment s) = sa_severity_ceiling (rs_assessment s)
       then sa_severity_floor (rs_assessment s) else None)"
    and "sa_assessment (rs_assessment s) = ''unrated'' \<longleftrightarrow> rs_band s = None"
    and "rs_rating s = (if rs_floor_rating s = rs_ceiling_rating s then Some (rs_floor_rating s) else None)"
  by (rule score_total [OF assms(2,3)], simp add: assms(1) floor_points_def ceiling_points_def)+

lemma score_ratings:
  assumes "score_factors m fs = Inr s" "valid_risk_model m" "on_scale fs"
  shows "rs_floor_rating s \<in> set RATINGS" "rs_ceiling_rating s \<in> set RATINGS"
    "rating_index (rs_floor_rating s) \<le> rating_index (rs_ceiling_rating s)"
  using score_facts(1-3) [OF assms] by (simp_all add: lift_rating lift_mono classify_mono)

text \<open>The severity ends, when the impact class is known.\<close>

lemma score_severity:
  assumes "score_factors m fs = Inr s" "valid_risk_model m" "on_scale fs" "fs_get fs FI_IMPACT_CLASS = Some v"
  obtains low high where "matrix_at (rm_technical_severity m) (fv_value v) (rs_floor_rating s) = Inr low"
    "matrix_at (rm_technical_severity m) (fv_value v) (rs_ceiling_rating s) = Inr high"
    "sa_severity_floor (rs_assessment s) = Some low" "sa_severity_ceiling (rs_assessment s) = Some high"
    "fv_value v \<in> set IMPACT_CLASSES"
  using score_facts(4) [OF assms(1-3)] on_scale_get [OF assms(3,4)] assms(4)
  by (auto simp: severity_ends_def rbind_Inr_iff simp del: SCALES.simps)

lemma matrix_mono:
  assumes "valid_risk_model m" "i \<in> set IMPACT_CLASSES" "i' \<in> set IMPACT_CLASSES" "r \<in> set RATINGS" "r' \<in> set RATINGS"
    and "enum_index IMPACT_CLASSES i \<le> enum_index IMPACT_CLASSES i'" "rating_index r \<le> rating_index r'"
    and "matrix_at (rm_technical_severity m) i r = Inr b" "matrix_at (rm_technical_severity m) i' r' = Inr b'"
  shows "b \<in> set BANDS" "b' \<in> set BANDS" "band_index b \<le> band_index b'"
proof -
  from assms(1) have "valid_matrix (rm_technical_severity m)" by (simp add: valid_risk_model_def)
  with assms(2-) show "b \<in> set BANDS" "b' \<in> set BANDS" "band_index b \<le> band_index b'"
    unfolding valid_matrix_def by (metis Inr_inject)+
qed

text \<open>
  Scoring validated evidence never fails, and its results are on their scales: the ratings are
  exploitability ratings and the bands severity bands with floor at most ceiling; a band is given exactly
  when the assessment is not \<open>unrated\<close>, and then it is both ends.
\<close>

lemma score_well_typed:
  assumes "from_document x e matrix = Inr m" "dict_ok (fst x)" "dict_ok (fst e)" "on_scale fs"
  shows "\<exists>s. score_factors m fs = Inr s \<and>
    rs_floor_rating s \<in> set RATINGS \<and> rs_ceiling_rating s \<in> set RATINGS \<and>
    rating_index (rs_floor_rating s) \<le> rating_index (rs_ceiling_rating s) \<and>
    (if fs_get fs FI_IMPACT_CLASS = None
     then sa_severity_floor (rs_assessment s) = None \<and> sa_severity_ceiling (rs_assessment s) = None
     else \<exists>low\<in>set BANDS. \<exists>high\<in>set BANDS. band_index low \<le> band_index high \<and>
          sa_severity_floor (rs_assessment s) = Some low \<and> sa_severity_ceiling (rs_assessment s) = Some high) \<and>
    (rs_band s = None \<longleftrightarrow> sa_assessment (rs_assessment s) = ''unrated'') \<and>
    (\<forall>b. rs_band s = Some b \<longrightarrow> sa_severity_floor (rs_assessment s) = Some b \<and> sa_severity_ceiling (rs_assessment s) = Some b)"
proof -
  from assms have m: "valid_risk_model m" by (simp add: from_document_valid)
  from m assms(4) obtain s where s: "score_factors m fs = Inr s" by (rule score_total)
  note f = score_facts [OF s m assms(4)] and r = score_ratings [OF s m assms(4)]
  have "\<exists>low\<in>set BANDS. \<exists>high\<in>set BANDS. band_index low \<le> band_index high \<and>
      sa_severity_floor (rs_assessment s) = Some low \<and> sa_severity_ceiling (rs_assessment s) = Some high"
    if "fs_get fs FI_IMPACT_CLASS = Some v" for v
    using score_severity [OF s m assms(4) that] matrix_mono [OF m _ _ r(1,2) order_refl r(3)] by metis
  moreover have "sa_severity_floor (rs_assessment s) = None" "sa_severity_ceiling (rs_assessment s) = None"
    if "fs_get fs FI_IMPACT_CLASS = None"
    using f(4) that by (simp_all add: severity_ends_def)
  ultimately show ?thesis using s f(5,6) r by (auto split: if_splits)
qed

lemma score_bands_supplied:
  assumes m: "valid_risk_model m" and "on_scale fs" "on_scale fs'"
    and "supplies fs fs'" "kev_listed fs = kev_listed fs'" "fs_get fs FI_IMPACT_CLASS \<noteq> None"
    and "score_factors m fs = Inr s" "score_factors m fs' = Inr s'"
  shows "(\<exists>low low' high' high.
      sa_severity_floor (rs_assessment s) = Some low \<and> sa_severity_ceiling (rs_assessment s) = Some high \<and>
      sa_severity_floor (rs_assessment s') = Some low' \<and> sa_severity_ceiling (rs_assessment s') = Some high' \<and>
      band_index low \<le> band_index low' \<and> band_index low' \<le> band_index high' \<and> band_index high' \<le> band_index high) \<and>
    (\<forall>b. rs_band s = Some b \<longrightarrow> rs_band s' = Some b)"
proof -
  note f = score_facts [OF assms(7) m assms(2)] and f' = score_facts [OF assms(8) m assms(3)]
  note r = score_ratings [OF assms(7) m assms(2)] and r' = score_ratings [OF assms(8) m assms(3)]
  from assms(6) obtain v where v: "fs_get fs FI_IMPACT_CLASS = Some v" by blast
  with assms(4) obtain v' where v': "fs_get fs' FI_IMPACT_CLASS = Some v'" "fv_value v' = fv_value v"
    by (auto simp: supplies_def)
  obtain low high where b: "matrix_at (rm_technical_severity m) (fv_value v) (rs_floor_rating s) = Inr low"
    "matrix_at (rm_technical_severity m) (fv_value v) (rs_ceiling_rating s) = Inr high"
    "sa_severity_floor (rs_assessment s) = Some low" "sa_severity_ceiling (rs_assessment s) = Some high"
    "fv_value v \<in> set IMPACT_CLASSES"
    by (rule score_severity [OF assms(7) m assms(2) v])
  obtain low' high' where b': "matrix_at (rm_technical_severity m) (fv_value v) (rs_floor_rating s') = Inr low'"
    "matrix_at (rm_technical_severity m) (fv_value v) (rs_ceiling_rating s') = Inr high'"
    "sa_severity_floor (rs_assessment s') = Some low'" "sa_severity_ceiling (rs_assessment s') = Some high'"
    by (rule score_severity [OF assms(8) m assms(3) v'(1)]) (auto simp: v'(2))
  have "floor_points m fs \<le> floor_points m fs'" "ceiling_points m fs' \<le> ceiling_points m fs"
    using m assms(2-4)
    by (auto simp: floor_points_def ceiling_points_def valid_risk_model_def valid_dimension_def
        intro!: sum_list_mono low_strengthens high_supplies supplies_strengthens)
  then have le: "rating_index (rs_floor_rating s) \<le> rating_index (rs_floor_rating s')"
    "rating_index (rs_ceiling_rating s') \<le> rating_index (rs_ceiling_rating s)"
    by (simp_all add: f(1,2) f'(1,2) assms(5) lift_mono classify_mono)
  note mono = matrix_mono [OF m b(5) b(5) _ _ order_refl]
  have nested: "band_index low \<le> band_index low'" "band_index low' \<le> band_index high'" "band_index high' \<le> band_index high"
    and bands: "low' \<in> set BANDS" "high' \<in> set BANDS"
    using mono [OF r(1) r'(1) le(1) b(1) b'(1)] mono [OF r'(1,2) r'(3) b'(1,2)] mono [OF r'(2) r(2) le(2) b'(2) b(2)] by auto
  have "low' = b \<and> high' = b" if "low = b" "high = b" for b
    using nested bands that enum_index_nth [of low' BANDS] enum_index_nth [of high' BANDS] mono(1) [OF r(1) r'(1) le(1) b(1) b'(1)]
      enum_index_nth [of low BANDS] by (metis le_antisym order_trans)
  with b b' nested f(5) f'(5) show ?thesis by (auto split: if_splits)
qed

text \<open>
  C25. A missing factor is unknown, not low. Supplying factors that were missing, with the same threat
  listing, narrows the severity interval and never moves outside it; so a band that was given stands
  whatever the missing factors turn out to be.
\<close>

theorem score_supplied:
  assumes "from_document x e matrix = Inr m" "dict_ok (fst x)" "dict_ok (fst e)" "on_scale fs" "on_scale fs'"
    and "supplies fs fs'" "kev_listed fs = kev_listed fs'" "fs_get fs FI_IMPACT_CLASS \<noteq> None"
    and "score_factors m fs = Inr s" "score_factors m fs' = Inr s'"
  shows "(\<exists>low low' high' high.
      sa_severity_floor (rs_assessment s) = Some low \<and> sa_severity_ceiling (rs_assessment s) = Some high \<and>
      sa_severity_floor (rs_assessment s') = Some low' \<and> sa_severity_ceiling (rs_assessment s') = Some high' \<and>
      band_index low \<le> band_index low' \<and> band_index low' \<le> band_index high' \<and> band_index high' \<le> band_index high) \<and>
    (\<forall>b. rs_band s = Some b \<longrightarrow> rs_band s' = Some b)"
  by (rule score_bands_supplied [OF from_document_valid [OF assms(1-3)] assms(4-10)])

text \<open>Evidence that is stronger on every factor never lowers the rating or the severity guaranteed.\<close>

lemma score_never_lower:
  assumes m: "valid_risk_model m" and "on_scale fs" "on_scale fs'"
    and "strengthens fs fs'" "score_factors m fs = Inr s" "score_factors m fs' = Inr s'"
  shows "rating_index (rs_floor_rating s) \<le> rating_index (rs_floor_rating s') \<and>
    (\<forall>low. sa_severity_floor (rs_assessment s) = Some low \<longrightarrow>
       (\<exists>low'. sa_severity_floor (rs_assessment s') = Some low' \<and> band_index low \<le> band_index low'))"
proof -
  note f = score_facts [OF assms(5) m assms(2)] and f' = score_facts [OF assms(6) m assms(3)]
  have "kev_listed fs \<longrightarrow> kev_listed fs'"
  proof
    assume "kev_listed fs"
    then obtain v where v: "fs_get fs FI_THREAT = Some v" "fv_value v = ''kev_listed''"
      by (auto simp: kev_listed_def split: option.splits)
    with assms(4) obtain v' where v': "fs_get fs' FI_THREAT = Some v'" "rank v \<le> rank v'" by (auto simp: strengthens_def)
    with v show "kev_listed fs'"
      using on_scale_get [OF assms(3) v'(1)] fs_get_Some [OF v(1)] fs_get_Some [OF v'(1)]
      by (auto simp: kev_listed_def rank_def)
  qed
  moreover have "floor_points m fs \<le> floor_points m fs'"
    using m assms(2-4)
    by (auto simp: floor_points_def valid_risk_model_def valid_dimension_def intro!: sum_list_mono low_strengthens)
  ultimately have le: "rating_index (rs_floor_rating s) \<le> rating_index (rs_floor_rating s')"
    by (simp add: f(1) f'(1) lift_mono classify_mono)
  have "\<exists>low'. sa_severity_floor (rs_assessment s') = Some low' \<and> band_index low \<le> band_index low'"
    if low: "sa_severity_floor (rs_assessment s) = Some low" for low
  proof -
    from f(4) low obtain v where v: "fs_get fs FI_IMPACT_CLASS = Some v"
      by (auto simp: severity_ends_def split: option.splits)
    with assms(4) obtain v' where v': "fs_get fs' FI_IMPACT_CLASS = Some v'" "rank v \<le> rank v'"
      by (auto simp: strengthens_def)
    then have impact: "enum_index IMPACT_CLASSES (fv_value v) \<le> enum_index IMPACT_CLASSES (fv_value v')"
      using v by (simp add: rank_def fs_get_Some)
    obtain b where b: "matrix_at (rm_technical_severity m) (fv_value v) (rs_floor_rating s) = Inr low" "fv_value v \<in> set IMPACT_CLASSES"
      using low by (auto intro: score_severity [OF assms(5) m assms(2) v])
    obtain low' where b': "matrix_at (rm_technical_severity m) (fv_value v') (rs_floor_rating s') = Inr low'"
      "sa_severity_floor (rs_assessment s') = Some low'" "fv_value v' \<in> set IMPACT_CLASSES"
      by (auto intro: score_severity [OF assms(6) m assms(3) v'(1)])
    from matrix_mono(3) [OF m b(2) b'(3) _ _ impact le b(1) b'(1)] b'(2) show ?thesis
      using score_ratings(1) [OF assms(5) m assms(2)] score_ratings(1) [OF assms(6) m assms(3)] by auto
  qed
  with le show ?thesis by blast
qed

section \<open>The threat factor\<close>

text \<open>Points are read from the factors of the dimension only, and the listing is none of them.\<close>

lemma interval_cong:
  assumes "\<forall>f\<in>set (factors_of d). fs_get fs' f = fs_get fs f"
  shows "interval d fs' = interval d fs"
proof -
  have "rfold (interval_step fs') es acc = rfold (interval_step fs) es acc"
    if "\<forall>f\<in>fst ` set es. fs_get fs' f = fs_get fs f" for es acc
    using that
  proof (induction es arbitrary: acc)
    case (Cons e es)
    then have "interval_step fs' e acc = interval_step fs e acc" by (simp add: interval_step_def case_prod_unfold)
    with Cons show ?case by (cases "interval_step fs e acc") simp_all
  qed simp
  with assms show ?thesis by (simp add: interval_def factors_of_def)
qed

lemma mk_dimension_factors:
  assumes "mk_dimension name points bands = Inr d" "map_of DIMENSION_FACTORS name = Some allowed"
  shows "set (factors_of d) \<subseteq> set allowed"
proof -
  obtain tables where
    tables: "list_all2 (\<lambda>e y. point_table allowed e = Inr y) points tables" and
    d: "dm_points d = sort_key (\<lambda>(f, _). factor_id_value f) tables"
    by (rule mk_dimension_tables [OF assms(1)]) (simp add: assms(2))
  from tables have "fst ` set tables \<subseteq> set allowed"
    by (induction rule: list_all2_induct) (use point_table_valid in \<open>force+\<close>)
  then show ?thesis by (simp add: factors_of_def d)
qed

lemma threat_has_no_points:
  assumes "from_document x e matrix = Inr m"
  shows "FI_THREAT \<notin> set (factors_of (rm_exploitability m))" "FI_THREAT \<notin> set (factors_of (rm_environmental m))"
proof -
  from assms obtain d d' where d: "mk_dimension ''exploitability'' (fst x) (snd x) = Inr d"
    "mk_dimension ''environmental'' (fst e) (snd e) = Inr d'" and m: "mk_risk_model d d' matrix = Inr m"
    by (auto simp: from_document_def rbind_Inr_iff)
  from m have "rm_exploitability m = d" "rm_environmental m = d'"
    unfolding mk_risk_model_def by (auto simp only: rbind_Inr_iff sum.inject risk_model.simps)
  with mk_dimension_factors [OF d(1)] mk_dimension_factors [OF d(2)]
  show "FI_THREAT \<notin> set (factors_of (rm_exploitability m))" "FI_THREAT \<notin> set (factors_of (rm_environmental m))"
    by (auto simp: DIMENSION_FACTORS_def)
qed

lemma rbind_elim: "rbind r f = Inr y \<Longrightarrow> (\<And>x. r = Inr x \<Longrightarrow> f x = Inr y \<Longrightarrow> thesis) \<Longrightarrow> thesis"
  by (auto simp: rbind_Inr_iff)

lemma score_interval:
  assumes "score_factors m fs = Inr s"
  shows "interval (rm_exploitability m) fs = Inr (rs_interval s)" "environmental_interval m fs = Inr (rs_environmental s)"
    "\<exists>low high. severity_ends m fs (rated_ends fs (rs_interval s)) = Inr (low, high) \<and>
       rs_assessment s = assess fs (rs_interval s) low high"
  using assms unfolding score_factors_def Let_def by (elim rbind_elim; auto elim!: rbind_elim)+

lemma score_complete:
  assumes "score_factors m fs = Inr s" "valid_risk_model m" "on_scale fs"
  shows "sa_assessment (rs_assessment s) = ''complete'' \<longleftrightarrow>
    fs_get fs FI_IMPACT_CLASS \<noteq> None \<and> (\<forall>f\<in>set (factors_of (rm_exploitability m)). fs_get fs f \<noteq> None)"
proof -
  let ?d = "rm_exploitability m"
  have d: "valid_dimension ?d" using assms(2) by (simp add: valid_risk_model_def)
  have i: "pi_complete (rs_interval s) \<longleftrightarrow> (\<forall>f\<in>set (factors_of ?d). fs_get fs f \<noteq> None)"
    by (rule interval_points [OF d assms(3)]) (use score_interval(1) [OF assms(1)] in simp)
  have "rs_band s \<noteq> None" if "fs_get fs FI_IMPACT_CLASS = Some v" "\<forall>f\<in>set (factors_of ?d). fs_get fs f \<noteq> None" for v
  proof -
    have "floor_points m fs = ceiling_points m fs"
      unfolding floor_points_def ceiling_points_def using that(2)
      by (intro arg_cong [where f = sum_list] map_cong) (auto simp: low_points_def high_points_def factors_of_def)
    with score_facts(1,2) [OF assms] have same: "rs_floor_rating s = rs_ceiling_rating s" by simp
    show ?thesis
      by (rule score_severity [OF assms that(1)]) (use same score_facts(5) [OF assms] in auto)
  qed
  moreover obtain low high where "rs_assessment s = assess fs (rs_interval s) low high" using score_interval(3) [OF assms(1)] by blast
  then have "sa_assessment (rs_assessment s) = ''complete'' \<longleftrightarrow>
      fs_get fs FI_IMPACT_CLASS \<noteq> None \<and> sa_assessment (rs_assessment s) \<noteq> ''unrated'' \<and> pi_complete (rs_interval s)"
    by (simp add: assess_def Let_def)
  ultimately show ?thesis using i score_facts(6) [OF assms] by auto
qed

lemma interval_unknown:
  assumes "interval d fs = Inr i"
  shows "fst ` set (pi_unknown i) \<subseteq> set (factors_of d)"
proof -
  have "fst ` set (snd acc') \<subseteq> fst ` set (snd acc) \<union> fst ` set es" if "rfold (interval_step fs) es acc = Inr acc'" for es acc acc'
    using that
  proof (induction es arbitrary: acc)
    case (Cons e es)
    then obtain t where t: "interval_step fs e acc = Inr t" "rfold (interval_step fs) es t = Inr acc'" by (auto simp: rbind_Inr_iff)
    then have "snd t = snd acc \<or> (\<exists>v. snd t = AList.update (fst e) v (snd acc))"
      by (auto simp: interval_step_def case_prod_unfold rbind_Inr_iff split: option.split_asm; metis)
    then have "fst ` set (snd t) \<subseteq> insert (fst e) (fst ` set (snd acc))" by (metis dom_update insert_is_Un subset_insertI subset_refl)
    with Cons.IH [OF t(2)] show ?case by auto
  qed simp
  note unknown = this
  from assms obtain k u where u: "rfold (interval_step fs) (sort_key (\<lambda>(f, _). factor_id_value f) (dm_points d)) ([], []) = Inr (k, u)"
    "pi_unknown i = u" by (auto simp: interval_def Let_def rbind_Inr_iff)
  from unknown [OF u(1)] show ?thesis by (simp add: u(2) factors_of_def)
qed

lemma threat_resolved:
  assumes "score_factors m fs = Inr s" "FI_THREAT \<notin> set (factors_of (rm_exploitability m))"
  shows "''threat'' \<notin> set (sa_unresolved_factors (rs_assessment s))"
proof -
  have "FI_THREAT \<notin> fst ` set (pi_unknown (rs_interval s))"
    using interval_unknown [OF score_interval(1) [OF assms(1)]] assms(2) by blast
  moreover have "factor_id_value f = ''threat'' \<Longrightarrow> f = FI_THREAT" for f by (cases f) simp_all
  ultimately have "''threat'' \<notin> set (unresolved (rs_interval s))" by (force simp: unresolved_def)
  then have "''threat'' \<notin> set (sa_unresolved_factors (assess fs (rs_interval s) low high))" for low high
    by (simp add: assess_def Let_def)
  with score_interval(3) [OF assms(1)] show ?thesis by auto
qed

text \<open>
  C40. A missing threat factor is not counted as missing. Under every accepted model, for all evidence
  without a threat factor and the same evidence with one: the point intervals are the same, and the
  missing factor is never among those the severity waits for. The severity is assessed \<open>complete\<close>
  exactly when the impact class and every exploitability factor are known, with or without the listing.
  Yet a listing, once supplied, raises both ends of the rating by one band unless they are the last,
  so a severity assessed complete can move.
\<close>

theorem complete_ignores_threat:
  assumes "from_document x e matrix = Inr m" "dict_ok (fst x)" "dict_ok (fst e)" "on_scale fs" "on_scale fs'"
    and "fs_get fs FI_THREAT = None" and "\<forall>f. f \<noteq> FI_THREAT \<longrightarrow> fs_get fs' f = fs_get fs f"
  shows "\<exists>s s'. score_factors m fs = Inr s \<and> score_factors m fs' = Inr s' \<and>
    rs_interval s' = rs_interval s \<and> rs_environmental s' = rs_environmental s \<and>
    ''threat'' \<notin> set (sa_unresolved_factors (rs_assessment s)) \<and>
    (sa_assessment (rs_assessment s) = ''complete'' \<longleftrightarrow> fs_get fs FI_IMPACT_CLASS \<noteq> None \<and>
       (\<forall>f\<in>set (factors_of (rm_exploitability m)). fs_get fs f \<noteq> None)) \<and>
    (sa_assessment (rs_assessment s') = ''complete'' \<longleftrightarrow> sa_assessment (rs_assessment s) = ''complete'') \<and>
    rs_floor_rating s' = lift (kev_listed fs') (rs_floor_rating s) \<and>
    rs_ceiling_rating s' = lift (kev_listed fs') (rs_ceiling_rating s)"
proof -
  have m: "valid_risk_model m" using assms(1-3) by (rule from_document_valid)
  obtain s s' where s: "score_factors m fs = Inr s" and s': "score_factors m fs' = Inr s'"
    using score_total [OF m assms(4)] score_total [OF m assms(5)] by metis
  note threat = threat_has_no_points [OF assms(1)]
  have X: "\<forall>f\<in>set (factors_of (rm_exploitability m)). fs_get fs' f = fs_get fs f"
    and E: "\<forall>f\<in>set (factors_of (rm_environmental m)). fs_get fs' f = fs_get fs f"
    using assms(7) threat by metis+
  have "rs_interval s' = rs_interval s"
    using score_interval(1) [OF s] score_interval(1) [OF s'] interval_cong [OF X] by simp
  moreover have "dimension_present (rm_environmental m) fs' = dimension_present (rm_environmental m) fs"
    using E by (simp add: dimension_present_def list_ex_iff)
  then have "rs_environmental s' = rs_environmental s"
    using score_interval(2) [OF s] score_interval(2) [OF s'] interval_cong [OF E]
    unfolding environmental_interval_def by (metis Inr_inject)
  moreover have "low_points fs' t = low_points fs t" "high_points fs' t = high_points fs t" if "t \<in> set (dm_points (rm_exploitability m))" for t
    using X that by (auto simp: low_points_def high_points_def factors_of_def)
  then have "floor_points m fs' = floor_points m fs" "ceiling_points m fs' = ceiling_points m fs"
    unfolding floor_points_def ceiling_points_def by (metis (no_types, lifting) map_eq_conv)+
  moreover have "\<not> kev_listed fs" by (simp add: kev_listed_def assms(6))
  ultimately show ?thesis
    using s s' score_complete [OF s m assms(4)] score_complete [OF s' m assms(5)] X assms(7)
      threat_resolved [OF s threat(1)] score_facts(1,2) [OF s m assms(4)] score_facts(1,2) [OF s' m assms(5)]
    by (intro exI [of _ s] exI [of _ s']) (simp add: lift_def)
qed

section \<open>Samples\<close>

definition sample_value :: "factor_id \<times> string \<Rightarrow> factor_value" where
  "sample_value e = \<lparr>fv_factor = fst e, fv_value = snd e, fv_citations = [\<lparr>sct_kind = CK_ADJUDICATION, sct_id = ''a''\<rparr>], fv_detail = []\<rparr>"

definition sample_factors :: "(factor_id \<times> string) list \<Rightarrow> factor_set" where
  "sample_factors es = \<lparr>fs_values = map sample_value es, fs_missing = []\<rparr>"

definition rated_factors :: "(factor_id \<times> string) list" where
  "rated_factors =
     [(FI_ATTACKER_CONTROL, ''direct_unclassified''), (FI_EXPOSURE, ''local''), (FI_GUARD_ABSENT, ''code_evidence''),
      (FI_IMPACT_CLASS, ''high''), (FI_TAINT_PATH, ''code_evidence''), (FI_VERIFICATION, ''supported'')]"

definition band_of :: "risk_score res \<Rightarrow> (string \<times> string option) option" where
  "band_of r = (case r of Inl _ \<Rightarrow> None | Inr s \<Rightarrow> Some (sa_assessment (rs_assessment s), rs_band s))"

definition default_band :: "(factor_id \<times> string) list \<Rightarrow> (string \<times> string option) option" where
  "default_band es = (case DEFAULT_RISK_MODEL of Inl _ \<Rightarrow> None | Inr m \<Rightarrow> band_of (score_factors m (sample_factors es)))"

lemma default_bands:
  "default_band rated_factors = Some (''complete'', Some ''medium'')"
  "default_band ((FI_THREAT, ''kev_listed'') # rated_factors) = Some (''complete'', Some ''high'')"
  "default_band (tl rated_factors) = Some (''bounded'', Some ''medium'')"
  by code_simp+

lemma default_scores:
  assumes "default_band es = Some (a, b)"
  obtains m s where "DEFAULT_RISK_MODEL = Inr m" "score_factors m (sample_factors es) = Inr s"
    "sa_assessment (rs_assessment s) = a" "rs_band s = b"
  using assms by (auto simp: default_band_def band_of_def split: sum.splits)

lemma default_dicts: "dict_ok DEFAULT_EXPLOITABILITY" "dict_ok DEFAULT_ENVIRONMENTAL"
  by (simp_all add: DEFAULT_EXPLOITABILITY_def DEFAULT_ENVIRONMENTAL_def)

lemma sample_on_scale:
  "on_scale (sample_factors rated_factors)" "on_scale (sample_factors ((FI_THREAT, ''kev_listed'') # rated_factors))"
  "on_scale (sample_factors (tl rated_factors))"
  by (simp_all add: on_scale_def sample_factors_def sample_value_def rated_factors_def)

lemma sample_get:
  "fs_get (sample_factors []) f = None"
  "fs_get (sample_factors (e # es)) f = (if fst e = f then Some (sample_value e) else fs_get (sample_factors es) f)"
  by (simp_all add: fs_get_def sample_factors_def sample_value_def)

lemma sample_supplies:
  "supplies (sample_factors (tl rated_factors)) (sample_factors rated_factors)"
  "supplies (sample_factors rated_factors) (sample_factors ((FI_THREAT, ''kev_listed'') # rated_factors))"
  by (simp_all add: supplies_def rated_factors_def sample_get)

text \<open>
  With the default model, evidence assessed \<open>complete\<close> at medium severity, which the listing of its
  advisory moves to high.
\<close>

theorem complete_ignores_threat_witness:
  "\<exists>m s s'. DEFAULT_RISK_MODEL = Inr m \<and> score_factors m (sample_factors rated_factors) = Inr s \<and>
     score_factors m (sample_factors ((FI_THREAT, ''kev_listed'') # rated_factors)) = Inr s' \<and>
     sa_assessment (rs_assessment s) = ''complete'' \<and> sa_assessment (rs_assessment s') = ''complete'' \<and>
     rs_interval s' = rs_interval s \<and> rs_band s = Some ''medium'' \<and> rs_band s' = Some ''high''"
proof -
  let ?fs = "sample_factors rated_factors" and ?fs' = "sample_factors ((FI_THREAT, ''kev_listed'') # rated_factors)"
  obtain m s where m: "DEFAULT_RISK_MODEL = Inr m" and s: "score_factors m ?fs = Inr s"
    "sa_assessment (rs_assessment s) = ''complete''" "rs_band s = Some ''medium''"
    by (rule default_scores [OF default_bands(1)])
  obtain m' s' where m': "DEFAULT_RISK_MODEL = Inr m'" and s': "score_factors m' ?fs' = Inr s'" "rs_band s' = Some ''high''"
    by (rule default_scores [OF default_bands(2)])
  have "fs_get ?fs FI_THREAT = None" "\<forall>f. f \<noteq> FI_THREAT \<longrightarrow> fs_get ?fs' f = fs_get ?fs f"
    by (simp_all add: rated_factors_def sample_get)
  from complete_ignores_threat [OF m [unfolded DEFAULT_RISK_MODEL_def] _ _ sample_on_scale(1,2) this] default_dicts
  obtain t t' where t: "score_factors m ?fs = Inr t" "score_factors m ?fs' = Inr t'" "rs_interval t' = rs_interval t"
    "sa_assessment (rs_assessment t') = ''complete'' \<longleftrightarrow> sa_assessment (rs_assessment t) = ''complete''" by auto
  moreover have "m' = m" using m m' by (metis Inr_inject)
  ultimately have "t = s" "t' = s'" using s(1) s'(1) by simp_all
  with t m s s' show ?thesis by auto
qed

theorem score_supplied_witness:
  "\<exists>m s s'. DEFAULT_RISK_MODEL = Inr m \<and> score_factors m (sample_factors (tl rated_factors)) = Inr s \<and>
     score_factors m (sample_factors rated_factors) = Inr s' \<and> rs_band s = Some ''medium'' \<and> rs_band s' = Some ''medium''"
proof -
  obtain m s where m: "DEFAULT_RISK_MODEL = Inr m" and s: "score_factors m (sample_factors (tl rated_factors)) = Inr s"
    "rs_band s = Some ''medium''"
    by (rule default_scores [OF default_bands(3)])
  obtain m' s' where m': "DEFAULT_RISK_MODEL = Inr m'" and s': "score_factors m' (sample_factors rated_factors) = Inr s'"
    by (rule default_scores [OF default_bands(1)])
  from m m' s' have s': "score_factors m (sample_factors rated_factors) = Inr s'" by (metis Inr_inject)
  have "kev_listed (sample_factors (tl rated_factors)) = kev_listed (sample_factors rated_factors)"
    "fs_get (sample_factors (tl rated_factors)) FI_IMPACT_CLASS \<noteq> None"
    by (simp_all add: kev_listed_def rated_factors_def sample_get)
  from score_supplied [OF m [unfolded DEFAULT_RISK_MODEL_def] _ _ sample_on_scale(3,1) sample_supplies(1) this s(1) s'] default_dicts s(2)
  have "rs_band s' = Some ''medium''" by simp
  with m s s' show ?thesis by blast
qed

end
