(* ===== verification/Ship_Block.thy ===== *)
theory Ship_Block
  imports Risk_Model
begin

text \<open>
  The ship-block policy (\<open>review/ship_block.py\<close>) and the inputs the publication stage gives it
  (\<open>_ship_block_inputs\<close> of \<open>jobs/job_inference_security_review/stages.py\<close>).
\<close>

datatype ship_block_status =
    SHIP_BLOCKING
  | PENDING_DISTINCT_VERIFICATION
  | NEEDS_VERIFICATION
  | DECISION_PENDING
  | NOT_SHIP_BLOCKING

definition ship_block_status_members :: "ship_block_status list" where
  "ship_block_status_members = [SHIP_BLOCKING, PENDING_DISTINCT_VERIFICATION,
     NEEDS_VERIFICATION, DECISION_PENDING, NOT_SHIP_BLOCKING]"

primrec ship_block_status_value :: "ship_block_status \<Rightarrow> string" where
  "ship_block_status_value SHIP_BLOCKING = ''ship_blocking''"
| "ship_block_status_value PENDING_DISTINCT_VERIFICATION = ''ship_blocking_pending_distinct_verification''"
| "ship_block_status_value NEEDS_VERIFICATION = ''needs_verification''"
| "ship_block_status_value DECISION_PENDING = ''decision_pending''"
| "ship_block_status_value NOT_SHIP_BLOCKING = ''not_ship_blocking''"

interpretation ship_block_status_enum: str_enum ship_block_status_members ship_block_status_value
proof unfold_locales
  show "e \<in> set ship_block_status_members" for e by (cases e) (simp_all add: ship_block_status_members_def)
  show "distinct (map ship_block_status_value ship_block_status_members)" by (simp add: ship_block_status_members_def)
qed

definition POLICY_VERSION :: string where
  "POLICY_VERSION = ''ship-block-policy/1''"

definition SEVERITY_PROVIDER :: string where
  "SEVERITY_PROVIDER = ''application_risk_matrix/3''"

definition DEPENDENCY_FAMILIES :: "string list" where
  "DEPENDENCY_FAMILIES = [''dependency_advisory'', ''artifact_scanner'']"

record ship_block_settings =
  sb_blocking_technical_severities :: "string list"
  sb_kev_dependency_blocks :: bool
  sb_dependency_lead_families :: "string list"

text \<open>\<open>ShipBlockSettings(...)\<close>.\<close>

definition mk_settings :: "string list \<Rightarrow> bool \<Rightarrow> string list \<Rightarrow> ship_block_settings res" where
  "mk_settings severities kev families =
     rbind (rchecks
       [(distinct severities, ''ship_block.blocking_technical_severities must be an array of distinct strings''),
        (distinct families, ''ship_block.dependency_lead_families must be an array of distinct strings''),
        (severities \<noteq> [], ''ship_block.blocking_technical_severities must name at least one band''),
        (set severities \<subseteq> set BANDS, ''ship_block.blocking_technical_severities has unknown bands'')]) (\<lambda>_.
       Inr \<lparr>sb_blocking_technical_severities = severities, sb_kev_dependency_blocks = kev,
            sb_dependency_lead_families = families\<rparr>)"

definition default_settings :: ship_block_settings where
  "default_settings =
     \<lparr>sb_blocking_technical_severities = [''high'', ''critical''], sb_kev_dependency_blocks = True,
      sb_dependency_lead_families = DEPENDENCY_FAMILIES\<rparr>"

definition settings_record :: "ship_block_settings \<Rightarrow> json" where
  "settings_record s =
     jobj [(''blocking_technical_severities'', JArr (map JStr (sb_blocking_technical_severities s))),
           (''kev_dependency_blocks'', JBool (sb_kev_dependency_blocks s)),
           (''dependency_lead_families'', JArr (map JStr (sb_dependency_lead_families s)))]"

definition policy_sha256 :: "hash \<Rightarrow> ship_block_settings \<Rightarrow> bool \<Rightarrow> string" where
  "policy_sha256 H s require_distinct_model =
     H (jobj [(''policy'', JStr POLICY_VERSION), (''severity_provider'', JStr SEVERITY_PROVIDER),
              (''settings'', settings_record s), (''require_distinct_model'', JBool require_distinct_model),
              (''rows'', JArr (map (JStr \<circ> ship_block_status_value) ship_block_status_members)),
              (''unrated_precedence'', JStr ''qualifying_statuses_before_decision_pending'')])"

record ship_block_inputs =
  si_claim_state :: claim_state
  si_technical_severity :: "string option"
  si_severity_score_id :: "string option"
  si_lead_families :: "string list"
  si_kev_listed :: "bool option"
  si_verifier_model_distinct :: bool
  si_severity_missing_factors :: "string list"
  si_severity_floor :: "string option"
  si_severity_ceiling :: "string option"

record ship_block_decision =
  sd_status :: ship_block_status
  sd_conditions :: "(string, bool) dict"
  sd_reasons :: "string list"
  sd_policy_sha256 :: string

definition severity_qualifies :: "ship_block_settings \<Rightarrow> ship_block_inputs \<Rightarrow> bool" where
  "severity_qualifies s i =
     (case si_technical_severity i of None \<Rightarrow> False | Some b \<Rightarrow> b \<in> set (sb_blocking_technical_severities s))"

definition dependency_finding :: "ship_block_settings \<Rightarrow> ship_block_inputs \<Rightarrow> bool" where
  "dependency_finding s i = (set (si_lead_families i) \<inter> set (sb_dependency_lead_families s) \<noteq> {})"

definition kev_qualifies :: "ship_block_settings \<Rightarrow> ship_block_inputs \<Rightarrow> bool" where
  "kev_qualifies s i = (sb_kev_dependency_blocks s \<and> dependency_finding s i \<and> si_kev_listed i = Some True)"

definition publishable :: "claim_state \<Rightarrow> bool" where
  "publishable st = (st = CONFIRMED \<or> st = SUPPORTED)"

definition input_missing :: "ship_block_inputs \<Rightarrow> bool" where
  "input_missing i =
     (publishable (si_claim_state i) \<and> (si_technical_severity i = None \<or> si_severity_missing_factors i \<noteq> []))"

definition decide :: "hash \<Rightarrow> ship_block_inputs \<Rightarrow> ship_block_settings \<Rightarrow> bool \<Rightarrow> ship_block_decision" where
  "decide H i s require_distinct_model =
     (let state = si_claim_state i;
          severity = severity_qualifies s i;
          kev = kev_qualifies s i;
          distinct_held = (\<not> require_distinct_model \<or> si_verifier_model_distinct i);
          missing = sort (si_severity_missing_factors i);
          conditions = [(''claim_confirmed'', state = CONFIRMED), (''claim_supported'', state = SUPPORTED),
            (''technical_severity_qualifies'', severity), (''dependency_finding'', dependency_finding s i),
            (''kev_dependency_qualifies'', kev), (''distinct_verification_required'', require_distinct_model),
            (''verifier_model_distinct'', si_verifier_model_distinct i),
            (''decision_input_missing'', input_missing i)];
          reasons =
            (if severity then [''technical_severity_'' @ (case si_technical_severity i of None \<Rightarrow> ''None'' | Some b \<Rightarrow> b)] else []) @
            (if kev then [''kev_listed_dependency''] else []) @
            (if si_technical_severity i = None \<and> publishable state then [''technical_severity_unrated''] else []) @
            (if publishable state then map (\<lambda>n. ''missing_factor_'' @ n) missing else []);
          qualifies = (severity \<or> kev);
          (status, extra) =
            (if state = CONFIRMED \<and> qualifies \<and> distinct_held then (SHIP_BLOCKING, [])
             else if state = CONFIRMED \<and> qualifies then (PENDING_DISTINCT_VERIFICATION, [''verifier_model_not_distinct''])
             else if state = SUPPORTED \<and> qualifies then (NEEDS_VERIFICATION, [''claim_not_confirmed''])
             else if input_missing i then (DECISION_PENDING, [])
             else (NOT_SHIP_BLOCKING, []))
      in \<lparr>sd_status = status, sd_conditions = conditions, sd_reasons = reasons @ extra,
          sd_policy_sha256 = policy_sha256 H s require_distinct_model\<rparr>)"

text \<open>Counts per status, overall and per lane; an unknown lane or status is a \<open>KeyError\<close> of the types.\<close>

definition summarize :: "(lane \<times> ship_block_status) list \<Rightarrow> (ship_block_status \<Rightarrow> nat) \<times> (lane \<Rightarrow> ship_block_status \<Rightarrow> nat)" where
  "summarize records =
     (count_list (map snd records), \<lambda>l. count_list (map snd (filter (\<lambda>(k, _). k = l) records)))"

section \<open>The inputs of a finding\<close>

text \<open>A score record of a claim as the publication stage reads it.\<close>

record score_record =
  sr_provider :: string
  sr_score_id :: string
  sr_technical_severity :: "string option"
  sr_severity_assessment :: "severity_assessment option"

definition ship_block_inputs_of ::
  "claim_state \<Rightarrow> score_record list \<Rightarrow> bool option \<Rightarrow> string list \<Rightarrow> bool \<Rightarrow> ship_block_inputs" where
  "ship_block_inputs_of state scores kev families model_distinct =
     (let deciding = sort_key sr_score_id (filter (\<lambda>r. sr_provider r = SEVERITY_PROVIDER) scores);
          severity = (case deciding of [] \<Rightarrow> None | r # _ \<Rightarrow> Some r);
          assessment = Option.bind severity sr_severity_assessment
      in \<lparr>si_claim_state = state, si_technical_severity = Option.bind severity sr_technical_severity,
          si_severity_score_id = map_option sr_score_id severity, si_lead_families = families, si_kev_listed = kev,
          si_verifier_model_distinct = model_distinct,
          si_severity_missing_factors = (case assessment of None \<Rightarrow> [] | Some a \<Rightarrow> sort (sa_unresolved_factors a)),
          si_severity_floor = Option.bind assessment sa_severity_floor,
          si_severity_ceiling = Option.bind assessment sa_severity_ceiling\<rparr>)"

section \<open>The rows of the policy\<close>

lemma decide_status:
  "sd_status (decide H i s req) =
     (let qualifies = severity_qualifies s i \<or> kev_qualifies s i
      in if si_claim_state i = CONFIRMED \<and> qualifies \<and> (\<not> req \<or> si_verifier_model_distinct i) then SHIP_BLOCKING
         else if si_claim_state i = CONFIRMED \<and> qualifies then PENDING_DISTINCT_VERIFICATION
         else if si_claim_state i = SUPPORTED \<and> qualifies then NEEDS_VERIFICATION
         else if input_missing i then DECISION_PENDING
         else NOT_SHIP_BLOCKING)"
  by (simp add: decide_def Let_def)

lemma status_unpublished: "\<not> publishable (si_claim_state i) \<Longrightarrow> sd_status (decide H i s req) = NOT_SHIP_BLOCKING"
  by (simp add: decide_status Let_def publishable_def input_missing_def)

lemma status_listed:
  "publishable (si_claim_state i) \<Longrightarrow> kev_qualifies s i \<Longrightarrow> sd_status (decide H i s req) =
     (if si_claim_state i = CONFIRMED
      then if req \<longrightarrow> si_verifier_model_distinct i then SHIP_BLOCKING else PENDING_DISTINCT_VERIFICATION
      else NEEDS_VERIFICATION)"
  by (auto simp: decide_status Let_def publishable_def)

text \<open>
  No release by omission. A published finding (confirmed or supported) is decided \<open>not_ship_blocking\<close>
  only when its severity was rated, is below the blocking thresholds, rests on no missing factor, and
  the finding is no listed dependency; everything else blocks, asks for verification or stays pending.
\<close>

lemma not_blocking_needs_rating:
  assumes "sd_status (decide H i s req) = NOT_SHIP_BLOCKING" and "si_claim_state i \<in> {CONFIRMED, SUPPORTED}"
  shows "\<exists>b. si_technical_severity i = Some b \<and> b \<notin> set (sb_blocking_technical_severities s) \<and>
    si_severity_missing_factors i = [] \<and> \<not> kev_qualifies s i"
  using assms
  by (auto simp: decide_status Let_def input_missing_def publishable_def severity_qualifies_def split: if_splits option.splits)

section \<open>Decisions on partial evidence\<close>

text \<open>The score record the scoring stage keeps of a package of the deciding provider.\<close>

definition score_record_of :: "string \<Rightarrow> risk_score \<Rightarrow> score_record" where
  "score_record_of i s =
     \<lparr>sr_provider = SEVERITY_PROVIDER, sr_score_id = i, sr_technical_severity = rs_band s,
      sr_severity_assessment = Some (rs_assessment s)\<rparr>"

lemma inputs_of_score:
  fixes state sid s kev families md
  defines "i \<equiv> ship_block_inputs_of state [score_record_of sid s] kev families md"
  shows "si_claim_state i = state" "si_technical_severity i = rs_band s" "si_lead_families i = families"
    "si_kev_listed i = kev" "si_verifier_model_distinct i = md"
    "si_severity_missing_factors i = sort (sa_unresolved_factors (rs_assessment s))"
  by (simp_all add: i_def ship_block_inputs_of_def score_record_of_def Let_def)

lemma rated_facts:
  assumes "score_factors m fs = Inr s" "rs_band s = Some b"
  shows "fs_get fs FI_IMPACT_CLASS \<noteq> None" "sa_unresolved_factors (rs_assessment s) = []"
proof -
  from assms(1) obtain i low high where ends: "severity_ends m fs (rated_ends fs i) = Inr (low, high)"
    and s: "rs_band s = (if low = high then low else None)" "rs_assessment s = assess fs i low high"
    unfolding score_factors_def Let_def by (elim rbind_elim) (auto elim!: rbind_elim)
  from ends have "fs_get fs FI_IMPACT_CLASS = None \<Longrightarrow> low = None" by (simp add: severity_ends_def)
  with s assms(2) show "fs_get fs FI_IMPACT_CLASS \<noteq> None" "sa_unresolved_factors (rs_assessment s) = []"
    by (auto simp: assess_def Let_def split: if_splits)
qed

text \<open>
  C29. Only a pending decision can change. Take a finding scored with factors missing: unless its
  decision is \<open>decision_pending\<close>, supplying any of the missing factors (the advisory's listing unchanged)
  gives the same ship-block status, whatever their values.
\<close>

theorem only_pending_changes:
  assumes "from_document x e matrix = Inr m" "dict_ok (fst x)" "dict_ok (fst e)" "on_scale fs" "on_scale fs'"
    and "supplies fs fs'" "kev_listed fs = kev_listed fs'"
    and "score_factors m fs = Inr s" "score_factors m fs' = Inr s'"
    and "sd_status (decide H (ship_block_inputs_of state [score_record_of i s] kev families md) settings req) \<noteq> DECISION_PENDING"
  shows "sd_status (decide H (ship_block_inputs_of state [score_record_of i' s'] kev families md) settings req) =
    sd_status (decide H (ship_block_inputs_of state [score_record_of i s] kev families md) settings req)"
proof (cases "rs_band s")
  case (Some b)
  from Some rated_facts [OF assms(8)] have impact: "fs_get fs FI_IMPACT_CLASS \<noteq> None" by blast
  have "rs_band s' = Some b"
    using score_bands_supplied [OF from_document_valid [OF assms(1-3)] assms(4-7) impact assms(8,9)] Some by blast
  with Some rated_facts(2) [OF assms(8) Some] rated_facts(2) [OF assms(9)] show ?thesis
    by (auto simp: decide_status inputs_of_score Let_def severity_qualifies_def kev_qualifies_def dependency_finding_def input_missing_def)
next
  case None
  let ?i = "ship_block_inputs_of state [score_record_of i s] kev families md"
  let ?i' = "ship_block_inputs_of state [score_record_of i' s'] kev families md"
  have same: "si_claim_state ?i' = si_claim_state ?i" "si_verifier_model_distinct ?i' = si_verifier_model_distinct ?i"
    "kev_qualifies settings ?i' = kev_qualifies settings ?i"
    by (simp_all add: inputs_of_score kev_qualifies_def dependency_finding_def)
  show ?thesis
  proof (cases "publishable (si_claim_state ?i)")
    case True
    with assms(10) None have "kev_qualifies settings ?i"
      by (auto simp: decide_status Let_def input_missing_def inputs_of_score severity_qualifies_def publishable_def split: if_splits)
    with True same show ?thesis by (simp add: status_listed)
  qed (simp add: same status_unpublished)
qed

theorem only_pending_changes_witness:
  "\<exists>m s s'. DEFAULT_RISK_MODEL = Inr m \<and> score_factors m (sample_factors (tl rated_factors)) = Inr s \<and>
     score_factors m (sample_factors rated_factors) = Inr s' \<and>
     sd_status (decide (\<lambda>_. ''h'') (ship_block_inputs_of CONFIRMED [score_record_of ''i'' s'] None [] True) default_settings True) =
       NOT_SHIP_BLOCKING"
proof -
  obtain m s where m: "DEFAULT_RISK_MODEL = Inr m" and s: "score_factors m (sample_factors (tl rated_factors)) = Inr s"
    "rs_band s = Some ''medium''"
    by (rule default_scores [OF default_bands(3)])
  obtain m' s' where "DEFAULT_RISK_MODEL = Inr m'" "score_factors m' (sample_factors rated_factors) = Inr s'"
    by (rule default_scores [OF default_bands(1)])
  with m have s': "score_factors m (sample_factors rated_factors) = Inr s'" by (metis Inr_inject)
  have kev: "kev_listed (sample_factors (tl rated_factors)) = kev_listed (sample_factors rated_factors)"
    by (simp add: kev_listed_def rated_factors_def sample_get)
  have status: "sd_status (decide (\<lambda>_. ''h'') (ship_block_inputs_of CONFIRMED [score_record_of ''i'' s] None [] True)
      default_settings True) = NOT_SHIP_BLOCKING"
    using s(2) rated_facts(2) [OF s]
    by (simp add: decide_status inputs_of_score Let_def severity_qualifies_def kev_qualifies_def input_missing_def default_settings_def)
  then have "sd_status (decide (\<lambda>_. ''h'') (ship_block_inputs_of CONFIRMED [score_record_of ''i'' s] None [] True)
      default_settings True) \<noteq> DECISION_PENDING" by simp
  from only_pending_changes [OF m [unfolded DEFAULT_RISK_MODEL_def] _ _ sample_on_scale(3,1) sample_supplies(1) kev s(1) s' this, of "''i''"]
    default_dicts status m s(1) s' show ?thesis by auto
qed

end
