(* ===== verification/Stages.thy ===== *)
theory Stages
  imports Accounting Ship_Block
begin

text \<open>
  The stages that put the components together (\<open>jobs/job_inference_security_review/stages.py\<close>): the
  verified merge, the policy stage that adjudicates every projected claim and records the outcome in a
  ledger shard, the completeness audit over the base review, and the handoff status. The documents the
  lanes hand over are records with the fields these stages read.
\<close>

section \<open>Merging and adjudicating\<close>

definition merge_verified :: "hash \<Rightarrow> json list list \<Rightarrow> merged_ledger res" where
  "merge_verified H shards =
     rbind (merge_shards H shards) (\<lambda>forward. rbind (merge_shards H (rev shards)) (\<lambda>backward.
     rbind (rguard (ml_head forward = ml_head backward \<and> ml_events forward = ml_events backward)
              (IntegrityError ''non-deterministic ledger merge'')) (\<lambda>_. Inr forward)))"

definition RULES_VERSION :: string where
  "RULES_VERSION = ''adjudication-rules/1''"

text \<open>\<open>TRANSITION_PATHS.get(state, (state,))\<close>.\<close>

definition TRANSITION_PATHS :: "claim_state \<Rightarrow> claim_state list" where
  "TRANSITION_PATHS s = (case s of
     CONFIRMED \<Rightarrow> [SUPPORTED, CONFIRMED]
   | NOT_REACHABLE \<Rightarrow> [SUPPORTED, NOT_REACHABLE]
   | NOT_EXPLOITABLE_IN_OBSERVED_CONFIGURATION \<Rightarrow> [SUPPORTED, NOT_EXPLOITABLE_IN_OBSERVED_CONFIGURATION]
   | _ \<Rightarrow> [s])"

definition record_decision :: "hash \<Rightarrow> string \<Rightarrow> adjudication \<Rightarrow> int \<Rightarrow> writer \<Rightarrow> writer res" where
  "record_decision H claim_id a rnd w =
     rbind (rfold (\<lambda>target (state, w).
         rbind (transition H w claim_id state target (RULES_VERSION @ '':'' @ deciding_row_value (a_deciding_row a)) rnd
                  (Some (a_adjudication_id a))) (\<lambda>w'. Inr (target, w')))
       (TRANSITION_PATHS (a_state a)) (PROPOSED, w)) (\<lambda>(_, w'). Inr w')"

text \<open>The parts of the merge document the policy stage reads; \<open>independence\<close> are the verifiers' flags.\<close>

record merge_document =
  md_claim_rounds :: "(string, int) dict"
  md_independence :: "(string, bool list) dict"
  md_verifier_gaps :: "(string, gap list) dict"
  md_scope_entities :: "(string, string list) dict"

record policy_state =
  ps_adjudicated :: "string list"
  ps_records :: "(adjudication \<times> int) list"
  ps_gaps :: "(string, gap) dict"
  ps_writer :: writer

definition claim_round :: "merge_document \<Rightarrow> string \<Rightarrow> int" where
  "claim_round merged i = (case map_of (md_claim_rounds merged) i of None \<Rightarrow> 0 | Some n \<Rightarrow> n)"

definition claim_independent :: "merge_document \<Rightarrow> string \<Rightarrow> bool" where
  "claim_independent merged i = list_ex id (dict_get_list (md_independence merged) i)"

definition claim_verifier_gap :: "merge_document \<Rightarrow> string \<Rightarrow> gap option" where
  "claim_verifier_gap merged i =
     (if \<not> claim_independent merged i
      then (case dict_get_list (md_verifier_gaps merged) i of [] \<Rightarrow> None | g # _ \<Rightarrow> Some g) else None)"

definition policy_claim ::
  "hash \<Rightarrow> string \<Rightarrow> merge_document \<Rightarrow> projection \<Rightarrow> string \<times> claim_view \<Rightarrow> policy_state \<Rightarrow> policy_state res" where
  "policy_claim H policy merged p entry st =
     (let (i, view) = entry; rnd = claim_round merged i
      in rbind (adjudicate H policy (cv_claim view) (dict_get_list (pj_relations p) i) (claim_independent merged i)
                  (set (dict_get_list (md_scope_entities merged) i)) (set (ps_adjudicated st)) (c_state (cv_claim view))
                  (claim_verifier_gap merged i) rnd) (\<lambda>a.
         rbind (record_decision H i a rnd (ps_writer st)) (\<lambda>w.
           Inr \<lparr>ps_adjudicated = ps_adjudicated st @ [i], ps_records = ps_records st @ [(a, rnd)],
                ps_gaps = fold (\<lambda>g d. if map_of d (g_gap_id g) = None then d @ [(g_gap_id g, g)] else d) (a_gaps a) (ps_gaps st),
                ps_writer = w\<rparr>)))"

definition apply_policy ::
  "hash \<Rightarrow> string \<Rightarrow> merge_document \<Rightarrow> projection \<Rightarrow> json list option \<Rightarrow> string \<Rightarrow>
   ((adjudication \<times> int) list \<times> shard_receipt \<times> json list option \<times> writer) res" where
  "apply_policy H policy merged p disk stream =
     rbind (new_writer stream) (\<lambda>w.
     rbind (rfold (policy_claim H policy merged p) (pj_claims p)
              \<lparr>ps_adjudicated = [], ps_records = [], ps_gaps = [], ps_writer = w\<rparr>) (\<lambda>st.
     rbind (rfold (\<lambda>(_, g) w. record_gap H w g) (sort_key fst (ps_gaps st)) (ps_writer st)) (\<lambda>w'.
     rbind (seal H disk w') (\<lambda>(receipt, disk', w''). Inr (ps_records st, receipt, disk', w'')))))"

section \<open>Auditing and handing off\<close>

definition chain_tasks :: "(string, role) dict" where
  "chain_tasks = [(''chain_composer'', ATTACK_CHAIN_ANALYST), (''chain_refuter'', BLUE_TEAM_REFUTER),
     (''chain_weakest_link_verifier'', INDEPENDENT_VERIFIER)]"

text \<open>The cells of the chain enhancement, checked and taken out of the base review.\<close>

definition base_review_projection :: "projection \<Rightarrow> (string, lane) dict \<Rightarrow> projection res" where
  "base_review_projection p chain_cells =
     (let actual = filter (\<lambda>(i, rs). map_of chain_cells i \<noteq> None \<or> list_ex (\<lambda>r. map_of chain_tasks (cell_task r) \<noteq> None) rs) (pj_cells p)
      in rbind (rguard (fst ` set actual = fst ` set chain_cells)
                  (IntegrityError ''chain cell accounting is not exact: missing or unexpected terminal cell'')) (\<lambda>_.
         rbind (rguard (list_all (\<lambda>(i, rs). case rs of
                    [r] \<Rightarrow> map_of chain_tasks (cell_task r) = Some (cell_role r) \<and>
                      map_of chain_cells i = Some (cell_lane r) \<and> cell_claim_id r = None
                  | _ \<Rightarrow> False) actual)
                  (IntegrityError ''chain cell accounting is not exact: duplicate or mismatched terminal cell'')) (\<lambda>_.
           let subjects = ''attack_chains'' # map fst (pj_chains p) @ map fst chain_cells
           in Inr (p\<lparr>pj_cells := filter (\<lambda>(i, _). i \<notin> fst ` set actual) (pj_cells p),
                     pj_gaps := filter (\<lambda>g. g_subject_id g \<notin> set subjects \<and> g_gap_class g \<noteq> GC_CHAIN_GAP) (pj_gaps p)\<rparr>))))"

definition audit ::
  "hash \<Rightarrow> json list list \<Rightarrow> lanes \<Rightarrow> lanes \<Rightarrow> leads \<Rightarrow> rat \<Rightarrow> (string, lane) dict \<Rightarrow> (accounting \<times> projection \<times> merged_ledger) res" where
  "audit H shards expected_cells expected_packages leads threshold additional_cells =
     rbind (merge_verified H shards) (\<lambda>merged.
     rbind (project H (ml_events merged)) (\<lambda>p.
     rbind (base_review_projection p additional_cells) (\<lambda>review.
     rbind (exact_accounting H review expected_cells expected_packages threshold leads) (\<lambda>accounting.
       Inr (accounting, p, merged)))))"

definition handoff_status :: "accounting \<Rightarrow> string" where
  "handoff_status a =
     (case ac_outcome a of POOL_COMPLETE \<Rightarrow> ''COMPLETE'' | POOL_EMPTY \<Rightarrow> ''EMPTY'' | _ \<Rightarrow> ''DEGRADED'')"

text \<open>The judges' unanimous verdict and whether it disagrees with a published finding.\<close>

definition finding_judge :: "judge_verdict list \<Rightarrow> (judge_verdict_value \<times> bool \<times> judge_verdict list) option" where
  "finding_judge verdicts =
     (if verdicts = [] then None
      else let ordered = sort_key jv_verdict_id verdicts;
               outcomes = remdups (map jv_verdict ordered);
               overall = (if length outcomes = 1 then hd outcomes else JV_UNRESOLVED)
           in Some (overall, overall = JV_BLUE_CORRECT \<or> overall = JV_NEITHER, take 8 ordered))"

section \<open>Recording a decision\<close>

definition transition_body :: "claim_state \<Rightarrow> claim_state \<Rightarrow> string \<Rightarrow> int \<Rightarrow> string option \<Rightarrow> json" where
  "transition_body s t reason rnd adj = jobj
     [(''from_state'', JStr (claim_state_value s)), (''to_state'', JStr (claim_state_value t)),
      (''reason'', JStr reason), (''round'', JInt rnd), (''adjudication_id'', opt_json adj)]"

lemma transition_body_fields:
  "jget ''from_state'' (transition_body s t reason rnd adj) = Inr (JStr (claim_state_value s))"
  "jget ''to_state'' (transition_body s t reason rnd adj) = Inr (JStr (claim_state_value t))"
  "jget ''reason'' (transition_body s t reason rnd adj) = Inr (JStr reason)"
  "jget ''round'' (transition_body s t reason rnd adj) = Inr (JInt rnd)"
  "jget_or_null ''adjudication_id'' (transition_body s t reason rnd adj) = opt_json adj"
  by (simp_all add: transition_body_def)

abbreviation transition_event :: "hash \<Rightarrow> writer \<Rightarrow> string \<Rightarrow> claim_state \<Rightarrow> claim_state \<Rightarrow> string \<Rightarrow> int \<Rightarrow> string option \<Rightarrow> event" where
  "transition_event H w i s t reason rnd adj \<equiv> next_event H w E_STATE_TRANSITION i (transition_body s t reason rnd adj)"

abbreviation transition_item :: "content \<Rightarrow> claim_state \<Rightarrow> claim_state \<Rightarrow> int \<Rightarrow> trans_item" where
  "transition_item c s t rnd \<equiv> \<lparr>ti_round = rnd, ti_from = s, ti_to = t, ti_duplicate_of = None, ti_content = c\<rparr>"

lemma transition_appends:
  assumes "t \<noteq> DUPLICATE" "t \<in> set (LEGAL_TRANSITIONS s)" "length reason \<le> MAX_REASON" "w_sealed w = None" "i \<noteq> []"
  shows "transition H w i s t reason rnd adj =
    Inr (w\<lparr>w_events := w_events w @ [transition_event H w i s t reason rnd adj]\<rparr>)"
  using assms by (simp add: transition_def check_transition_def bounded_def append_event_def transition_body_def)

lemma transition_projects:
  fixes H w i s t reason rnd adj
  defines "c \<equiv> event_content (transition_event H w i s t reason rnd adj)"
  assumes "t \<noteq> DUPLICATE"
  shows "project_event H c st =
    Inr (st\<lparr>ls_lifecycle := (fst (ls_lifecycle st), dict_append i (transition_item c s t rnd) (snd (ls_lifecycle st)))\<rparr>)"
    and "co_body c = transition_body s t reason rnd adj"
proof -
  show body: "co_body c = transition_body s t reason rnd adj" by (simp add: c_def event_content_def next_event_def Let_def)
  have "kind_of c = Inr E_STATE_TRANSITION" "co_subject c = i"
    using event_kind_enum.of_val [of E_STATE_TRANSITION]
    by (simp_all add: c_def event_content_def next_event_def Let_def kind_of_def)
  with assms(2) show "project_event H c st =
    Inr (st\<lparr>ls_lifecycle := (fst (ls_lifecycle st), dict_append i (transition_item c s t rnd) (snd (ls_lifecycle st)))\<rparr>)"
    by (simp add: project_event_def project_kind_def lifecycle_event_def trans_of_body_def body transition_body_fields
        enum_json_def claim_state_enum.of_val CHAIN_KINDS_def LIFECYCLE_KINDS_def Let_def)
qed

lemma adjudicated_states:
  assumes "adjudicate H policy c rs vi scope existing prior vg rnd = Inr a" "\<not> is_duplicate c existing"
  shows "a_state a \<in> {OUT_OF_SCOPE, INSUFFICIENT_EVIDENCE, CONTRADICTED, NOT_REACHABLE,
    NOT_EXPLOITABLE_IN_OBSERVED_CONFIGURATION, CONFIRMED, SUPPORTED}"
  using assms
  by (elim adjudicate_elim)
    (auto simp: decide_row_def contradiction_state_def CONTRADICTION_STATES_def split: if_splits option.splits)

lemma reason_short: "length (RULES_VERSION @ '':'' @ deciding_row_value r) \<le> MAX_REASON"
  by (cases r) (simp_all add: RULES_VERSION_def MAX_REASON_def)

text \<open>One transition, and two in a row, replayed from \<open>proposed\<close> in their round.\<close>

lemma walk_item:
  assumes "ti_from x = ws_state st" "ti_to x \<in> set (LEGAL_TRANSITIONS (ws_state st))" "ti_to x \<noteq> DUPLICATE"
    and "ws_duplicate_of st = None" "co_body (ti_content x) = transition_body s t reason rnd (Some adj)"
  obtains st' where "walk_step H n x st = Inr st'" "ws_state st' = ti_to x" "ws_duplicate_of st' = None"
    "ws_history st' \<noteq> []" "sc_adjudication_id (last (ws_history st')) = Some adj"
  using assms by (simp add: walk_step_def check_transition_def transition_body_fields)

lemma walk_one:
  assumes "t \<in> set (LEGAL_TRANSITIONS PROPOSED)" "t \<noteq> DUPLICATE"
    and "co_body c = transition_body PROPOSED t reason rnd (Some adj)"
  obtains st where "walk H [transition_item c PROPOSED t rnd] = Inr st" "ws_state st = t"
    "sc_adjudication_id (last (ws_history st)) = Some adj"
proof -
  let ?i = "transition_item c PROPOSED t rnd" and ?s = "\<lparr>ws_state = PROPOSED, ws_duplicate_of = None, ws_history = []\<rparr>"
  obtain st where st: "walk_step H rnd ?i ?s = Inr st" "ws_state st = t" "sc_adjudication_id (last (ws_history st)) = Some adj"
    by (rule walk_item [of ?i ?s]) (use assms in simp_all)
  then have "walk H [?i] = Inr st"
    by (simp add: walk_def sorted_set_def walk_pending.simps next_item_def)
  with st that show thesis by blast
qed

lemma walk_two:
  assumes "t \<in> set (LEGAL_TRANSITIONS SUPPORTED)" "t \<noteq> DUPLICATE" "t \<noteq> SUPPORTED"
    and "co_body c = transition_body PROPOSED SUPPORTED reason rnd (Some adj)"
    and "co_body c' = transition_body SUPPORTED t reason rnd (Some adj)"
  obtains st where "walk H [transition_item c PROPOSED SUPPORTED rnd, transition_item c' SUPPORTED t rnd] = Inr st"
    "ws_state st = t" "sc_adjudication_id (last (ws_history st)) = Some adj"
proof -
  let ?i = "transition_item c PROPOSED SUPPORTED rnd" and ?j = "transition_item c' SUPPORTED t rnd"
  let ?s = "\<lparr>ws_state = PROPOSED, ws_duplicate_of = None, ws_history = []\<rparr>"
  obtain s1 where s1: "walk_step H rnd ?i ?s = Inr s1" "ws_state s1 = SUPPORTED" "ws_duplicate_of s1 = None"
    by (rule walk_item [of ?i ?s]) (use assms in \<open>simp_all add: LEGAL_TRANSITIONS_def\<close>)
  obtain s2 where s2: "walk_step H rnd ?j s1 = Inr s2" "ws_state s2 = t" "sc_adjudication_id (last (ws_history s2)) = Some adj"
    by (rule walk_item [of ?j s1]) (use assms s1 in simp_all)
  have "walk H [?i, ?j] = Inr s2"
    using s1 s2 by (simp add: walk_def sorted_set_def walk_pending.simps next_item_def)
  with s2 that show thesis by blast
qed

text \<open>
  C30. What the policy stage records is what the projection reads back. When adjudication decides a claim
  that is not a duplicate, its recorded transitions are all legal; projecting the events written gives
  transitions that replay from \<open>proposed\<close> to exactly the adjudicated state, and the last change carries
  the adjudication's identity.
\<close>

theorem decision_replays:
  assumes "adjudicate H policy c rs vi scope existing prior vg rnd = Inr a" and "\<not> is_duplicate c existing"
    and "c_claim_id c \<noteq> []" and "w_sealed w = None"
  shows "\<exists>w' es items st. record_decision H (c_claim_id c) a rnd w = Inr w' \<and> w_events w' = w_events w @ es \<and>
    rfold (project_event H) (map event_content es) empty_loop = Inr (empty_loop\<lparr>ls_lifecycle := ([], [(c_claim_id c, items)])\<rparr>) \<and>
    walk H items = Inr st \<and> ws_state st = a_state a \<and>
    sc_adjudication_id (last (ws_history st)) = Some (a_adjudication_id a)"
proof -
  let ?i = "c_claim_id c" and ?r = "RULES_VERSION @ '':'' @ deciding_row_value (a_deciding_row a)" and ?adj = "Some (a_adjudication_id a)"
  consider (one) "TRANSITION_PATHS (a_state a) = [a_state a]" "a_state a \<in> set (LEGAL_TRANSITIONS PROPOSED)" "a_state a \<noteq> DUPLICATE"
    | (two) "TRANSITION_PATHS (a_state a) = [SUPPORTED, a_state a]" "a_state a \<in> set (LEGAL_TRANSITIONS SUPPORTED)"
      "a_state a \<noteq> DUPLICATE" "a_state a \<noteq> SUPPORTED"
    using adjudicated_states [OF assms(1,2)] by (auto simp: TRANSITION_PATHS_def LEGAL_TRANSITIONS_def)
  then show ?thesis
  proof cases
    case one
    let ?e = "transition_event H w ?i PROPOSED (a_state a) ?r rnd ?adj"
    have "record_decision H ?i a rnd w = Inr (w\<lparr>w_events := w_events w @ [?e]\<rparr>)"
      using one assms(3,4) reason_short by (simp add: record_decision_def transition_appends)
    moreover obtain st where "walk H [transition_item (event_content ?e) PROPOSED (a_state a) rnd] = Inr st"
      "ws_state st = a_state a" "sc_adjudication_id (last (ws_history st)) = ?adj"
      by (rule walk_one [OF one(2,3) transition_projects(2) [OF one(3)]])
    moreover have "rfold (project_event H) (map event_content [?e]) empty_loop =
        Inr (empty_loop\<lparr>ls_lifecycle := ([], [(?i, [transition_item (event_content ?e) PROPOSED (a_state a) rnd])])\<rparr>)"
      using one(3) by (simp add: transition_projects(1) empty_loop_def dict_append_def)
    ultimately show ?thesis by fastforce
  next
    case two
    let ?e = "transition_event H w ?i PROPOSED SUPPORTED ?r rnd ?adj"
    let ?w = "w\<lparr>w_events := w_events w @ [?e]\<rparr>"
    let ?f = "transition_event H ?w ?i SUPPORTED (a_state a) ?r rnd ?adj"
    have "record_decision H ?i a rnd w = Inr (?w\<lparr>w_events := w_events ?w @ [?f]\<rparr>)"
      using two assms(3,4) reason_short by (simp add: record_decision_def transition_appends LEGAL_TRANSITIONS_def)
    moreover obtain st where "walk H [transition_item (event_content ?e) PROPOSED SUPPORTED rnd,
        transition_item (event_content ?f) SUPPORTED (a_state a) rnd] = Inr st"
      "ws_state st = a_state a" "sc_adjudication_id (last (ws_history st)) = ?adj"
      by (rule walk_two [OF two(2,3,4) transition_projects(2) transition_projects(2) [OF two(3)]]) simp
    moreover have "rfold (project_event H) (map event_content [?e, ?f]) empty_loop =
        Inr (empty_loop\<lparr>ls_lifecycle := ([], [(?i, [transition_item (event_content ?e) PROPOSED SUPPORTED rnd,
          transition_item (event_content ?f) SUPPORTED (a_state a) rnd])])\<rparr>)"
      using two(3) by (simp add: transition_projects(1) empty_loop_def dict_append_def)
    ultimately show ?thesis by fastforce
  qed
qed

theorem decision_replays_witness:
  "\<exists>a w' st items. sample_adjudication sample_support = Inr a \<and>
     record_decision (\<lambda>_. ''h'') ''c1'' a 0 \<lparr>w_stream = ''s'', w_events = [], w_sealed = None\<rparr> = Inr w' \<and>
     walk (\<lambda>_. ''h'') items = Inr st \<and> ws_state st = a_state a"
proof -
  have "case sample_adjudication sample_support of Inl _ \<Rightarrow> False | Inr _ \<Rightarrow> True" by code_simp
  then obtain a where a: "sample_adjudication sample_support = Inr a" by (auto split: sum.splits)
  have "\<not> is_duplicate sample_claim {}" "c_claim_id sample_claim = ''c1''"
    by (simp_all add: is_duplicate_def sample_claim_def)
  with decision_replays [OF a [unfolded sample_adjudication_def], of "\<lparr>w_stream = ''s'', w_events = [], w_sealed = None\<rparr>"] a
  show ?thesis by auto
qed

end
