(* ===== verification/Scheduler.thy ===== *)
theory Scheduler
  imports Models
begin

text \<open>
  Review-team capacity (\<open>review/teams.py\<close>): the team semaphore over kernel file locks and the fair-share
  scheduler of the two lanes.

  The semaphore's environment is explicit: \<open>held k\<close> are the slots other processes hold at the \<open>k\<close>-th
  poll and \<open>clock k\<close> is what \<open>time.monotonic\<close> reads then. The polling loop may wait forever for all a
  model knows, so it is a partial function whose \<open>None\<close> is not returning. Shares are exact rationals
  where the code has floats.
\<close>

section \<open>The team semaphore\<close>

definition MAX_TEAMS :: int where
  "MAX_TEAMS = 64"

record semaphore =
  sem_slots :: int
  sem_wait_seconds :: rat
  sem_poll_seconds :: rat

definition mk_semaphore :: "int \<Rightarrow> rat \<Rightarrow> rat \<Rightarrow> semaphore res" where
  "mk_semaphore slots wait_seconds poll_seconds =
     rbind (rchecks [(1 \<le> slots \<and> slots \<le> MAX_TEAMS, ''review team slots must be an integer between 1 and 64''),
                     (0 \<le> wait_seconds \<and> 0 < poll_seconds, ''review team wait bounds are invalid'')]) (\<lambda>_.
       Inr \<lparr>sem_slots = slots, sem_wait_seconds = wait_seconds, sem_poll_seconds = poll_seconds\<rparr>)"

text \<open>\<open>_try_any\<close>: the first slot whose lock is free.\<close>

definition try_any :: "semaphore \<Rightarrow> nat set \<Rightarrow> nat option" where
  "try_any sem held = List.find (\<lambda>slot. slot \<notin> held) [0..<nat (sem_slots sem)]"

datatype acquired =
    Acquired nat
  | TeamUnavailable

partial_function (option) acquire_loop ::
  "semaphore \<Rightarrow> (nat \<Rightarrow> nat set) \<Rightarrow> (nat \<Rightarrow> rat) \<Rightarrow> rat \<Rightarrow> nat \<Rightarrow> acquired option" where
  "acquire_loop sem held clock deadline k =
     (case try_any sem (held k) of
        Some slot \<Rightarrow> Some (Acquired slot)
      | None \<Rightarrow> if clock k \<ge> deadline then Some TeamUnavailable else acquire_loop sem held clock deadline (Suc k))"

declare acquire_loop.simps [code]

definition acquire :: "semaphore \<Rightarrow> (nat \<Rightarrow> nat set) \<Rightarrow> (nat \<Rightarrow> rat) \<Rightarrow> rat \<Rightarrow> rat option \<Rightarrow> acquired option" where
  "acquire sem held clock now wait_seconds =
     acquire_loop sem held clock (now + (case wait_seconds of None \<Rightarrow> sem_wait_seconds sem | Some w \<Rightarrow> w)) 0"

text \<open>
  The host: which slots are held. A process takes the first free slot; a holder that leaves or dies
  frees its own, which the kernel does.
\<close>

inductive team_step :: "semaphore \<Rightarrow> nat list \<Rightarrow> nat list \<Rightarrow> bool" for sem where
  take_slot: "try_any sem (set held) = Some slot \<Longrightarrow> team_step sem held (held @ [slot])"
| free_slot: "slot \<in> set held \<Longrightarrow> team_step sem held (remove1 slot held)"

inductive_cases team_step_cases: "team_step sem held held'"

section \<open>The fair-share scheduler\<close>

record queued_package =
  qp_rank :: int
  qp_package_id :: string

type_synonym queues = "lane \<Rightarrow> queued_package list"

record scheduler =
  sched_total :: int
  sched_shares :: "lane \<Rightarrow> rat"
  sched_consumed :: "lane \<Rightarrow> int"

definition mk_scheduler :: "rat \<Rightarrow> int \<Rightarrow> scheduler res" where
  "mk_scheduler lead_share budget =
     rbind (rchecks [(0 \<le> lead_share \<and> lead_share \<le> 1, ''lead_share must be between 0 and 1''),
                     (0 \<le> budget, ''budget_team_packages must be a non-negative integer'')]) (\<lambda>_.
       Inr \<lparr>sched_total = budget,
            sched_shares = (\<lambda>l. case l of LEAD \<Rightarrow> lead_share * of_int budget | HUNT \<Rightarrow> (1 - lead_share) * of_int budget),
            sched_consumed = (\<lambda>_. 0)\<rparr>)"

text \<open>The consumed fraction of a lane's share; \<open>None\<close> is \<open>math.inf\<close>.\<close>

definition fraction :: "scheduler \<Rightarrow> lane \<Rightarrow> (lane \<Rightarrow> int) \<Rightarrow> rat option" where
  "fraction s l consumed =
     (if sched_shares s l > 0 then Some (of_int (consumed l) / sched_shares s l) else None)"

definition fraction_less :: "rat option \<Rightarrow> rat option \<Rightarrow> bool" where
  "fraction_less a b = (case a of None \<Rightarrow> False | Some x \<Rightarrow> (case b of None \<Rightarrow> True | Some y \<Rightarrow> x < y))"

definition other_lane :: "lane \<Rightarrow> lane" where
  "other_lane l = (case l of LEAD \<Rightarrow> HUNT | HUNT \<Rightarrow> LEAD)"

definition waiting :: "queues \<Rightarrow> lane \<Rightarrow> queued_package list" where
  "waiting q l = sort_key (\<lambda>p. (qp_rank p, qp_package_id p)) (q l)"

definition eligible :: "scheduler \<Rightarrow> queues \<Rightarrow> (lane \<Rightarrow> int) \<Rightarrow> lane list" where
  "eligible s q counts =
     filter (\<lambda>l. waiting q l \<noteq> [] \<and> (of_int (counts l) < sched_shares s l \<or> waiting q (other_lane l) = [])) [LEAD, HUNT]"

text \<open>\<open>min(eligible, key=...)\<close>: the first lane of least key, a tie going to the lead lane.\<close>

definition key_less :: "scheduler \<Rightarrow> (lane \<Rightarrow> int) \<Rightarrow> lane \<Rightarrow> lane \<Rightarrow> bool" where
  "key_less s counts a b =
     (fraction_less (fraction s a counts) (fraction s b counts) \<or>
      fraction s a counts = fraction s b counts \<and> a = LEAD \<and> b \<noteq> LEAD)"

definition least_lane :: "scheduler \<Rightarrow> (lane \<Rightarrow> int) \<Rightarrow> lane \<Rightarrow> lane list \<Rightarrow> lane" where
  "least_lane s counts first rest = fold (\<lambda>x best. if key_less s counts x best then x else best) rest first"

definition choose_lane :: "scheduler \<Rightarrow> queues \<Rightarrow> (lane \<Rightarrow> int) \<Rightarrow> (lane \<times> string) option" where
  "choose_lane s q counts =
     (if counts LEAD + counts HUNT \<ge> sched_total s then None
      else (case eligible s q counts of
              [] \<Rightarrow> None
            | l # ls \<Rightarrow>
                let chosen = least_lane s counts l ls
                in Some (chosen, qp_package_id (hd (waiting q chosen)))))"

text \<open>\<open>next\<close>; given counts are those of the shared job budget, and are recorded there.\<close>

definition next_launch :: "scheduler \<Rightarrow> queues \<Rightarrow> (lane \<Rightarrow> int) option \<Rightarrow> (lane \<times> string) option \<times> scheduler" where
  "next_launch s q consumed =
     (let decision = choose_lane s q (case consumed of None \<Rightarrow> sched_consumed s | Some c \<Rightarrow> c)
      in (decision,
          case decision of
            None \<Rightarrow> s
          | Some (l, _) \<Rightarrow>
              if consumed = None then s\<lparr>sched_consumed := (sched_consumed s)(l := sched_consumed s l + 1)\<rparr> else s))"

text \<open>
  A launch: the scheduler decides, and the caller takes the package from its queue. \<open>launches\<close> is the
  sequence of launches until none is decided.
\<close>

definition launch :: "scheduler \<Rightarrow> queues \<Rightarrow> ((lane \<times> string) \<times> scheduler \<times> queues) option" where
  "launch s q =
     (case next_launch s q None of
        (None, _) \<Rightarrow> None
      | (Some (l, i), s') \<Rightarrow> Some ((l, i), s', q(l := remove1 (hd (waiting q l)) (q l))))"

definition queued :: "queues \<Rightarrow> nat" where
  "queued q = length (q LEAD) + length (q HUNT)"

function launches :: "scheduler \<Rightarrow> queues \<Rightarrow> (lane \<times> string) list" where
  "launches s q = (case launch s q of None \<Rightarrow> [] | Some (d, s', q') \<Rightarrow> d # launches s' q')"
  by pat_completeness auto

section \<open>One launch\<close>

lemma lane_exhaust: "l = LEAD \<or> l = HUNT"
  by (cases l) simp_all

lemma all_lanes_iff: "(\<forall>l. P l) \<longleftrightarrow> P LEAD \<and> P HUNT"
  by (metis lane_exhaust)

lemma other_lane_simps [simp]: "other_lane LEAD = HUNT" "other_lane HUNT = LEAD"
  by (simp_all add: other_lane_def)

lemma waiting_empty [simp]: "waiting q l = [] \<longleftrightarrow> q l = []"
  by (simp add: waiting_def)

lemma waiting_hd: "q l \<noteq> [] \<Longrightarrow> hd (waiting q l) \<in> set (q l)"
  by (metis hd_in_set set_sort waiting_def waiting_empty)

lemma least_lane_in: "least_lane s counts l ls \<in> set (l # ls)"
  unfolding least_lane_def
proof (induction ls arbitrary: l)
  case (Cons k ls)
  from Cons.IH [of l] Cons.IH [of k] show ?case by auto
qed simp

lemma fraction_less_irrefl [simp]: "\<not> fraction_less a a"
  by (simp add: fraction_less_def split: option.split)

lemma fraction_less_asym: "fraction_less a b \<Longrightarrow> \<not> fraction_less b a"
  by (auto simp: fraction_less_def split: option.splits)

lemma least_lane_two: "\<not> fraction_less (fraction s HUNT counts) (fraction s (least_lane s counts LEAD [HUNT]) counts)"
  "\<not> fraction_less (fraction s LEAD counts) (fraction s (least_lane s counts LEAD [HUNT]) counts)"
  by (auto simp: least_lane_def key_less_def dest: fraction_less_asym)

lemma eligible_iff:
  "l \<in> set (eligible s q counts) \<longleftrightarrow> q l \<noteq> [] \<and> (of_int (counts l) < sched_shares s l \<or> q (other_lane l) = [])"
  using lane_exhaust [of l] by (auto simp: eligible_def)

lemma eligible_shape: "eligible s q counts \<in> {[], [LEAD], [HUNT], [LEAD, HUNT]}"
  by (simp add: eligible_def)

lemma choose_SomeD:
  assumes "choose_lane s q counts = Some (l, i)"
  shows "counts LEAD + counts HUNT < sched_total s" "l \<in> set (eligible s q counts)"
    "i = qp_package_id (hd (waiting q l))"
    "\<And>k. k \<in> set (eligible s q counts) \<Longrightarrow> \<not> fraction_less (fraction s k counts) (fraction s l counts)"
proof -
  from assms obtain k ks where ks: "eligible s q counts = k # ks" "l = least_lane s counts k ks"
    "i = qp_package_id (hd (waiting q l))" "counts LEAD + counts HUNT < sched_total s"
    by (auto simp: choose_lane_def Let_def split: if_splits list.splits)
  then show "counts LEAD + counts HUNT < sched_total s" "l \<in> set (eligible s q counts)"
    "i = qp_package_id (hd (waiting q l))" using least_lane_in by auto
  show "\<not> fraction_less (fraction s k' counts) (fraction s l counts)" if "k' \<in> set (eligible s q counts)" for k'
    using that eligible_shape [of s q counts] ks least_lane_two [of s counts]
    by (auto simp: least_lane_def [of _ _ _ "[]"])
qed

text \<open>The shares add up to the budget, so a lane with packages is always eligible below it.\<close>

definition scheduler_ok :: "scheduler \<Rightarrow> bool" where
  "scheduler_ok s = (sched_shares s LEAD + sched_shares s HUNT = of_int (sched_total s))"

lemma mk_scheduler_ok: "mk_scheduler share budget = Inr s \<Longrightarrow> scheduler_ok s \<and> 0 \<le> sched_total s \<and> sched_consumed s = (\<lambda>_. 0)"
  by (auto simp: mk_scheduler_def rbind_Inr_iff scheduler_ok_def algebra_simps)

lemma eligible_empty_iff:
  assumes "scheduler_ok s" "counts LEAD + counts HUNT < sched_total s"
  shows "eligible s q counts = [] \<longleftrightarrow> q LEAD = [] \<and> q HUNT = []"
proof -
  have "(of_int (counts LEAD + counts HUNT) :: rat) < of_int (sched_total s)" using assms(2) by (simp only: of_int_less_iff)
  with assms(1) have "of_int (counts LEAD) < sched_shares s LEAD \<or> of_int (counts HUNT) < sched_shares s HUNT"
    by (auto simp: scheduler_ok_def)
  then have "(\<forall>l. l \<notin> set (eligible s q counts)) \<longleftrightarrow> q LEAD = [] \<and> q HUNT = []"
    unfolding eligible_iff all_lanes_iff by auto
  then show ?thesis by (metis all_not_in_conv set_empty)
qed

text \<open>
  The scheduler is work-conserving. It declines to launch if and only if the team-package budget is
  used up or no lane has a package waiting; a lane without packages releases its share to the other.
\<close>

lemma choose_work_conserving:
  assumes "mk_scheduler lead_share budget = Inr s"
  shows "choose_lane s q counts = None \<longleftrightarrow> counts LEAD + counts HUNT \<ge> budget \<or> q LEAD = [] \<and> q HUNT = []"
proof -
  from assms have s: "scheduler_ok s" "sched_total s = budget"
    using mk_scheduler_ok by (auto simp: mk_scheduler_def rbind_Inr_iff)
  have "choose_lane s q counts = None \<longleftrightarrow> counts LEAD + counts HUNT \<ge> sched_total s \<or> eligible s q counts = []"
    by (auto simp: choose_lane_def Let_def split: list.split)
  with s eligible_empty_iff [OF s(1), of counts q] show ?thesis by auto
qed

section \<open>Launching to the end\<close>

lemma launch_SomeD:
  assumes "launch s q = Some ((l, i), s', q')"
  shows "choose_lane s q (sched_consumed s) = Some (l, i)"
    "s' = s\<lparr>sched_consumed := (sched_consumed s)(l := sched_consumed s l + 1)\<rparr>"
    "q' = q(l := remove1 (hd (waiting q l)) (q l))" "q l \<noteq> []"
  using assms choose_SomeD(2) [of s q "sched_consumed s" l i]
  by (auto simp: launch_def next_launch_def Let_def eligible_iff split: option.splits)

lemma queued_launch:
  assumes "launch s q = Some (d, s', q')"
  shows "Suc (queued q') = queued q"
proof -
  obtain l i where d: "d = (l, i)" by (cases d)
  note L = launch_SomeD [OF assms [unfolded d]]
  have "length (remove1 (hd (waiting q l)) (q l)) = length (q l) - 1"
    by (simp add: length_remove1 waiting_hd L(4))
  moreover have "length (q l) > 0" using L(4) by simp
  ultimately show ?thesis using lane_exhaust [of l] by (auto simp: queued_def L(3))
qed

termination launches
proof (relation "measure (\<lambda>(s, q). queued q)")
  show "((s', q'), (s, q)) \<in> measure (\<lambda>(s, q). queued q)"
    if "launch s q = Some x" "(d, y) = x" "(s', q') = y" for s q x d y s' q'
    using queued_launch [of s q d s' q'] that by auto
qed simp

declare launches.simps [simp del]

lemma launch_consumed:
  assumes "launch s q = Some (d, s', q')"
  shows "sched_consumed s' LEAD + sched_consumed s' HUNT = sched_consumed s LEAD + sched_consumed s HUNT + 1"
    "sched_total s' = sched_total s" "scheduler_ok s' = scheduler_ok s"
    "sched_consumed s LEAD + sched_consumed s HUNT < sched_total s"
proof -
  obtain l i where d: "d = (l, i)" by (cases d)
  note L = launch_SomeD [OF assms [unfolded d]]
  show "sched_consumed s' LEAD + sched_consumed s' HUNT = sched_consumed s LEAD + sched_consumed s HUNT + 1"
    "sched_total s' = sched_total s" "scheduler_ok s' = scheduler_ok s"
    using lane_exhaust [of l] by (auto simp: L(2) scheduler_ok_def)
  show "sched_consumed s LEAD + sched_consumed s HUNT < sched_total s" using choose_SomeD(1) [OF L(1)] .
qed

lemma launch_None:
  assumes "scheduler_ok s" "launch s q = None"
  shows "sched_consumed s LEAD + sched_consumed s HUNT \<ge> sched_total s \<or> queued q = 0"
  using assms eligible_empty_iff [OF assms(1), of "sched_consumed s" q]
  by (auto simp: launch_def next_launch_def choose_lane_def Let_def queued_def split: option.splits list.splits if_splits)

lemma length_launches:
  "scheduler_ok s \<Longrightarrow> sched_consumed s LEAD + sched_consumed s HUNT \<le> sched_total s \<Longrightarrow>
   length (launches s q) = min (nat (sched_total s - (sched_consumed s LEAD + sched_consumed s HUNT))) (queued q)"
proof (induction s q rule: launches.induct)
  case (1 s q)
  show ?case
  proof (cases "launch s q")
    case None
    with launch_None [OF 1(2) None] show ?thesis by (subst launches.simps) auto
  next
    case (Some x)
    obtain d s' q' where x: "x = (d, s', q')" by (cases x)
    note L = launch_consumed [OF Some [unfolded x]] queued_launch [OF Some [unfolded x]]
    have "length (launches s q) = Suc (length (launches s' q'))"
      by (subst launches.simps) (simp add: Some x)
    also have "length (launches s' q') =
        min (nat (sched_total s' - (sched_consumed s' LEAD + sched_consumed s' HUNT))) (queued q')"
      using 1 Some x L by simp
    finally show ?thesis using L by auto
  qed
qed

text \<open>
  C31. Launching ends, exactly where it should. From a new scheduler, launching and taking the launched
  package from its queue until none is decided ends after as many launches as there are packages, or
  as the budget allows, whichever is less: never more than the budget, never fewer than it allows.
\<close>

theorem launches_end:
  assumes "mk_scheduler lead_share budget = Inr s"
  shows "length (launches s q) = min (nat budget) (length (q LEAD) + length (q HUNT))"
proof -
  from assms have "scheduler_ok s" "sched_total s = budget" "0 \<le> sched_total s" "sched_consumed s = (\<lambda>_. 0)"
    using mk_scheduler_ok by (auto simp: mk_scheduler_def rbind_Inr_iff)
  with length_launches [of s q] show ?thesis by (simp add: queued_def)
qed

text \<open>
  Shares are respected. When a package is launched while both lanes have packages waiting, the lane
  that gets the team was below its share, so that it now exceeds the share by less than one package,
  and no lane that was also below its share had consumed a smaller fraction of it; the package is the
  first of the lane's queue by rank and identity.
\<close>

lemma launch_fair:
  assumes "launch s q = Some ((l, i), s', q')" and "q LEAD \<noteq> [] \<and> q HUNT \<noteq> []"
  shows "of_int (sched_consumed s l) < sched_shares s l \<and> of_int (sched_consumed s' l) < sched_shares s l + 1 \<and>
    (\<forall>k. of_int (sched_consumed s k) < sched_shares s k \<longrightarrow>
       \<not> fraction_less (fraction s k (sched_consumed s)) (fraction s l (sched_consumed s))) \<and>
    (\<exists>p\<in>set (q l). qp_package_id p = i \<and> (\<forall>p'\<in>set (q l). (qp_rank p, qp_package_id p) \<le> (qp_rank p', qp_package_id p')))"
proof -
  note L = launch_SomeD [OF assms(1)] and C = choose_SomeD [OF launch_SomeD(1) [OF assms(1)]]
  have both: "q k \<noteq> []" for k using assms(2) lane_exhaust [of k] by auto
  have "sorted (map (\<lambda>p. (qp_rank p, qp_package_id p)) (waiting q l))" by (simp add: waiting_def)
  moreover have "waiting q l \<noteq> []" by (simp add: both)
  ultimately have "\<forall>p'\<in>set (waiting q l). (qp_rank (hd (waiting q l)), qp_package_id (hd (waiting q l))) \<le>
      (qp_rank p', qp_package_id p')"
    by (cases "waiting q l") auto
  then have "\<exists>p\<in>set (q l). qp_package_id p = i \<and> (\<forall>p'\<in>set (q l). (qp_rank p, qp_package_id p) \<le> (qp_rank p', qp_package_id p'))"
    using waiting_hd [of q l] both [of l] C(3) by (intro bexI [of _ "hd (waiting q l)"]) (simp_all add: waiting_def)
  moreover have "of_int (sched_consumed s l) < sched_shares s l" using C(2) both by (simp add: eligible_iff)
  moreover have "k \<in> set (eligible s q (sched_consumed s))" if "of_int (sched_consumed s k) < sched_shares s k" for k
    using that both by (simp add: eligible_iff)
  ultimately show ?thesis using C(4) by (auto simp: L(2))
qed

section \<open>The semaphore\<close>

lemma try_any_Some: "try_any sem held = Some slot \<Longrightarrow> slot < nat (sem_slots sem) \<and> slot \<notin> held"
  by (auto simp: try_any_def find_Some_iff)

lemma try_any_None: "try_any sem held = None \<longleftrightarrow> {..<nat (sem_slots sem)} \<subseteq> held"
  by (auto simp: try_any_def find_None_iff)

definition slots_ok :: "semaphore \<Rightarrow> nat list \<Rightarrow> bool" where
  "slots_ok sem held = (distinct held \<and> set held \<subseteq> {..<nat (sem_slots sem)})"

interpretation teams: transition_system "\<lambda>held. held = []" "team_step sem" "slots_ok sem" for sem
proof unfold_locales
  show "slots_ok sem held" if "held = []" for held using that by (simp add: slots_ok_def)
  show "slots_ok sem held'" if "slots_ok sem held" "team_step sem held held'" for held held'
    using that(2,1)
    by (cases rule: team_step_cases) (auto simp: slots_ok_def dest: try_any_Some notin_set_remove1)
qed

text \<open>
  Never more teams than slots. However processes take and free slots, no slot is ever held twice
  and at most as many teams run as the semaphore has slots.
\<close>

lemma teams_bounded:
  assumes "mk_semaphore slots w p = Inr sem" and "(team_step sem)\<^sup>*\<^sup>* [] held"
  shows "distinct held \<and> int (length held) \<le> slots"
proof -
  from assms(1) have slots: "sem_slots sem = slots" "0 \<le> slots" by (auto simp: mk_semaphore_def rbind_Inr_iff)
  from teams.reachable_inv [OF refl assms(2)] have held: "distinct held" "set held \<subseteq> {..<nat slots}"
    by (simp_all add: slots_ok_def slots)
  then have "length held \<le> card {..<nat slots}" by (metis card_mono distinct_card finite_lessThan)
  with held slots show ?thesis by simp
qed

lemma acquire_loop_ends:
  assumes "0 < sem_poll_seconds sem" "\<And>k. clock k + sem_poll_seconds sem \<le> clock (Suc k)"
    and "deadline - clock k \<le> of_nat n * sem_poll_seconds sem"
  shows "\<exists>r. acquire_loop sem held clock deadline k = Some r \<and>
    (\<forall>slot. r = Acquired slot \<longrightarrow> slot < nat (sem_slots sem) \<and>
       (\<exists>j\<ge>k. slot \<notin> held j \<and> (\<forall>i\<in>{k..<j}. clock i < deadline \<and> {..<nat (sem_slots sem)} \<subseteq> held i))) \<and>
    (r = TeamUnavailable \<longrightarrow> (\<exists>j\<ge>k. clock j \<ge> deadline \<and> (\<forall>i\<in>{k..j}. {..<nat (sem_slots sem)} \<subseteq> held i)))"
  using assms(3)
proof (induction n arbitrary: k)
  case 0
  then show ?case
    by (subst acquire_loop.simps) (auto simp: try_any_None split: option.split intro!: exI [of _ k] dest: try_any_Some)
next
  case (Suc n)
  show ?case
  proof (cases "try_any sem (held k) = None \<and> clock k < deadline")
    case True
    from Suc.prems assms(2) [of k] have "deadline - clock (Suc k) \<le> of_nat n * sem_poll_seconds sem"
      by (simp add: algebra_simps)
    from Suc.IH [OF this] obtain r where r: "acquire_loop sem held clock deadline (Suc k) = Some r"
      "\<And>slot. r = Acquired slot \<Longrightarrow> slot < nat (sem_slots sem) \<and>
         (\<exists>j\<ge>Suc k. slot \<notin> held j \<and> (\<forall>i\<in>{Suc k..<j}. clock i < deadline \<and> {..<nat (sem_slots sem)} \<subseteq> held i))"
      "r = TeamUnavailable \<Longrightarrow> \<exists>j\<ge>Suc k. clock j \<ge> deadline \<and> (\<forall>i\<in>{Suc k..j}. {..<nat (sem_slots sem)} \<subseteq> held i)"
      by auto
    have "\<exists>j\<ge>k. clock j \<ge> deadline \<and> (\<forall>i\<in>{k..j}. {..<nat (sem_slots sem)} \<subseteq> held i)" if "r = TeamUnavailable"
    proof -
      from r(3) [OF that] obtain j where j: "Suc k \<le> j" "clock j \<ge> deadline"
        "\<forall>i\<in>{Suc k..j}. {..<nat (sem_slots sem)} \<subseteq> held i" by blast
      have "\<forall>i\<in>{k..j}. {..<nat (sem_slots sem)} \<subseteq> held i"
        using j(3) True unfolding try_any_None by (metis atLeastAtMost_iff le_antisym not_less_eq_eq)
      with j(1,2) show ?thesis by (intro exI [of _ j]) simp
    qed
    moreover have "slot < nat (sem_slots sem) \<and>
        (\<exists>j\<ge>k. slot \<notin> held j \<and> (\<forall>i\<in>{k..<j}. clock i < deadline \<and> {..<nat (sem_slots sem)} \<subseteq> held i))"
      if "r = Acquired slot" for slot
    proof -
      from r(2) [OF that] obtain j where j: "slot < nat (sem_slots sem)" "Suc k \<le> j" "slot \<notin> held j"
        "\<forall>i\<in>{Suc k..<j}. clock i < deadline \<and> {..<nat (sem_slots sem)} \<subseteq> held i" by blast
      have "\<forall>i\<in>{k..<j}. clock i < deadline \<and> {..<nat (sem_slots sem)} \<subseteq> held i"
        using j(4) True unfolding try_any_None by (metis atLeastLessThan_iff le_antisym not_less_eq_eq)
      with j(1-3) show ?thesis by (intro conjI exI [of _ j]) simp_all
    qed
    moreover have "acquire_loop sem held clock deadline k = acquire_loop sem held clock deadline (Suc k)"
      using True by (subst acquire_loop.simps) simp
    ultimately show ?thesis using r(1) by auto
  next
    case False
    then show ?thesis
      by (subst acquire_loop.simps) (auto simp: try_any_None not_less split: option.split intro!: exI [of _ k] dest: try_any_Some)
  qed
qed

text \<open>
  C32. Waiting for a team ends. When every poll sleeps at least the poll interval by the monotonic
  clock, acquiring a team returns, whatever other processes hold: with a slot of the semaphore free at
  the first poll that finds one, every earlier poll being before the deadline, or with \<open>TeamUnavailable\<close> only after the deadline has passed with every slot held
  at every poll.
\<close>

theorem acquire_ends:
  assumes "mk_semaphore slots w p = Inr sem" and "\<forall>k. clock k + p \<le> clock (Suc k)"
  shows "\<exists>r. acquire sem held clock now wait = Some r \<and>
    (\<forall>slot. r = Acquired slot \<longrightarrow> slot < nat slots \<and>
       (\<exists>j. slot \<notin> held j \<and> (\<forall>i\<in>{..<j}. clock i < now + (case wait of None \<Rightarrow> w | Some x \<Rightarrow> x) \<and> {..<nat slots} \<subseteq> held i))) \<and>
    (r = TeamUnavailable \<longrightarrow>
       (\<exists>j. clock j \<ge> now + (case wait of None \<Rightarrow> w | Some x \<Rightarrow> x) \<and> (\<forall>i\<in>{..j}. {..<nat slots} \<subseteq> held i)))"
proof -
  from assms(1) have sem: "sem_slots sem = slots" "sem_wait_seconds sem = w" "sem_poll_seconds sem = p" "0 < p"
    by (auto simp: mk_semaphore_def rbind_Inr_iff)
  let ?d = "now + (case wait of None \<Rightarrow> w | Some x \<Rightarrow> x)"
  obtain n :: nat where "(?d - clock 0) / p < of_nat n" using reals_Archimedean2 by blast
  with sem(4) have "?d - clock 0 \<le> of_nat n * p" by (simp add: pos_divide_less_eq)
  with acquire_loop_ends [of sem clock ?d 0 n held] assms(2) sem show ?thesis
    by (auto simp: acquire_def atLeast0AtMost atLeast0LessThan)
qed

section \<open>Samples\<close>

definition sample_queues :: queues where
  "sample_queues = (\<lambda>l. case l of
     LEAD \<Rightarrow> [\<lparr>qp_rank = 2, qp_package_id = ''b''\<rparr>, \<lparr>qp_rank = 1, qp_package_id = ''a''\<rparr>]
   | HUNT \<Rightarrow> [\<lparr>qp_rank = 1, qp_package_id = ''c''\<rparr>])"

lemma sample_scheduler: obtains s where "mk_scheduler (1 / 2) 2 = Inr s" "sched_shares s LEAD = 1" "sched_consumed s = (\<lambda>_. 0)"
  by (simp add: mk_scheduler_def rbind_def rchecks.simps)

lemma sample_semaphore: obtains sem where "mk_semaphore 2 10 1 = Inr sem" "sem_slots sem = 2"
  by (simp add: mk_semaphore_def MAX_TEAMS_def rbind_def rchecks.simps)

theorem launches_end_witness: "\<exists>s. mk_scheduler (1 / 2) 2 = Inr s \<and> length (launches s sample_queues) = 2"
proof -
  obtain s where s: "mk_scheduler (1 / 2) 2 = Inr s" by (rule sample_scheduler)
  from launches_end [OF s, of sample_queues] s show ?thesis by (auto simp: sample_queues_def)
qed

theorem acquire_ends_witness:
  "\<exists>sem r. mk_semaphore 2 10 1 = Inr sem \<and> acquire sem (\<lambda>_. {0, 1}) (\<lambda>k. of_nat k) 0 None = Some r"
proof -
  obtain sem where sem: "mk_semaphore 2 10 1 = Inr sem" by (rule sample_semaphore)
  from acquire_ends [OF sem, of of_nat "\<lambda>_. {0, 1}" 0 None] sem show ?thesis by auto
qed

end
