(* ===== verification/Budget.thy ===== *)
theory Budget
  imports Models
begin

text \<open>
  The launch budget: \<open>review/budget.py\<close>, with the usage reports of \<open>inference/usage.py\<close>.

  The budget document is a record; the checks of \<open>_validate\<close> that only decide whether a JSON value
  has the fields and types of that record hold by typing, every other check is written out. The file
  lock makes each operation atomic, so an operation is a function from the stored document to its
  result and the document it stores. The clock, and the identifier that \<open>uuid4\<close> makes, are
  arguments. Seconds are exact rationals where the code has floats.
\<close>

section \<open>Settings, counters and reports\<close>

abbreviation contract :: "bool \<Rightarrow> string \<Rightarrow> unit res" where
  "contract c m \<equiv> rguard c (ExecutionContractError m)"

datatype counter =
    MODEL_TURNS
  | INPUT_TOKENS
  | OUTPUT_TOKENS
  | RETRIEVAL_QUERIES
  | CACHE_TOKENS

instantiation counter :: enum
begin

definition enum_counter :: "counter list" where
  "enum_counter = [MODEL_TURNS, INPUT_TOKENS, OUTPUT_TOKENS, RETRIEVAL_QUERIES, CACHE_TOKENS]"

definition enum_all_counter :: "(counter \<Rightarrow> bool) \<Rightarrow> bool" where
  "enum_all_counter P = list_all P enum_class.enum"

definition enum_ex_counter :: "(counter \<Rightarrow> bool) \<Rightarrow> bool" where
  "enum_ex_counter P = list_ex P enum_class.enum"

instance
proof
  show all: "(UNIV :: counter set) = set enum_class.enum"
    by (auto simp: enum_counter_def intro: counter.exhaust)
  show "distinct (enum_class.enum :: counter list)" by (simp add: enum_counter_def)
  show "enum_class.enum_all P \<longleftrightarrow> Ball UNIV P" for P :: "counter \<Rightarrow> bool"
    by (simp add: enum_all_counter_def all list_all_iff)
  show "enum_class.enum_ex P \<longleftrightarrow> Bex UNIV P" for P :: "counter \<Rightarrow> bool"
    by (simp add: enum_ex_counter_def all list_ex_iff)
qed

end

instantiation lane :: enum
begin

definition enum_lane :: "lane list" where
  "enum_lane = lane_members"

definition enum_all_lane :: "(lane \<Rightarrow> bool) \<Rightarrow> bool" where
  "enum_all_lane P = list_all P enum_class.enum"

definition enum_ex_lane :: "(lane \<Rightarrow> bool) \<Rightarrow> bool" where
  "enum_ex_lane P = list_ex P enum_class.enum"

instance
proof
  show all: "(UNIV :: lane set) = set enum_class.enum"
    using lane_enum.complete by (auto simp: enum_lane_def)
  show "distinct (enum_class.enum :: lane list)"
    using lane_enum.distinct_values by (auto simp: enum_lane_def distinct_map)
  show "enum_class.enum_all P \<longleftrightarrow> Ball UNIV P" for P :: "lane \<Rightarrow> bool"
    by (simp add: enum_all_lane_def all list_all_iff)
  show "enum_class.enum_ex P \<longleftrightarrow> Bex UNIV P" for P :: "lane \<Rightarrow> bool"
    by (simp add: enum_ex_lane_def all list_ex_iff)
qed

end

definition USAGE_COUNTERS :: "counter list" where
  "USAGE_COUNTERS = [MODEL_TURNS, INPUT_TOKENS, OUTPUT_TOKENS, RETRIEVAL_QUERIES]"

definition TOKENS :: "counter list" where
  "TOKENS = [INPUT_TOKENS, OUTPUT_TOKENS, CACHE_TOKENS]"

definition KNOWN :: "counter list" where
  "KNOWN = USAGE_COUNTERS @ [CACHE_TOKENS]"

datatype ceiling =
    MAX_MODEL_TURNS
  | MAX_INPUT_TOKENS
  | MAX_OUTPUT_TOKENS
  | MAX_RETRIEVAL_QUERIES
  | BUDGET_TEAM_PACKAGES
  | TIMEOUT_SECONDS

primrec ceiling_value :: "ceiling \<Rightarrow> string" where
  "ceiling_value MAX_MODEL_TURNS = ''max_model_turns''"
| "ceiling_value MAX_INPUT_TOKENS = ''max_input_tokens''"
| "ceiling_value MAX_OUTPUT_TOKENS = ''max_output_tokens''"
| "ceiling_value MAX_RETRIEVAL_QUERIES = ''max_retrieval_queries''"
| "ceiling_value BUDGET_TEAM_PACKAGES = ''budget_team_packages''"
| "ceiling_value TIMEOUT_SECONDS = ''timeout_seconds''"

text \<open>A counter with its ceiling, in the order exhaustion is reported.\<close>

definition CEILINGS :: "(counter \<times> ceiling) list" where
  "CEILINGS =
     [(MODEL_TURNS, MAX_MODEL_TURNS), (INPUT_TOKENS, MAX_INPUT_TOKENS),
      (OUTPUT_TOKENS, MAX_OUTPUT_TOKENS), (RETRIEVAL_QUERIES, MAX_RETRIEVAL_QUERIES)]"

text \<open>\<open>budget_team_packages\<close> is a number or \<open>all\<close>, here \<open>None\<close>.\<close>

record budget_settings =
  budget_team_packages :: "int option"
  max_model_turns :: int
  max_input_tokens :: int
  max_output_tokens :: int
  max_retrieval_queries :: int
  timeout_seconds :: int

primrec limit_of :: "budget_settings \<Rightarrow> counter \<Rightarrow> int" where
  "limit_of l MODEL_TURNS = max_model_turns l"
| "limit_of l INPUT_TOKENS = max_input_tokens l"
| "limit_of l OUTPUT_TOKENS = max_output_tokens l"
| "limit_of l RETRIEVAL_QUERIES = max_retrieval_queries l"
| "limit_of l CACHE_TOKENS = 0"

definition token_count :: "int \<Rightarrow> int option" where
  "token_count v = (if v \<ge> 0 then Some v else None)"

datatype usage_source = PROVIDER | REPLAY

record usage =
  us_input_tokens :: "int option"
  us_output_tokens :: "int option"
  us_cache_tokens :: "int option"
  us_source :: usage_source
  us_unavailable_reason :: "string option"

primrec us_tokens :: "usage \<Rightarrow> counter \<Rightarrow> int option" where
  "us_tokens u MODEL_TURNS = None"
| "us_tokens u INPUT_TOKENS = us_input_tokens u"
| "us_tokens u OUTPUT_TOKENS = us_output_tokens u"
| "us_tokens u RETRIEVAL_QUERIES = None"
| "us_tokens u CACHE_TOKENS = us_cache_tokens u"

text \<open>Only new provider reports are billable.\<close>

definition usage_actual :: "usage \<Rightarrow> counter \<Rightarrow> int option" where
  "usage_actual u name = (if us_source u = PROVIDER then us_tokens u name else None)"

definition total_reported :: "int option list \<Rightarrow> int option" where
  "total_reported vs =
     (if vs \<noteq> [] \<and> list_all (\<lambda>v. v \<noteq> None) vs then Some (sum_list (map the (filter (\<lambda>v. v \<noteq> None) vs))) else None)"

section \<open>The budget document\<close>

definition BUDGET_SCHEMA_V1 :: string where
  "BUDGET_SCHEMA_V1 = ''appsec-review/inference-review-budget/1''"

definition BUDGET_SCHEMA :: string where
  "BUDGET_SCHEMA = ''appsec-review/inference-review-budget/2''"

datatype timing_mode = WALL_CLOCK_V1 | ACTIVE_V2

text \<open>The fields of an original v1 ledger; the accounting of v2 extends them.\<close>

record base_state =
  b_schema :: string
  b_limits :: budget_settings
  b_started_at :: rat
  b_team_packages :: "lane \<Rightarrow> int"
  b_counters :: "counter \<Rightarrow> int"
  b_exhausted :: "ceiling option"

record legacy_import =
  li_ledger_sha256 :: string
  li_claim_sha256 :: string
  li_status_sha256 :: string
  li_ledger :: base_state

record reservation =
  rv_owner_id :: string
  rv_input_tokens :: int
  rv_output_tokens :: int
  rv_replay :: bool

primrec rv_tokens :: "reservation \<Rightarrow> counter \<Rightarrow> int" where
  "rv_tokens r MODEL_TURNS = 1"
| "rv_tokens r INPUT_TOKENS = rv_input_tokens r"
| "rv_tokens r OUTPUT_TOKENS = rv_output_tokens r"
| "rv_tokens r RETRIEVAL_QUERIES = 0"
| "rv_tokens r CACHE_TOKENS = 0"

record settlement =
  se_reservation :: reservation
  se_usage :: usage
  se_dispatched :: bool
  se_cessation_evidence :: "string option"

record owner_closure =
  oc_evidence :: string
  oc_dispatched :: "bool option"

record owner_interval =
  iv_started_at :: rat
  iv_stopped_at :: "rat option"

record timing =
  tm_mode :: timing_mode
  tm_active_seconds :: rat
  tm_active_since :: "rat option"
  tm_owners :: "(string, owner_interval) dict"
  tm_last_observed_at :: rat

record budget_state = base_state +
  bs_accounting_version :: int
  bs_direct_usage :: "counter \<Rightarrow> int"
  bs_direct_unknown :: "counter \<Rightarrow> int"
  bs_historical_usage_complete :: bool
  bs_reservations :: "(string, reservation) dict"
  bs_settlements :: "(string, settlement) dict"
  bs_ceased_owners :: "(string, owner_closure) dict"
  bs_legacy_imports :: "(string, legacy_import) dict"
  bs_timing :: timing

record job_budget =
  jb_limits :: budget_settings
  jb_timing_mode :: "timing_mode option"
  jb_new_timing_mode :: timing_mode

section \<open>Totals and time\<close>

record totals =
  tt_known :: "counter \<Rightarrow> int"
  tt_unknown :: "counter \<Rightarrow> int"
  tt_reserved :: "counter \<Rightarrow> int"
  tt_liability :: "counter \<Rightarrow> int"
  tt_replayed :: "counter \<Rightarrow> int"
  tt_replay_unknown :: "counter \<Rightarrow> int"

definition add_to :: "counter \<Rightarrow> int \<Rightarrow> (counter \<Rightarrow> int) \<Rightarrow> (counter \<Rightarrow> int)" where
  "add_to c n f = f(c := f c + n)"

definition add_import :: "legacy_import \<Rightarrow> (counter \<Rightarrow> int) \<Rightarrow> (counter \<Rightarrow> int)" where
  "add_import i known = fold (\<lambda>name. add_to name (b_counters (li_ledger i) name)) USAGE_COUNTERS known"

definition add_reservation :: "reservation \<Rightarrow> (counter \<Rightarrow> int) \<Rightarrow> (counter \<Rightarrow> int)" where
  "add_reservation r reserved =
     (if rv_replay r then reserved
      else fold (\<lambda>name. add_to name (rv_tokens r name)) [INPUT_TOKENS, OUTPUT_TOKENS] reserved)"

definition add_token :: "settlement \<Rightarrow> counter \<Rightarrow> totals \<Rightarrow> totals" where
  "add_token e name t =
     (let replay = us_source (se_usage e) = REPLAY
      in case us_tokens (se_usage e) name of
           None \<Rightarrow>
             if replay then t\<lparr>tt_replay_unknown := add_to name 1 (tt_replay_unknown t)\<rparr>
             else t\<lparr>tt_unknown := add_to name 1 (tt_unknown t),
                    tt_liability := (if name \<in> {INPUT_TOKENS, OUTPUT_TOKENS}
                       then add_to name (rv_tokens (se_reservation e) name) (tt_liability t) else tt_liability t)\<rparr>
         | Some n \<Rightarrow>
             if replay then t\<lparr>tt_replayed := add_to name n (tt_replayed t)\<rparr>
             else t\<lparr>tt_known := add_to name n (tt_known t)\<rparr>)"

definition add_settlement :: "settlement \<Rightarrow> totals \<Rightarrow> totals" where
  "add_settlement e t =
     (if \<not> se_dispatched e then t
      else let t = t\<lparr>tt_known := add_to MODEL_TURNS 1 (tt_known t)\<rparr>;
               t = (if us_source (se_usage e) = REPLAY then t\<lparr>tt_replayed := add_to MODEL_TURNS 1 (tt_replayed t)\<rparr> else t)
           in fold (add_token e) TOKENS t)"

definition no_counts :: "counter \<Rightarrow> int" where
  "no_counts = (\<lambda>_. 0)"

definition unreported :: "job_budget \<Rightarrow> counter \<Rightarrow> int \<Rightarrow> int" where
  "unreported b name missing = (if missing \<noteq> 0 then limit_of (jb_limits b) name else 0)"

definition initial_totals :: "job_budget \<Rightarrow> budget_state \<Rightarrow> totals" where
  "initial_totals b s =
     \<lparr>tt_known = fold (\<lambda>(_, i). add_import i) (bs_legacy_imports s) (bs_direct_usage s),
      tt_unknown = bs_direct_unknown s,
      tt_reserved = fold (\<lambda>(_, r). add_reservation r) (bs_reservations s)
        (no_counts(MODEL_TURNS := int (length (bs_reservations s)))),
      tt_liability = no_counts
        (INPUT_TOKENS := unreported b INPUT_TOKENS (bs_direct_unknown s INPUT_TOKENS),
         OUTPUT_TOKENS := unreported b OUTPUT_TOKENS (bs_direct_unknown s OUTPUT_TOKENS)),
      tt_replayed = no_counts, tt_replay_unknown = no_counts\<rparr>"

definition totals :: "job_budget \<Rightarrow> budget_state \<Rightarrow> totals" where
  "totals b s = fold (\<lambda>(_, e). add_settlement e) (bs_settlements s) (initial_totals b s)"

definition active_seconds :: "budget_state \<Rightarrow> rat \<Rightarrow> rat" where
  "active_seconds s now =
     tm_active_seconds (bs_timing s) +
     (case tm_active_since (bs_timing s) of None \<Rightarrow> 0 | Some since \<Rightarrow> now - since)"

definition elapsed :: "budget_state \<Rightarrow> rat \<Rightarrow> rat" where
  "elapsed s now = (if tm_mode (bs_timing s) = ACTIVE_V2 then active_seconds s now else now - b_started_at s)"

section \<open>Exhaustion\<close>

definition update_exhaustion :: "job_budget \<Rightarrow> rat \<Rightarrow> budget_state \<Rightarrow> budget_state" where
  "update_exhaustion b now s =
     (if b_exhausted s \<noteq> None then s
      else case find (\<lambda>(counter, _). b_counters s counter \<ge> limit_of (jb_limits b) counter) CEILINGS of
        Some (_, ce) \<Rightarrow> s\<lparr>b_exhausted := Some ce\<rparr>
      | None \<Rightarrow>
          if (case budget_team_packages (jb_limits b) of
                None \<Rightarrow> False
              | Some n \<Rightarrow> sum_list (map (b_team_packages s) lane_members) \<ge> n)
          then s\<lparr>b_exhausted := Some BUDGET_TEAM_PACKAGES\<rparr>
          else if elapsed s now \<ge> of_int (timeout_seconds (jb_limits b))
          then s\<lparr>b_exhausted := Some TIMEOUT_SECONDS\<rparr>
          else s)"

definition committed :: "job_budget \<Rightarrow> budget_state \<Rightarrow> counter \<Rightarrow> int" where
  "committed b s c = (let t = totals b s in tt_known t c + tt_reserved t c + tt_liability t c)"

definition usage_exhaustion :: "job_budget \<Rightarrow> budget_state \<Rightarrow> rat \<Rightarrow> ceiling option" where
  "usage_exhaustion b s now =
     (case find (\<lambda>(counter, _). committed b s counter \<ge> limit_of (jb_limits b) counter) CEILINGS of
        Some (_, ce) \<Rightarrow> Some ce
      | None \<Rightarrow> if elapsed s now \<ge> of_int (timeout_seconds (jb_limits b)) then Some TIMEOUT_SECONDS else None)"

definition exhaustion :: "job_budget \<Rightarrow> budget_state \<Rightarrow> rat \<Rightarrow> ceiling option" where
  "exhaustion b s now = (case b_exhausted s of Some c \<Rightarrow> Some c | None \<Rightarrow> usage_exhaustion b s now)"

section \<open>Validation\<close>

definition evidence_identity :: "string \<Rightarrow> string \<Rightarrow> unit res" where
  "evidence_identity v name =
     contract (strip v \<noteq> [] \<and> length v \<le> 1024) (name @ '' must be a nonempty bounded evidence identity'')"

definition counts :: "(counter \<Rightarrow> int) \<Rightarrow> counter list \<Rightarrow> bool" where
  "counts f ks = list_all (\<lambda>k. f k \<ge> 0) ks"

definition validate_base :: "job_budget \<Rightarrow> 'a base_state_scheme \<Rightarrow> unit res" where
  "validate_base b s = rseq
     [contract (b_schema s = BUDGET_SCHEMA \<or> b_schema s = BUDGET_SCHEMA_V1) ''unsupported job budget schema'',
      rguard (b_limits s = jb_limits b) (ValueError ''job budget was opened with different limits''),
      contract (counts (b_counters s) USAGE_COUNTERS \<and> list_all (\<lambda>l. b_team_packages s l \<ge> 0) lane_members \<and>
                b_started_at s \<ge> 0) ''malformed job budget counters'']"

definition legacy_ledger :: "job_budget \<Rightarrow> base_state \<Rightarrow> unit res" where
  "legacy_ledger b s = rseq
     [validate_base b s,
      contract (b_schema s = BUDGET_SCHEMA_V1) ''only original v1 attempt ledgers can be imported unambiguously'']"

definition ATTEMPTS_PREFIX :: string where
  "ATTEMPTS_PREFIX = ''data/jobs/job_inference_security_review/attempts/attempt_''"

definition LEGACY_SUFFIX :: string where
  "LEGACY_SUFFIX = ''/budget/budget.json''"

text \<open>The pattern \<open>_LEGACY_PATH\<close>: exactly four digits between prefix and suffix.\<close>

definition legacy_path :: "string \<Rightarrow> bool" where
  "legacy_path p =
     (let digits = take 4 (drop (length ATTEMPTS_PREFIX) p)
      in p = ATTEMPTS_PREFIX @ digits @ LEGACY_SUFFIX \<and> length digits = 4 \<and>
         list_all (\<lambda>c. 48 \<le> (of_char c :: nat) \<and> (of_char c :: nat) \<le> 57) digits)"

definition validate_reservation :: "reservation \<Rightarrow> unit res" where
  "validate_reservation r = rseq
     [contract (rv_input_tokens r \<ge> 0 \<and> rv_output_tokens r \<ge> 0) ''malformed job budget reservation'',
      evidence_identity (rv_owner_id r) ''owner_id'']"

definition validate_accounting :: "budget_state \<Rightarrow> unit res" where
  "validate_accounting s =
     contract (bs_accounting_version s = 2 \<and> counts (bs_direct_usage s) KNOWN \<and> counts (bs_direct_unknown s) TOKENS)
       ''malformed job budget accounting''"

definition validate_imports :: "job_budget \<Rightarrow> budget_state \<Rightarrow> unit res" where
  "validate_imports b s = rseq
     [rall (\<lambda>(path, i). rseq
        [contract (legacy_path path \<and> is_sha256 (li_ledger_sha256 i) \<and> is_sha256 (li_claim_sha256 i) \<and>
                   is_sha256 (li_status_sha256 i)) ''malformed legacy budget import identity'',
         legacy_ledger b (li_ledger i)]) (bs_legacy_imports s),
      contract (bs_legacy_imports s = [] \<or>
                \<not> bs_historical_usage_complete s \<and> tm_mode (bs_timing s) = WALL_CLOCK_V1 \<and>
                b_started_at s = Min (set (map (\<lambda>(_, i). b_started_at (li_ledger i)) (bs_legacy_imports s))))
        ''legacy imported timing/history cannot be reinterpreted'']"

definition validate_owners :: "budget_state \<Rightarrow> unit res" where
  "validate_owners s =
     rall (\<lambda>(own, c). rseq [evidence_identity own ''owner_id'', evidence_identity (oc_evidence c) ''cessation_evidence''])
       (bs_ceased_owners s)"

definition validate_reservations :: "budget_state \<Rightarrow> unit res" where
  "validate_reservations s =
     rall (\<lambda>(i, r). rseq
       [evidence_identity i ''reservation_id'', validate_reservation r,
        contract (map_of (bs_ceased_owners s) (rv_owner_id r) = None) ''ceased owner still has live reservations''])
       (bs_reservations s)"

definition validate_settlement :: "(string, owner_closure) dict \<Rightarrow> string \<times> settlement \<Rightarrow> unit res" where
  "validate_settlement ceased entry =
     (let (i, e) = entry; u = se_usage e
      in rseq
       [evidence_identity i ''reservation_id'', validate_reservation (se_reservation e),
        contract (list_all (\<lambda>n. case us_tokens u n of None \<Rightarrow> True | Some v \<Rightarrow> token_count v \<noteq> None) TOKENS)
          ''malformed settled usage'',
        contract (\<not> (rv_replay (se_reservation e) \<and> us_source u \<noteq> REPLAY) \<and>
                  (se_dispatched e \<or> list_all (\<lambda>n. us_tokens u n = None) TOKENS))
          ''inconsistent settlement provenance'',
        case se_cessation_evidence e of
          None \<Rightarrow> Inr ()
        | Some ev \<Rightarrow> rseq
            [evidence_identity ev ''cessation_evidence'',
             contract (map_of ceased (rv_owner_id (se_reservation e)) =
                       Some \<lparr>oc_evidence = ev, oc_dispatched = Some (se_dispatched e)\<rparr>)
               ''settlement has no matching cessation evidence'']])"

definition open_starts :: "timing \<Rightarrow> rat list" where
  "open_starts t = map (\<lambda>(_, v). iv_started_at v) (filter (\<lambda>(_, v). iv_stopped_at v = None) (tm_owners t))"

text \<open>The owners' intervals merged into disjoint ones, the latest first; open ones end at \<open>stop\<close>.\<close>

definition merge_interval :: "rat \<times> rat \<Rightarrow> (rat \<times> rat) list \<Rightarrow> (rat \<times> rat) list" where
  "merge_interval iv acc =
     (case acc of
        [] \<Rightarrow> [iv]
      | (a, z) # rest \<Rightarrow> if fst iv \<le> z then (a, max z (snd iv)) # rest else iv # acc)"

definition interval_bounds :: "rat \<Rightarrow> owner_interval \<Rightarrow> rat \<times> rat" where
  "interval_bounds now v = (iv_started_at v, case iv_stopped_at v of Some z \<Rightarrow> z | None \<Rightarrow> now)"

definition union_seconds :: "timing \<Rightarrow> rat" where
  "union_seconds t =
     sum_list (map (\<lambda>(a, z). z - a)
       (fold merge_interval (map (interval_bounds (tm_last_observed_at t))
          (sort_key iv_started_at (map snd (tm_owners t)))) []))"

text \<open>\<open>math.isclose(a, b, abs_tol=1e-6)\<close>, with the default relative tolerance.\<close>

definition is_close :: "rat \<Rightarrow> rat \<Rightarrow> bool" where
  "is_close a b = (\<bar>a - b\<bar> \<le> max (max \<bar>a\<bar> \<bar>b\<bar> / 1000000000) (1 / 1000000))"

definition validate_interval :: "budget_state \<Rightarrow> string \<times> owner_interval \<Rightarrow> unit res" where
  "validate_interval s entry =
     (let (own, v) = entry; t = bs_timing s
      in rseq
       [evidence_identity own ''owner_id'',
        contract (iv_started_at v \<ge> 0 \<and>
                  (case iv_stopped_at v of None \<Rightarrow> True | Some z \<Rightarrow> z \<ge> 0 \<and> z \<ge> iv_started_at v) \<and>
                  (iv_stopped_at v \<noteq> None) = (map_of (bs_ceased_owners s) own \<noteq> None) \<and>
                  iv_started_at v \<ge> b_started_at s \<and>
                  max (iv_started_at v) (case iv_stopped_at v of None \<Rightarrow> 0 | Some z \<Rightarrow> z) \<le> tm_last_observed_at t)
          ''malformed execution owner interval''])"

definition validate_timing :: "job_budget \<Rightarrow> budget_state \<Rightarrow> unit res" where
  "validate_timing b s =
     (let t = bs_timing s; opened = open_starts t
      in rseq
       [contract (tm_active_seconds t \<ge> 0 \<and> tm_last_observed_at t \<ge> 0 \<and>
                  (case tm_active_since t of None \<Rightarrow> True | Some x \<Rightarrow> x \<ge> 0)) ''malformed budget timing'',
        contract ((case jb_timing_mode b of None \<Rightarrow> True | Some m \<Rightarrow> tm_mode t = m) \<and>
                  (b_schema s = BUDGET_SCHEMA_V1 \<longrightarrow> tm_mode t = WALL_CLOCK_V1 \<and> \<not> bs_historical_usage_complete s))
          ''existing budget timing/history cannot be reinterpreted'',
        rall (validate_interval s) (tm_owners t),
        contract ((opened \<noteq> []) = (tm_active_since t \<noteq> None) \<and>
                  (case tm_active_since t of None \<Rightarrow> True | Some x \<Rightarrow>
                     opened = [] \<or> b_started_at s \<le> x \<and> x \<le> Min (set opened)) \<and>
                  tm_last_observed_at t \<ge> b_started_at s \<and>
                  (tm_mode t = WALL_CLOCK_V1 \<longrightarrow> tm_owners t = [] \<and> tm_active_seconds t = 0 \<and> opened = []))
          ''inconsistent active execution timing'',
        contract (is_close (union_seconds t) (active_seconds s (tm_last_observed_at t)))
          ''active execution total disagrees with owner receipts'',
        contract (tm_mode t = ACTIVE_V2 \<longrightarrow>
                  list_all (\<lambda>(_, r). map_of (tm_owners t) (rv_owner_id r) \<noteq> None) (bs_reservations s))
          ''reservation has no active execution owner''])"

definition validate :: "job_budget \<Rightarrow> budget_state \<Rightarrow> unit res" where
  "validate b s = rseq
     [validate_base b s,
      validate_accounting s,
      validate_imports b s,
      contract (list_all (\<lambda>(i, _). map_of (bs_settlements s) i = None) (bs_reservations s))
        ''reservation is both live and settled'',
      validate_owners s,
      validate_reservations s,
      rall (validate_settlement (bs_ceased_owners s)) (bs_settlements s),
      validate_timing b s,
      contract (list_all (\<lambda>c. b_counters s c = tt_known (totals b s) c) USAGE_COUNTERS)
        ''budget counters disagree with settlement receipts'']"

section \<open>Opening and the transaction\<close>

text \<open>What \<open>budget.json\<close> holds: an original v1 ledger, or a document with v2 accounting.\<close>

datatype document = Legacy base_state | Accounted budget_state

definition initialize_accounting :: "job_budget \<Rightarrow> bool \<Rightarrow> base_state \<Rightarrow> budget_state" where
  "initialize_accounting b legacy s =
     base_state.extend s (budget_state.fields 2 ((b_counters s)(CACHE_TOKENS := 0)) no_counts (\<not> legacy) [] [] [] []
       \<lparr>tm_mode = (if legacy then WALL_CLOCK_V1
                   else case jb_timing_mode b of Some m \<Rightarrow> m | None \<Rightarrow> jb_new_timing_mode b),
        tm_active_seconds = 0, tm_active_since = None, tm_owners = [], tm_last_observed_at = b_started_at s\<rparr>)"

definition new_ledger :: "job_budget \<Rightarrow> rat \<Rightarrow> base_state" where
  "new_ledger b now =
     \<lparr>b_schema = BUDGET_SCHEMA, b_limits = jb_limits b, b_started_at = now, b_team_packages = (\<lambda>_. 0),
      b_counters = no_counts, b_exhausted = None\<rparr>"

definition load_state :: "job_budget \<Rightarrow> rat \<Rightarrow> document option \<Rightarrow> budget_state res" where
  "load_state b now doc =
     (case doc of
        None \<Rightarrow> Inr (initialize_accounting b False (new_ledger b now))
      | Some (Legacy s) \<Rightarrow>
          rbind (validate_base b s) (\<lambda>_.
          rbind (contract (b_schema s = BUDGET_SCHEMA_V1) ''malformed job budget accounting'') (\<lambda>_.
            Inr (initialize_accounting b True s)))
      | Some (Accounted s) \<Rightarrow> rbind (validate_base b s) (\<lambda>_. Inr s))"

definition set_counters :: "(counter \<Rightarrow> int) \<Rightarrow> (counter \<Rightarrow> int) \<Rightarrow> (counter \<Rightarrow> int)" where
  "set_counters known f = fold (\<lambda>name f. f(name := known name)) USAGE_COUNTERS f"

definition recount :: "job_budget \<Rightarrow> budget_state \<Rightarrow> budget_state" where
  "recount b s = s\<lparr>b_counters := set_counters (tt_known (totals b s)) (b_counters s)\<rparr>"

text \<open>
  The attempt ledgers that \<open>for_run\<close> imports: \<open>sources\<close> maps the run-relative path of each to its
  import record, read under the source locks and checked against the attempt's claim and status.
  \<open>None\<close> is a budget opened without a run.
\<close>

definition adopt_imports :: "job_budget \<Rightarrow> (string, legacy_import) dict \<Rightarrow> budget_state \<Rightarrow> budget_state" where
  "adopt_imports b imports s =
     recount b (s\<lparr>bs_legacy_imports := imports,
       b_started_at := Min (set (map (\<lambda>(_, i). b_started_at (li_ledger i)) imports)),
       bs_historical_usage_complete := False,
       b_team_packages := (\<lambda>l. sum_list (map (\<lambda>(_, i). b_team_packages (li_ledger i) l) imports)),
       b_exhausted := (case find (\<lambda>(_, i). b_exhausted (li_ledger i) \<noteq> None) imports of
           None \<Rightarrow> None | Some (_, i) \<Rightarrow> b_exhausted (li_ledger i))\<rparr>)"

definition import_attempts ::
  "job_budget \<Rightarrow> (string, legacy_import) dict option \<Rightarrow> rat \<Rightarrow> bool \<Rightarrow> budget_state \<Rightarrow> budget_state res" where
  "import_attempts b sources now fresh s =
     (case sources of
        None \<Rightarrow> Inr s
      | Some imports \<Rightarrow>
          rbind (contract (fresh \<or> set (map fst imports) = set (map fst (bs_legacy_imports s)))
                   ''legacy attempt ledger set changed; explicit reconciliation required'') (\<lambda>_.
          if imports = [] then Inr s
          else let s = (if fresh \<and> jb_timing_mode b = None
                        then s\<lparr>bs_timing := (bs_timing s)\<lparr>tm_mode := WALL_CLOCK_V1\<rparr>\<rparr> else s)
               in rbind (contract (tm_mode (bs_timing s) = WALL_CLOCK_V1)
                           ''legacy attempt wall-clock history cannot be reinterpreted'') (\<lambda>_.
                  rbind (rall (\<lambda>(path, i). rseq
                     [contract (legacy_path path) ''invalid run-owned legacy budget path'',
                      legacy_ledger b (li_ledger i),
                      contract (b_started_at (li_ledger i) \<le> now) ''legacy budget starts after the current clock'',
                      contract (fresh \<or> map_of (bs_legacy_imports s) path = Some i)
                        ''immutable legacy import identity changed'']) imports) (\<lambda>_.
                  if fresh then Inr (adopt_imports b imports s)
                  else Inr s))))"

definition observe :: "job_budget \<Rightarrow> rat \<Rightarrow> budget_state \<Rightarrow> budget_state" where
  "observe b now s = update_exhaustion b now (s\<lparr>bs_timing := (bs_timing s)\<lparr>tm_last_observed_at := now\<rparr>\<rparr>)"

definition store :: "job_budget \<Rightarrow> 'r \<Rightarrow> budget_state \<Rightarrow> ('r \<times> budget_state) res" where
  "store b r s = rbind (validate b s) (\<lambda>_. Inr (r, s))"

definition transact ::
  "job_budget \<Rightarrow> (string, legacy_import) dict option \<Rightarrow> rat \<Rightarrow> document option \<Rightarrow>
   (budget_state \<Rightarrow> ('r \<times> budget_state) res) \<Rightarrow> ('r \<times> budget_state) res" where
  "transact b sources now doc mutate =
     rbind (contract (now \<ge> 0) ''invalid budget clock'') (\<lambda>_.
     rbind (load_state b now doc) (\<lambda>s.
     rbind (validate b s) (\<lambda>_.
     rbind (import_attempts b sources now (Option.is_none doc) s) (\<lambda>s.
     rbind (validate b s) (\<lambda>_.
     rbind (contract (tm_last_observed_at (bs_timing s) \<le> now) ''budget clock regressed'') (\<lambda>_.
     rbind (mutate (observe b now s)) (\<lambda>(r, s). store b r (update_exhaustion b now (recount b s)))))))))"

section \<open>Operations\<close>

definition reserve_mutate :: "job_budget \<Rightarrow> rat \<Rightarrow> lane \<Rightarrow> budget_state \<Rightarrow> (bool \<times> budget_state) res" where
  "reserve_mutate b now l s =
     Inr (if exhaustion b s now \<noteq> None then (False, s)
          else (True, s\<lparr>b_team_packages := (b_team_packages s)(l := b_team_packages s l + 1)\<rparr>))"

definition reserve where
  "reserve b sources now doc l = transact b sources now doc (reserve_mutate b now l)"

definition charge_mutate :: "int \<Rightarrow> int option \<Rightarrow> int option \<Rightarrow> int \<Rightarrow> budget_state \<Rightarrow> (unit \<times> budget_state) res" where
  "charge_mutate turns inp out queries s =
     (let reported = (\<lambda>c. case c of MODEL_TURNS \<Rightarrow> Some turns | INPUT_TOKENS \<Rightarrow> inp | OUTPUT_TOKENS \<Rightarrow> out
                       | RETRIEVAL_QUERIES \<Rightarrow> Some queries | CACHE_TOKENS \<Rightarrow> None);
          direct = (\<lambda>c. bs_direct_usage s c + (case reported c of None \<Rightarrow> 0 | Some n \<Rightarrow> n));
          missing = (\<lambda>c. bs_direct_unknown s c + (if turns \<noteq> 0 \<and> c \<in> set TOKENS \<and> reported c = None then turns else 0))
      in Inr ((), s\<lparr>bs_direct_usage := direct, bs_direct_unknown := missing\<rparr>))"

definition charge where
  "charge b sources now doc turns inp out queries =
     rbind (rguard (turns \<ge> 0 \<and> queries \<ge> 0 \<and> (case inp of None \<Rightarrow> True | Some n \<Rightarrow> token_count n \<noteq> None) \<and>
                    (case out of None \<Rightarrow> True | Some n \<Rightarrow> token_count n \<noteq> None))
              (ValueError ''budget charges must be non-negative integers'')) (\<lambda>_.
     rbind (transact b sources now doc (charge_mutate turns inp out queries)) (\<lambda>(_, s).
       Inr (exhaustion b s now, s)))"

text \<open>Whether the requested turn and tokens fit beside what is spent, reserved and unreported.\<close>

definition requested :: "int \<Rightarrow> int \<Rightarrow> bool \<Rightarrow> counter \<Rightarrow> int" where
  "requested inp out replay c =
     (case c of MODEL_TURNS \<Rightarrow> 1 | INPUT_TOKENS \<Rightarrow> if replay then 0 else inp
      | OUTPUT_TOKENS \<Rightarrow> if replay then 0 else out | _ \<Rightarrow> 0)"

definition admits :: "job_budget \<Rightarrow> rat \<Rightarrow> int \<Rightarrow> int \<Rightarrow> bool \<Rightarrow> budget_state \<Rightarrow> bool" where
  "admits b now inp out replay s =
     ((replay \<or> list_all (\<lambda>n. bs_direct_unknown s n = 0) [INPUT_TOKENS, OUTPUT_TOKENS]) \<and>
      \<not> elapsed s now \<ge> of_int (timeout_seconds (jb_limits b)) \<and>
      list_all (\<lambda>(c, _). \<not> (tt_known (totals b s) c \<ge> limit_of (jb_limits b) c \<or>
        committed b s c + requested inp out replay c > limit_of (jb_limits b) c)) CEILINGS)"

definition reserve_call_mutate ::
  "job_budget \<Rightarrow> rat \<Rightarrow> string \<Rightarrow> string \<Rightarrow> int \<Rightarrow> int \<Rightarrow> bool \<Rightarrow> budget_state \<Rightarrow> (string option \<times> budget_state) res" where
  "reserve_call_mutate b now identifier own inp out replay s =
     rbind (contract (map_of (bs_ceased_owners s) own = None) ''ceased budget owner cannot dispatch'') (\<lambda>_.
     rbind (contract (\<not> (tm_mode (bs_timing s) = ACTIVE_V2 \<and> map_of (tm_owners (bs_timing s)) own = None))
              ''call owner has no active execution'') (\<lambda>_.
     if \<not> admits b now inp out replay s then Inr (None, s)
     else rbind (contract (map_of (bs_reservations s) identifier = None \<and> map_of (bs_settlements s) identifier = None)
                   ''call reservation identity collision'') (\<lambda>_.
       Inr (Some identifier, s\<lparr>bs_reservations := AList.update identifier
         \<lparr>rv_owner_id = own, rv_input_tokens = inp, rv_output_tokens = out, rv_replay = replay\<rparr> (bs_reservations s)\<rparr>))))"

definition reserve_call where
  "reserve_call b sources now doc identifier own inp out replay =
     rbind (evidence_identity own ''owner_id'') (\<lambda>_.
     rbind (contract (token_count inp \<noteq> None \<and> token_count out \<noteq> None) ''invalid call reservation'') (\<lambda>_.
       transact b sources now doc (reserve_call_mutate b now identifier own inp out replay)))"

definition normalized :: "int option \<Rightarrow> int option" where
  "normalized v = (case v of None \<Rightarrow> None | Some n \<Rightarrow> token_count n)"

text \<open>Without a report, every count is missing.\<close>

definition given_usage :: "usage option \<Rightarrow> bool \<Rightarrow> bool \<Rightarrow> usage" where
  "given_usage report replay dispatched =
     (case report of
        Some u \<Rightarrow> u
      | None \<Rightarrow> \<lparr>us_input_tokens = None, us_output_tokens = None, us_cache_tokens = None,
          us_source = (if replay then REPLAY else PROVIDER),
          us_unavailable_reason = Some (if dispatched then ''no_provider_response'' else ''not_dispatched'')\<rparr>)"

definition usage_reason :: "usage \<Rightarrow> string option" where
  "usage_reason u =
     (let invalid = list_ex (\<lambda>n. us_tokens u n \<noteq> None \<and> normalized (us_tokens u n) = None) TOKENS;
          missing = list_ex (\<lambda>n. normalized (us_tokens u n) = None) [INPUT_TOKENS, OUTPUT_TOKENS];
          fallback = (if missing then Some ''provider_usage_missing'' else None)
      in if invalid then Some ''invalid_provider_usage''
         else case us_unavailable_reason u of
           Some r \<Rightarrow> if r \<noteq> [] then Some r else fallback
         | None \<Rightarrow> fallback)"

definition reported_usage :: "usage option \<Rightarrow> bool \<Rightarrow> bool \<Rightarrow> usage res" where
  "reported_usage report replay dispatched =
     rbind (contract (dispatched \<or> Option.is_none report) ''undispatched call cannot report provider usage'') (\<lambda>_.
       let u = given_usage report replay dispatched
       in rbind (contract (\<not> (replay \<and> us_source u \<noteq> REPLAY)) ''inconsistent settlement usage source'') (\<lambda>_.
            Inr \<lparr>us_input_tokens = normalized (us_input_tokens u), us_output_tokens = normalized (us_output_tokens u),
                 us_cache_tokens = normalized (us_cache_tokens u), us_source = us_source u,
                 us_unavailable_reason = usage_reason u\<rparr>))"

definition settle_mutate ::
  "string \<Rightarrow> usage option \<Rightarrow> bool \<Rightarrow> budget_state \<Rightarrow> (unit \<times> budget_state) res" where
  "settle_mutate i report dispatched s =
     (case map_of (bs_settlements s) i of
        Some e \<Rightarrow>
          rbind (reported_usage report (rv_replay (se_reservation e)) dispatched) (\<lambda>u.
          rbind (contract (se_usage e = u \<and> se_dispatched e = dispatched) ''conflicting call settlement'') (\<lambda>_.
            Inr ((), s)))
      | None \<Rightarrow>
          (case map_of (bs_reservations s) i of
             None \<Rightarrow> Inl (ExecutionContractError ''unknown call reservation'')
           | Some r \<Rightarrow>
               rbind (reported_usage report (rv_replay r) dispatched) (\<lambda>u.
                 Inr ((), s\<lparr>bs_settlements := AList.update i
                     \<lparr>se_reservation = r, se_usage = u, se_dispatched = dispatched, se_cessation_evidence = None\<rparr>
                     (bs_settlements s),
                   bs_reservations := AList.delete i (bs_reservations s)\<rparr>))))"

definition settle_call where
  "settle_call b sources now doc i report dispatched =
     rbind (evidence_identity i ''reservation_id'') (\<lambda>_.
     rbind (transact b sources now doc (settle_mutate i report dispatched)) (\<lambda>(_, s).
       Inr (exhaustion b s now, s)))"

definition resume_mutate :: "rat \<Rightarrow> string \<Rightarrow> budget_state \<Rightarrow> (unit \<times> budget_state) res" where
  "resume_mutate now own s =
     (let t = bs_timing s
      in rbind (contract (tm_mode t = ACTIVE_V2) ''wall-clock budgets cannot opt into active timing'') (\<lambda>_.
         rbind (contract (map_of (bs_ceased_owners s) own = None) ''ceased execution requires a new immutable owner_id'') (\<lambda>_.
           if map_of (tm_owners t) own \<noteq> None then Inr ((), s)
           else Inr ((), s\<lparr>bs_timing := t\<lparr>
             tm_active_since := (case tm_active_since t of None \<Rightarrow> Some now | Some x \<Rightarrow> Some x),
             tm_owners := AList.update own \<lparr>iv_started_at = now, iv_stopped_at = None\<rparr> (tm_owners t)\<rparr>\<rparr>))))"

definition resume_execution where
  "resume_execution b sources now doc own =
     rbind (evidence_identity own ''owner_id'') (\<lambda>_. transact b sources now doc (resume_mutate now own))"

definition close_execution :: "string \<Rightarrow> rat \<Rightarrow> budget_state \<Rightarrow> budget_state" where
  "close_execution own now s =
     (let t = bs_timing s
      in case map_of (tm_owners t) own of
           None \<Rightarrow> s
         | Some v \<Rightarrow>
             if iv_stopped_at v \<noteq> None then s
             else let t = t\<lparr>tm_owners := AList.update own (v\<lparr>iv_stopped_at := Some now\<rparr>) (tm_owners t)\<rparr>
                  in if open_starts t \<noteq> [] then s\<lparr>bs_timing := t\<rparr>
                     else s\<lparr>bs_timing := t\<lparr>
                       tm_active_seconds := tm_active_seconds t +
                         (case tm_active_since t of None \<Rightarrow> 0 | Some x \<Rightarrow> now - x),
                       tm_active_since := None\<rparr>\<rparr>)"

definition pause_mutate :: "rat \<Rightarrow> string \<Rightarrow> string \<Rightarrow> budget_state \<Rightarrow> (unit \<times> budget_state) res" where
  "pause_mutate now own ev s =
     rbind (contract (tm_mode (bs_timing s) = ACTIVE_V2) ''wall-clock budgets cannot pause'') (\<lambda>_.
     rbind (contract (map_of (tm_owners (bs_timing s)) own \<noteq> None) ''unknown execution owner'') (\<lambda>_.
     rbind (contract (\<not> list_ex (\<lambda>(_, r). rv_owner_id r = own) (bs_reservations s))
              ''settle or reconcile live reservations before pausing'') (\<lambda>_.
     case map_of (bs_ceased_owners s) own of
       Some c \<Rightarrow> rbind (contract (oc_evidence c = ev) ''conflicting owner cessation evidence'') (\<lambda>_. Inr ((), s))
     | None \<Rightarrow>
         Inr ((), close_execution own now (s\<lparr>bs_ceased_owners :=
           AList.update own \<lparr>oc_evidence = ev, oc_dispatched = None\<rparr> (bs_ceased_owners s)\<rparr>)))))"

definition pause_execution where
  "pause_execution b sources now doc own ev =
     rbind (evidence_identity own ''owner_id'') (\<lambda>_.
     rbind (evidence_identity ev ''cessation_evidence'') (\<lambda>_.
       transact b sources now doc (pause_mutate now own ev)))"

text \<open>One abandoned reservation settled without a report.\<close>

definition abandon :: "string \<Rightarrow> bool \<Rightarrow> string \<Rightarrow> budget_state \<Rightarrow> budget_state res" where
  "abandon ev dispatched i s =
     (case map_of (bs_reservations s) i of
        None \<Rightarrow> Inl KeyError
      | Some r \<Rightarrow>
          rbind (reported_usage None (rv_replay r) dispatched) (\<lambda>u.
            Inr (s\<lparr>bs_reservations := AList.delete i (bs_reservations s),
                  bs_settlements := AList.update i
                    \<lparr>se_reservation = r, se_usage = u, se_dispatched = dispatched, se_cessation_evidence = Some ev\<rparr>
                    (bs_settlements s)\<rparr>)))"

definition owned_reservations :: "string \<Rightarrow> budget_state \<Rightarrow> string list" where
  "owned_reservations own s = sort (map fst (filter (\<lambda>(_, r). rv_owner_id r = own) (bs_reservations s)))"

definition reconcile_mutate ::
  "rat \<Rightarrow> string \<Rightarrow> string \<Rightarrow> bool \<Rightarrow> budget_state \<Rightarrow> (string list \<times> budget_state) res" where
  "reconcile_mutate now own ev dispatched s =
     (let closure = \<lparr>oc_evidence = ev, oc_dispatched = Some dispatched\<rparr>
      in case map_of (bs_ceased_owners s) own of
           Some c \<Rightarrow>
             rbind (contract (c = closure) ''conflicting owner reconciliation'') (\<lambda>_.
               Inr (sort (map fst (filter (\<lambda>(_, e). rv_owner_id (se_reservation e) = own \<and>
                      se_cessation_evidence e = Some ev) (bs_settlements s))), s))
         | None \<Rightarrow>
             let selected = owned_reservations own s
             in rbind (contract (\<not> (selected = [] \<and> map_of (tm_owners (bs_timing s)) own = None \<and>
                         \<not> list_ex (\<lambda>(_, e). rv_owner_id (se_reservation e) = own) (bs_settlements s)))
                         ''unknown budget owner'') (\<lambda>_.
                rbind (rfold (abandon ev dispatched) selected
                         (s\<lparr>bs_ceased_owners := AList.update own closure (bs_ceased_owners s)\<rparr>)) (\<lambda>s.
                  Inr (selected, close_execution own now s))))"

definition reconcile_owner where
  "reconcile_owner b sources now doc own ev dispatched =
     rbind (evidence_identity own ''owner_id'') (\<lambda>_.
     rbind (evidence_identity ev ''cessation_evidence'') (\<lambda>_.
       transact b sources now doc (reconcile_mutate now own ev dispatched)))"

definition open_budget where
  "open_budget b sources now doc = transact b sources now doc (\<lambda>s. Inr ((), s))"

definition usage_exhausted where
  "usage_exhausted b sources now doc =
     rbind (open_budget b sources now doc) (\<lambda>(_, s). Inr (usage_exhaustion b s now, s))"

definition cell_launch_allowed where
  "cell_launch_allowed b sources now doc =
     rbind (usage_exhausted b sources now doc) (\<lambda>(x, s). Inr (Option.is_none x, s))"

section \<open>Snapshots\<close>

record budget_snapshot =
  sn_team_packages :: "lane \<Rightarrow> int"
  sn_usage :: "counter \<Rightarrow> int"
  sn_started_at :: rat
  sn_exhausted :: "ceiling option"
  sn_timing_mode :: timing_mode
  sn_elapsed_seconds :: rat
  sn_active_execution_seconds :: rat
  sn_active_owners :: "string list"
  sn_actual :: "counter \<Rightarrow> int option"
  sn_unknown_usage :: "counter \<Rightarrow> int"
  sn_historical_usage_complete :: bool
  sn_reserved :: "counter \<Rightarrow> int"
  sn_liability :: "counter \<Rightarrow> int"
  sn_replayed :: "counter \<Rightarrow> int"
  sn_replayed_unknown_usage :: "counter \<Rightarrow> int"
  sn_live_reservations :: nat
  sn_imported_ledgers :: "(string, string) dict"

text \<open>
  \<open>sn_usage\<close> gathers the four usage counters and \<open>cache_tokens\<close>; \<open>sn_actual\<close> the three \<open>actual_\<close>
  totals, which are known only while no report is missing and no billable call is open.
\<close>

definition actual_total :: "job_budget \<Rightarrow> budget_state \<Rightarrow> counter \<Rightarrow> int option" where
  "actual_total b s name =
     (if name \<in> set TOKENS \<and> tt_unknown (totals b s) name = 0 \<and> bs_historical_usage_complete s \<and>
         list_all (\<lambda>(_, r). rv_replay r) (bs_reservations s)
      then Some (tt_known (totals b s) name) else None)"

definition snapshot_of :: "job_budget \<Rightarrow> rat \<Rightarrow> budget_state \<Rightarrow> budget_snapshot" where
  "snapshot_of b now s =
     (let t = totals b s
      in \<lparr>sn_team_packages = b_team_packages s,
          sn_usage = (\<lambda>c. if c = CACHE_TOKENS then tt_known t c else b_counters s c),
          sn_started_at = b_started_at s, sn_exhausted = exhaustion b s now, sn_timing_mode = tm_mode (bs_timing s),
          sn_elapsed_seconds = elapsed s now, sn_active_execution_seconds = active_seconds s now,
          sn_active_owners = sort (map fst (filter (\<lambda>(_, v). iv_stopped_at v = None) (tm_owners (bs_timing s)))),
          sn_actual = actual_total b s, sn_unknown_usage = tt_unknown t,
          sn_historical_usage_complete = bs_historical_usage_complete s, sn_reserved = tt_reserved t,
          sn_liability = tt_liability t, sn_replayed = tt_replayed t, sn_replayed_unknown_usage = tt_replay_unknown t,
          sn_live_reservations = length (bs_reservations s),
          sn_imported_ledgers = map (\<lambda>(path, i). (path, li_ledger_sha256 i)) (bs_legacy_imports s)\<rparr>)"

definition snapshot where
  "snapshot b sources now doc = rbind (open_budget b sources now doc) (\<lambda>(_, s). Inr (snapshot_of b now s, s))"

definition can_launch where
  "can_launch b sources now doc =
     rbind (snapshot b sources now doc) (\<lambda>(v, s). Inr (Option.is_none (sn_exhausted v), s))"

definition team_packages where
  "team_packages b sources now doc = rbind (snapshot b sources now doc) (\<lambda>(v, s). Inr (sn_team_packages v, s))"

definition not_launched :: "job_budget \<Rightarrow> (string, legacy_import) dict option \<Rightarrow> rat \<Rightarrow> document option \<Rightarrow> string list \<Rightarrow>
    ((string \<times> string) list \<times> budget_state) res" where
  "not_launched b sources now doc queued =
     rbind (snapshot b sources now doc) (\<lambda>(v, s).
       case sn_exhausted v of
         None \<Rightarrow> Inl (ValueError ''job budget is not exhausted; queued work must still be launched'')
       | Some c \<Rightarrow>
           Inr (map (\<lambda>q. (q, ''not launched: job budget exhausted ('' @ ceiling_value c @ '')'')) queued, s))"

end
