(* ===== verification/Budget_Laws.thy ===== *)
theory Budget_Laws
  imports Budget
begin

text \<open>
  Laws of the budget document: the totals as sums over its entries, the union of the owners'
  intervals as a measure that grows with the clock, and that every mutation of an observed valid
  document yields one that \<open>_validate\<close> accepts.
\<close>

section \<open>Totals as sums\<close>

lemma fold_sum: "(\<And>x t. g (f x t) = g t + h x) \<Longrightarrow> g (fold f xs t) = g t + (\<Sum>x\<leftarrow>xs. h x)"
  for g :: "'t \<Rightarrow> 'n::comm_monoid_add"
  by (induction xs arbitrary: t) (simp_all add: add.assoc)

lemma fold_same: "(\<And>x t. g (f x t) = g t) \<Longrightarrow> g (fold f xs t) = g t"
  by (induction xs arbitrary: t) simp_all

text \<open>What one settlement adds to the known, the liable and the unknown totals.\<close>

definition settled_known :: "settlement \<Rightarrow> counter \<Rightarrow> int" where
  "settled_known e c =
     (if \<not> se_dispatched e then 0
      else if c = MODEL_TURNS then 1
      else if us_source (se_usage e) = REPLAY then 0
      else case us_tokens (se_usage e) c of None \<Rightarrow> 0 | Some n \<Rightarrow> n)"

definition settled_liability :: "settlement \<Rightarrow> counter \<Rightarrow> int" where
  "settled_liability e c =
     (if se_dispatched e \<and> us_source (se_usage e) \<noteq> REPLAY \<and> c \<in> {INPUT_TOKENS, OUTPUT_TOKENS} \<and>
         us_tokens (se_usage e) c = None
      then rv_tokens (se_reservation e) c else 0)"

definition reserved_tokens :: "reservation \<Rightarrow> counter \<Rightarrow> int" where
  "reserved_tokens r c =
     (if c = MODEL_TURNS then 1
      else if rv_replay r \<or> c \<notin> {INPUT_TOKENS, OUTPUT_TOKENS} then 0 else rv_tokens r c)"

definition imported_known :: "legacy_import \<Rightarrow> counter \<Rightarrow> int" where
  "imported_known i c = (if c \<in> set USAGE_COUNTERS then b_counters (li_ledger i) c else 0)"

lemma add_settlement_known: "tt_known (add_settlement e t) c = tt_known t c + settled_known e c"
  by (cases c; cases "us_input_tokens (se_usage e)"; cases "us_output_tokens (se_usage e)";
      cases "us_cache_tokens (se_usage e)")
    (simp_all add: add_settlement_def settled_known_def TOKENS_def add_token_def add_to_def Let_def)

lemma add_settlement_liability: "tt_liability (add_settlement e t) c = tt_liability t c + settled_liability e c"
  by (cases c; cases "us_input_tokens (se_usage e)"; cases "us_output_tokens (se_usage e)";
      cases "us_cache_tokens (se_usage e)")
    (simp_all add: add_settlement_def settled_liability_def TOKENS_def add_token_def add_to_def Let_def)

lemma add_settlement_reserved: "tt_reserved (add_settlement e t) = tt_reserved t"
  by (cases "us_input_tokens (se_usage e)"; cases "us_output_tokens (se_usage e)"; cases "us_cache_tokens (se_usage e)")
    (simp_all add: add_settlement_def TOKENS_def add_token_def Let_def)

lemma add_import_known: "add_import i k c = k c + imported_known i c"
  by (cases c) (simp_all add: add_import_def imported_known_def USAGE_COUNTERS_def add_to_def)

lemma add_reservation_tokens:
  "add_reservation r k c = k c + (if c = MODEL_TURNS then 0 else reserved_tokens r c)"
  by (cases c) (simp_all add: add_reservation_def reserved_tokens_def add_to_def)

definition direct_liability :: "job_budget \<Rightarrow> budget_state \<Rightarrow> counter \<Rightarrow> int" where
  "direct_liability b s c =
     (if c \<in> {INPUT_TOKENS, OUTPUT_TOKENS} \<and> bs_direct_unknown s c \<noteq> 0 then limit_of (jb_limits b) c else 0)"

lemma totals_known:
  "tt_known (totals b s) c =
     bs_direct_usage s c + (\<Sum>x\<leftarrow>bs_legacy_imports s. imported_known (snd x) c) +
     (\<Sum>x\<leftarrow>bs_settlements s. settled_known (snd x) c)"
proof -
  have "fold (\<lambda>(_, i). add_import i) (bs_legacy_imports s) (bs_direct_usage s) c =
      bs_direct_usage s c + (\<Sum>x\<leftarrow>bs_legacy_imports s. imported_known (snd x) c)"
    by (rule fold_sum [where g = "\<lambda>k. k c"]) (simp add: case_prod_unfold add_import_known)
  then show ?thesis
    using fold_sum [where g = "\<lambda>t. tt_known t c" and f = "\<lambda>(_, e). add_settlement e" and h = "\<lambda>x. settled_known (snd x) c"
        and xs = "bs_settlements s"]
    by (simp add: totals_def initial_totals_def case_prod_unfold add_settlement_known)
qed

lemma totals_reserved:
  "tt_reserved (totals b s) c = (\<Sum>x\<leftarrow>bs_reservations s. reserved_tokens (snd x) c)"
proof -
  have turns: "(\<Sum>x\<leftarrow>rs. reserved_tokens (snd x) MODEL_TURNS) = int (length rs)" for rs :: "(string \<times> reservation) list"
    by (induction rs) (simp_all add: reserved_tokens_def)
  have "fold (\<lambda>(_, r). add_reservation r) (bs_reservations s) k c =
      k c + (\<Sum>x\<leftarrow>bs_reservations s. if c = MODEL_TURNS then 0 else reserved_tokens (snd x) c)" for k
    by (rule fold_sum [where g = "\<lambda>k. k c"]) (simp add: case_prod_unfold add_reservation_tokens)
  then show ?thesis
    using fold_same [where g = tt_reserved and f = "\<lambda>(_, e). add_settlement e" and xs = "bs_settlements s"]
    by (cases "c = MODEL_TURNS") (simp_all add: totals_def initial_totals_def no_counts_def case_prod_unfold add_settlement_reserved turns)
qed

lemma totals_liability:
  "tt_liability (totals b s) c =
     direct_liability b s c + (\<Sum>x\<leftarrow>bs_settlements s. settled_liability (snd x) c)"
  using fold_sum [where g = "\<lambda>t. tt_liability t c" and f = "\<lambda>(_, e). add_settlement e" and h = "\<lambda>x. settled_liability (snd x) c"
      and xs = "bs_settlements s"]
  by (simp add: totals_def initial_totals_def no_counts_def unreported_def direct_liability_def case_prod_unfold
      add_settlement_liability)

lemmas totals_sums = totals_known totals_reserved totals_liability

section \<open>The union of intervals\<close>

text \<open>What the remaining intervals add once the latest merged one ends at \<open>z\<close>.\<close>

fun added_seconds :: "rat \<Rightarrow> (rat \<times> rat) list \<Rightarrow> rat" where
  "added_seconds z [] = 0"
| "added_seconds z ((s, e) # xs) =
     (if s \<le> z then max z e - z + added_seconds (max z e) xs else (e - s) + added_seconds e xs)"

fun covered_seconds :: "(rat \<times> rat) list \<Rightarrow> rat" where
  "covered_seconds [] = 0"
| "covered_seconds ((s, e) # xs) = (e - s) + added_seconds e xs"

lemma merge_added:
  "(\<Sum>(a, z)\<leftarrow>fold merge_interval xs ((a, z) # acc). z - a) = (\<Sum>(a, z)\<leftarrow>(a, z) # acc. z - a) + added_seconds z xs"
proof (induction xs arbitrary: a z acc)
  case (Cons x xs)
  obtain s e where x: "x = (s, e)" by (cases x)
  have "merge_interval x ((a, z) # acc) = (if s \<le> z then (a, max z e) # acc else (s, e) # (a, z) # acc)"
    by (simp add: x merge_interval_def)
  then show ?case
    by (cases "s \<le> z") (simp_all add: x Cons.IH)
qed simp

lemma merge_covered: "(\<Sum>(a, z)\<leftarrow>fold merge_interval xs []. z - a) = covered_seconds xs"
proof (cases xs)
  case (Cons x ys)
  obtain s e where "x = (s, e)" by (cases x)
  then show ?thesis using merge_added [of ys s e "[]"] by (simp add: Cons merge_interval_def)
qed simp

lemma insort_map: "(\<And>y. g (h y) = f y) \<Longrightarrow> map h (insort_key f x xs) = insort_key g (h x) (map h xs)"
  by (induction xs) simp_all

lemma sort_map: "(\<And>y. g (h y) = f y) \<Longrightarrow> map h (sort_key f xs) = sort_key g (map h xs)"
  by (induction xs) (simp_all add: insort_map [where g = g])

lemma insort_last: "f y \<le> f x \<Longrightarrow> insort_key f y (zs @ [x]) = insort_key f y zs @ [x]"
  by (induction zs) simp_all

lemma sort_last: "(\<And>y. y \<in> set xs \<Longrightarrow> f y \<le> f x) \<Longrightarrow> sort_key f (xs @ [x]) = sort_key f xs @ [x]"
  by (induction xs) (simp_all add: insort_last)

lemma union_covered:
  "union_seconds t =
     covered_seconds (sort_key fst (map (\<lambda>x. interval_bounds (tm_last_observed_at t) (snd x)) (tm_owners t)))"
proof -
  have "map (interval_bounds l) (sort_key iv_started_at vs) = sort_key fst (map (interval_bounds l) vs)" for l vs
    by (rule sort_map) (simp add: interval_bounds_def)
  then show ?thesis by (simp add: union_seconds_def merge_covered comp_def)
qed

lemma added_end: "added_seconds z (xs @ [(n, n)]) = added_seconds z xs"
  by (induction z xs rule: added_seconds.induct) (auto simp: max_def)

lemma covered_end: "covered_seconds (xs @ [(n, n)]) = covered_seconds xs"
  by (cases xs rule: covered_seconds.cases) (simp_all add: added_end)

lemma added_nonneg: "(\<And>s e. (s, e) \<in> set xs \<Longrightarrow> s \<le> e) \<Longrightarrow> added_seconds z xs \<ge> 0"
proof (induction z xs rule: added_seconds.induct)
  case (2 z s e xs)
  have "s \<le> e" using "2.prems" [of s e] by simp
  moreover have "added_seconds (max z e) xs \<ge> 0" if "s \<le> z" using 2 that by simp
  moreover have "added_seconds e xs \<ge> 0" if "\<not> s \<le> z" using 2 that by simp
  ultimately show ?case by (auto simp: max_def)
qed simp

lemma covered_nonneg: "(\<And>s e. (s, e) \<in> set xs \<Longrightarrow> s \<le> e) \<Longrightarrow> covered_seconds xs \<ge> 0"
  using added_nonneg by (cases xs rule: covered_seconds.cases) (simp, fastforce simp: add_nonneg_nonneg)

text \<open>Once an interval reaches \<open>n\<close>, no interval that starts and ends by \<open>n\<close> adds anything.\<close>

lemma added_zero: "(\<And>s e. (s, e) \<in> set xs \<Longrightarrow> s \<le> n \<and> e \<le> n) \<Longrightarrow> added_seconds n xs = 0"
proof (induction xs)
  case (Cons x xs)
  obtain s e where x: "x = (s, e)" by (cases x)
  with Cons.prems [of s e] have "s \<le> n" "e \<le> n" by simp_all
  moreover have "added_seconds n xs = 0" by (rule Cons.IH) (use Cons.prems in auto)
  ultimately show ?case by (simp add: x max_absorb1)
qed simp

abbreviation is_open :: "owner_interval \<Rightarrow> bool" where
  "is_open v \<equiv> iv_stopped_at v = None"

lemma interval_bounds_simps:
  "is_open v \<Longrightarrow> interval_bounds n v = (iv_started_at v, n)"
  "iv_stopped_at v = Some e \<Longrightarrow> interval_bounds n v = (iv_started_at v, e)"
  by (simp_all add: interval_bounds_def)

definition ends_by :: "rat \<Rightarrow> owner_interval \<Rightarrow> bool" where
  "ends_by n v = (iv_started_at v \<le> n \<and> (case iv_stopped_at v of None \<Rightarrow> True | Some z \<Rightarrow> z \<le> n))"

lemma added_zero_bounds:
  assumes "list_all (ends_by n) vs" and "n \<le> n'"
  shows "added_seconds n' (map (interval_bounds n') vs) = 0"
proof (rule added_zero)
  fix s e
  assume "(s, e) \<in> set (map (interval_bounds n') vs)"
  then obtain v where "v \<in> set vs" "s = iv_started_at v" "e = (case iv_stopped_at v of Some z \<Rightarrow> z | None \<Rightarrow> n')"
    by (auto simp: interval_bounds_def)
  with assms show "s \<le> n' \<and> e \<le> n'" by (fastforce simp: list_all_iff ends_by_def split: option.splits)
qed

lemma added_grows:
  assumes "list_all (ends_by n) vs" and "n \<le> n'" and "z \<le> n"
  shows "added_seconds z (map (interval_bounds n') vs) =
    added_seconds z (map (interval_bounds n) vs) + (if list_ex is_open vs then n' - n else 0)"
  using assms(1,3)
proof (induction vs arbitrary: z)
  case (Cons v vs)
  then have v: "iv_started_at v \<le> n" and vs: "list_all (ends_by n) vs" by (simp add: ends_by_def, simp)
  show ?case
  proof (cases "iv_stopped_at v")
    case None
    have "added_seconds n (map (interval_bounds n) vs) = 0" "added_seconds n' (map (interval_bounds n') vs) = 0"
      using added_zero_bounds [OF vs] assms(2) by simp_all
    with None v Cons.prems(2) assms(2) show ?thesis by (simp add: interval_bounds_simps max_absorb2)
  next
    case (Some e)
    then have "e \<le> n" using Cons.prems(1) by (simp add: ends_by_def)
    with Some Cons.IH [OF vs, of "max z e"] Cons.IH [OF vs, of e] Cons.prems(2) show ?thesis
      by (simp add: interval_bounds_simps)
  qed
qed simp

lemma covered_grows:
  assumes "list_all (ends_by n) vs" and "n \<le> n'"
  shows "covered_seconds (map (interval_bounds n') vs) =
    covered_seconds (map (interval_bounds n) vs) + (if list_ex is_open vs then n' - n else 0)"
proof (cases vs)
  case (Cons v ws)
  with assms have ws: "list_all (ends_by n) ws" by simp
  show ?thesis
  proof (cases "iv_stopped_at v")
    case None
    with Cons added_zero_bounds [OF ws] assms(2) show ?thesis by (simp add: interval_bounds_simps)
  next
    case (Some e)
    with Cons assms have "e \<le> n" by (simp add: ends_by_def)
    with Some Cons added_grows [OF ws assms(2)] show ?thesis by (simp add: interval_bounds_simps)
  qed
qed simp

section \<open>Valid documents\<close>

text \<open>Everything \<open>_validate\<close> checks but the counters, which are recounted before it.\<close>

definition core :: "job_budget \<Rightarrow> budget_state \<Rightarrow> bool" where
  "core b s =
     ((b_schema s = BUDGET_SCHEMA \<or> b_schema s = BUDGET_SCHEMA_V1) \<and> b_limits s = jb_limits b \<and>
      (\<forall>l. b_team_packages s l \<ge> 0) \<and> b_started_at s \<ge> 0 \<and> validate_accounting s = Inr () \<and>
      validate_imports b s = Inr () \<and>
      list_all (\<lambda>(i, _). map_of (bs_settlements s) i = None) (bs_reservations s) \<and>
      validate_owners s = Inr () \<and> validate_reservations s = Inr () \<and>
      rall (validate_settlement (bs_ceased_owners s)) (bs_settlements s) = Inr () \<and> validate_timing b s = Inr ())"

text \<open>The dictionaries of the document have each key once.\<close>

definition dicts_ok :: "budget_state \<Rightarrow> bool" where
  "dicts_ok s =
     (dict_ok (bs_reservations s) \<and> dict_ok (bs_settlements s) \<and> dict_ok (bs_ceased_owners s) \<and>
      dict_ok (tm_owners (bs_timing s)))"

lemma totals_frame [simp]:
  "totals b (s\<lparr>b_counters := f\<rparr>) = totals b s"
  "totals b (s\<lparr>b_exhausted := x\<rparr>) = totals b s"
  "totals b (s\<lparr>b_team_packages := g\<rparr>) = totals b s"
  "totals b (s\<lparr>bs_timing := t\<rparr>) = totals b s"
  "totals b (s\<lparr>bs_ceased_owners := d\<rparr>) = totals b s"
  by (simp_all add: totals_def initial_totals_def)

lemma validate_interval_frame [simp]:
  "validate_interval (s\<lparr>b_counters := f\<rparr>) = validate_interval s"
  "validate_interval (s\<lparr>b_exhausted := x\<rparr>) = validate_interval s"
  "validate_interval (s\<lparr>b_team_packages := g\<rparr>) = validate_interval s"
  "validate_interval (s\<lparr>bs_direct_usage := f\<rparr>) = validate_interval s"
  "validate_interval (s\<lparr>bs_direct_unknown := f\<rparr>) = validate_interval s"
  "validate_interval (s\<lparr>bs_reservations := rs\<rparr>) = validate_interval s"
  "validate_interval (s\<lparr>bs_settlements := es\<rparr>) = validate_interval s"
  by (simp_all add: validate_interval_def fun_eq_iff)

lemma validate_frame [simp]:
  "validate_accounting (s\<lparr>b_counters := f\<rparr>) = validate_accounting s"
  "validate_imports b (s\<lparr>b_counters := f\<rparr>) = validate_imports b s"
  "validate_owners (s\<lparr>b_counters := f\<rparr>) = validate_owners s"
  "validate_reservations (s\<lparr>b_counters := f\<rparr>) = validate_reservations s"
  "validate_timing b (s\<lparr>b_counters := f\<rparr>) = validate_timing b s"
  "validate_accounting (s\<lparr>b_exhausted := x\<rparr>) = validate_accounting s"
  "validate_imports b (s\<lparr>b_exhausted := x\<rparr>) = validate_imports b s"
  "validate_owners (s\<lparr>b_exhausted := x\<rparr>) = validate_owners s"
  "validate_reservations (s\<lparr>b_exhausted := x\<rparr>) = validate_reservations s"
  "validate_timing b (s\<lparr>b_exhausted := x\<rparr>) = validate_timing b s"
  "validate_accounting (s\<lparr>b_team_packages := g\<rparr>) = validate_accounting s"
  "validate_imports b (s\<lparr>b_team_packages := g\<rparr>) = validate_imports b s"
  "validate_owners (s\<lparr>b_team_packages := g\<rparr>) = validate_owners s"
  "validate_reservations (s\<lparr>b_team_packages := g\<rparr>) = validate_reservations s"
  "validate_timing b (s\<lparr>b_team_packages := g\<rparr>) = validate_timing b s"
  by (simp_all add: validate_accounting_def validate_imports_def validate_owners_def validate_reservations_def
      validate_timing_def Let_def active_seconds_def cong: option.case_cong)

lemma core_frame [simp]:
  "core b (s\<lparr>b_counters := f\<rparr>) = core b s"
  "core b (s\<lparr>b_exhausted := x\<rparr>) = core b s"
  by (simp_all add: core_def)

lemma dicts_ok_frame [simp]:
  "dicts_ok (s\<lparr>b_counters := f\<rparr>) = dicts_ok s"
  "dicts_ok (s\<lparr>b_exhausted := x\<rparr>) = dicts_ok s"
  "dicts_ok (s\<lparr>b_team_packages := g\<rparr>) = dicts_ok s"
  by (simp_all add: dicts_ok_def)

lemma update_exhaustion_cases: "\<exists>x. update_exhaustion b now s = s\<lparr>b_exhausted := x\<rparr>"
proof -
  have "s = s\<lparr>b_exhausted := b_exhausted s\<rparr>" by simp
  then have "\<exists>x. s = s\<lparr>b_exhausted := x\<rparr>" by blast
  then show ?thesis unfolding update_exhaustion_def by (auto split: option.split prod.split)
qed

lemma lanes_iff: "set lane_members = UNIV"
  using lane_enum.complete by auto

lemma settlement_tokens_nonneg:
  assumes "validate_settlement ceased (i, e) = Inr ()" and "us_tokens (se_usage e) c = Some n"
  shows "n \<ge> 0"
proof (cases "c \<in> set TOKENS")
  case True
  with assms show ?thesis
    by (auto simp: validate_settlement_def Let_def rseq_Inr_iff list_all_iff token_count_def split: if_split_asm)
next
  case False
  with assms(2) show ?thesis by (cases c) (simp_all add: TOKENS_def)
qed

lemma settled_known_nonneg:
  "validate_settlement ceased (i, e) = Inr () \<Longrightarrow> settled_known e c \<ge> 0"
  by (auto simp: settled_known_def dest: settlement_tokens_nonneg split: option.split)

lemma imported_known_nonneg:
  assumes "validate_imports b s = Inr ()" and "x \<in> set (bs_legacy_imports s)"
  shows "imported_known (snd x) c \<ge> 0"
proof -
  from assms have "legacy_ledger b (li_ledger (snd x)) = Inr ()"
    by (simp add: validate_imports_def rseq_Inr_iff rall_Inr_iff case_prod_unfold)
  then have "counts (b_counters (li_ledger (snd x))) USAGE_COUNTERS"
    by (simp add: legacy_ledger_def validate_base_def rseq_Inr_iff)
  then show ?thesis by (simp add: imported_known_def counts_def list_all_iff)
qed

lemma core_known_nonneg:
  assumes "core b s"
  shows "tt_known (totals b s) c \<ge> 0"
proof -
  have "bs_direct_usage s c \<ge> 0"
    using assms by (cases c) (simp_all add: core_def validate_accounting_def counts_def KNOWN_def USAGE_COUNTERS_def)
  moreover have "(\<Sum>x\<leftarrow>bs_legacy_imports s. imported_known (snd x) c) \<ge> 0"
    using assms imported_known_nonneg by (intro sum_list_nonneg) (auto simp: core_def)
  moreover have "(\<Sum>x\<leftarrow>bs_settlements s. settled_known (snd x) c) \<ge> 0"
    using assms by (intro sum_list_nonneg) (auto simp: core_def rall_Inr_iff dest!: settled_known_nonneg)
  ultimately show ?thesis by (simp add: totals_known)
qed

lemma validate_iff:
  "validate b s = Inr () \<longleftrightarrow> core b s \<and> (\<forall>c\<in>set USAGE_COUNTERS. b_counters s c = tt_known (totals b s) c)"
  using core_known_nonneg [of b s]
  by (auto simp: validate_def core_def rseq_Inr_iff validate_base_def lanes_iff counts_def list_all_iff)

definition finish :: "job_budget \<Rightarrow> rat \<Rightarrow> budget_state \<Rightarrow> budget_state" where
  "finish b now s = update_exhaustion b now (recount b s)"

lemma finish_cases: "\<exists>f x. finish b now s = s\<lparr>b_counters := f, b_exhausted := x\<rparr> \<and>
    (\<forall>c\<in>set USAGE_COUNTERS. f c = tt_known (totals b s) c)"
proof -
  obtain x where "finish b now s = (recount b s)\<lparr>b_exhausted := x\<rparr>"
    using update_exhaustion_cases [of b now "recount b s"] by (auto simp: finish_def)
  then show ?thesis by (auto simp: recount_def set_counters_def USAGE_COUNTERS_def)
qed

lemma finish_valid: "validate b (finish b now s) = Inr () \<longleftrightarrow> core b s"
proof -
  obtain f x where "finish b now s = s\<lparr>b_counters := f, b_exhausted := x\<rparr>"
    "\<forall>c\<in>set USAGE_COUNTERS. f c = tt_known (totals b s) c" using finish_cases by blast
  then show ?thesis by (simp add: validate_iff)
qed

section \<open>Time passes\<close>

lemma is_close_shift:
  assumes "is_close a b" and "a \<ge> 0" "b \<ge> 0" "d \<ge> 0"
  shows "is_close (a + d) (b + d)"
proof -
  have "\<bar>a - b\<bar> \<le> max (max a b / 1000000000) (1 / 1000000)" using assms by (simp add: is_close_def)
  also have "\<dots> \<le> max (max (a + d) (b + d) / 1000000000) (1 / 1000000)"
    using assms(4) by (intro max.mono divide_right_mono) auto
  finally show ?thesis using assms by (simp add: is_close_def)
qed

definition wait :: "rat \<Rightarrow> timing \<Rightarrow> timing" where
  "wait now t = t\<lparr>tm_last_observed_at := now\<rparr>"

lemma wait_simps [simp]:
  "tm_mode (wait now t) = tm_mode t" "tm_active_seconds (wait now t) = tm_active_seconds t"
  "tm_active_since (wait now t) = tm_active_since t" "tm_owners (wait now t) = tm_owners t"
  "tm_last_observed_at (wait now t) = now" "open_starts (wait now t) = open_starts t"
  by (simp_all add: wait_def open_starts_def)

lemma sort_bounds:
  "sort_key fst (map (\<lambda>x. interval_bounds n (snd x)) owners) = map (interval_bounds n) (sort_key iv_started_at (map snd owners))"
  using sort_map [where h = "interval_bounds n" and g = fst and f = iv_started_at and xs = "map snd owners"]
  by (simp add: interval_bounds_def comp_def)

lemma union_wait:
  assumes "\<forall>x\<in>set (tm_owners t). ends_by (tm_last_observed_at t) (snd x)" and "tm_last_observed_at t \<le> now"
  shows "union_seconds (wait now t) =
    union_seconds t + (if open_starts t \<noteq> [] then now - tm_last_observed_at t else 0)"
proof -
  let ?vs = "sort_key iv_started_at (map snd (tm_owners t))"
  have "list_all (ends_by (tm_last_observed_at t)) ?vs" using assms(1) by (auto simp: list_all_iff)
  moreover have "list_ex is_open ?vs \<longleftrightarrow> open_starts t \<noteq> []"
    by (force simp: open_starts_def list_ex_iff filter_empty_conv)
  ultimately show ?thesis
    using covered_grows [of "tm_last_observed_at t" ?vs now] assms(2)
    by (simp add: union_covered sort_bounds)
qed

lemma validate_interval_iff:
  "validate_interval s (own, v) = Inr () \<longleftrightarrow>
     evidence_identity own ''owner_id'' = Inr () \<and> iv_started_at v \<ge> 0 \<and> iv_started_at v \<ge> b_started_at s \<and>
     iv_started_at v \<le> tm_last_observed_at (bs_timing s) \<and> tm_last_observed_at (bs_timing s) \<ge> 0 \<and>
     (is_open v \<longleftrightarrow> map_of (bs_ceased_owners s) own = None) \<and>
     (\<forall>z. iv_stopped_at v = Some z \<longrightarrow> z \<ge> iv_started_at v \<and> z \<le> tm_last_observed_at (bs_timing s))"
  by (cases "iv_stopped_at v") (auto simp: validate_interval_def Let_def rseq_Inr_iff)

lemma validate_timing_facts:
  assumes "validate_timing b s = Inr ()" and "t = bs_timing s"
  shows "\<forall>x\<in>set (tm_owners t). ends_by (tm_last_observed_at t) (snd x) \<and> fst (interval_bounds n (snd x)) \<le> tm_last_observed_at t"
    and "(open_starts t \<noteq> []) = (tm_active_since t \<noteq> None)"
    and "tm_active_since t = Some x \<Longrightarrow> x \<le> tm_last_observed_at t"
    and "union_seconds t \<ge> 0" and "active_seconds s (tm_last_observed_at t) \<ge> 0"
    and "is_close (union_seconds t) (active_seconds s (tm_last_observed_at t))"
proof -
  note V = assms(1) [unfolded validate_timing_def Let_def rseq_Inr_iff]
  have iv: "\<forall>e\<in>set (tm_owners t). validate_interval s e = Inr ()" using V assms(2) by (simp add: rall_Inr_iff)
  show ends: "\<forall>x\<in>set (tm_owners t). ends_by (tm_last_observed_at t) (snd x) \<and> fst (interval_bounds n (snd x)) \<le> tm_last_observed_at t"
    using iv assms(2) by (auto simp: validate_interval_iff ends_by_def interval_bounds_def split: option.split)
  show opened: "(open_starts t \<noteq> []) = (tm_active_since t \<noteq> None)" using V assms(2) by simp
  show since: "x \<le> tm_last_observed_at t" if x: "tm_active_since t = Some x" for x
  proof -
    from x opened have ne: "set (open_starts t) \<noteq> {}" by simp
    with V x assms(2) have "x \<le> Min (set (open_starts t))" by auto
    also from ne obtain a where "a \<in> set (open_starts t)" by (metis ex_in_conv)
    then have "Min (set (open_starts t)) \<le> a" "a \<le> tm_last_observed_at t"
      using ends by (auto simp: open_starts_def ends_by_def)
    finally (order.trans [OF _ order.trans]) show ?thesis by simp
  qed
  show "union_seconds t \<ge> 0"
    unfolding union_covered
  proof (rule covered_nonneg)
    fix a e
    assume "(a, e) \<in> set (sort_key fst (map (\<lambda>x. interval_bounds (tm_last_observed_at t) (snd x)) (tm_owners t)))"
    then obtain x where x: "x \<in> set (tm_owners t)" "(a, e) = interval_bounds (tm_last_observed_at t) (snd x)" by auto
    obtain own v where "x = (own, v)" by (cases x)
    with x iv assms(2) have "validate_interval s (own, v) = Inr ()" "(a, e) = interval_bounds (tm_last_observed_at t) v"
      by auto
    with assms(2) show "a \<le> e"
      by (auto simp: validate_interval_iff interval_bounds_def split: option.split_asm)
  qed
  show "active_seconds s (tm_last_observed_at t) \<ge> 0"
    using V assms(2) since by (auto simp: active_seconds_def split: option.split)
  show "is_close (union_seconds t) (active_seconds s (tm_last_observed_at t))" using V assms(2) by simp
qed

lemma core_wait:
  assumes "core b s" and "tm_last_observed_at (bs_timing s) \<le> now"
  shows "core b (s\<lparr>bs_timing := wait now (bs_timing s)\<rparr>)"
proof -
  let ?t = "bs_timing s" and ?s = "s\<lparr>bs_timing := wait now (bs_timing s)\<rparr>"
  have V: "validate_timing b s = Inr ()" using assms(1) by (simp add: core_def)
  note F = validate_timing_facts [OF V refl]
  have up: "0 \<le> now" using V assms(2) by (auto simp: validate_timing_def Let_def rseq_Inr_iff)
  let ?d = "if open_starts ?t \<noteq> [] then now - tm_last_observed_at ?t else 0"
  have union: "union_seconds (wait now ?t) = union_seconds ?t + ?d"
    by (rule union_wait) (use F(1) assms(2) in auto)
  have active: "active_seconds ?s now = active_seconds s (tm_last_observed_at ?t) + ?d"
    using F(2) by (auto simp: active_seconds_def split: option.split)
  have close: "is_close (union_seconds (wait now ?t)) (active_seconds ?s now)"
    unfolding union active by (rule is_close_shift) (use F(4,5,6) assms(2) in auto)
  have iv: "validate_interval ?s e = Inr ()" if "validate_interval s e = Inr ()" for e
    using that assms(2) up by (cases e) (fastforce simp: validate_interval_iff)
  have "validate_timing b ?s = Inr ()"
    using V close iv assms(2) up
    by (auto simp: validate_timing_def Let_def rseq_Inr_iff rall_Inr_iff cong: option.case_cong)
  with assms(1) show ?thesis
    by (simp add: core_def validate_accounting_def validate_imports_def validate_owners_def validate_reservations_def)
qed

lemma observe_cases: "\<exists>x. observe b now s = s\<lparr>bs_timing := wait now (bs_timing s), b_exhausted := x\<rparr>"
  using update_exhaustion_cases by (simp add: observe_def wait_def)

text \<open>The state a mutation starts from: valid, and just observed.\<close>

definition ready :: "job_budget \<Rightarrow> rat \<Rightarrow> budget_state \<Rightarrow> bool" where
  "ready b now s = (core b s \<and> dicts_ok s \<and> tm_last_observed_at (bs_timing s) = now)"

lemma observe_ready:
  assumes "validate b s = Inr ()" and "dicts_ok s" and "tm_last_observed_at (bs_timing s) \<le> now"
  shows "ready b now (observe b now s)"
proof -
  obtain x where "observe b now s = s\<lparr>bs_timing := wait now (bs_timing s), b_exhausted := x\<rparr>"
    using observe_cases by blast
  with core_wait [of b s now] assms show ?thesis by (simp add: ready_def validate_iff dicts_ok_def)
qed

text \<open>A transaction on a valid document is its mutation, unless that raises.\<close>

lemma transact_ready:
  assumes "validate b s = Inr ()" and "dicts_ok s" and "tm_last_observed_at (bs_timing s) \<le> now"
    and "import_attempts b sources now False s = Inr s"
    and "\<And>r s'. mutate (observe b now s) = Inr (r, s') \<Longrightarrow> core b s'"
  shows "transact b sources now (Some (Accounted s)) mutate =
    rbind (mutate (observe b now s)) (\<lambda>(r, s'). Inr (r, finish b now s'))"
proof -
  have "now \<ge> 0" using assms(1,3) by (auto simp: validate_iff core_def validate_timing_def Let_def rseq_Inr_iff)
  moreover have "load_state b now (Some (Accounted s)) = Inr s"
    using assms(1) by (simp add: load_state_def validate_def rseq_Inr_iff)
  ultimately have "transact b sources now (Some (Accounted s)) mutate =
    rbind (mutate (observe b now s)) (\<lambda>(r, s'). rbind (validate b (finish b now s')) (\<lambda>_. Inr (r, finish b now s')))"
    using assms(1,3,4) by (simp add: transact_def store_def finish_def)
  moreover have "validate b (finish b now s') = Inr ()" if "mutate (observe b now s) = Inr (r, s')" for r s'
    using assms(5) [OF that] by (simp add: finish_valid)
  ultimately show ?thesis by (cases "mutate (observe b now s)") auto
qed

section \<open>Mutations keep the document valid\<close>

lemma reserve_core: "core b s \<Longrightarrow> core b (s\<lparr>b_team_packages := (b_team_packages s)(l := b_team_packages s l + 1)\<rparr>)"
  by (simp add: core_def)

lemma direct_frame:
  "validate_imports b (s\<lparr>bs_direct_usage := f, bs_direct_unknown := g\<rparr>) = validate_imports b s"
  "validate_owners (s\<lparr>bs_direct_usage := f, bs_direct_unknown := g\<rparr>) = validate_owners s"
  "validate_reservations (s\<lparr>bs_direct_usage := f, bs_direct_unknown := g\<rparr>) = validate_reservations s"
  "validate_timing b (s\<lparr>bs_direct_usage := f, bs_direct_unknown := g\<rparr>) = validate_timing b s"
  by (simp_all add: validate_imports_def validate_owners_def validate_reservations_def validate_timing_def Let_def
      active_seconds_def cong: option.case_cong)

lemma charge_cases:
  assumes "turns \<ge> 0" "queries \<ge> 0" "\<forall>n. inp = Some n \<longrightarrow> n \<ge> 0" "\<forall>n. out = Some n \<longrightarrow> n \<ge> 0"
    and "charge_mutate turns inp out queries s = Inr (u, s')"
  obtains f g where "s' = s\<lparr>bs_direct_usage := f, bs_direct_unknown := g\<rparr>"
    and "\<And>c. f c \<ge> bs_direct_usage s c" "\<And>c. g c \<ge> bs_direct_unknown s c"
proof -
  from assms(5) have "s' = s\<lparr>bs_direct_usage := bs_direct_usage s', bs_direct_unknown := bs_direct_unknown s'\<rparr>"
    by (auto simp: charge_mutate_def Let_def)
  moreover have "bs_direct_usage s' c \<ge> bs_direct_usage s c" "bs_direct_unknown s' c \<ge> bs_direct_unknown s c" for c
    using assms by (auto simp: charge_mutate_def Let_def split: counter.split option.split)
  ultimately show ?thesis by (rule that)
qed

lemma charge_core:
  assumes "core b s" and "turns \<ge> 0" "queries \<ge> 0" "\<forall>n. inp = Some n \<longrightarrow> n \<ge> 0" "\<forall>n. out = Some n \<longrightarrow> n \<ge> 0"
    and "charge_mutate turns inp out queries s = Inr (u, s')"
  shows "core b s'"
proof -
  from assms(2-) obtain f g where s': "s' = s\<lparr>bs_direct_usage := f, bs_direct_unknown := g\<rparr>"
    and ge: "\<And>c. f c \<ge> bs_direct_usage s c" "\<And>c. g c \<ge> bs_direct_unknown s c" by (rule charge_cases) blast
  have "validate_accounting s' = Inr ()"
    using assms(1) order.trans [OF _ ge(1)] order.trans [OF _ ge(2)]
    by (simp add: core_def validate_accounting_def counts_def list_all_iff s')
  with assms(1) show ?thesis by (simp add: core_def s' direct_frame)
qed

text \<open>Reservations and settlements: what each new entry has to satisfy.\<close>

lemma core_reservations:
  assumes "core b s" and "dict_ok rs" and "\<And>i r. (i, r) \<in> set rs \<Longrightarrow> map_of es i = None"
    and "\<And>i r. (i, r) \<in> set rs \<Longrightarrow> (i, r) \<in> set (bs_reservations s) \<or>
      evidence_identity i ''reservation_id'' = Inr () \<and> validate_reservation r = Inr () \<and>
      map_of (bs_ceased_owners s) (rv_owner_id r) = None \<and>
      (tm_mode (bs_timing s) = ACTIVE_V2 \<longrightarrow> map_of (tm_owners (bs_timing s)) (rv_owner_id r) \<noteq> None)"
    and "\<And>x. x \<in> set es \<Longrightarrow> x \<in> set (bs_settlements s) \<or> validate_settlement (bs_ceased_owners s) x = Inr ()"
  shows "core b (s\<lparr>bs_reservations := rs, bs_settlements := es\<rparr>)"
proof -
  let ?s = "s\<lparr>bs_reservations := rs, bs_settlements := es\<rparr>"
  have R: "validate_reservations s = Inr ()" and E: "rall (validate_settlement (bs_ceased_owners s)) (bs_settlements s) = Inr ()"
    and T: "validate_timing b s = Inr ()" using assms(1) by (simp_all add: core_def)
  have "validate_reservations ?s = Inr ()"
    using R assms(4) by (fastforce simp: validate_reservations_def rall_Inr_iff rseq_Inr_iff)
  moreover have "rall (validate_settlement (bs_ceased_owners s)) es = Inr ()"
    using E assms(5) by (auto simp: rall_Inr_iff)
  moreover have "validate_timing b ?s = Inr ()"
    using T assms(4)
    by (fastforce simp: validate_timing_def Let_def rseq_Inr_iff active_seconds_def list_all_iff cong: option.case_cong)
  ultimately show ?thesis
    using assms(1,3)
    by (auto simp: core_def validate_accounting_def validate_imports_def validate_owners_def list_all_iff)
qed

lemma reserve_call_core:
  assumes "core b s" and "dicts_ok s" and "evidence_identity own ''owner_id'' = Inr ()"
    and "evidence_identity identifier ''reservation_id'' = Inr ()" and "inp \<ge> 0" "out \<ge> 0"
    and "reserve_call_mutate b now identifier own inp out replay s = Inr (r, s')"
  shows "core b s'"
proof (cases r)
  case None
  with assms(1,7) show ?thesis by (auto simp: reserve_call_mutate_def rbind_Inr_iff split: if_split_asm)
next
  case (Some j)
  let ?r = "\<lparr>rv_owner_id = own, rv_input_tokens = inp, rv_output_tokens = out, rv_replay = replay\<rparr>"
  from Some assms(7) have fresh: "map_of (bs_ceased_owners s) own = None" "map_of (bs_settlements s) identifier = None"
    "tm_mode (bs_timing s) = ACTIVE_V2 \<longrightarrow> map_of (tm_owners (bs_timing s)) own \<noteq> None"
    and s': "s' = s\<lparr>bs_reservations := AList.update identifier ?r (bs_reservations s)\<rparr>"
    by (auto simp: reserve_call_mutate_def rbind_Inr_iff split: if_split_asm)
  have r: "validate_reservation ?r = Inr ()" using assms(3,5,6) by (simp add: validate_reservation_def rseq_Inr_iff)
  have old: "map_of (bs_settlements s) i = None" if "(i, q) \<in> set (bs_reservations s)" for i q
    using assms(1) that by (auto simp: core_def list_all_iff)
  have mem: "i = identifier \<and> q = ?r \<or> (i, q) \<in> set (bs_reservations s)"
    if "(i, q) \<in> set (AList.update identifier ?r (bs_reservations s))" for i q
    using subsetD [OF set_update_subset that] by simp
  have "core b (s\<lparr>bs_reservations := AList.update identifier ?r (bs_reservations s), bs_settlements := bs_settlements s\<rparr>)"
  proof (rule core_reservations [OF assms(1)])
    show "dict_ok (AList.update identifier ?r (bs_reservations s))" using assms(2) by (simp add: dicts_ok_def)
    fix i q
    assume "(i, q) \<in> set (AList.update identifier ?r (bs_reservations s))"
    from mem [OF this] show "map_of (bs_settlements s) i = None" using old fresh(2) by blast
    from mem [OF \<open>(i, q) \<in> _\<close>] show "(i, q) \<in> set (bs_reservations s) \<or>
        evidence_identity i ''reservation_id'' = Inr () \<and> validate_reservation q = Inr () \<and>
        map_of (bs_ceased_owners s) (rv_owner_id q) = None \<and>
        (tm_mode (bs_timing s) = ACTIVE_V2 \<longrightarrow> map_of (tm_owners (bs_timing s)) (rv_owner_id q) \<noteq> None)"
      using fresh(1,3) r assms(4) by auto
  qed simp
  then show ?thesis by (simp add: s')
qed

lemma reported_usage_facts:
  assumes "reported_usage report replay dispatched = Inr u"
  shows "us_tokens u c = Some n \<Longrightarrow> n \<ge> 0" and "replay \<Longrightarrow> us_source u = REPLAY"
    and "\<not> dispatched \<Longrightarrow> us_tokens u c = None"
proof -
  let ?raw = "given_usage report replay dispatched"
  have u: "us_source u = us_source ?raw" "replay \<longrightarrow> us_source ?raw = REPLAY" "dispatched \<or> Option.is_none report"
    "us_input_tokens u = normalized (us_input_tokens ?raw)" "us_output_tokens u = normalized (us_output_tokens ?raw)"
    "us_cache_tokens u = normalized (us_cache_tokens ?raw)"
    using assms by (auto simp: reported_usage_def Let_def rbind_Inr_iff)
  show "us_tokens u c = Some n \<Longrightarrow> n \<ge> 0" and "replay \<Longrightarrow> us_source u = REPLAY"
    using u by (cases c; auto simp: normalized_def token_count_def split: option.split_asm if_split_asm)+
  show "us_tokens u c = None" if "\<not> dispatched"
    using u that by (cases c; cases report) (simp_all add: given_usage_def normalized_def)
qed

lemma validate_settlement_new:
  assumes "validate_reservation r = Inr ()" and "evidence_identity i ''reservation_id'' = Inr ()"
    and "reported_usage report (rv_replay r) dispatched = Inr u"
    and "\<And>ev. cess = Some ev \<Longrightarrow> evidence_identity ev ''cessation_evidence'' = Inr () \<and>
      map_of ceased (rv_owner_id r) = Some \<lparr>oc_evidence = ev, oc_dispatched = Some dispatched\<rparr>"
  shows "validate_settlement ceased (i, \<lparr>se_reservation = r, se_usage = u, se_dispatched = dispatched,
    se_cessation_evidence = cess\<rparr>) = Inr ()"
  using assms reported_usage_facts [OF assms(3)]
  by (auto simp: validate_settlement_def Let_def rseq_Inr_iff list_all_iff token_count_def split: option.split)

lemma settle_core:
  assumes "core b s" and "dicts_ok s" and "settle_mutate i report dispatched s = Inr (u, s')"
  shows "core b s'"
proof (cases "map_of (bs_settlements s) i")
  case (Some e)
  with assms show ?thesis by (auto simp: settle_mutate_def rbind_Inr_iff)
next
  case None
  with assms(3) obtain r v where r: "map_of (bs_reservations s) i = Some r"
    and v: "reported_usage report (rv_replay r) dispatched = Inr v"
    and s': "s' = s\<lparr>bs_reservations := AList.delete i (bs_reservations s), bs_settlements := AList.update i
      \<lparr>se_reservation = r, se_usage = v, se_dispatched = dispatched, se_cessation_evidence = None\<rparr> (bs_settlements s)\<rparr>"
    by (auto simp: settle_mutate_def rbind_Inr_iff split: option.split_asm)
  let ?e = "\<lparr>se_reservation = r, se_usage = v, se_dispatched = dispatched, se_cessation_evidence = None\<rparr>"
  have old: "map_of (bs_settlements s) j = None \<and> validate_reservation q = Inr () \<and>
      evidence_identity j ''reservation_id'' = Inr ()" if "(j, q) \<in> set (bs_reservations s)" for j q
    using assms(1) that by (fastforce simp: core_def list_all_iff validate_reservations_def rall_Inr_iff rseq_Inr_iff)
  have new: "validate_settlement (bs_ceased_owners s) (i, ?e) = Inr ()"
    using old [OF map_of_SomeD [OF r]] by (intro validate_settlement_new [OF _ _ v]) auto
  have "map_of (AList.update i ?e (bs_settlements s)) j = None"
    if "(j, q) \<in> set (AList.delete i (bs_reservations s))" for j q
    using that old [of j q] by (auto simp: set_delete AList.update_conv')
  then show ?thesis
    unfolding s' using set_update_subset [of i ?e "bs_settlements s"] new assms(2)
    by (intro core_reservations [OF assms(1)]) (auto simp: dicts_ok_def set_delete)
qed

lemma validate_timing_iff:
  "validate_timing b s = Inr () \<longleftrightarrow>
     (let t = bs_timing s
      in tm_active_seconds t \<ge> 0 \<and> tm_last_observed_at t \<ge> 0 \<and> tm_last_observed_at t \<ge> b_started_at s \<and>
         (\<forall>m. jb_timing_mode b = Some m \<longrightarrow> tm_mode t = m) \<and>
         (b_schema s = BUDGET_SCHEMA_V1 \<longrightarrow> tm_mode t = WALL_CLOCK_V1 \<and> \<not> bs_historical_usage_complete s) \<and>
         (\<forall>e\<in>set (tm_owners t). validate_interval s e = Inr ()) \<and>
         (open_starts t \<noteq> []) = (tm_active_since t \<noteq> None) \<and>
         (\<forall>x. tm_active_since t = Some x \<longrightarrow> 0 \<le> x \<and> b_started_at s \<le> x \<and> x \<le> Min (set (open_starts t))) \<and>
         (tm_mode t = WALL_CLOCK_V1 \<longrightarrow> tm_owners t = [] \<and> tm_active_seconds t = 0) \<and>
         is_close (union_seconds t) (active_seconds s (tm_last_observed_at t)) \<and>
         (tm_mode t = ACTIVE_V2 \<longrightarrow>
            (\<forall>x\<in>set (bs_reservations s). map_of (tm_owners t) (rv_owner_id (snd x)) \<noteq> None)))"
proof -
  have "open_starts t = []" if "tm_owners t = []" for t using that by (simp add: open_starts_def)
  then show ?thesis
    unfolding validate_timing_def Let_def rseq_Inr_iff
    by (cases "tm_active_since (bs_timing s)"; cases "jb_timing_mode b")
      (auto simp: rall_Inr_iff list_all_iff case_prod_unfold simp del: Min_ge_iff)
qed

lemma core_timing:
  "core b s \<Longrightarrow> validate_timing b (s\<lparr>bs_timing := t'\<rparr>) = Inr () \<Longrightarrow> tm_mode t' = tm_mode (bs_timing s) \<Longrightarrow>
   core b (s\<lparr>bs_timing := t'\<rparr>)"
  by (simp add: core_def validate_accounting_def validate_imports_def validate_owners_def validate_reservations_def)

lemma timing_intervals:
  "validate_timing b s = Inr () \<Longrightarrow> e \<in> set (tm_owners (bs_timing s)) \<Longrightarrow> validate_interval s e = Inr ()"
  by (simp add: validate_timing_def Let_def rseq_Inr_iff rall_Inr_iff)

definition resumed_timing :: "string \<Rightarrow> rat \<Rightarrow> timing \<Rightarrow> timing" where
  "resumed_timing own now t =
     t\<lparr>tm_active_since := (case tm_active_since t of None \<Rightarrow> Some now | Some x \<Rightarrow> Some x),
       tm_owners := tm_owners t @ [(own, \<lparr>iv_started_at = now, iv_stopped_at = None\<rparr>)]\<rparr>"

lemma resume_cases:
  assumes "resume_mutate now own s = Inr (u, s')"
  obtains "s' = s" | "map_of (tm_owners (bs_timing s)) own = None" "tm_mode (bs_timing s) = ACTIVE_V2"
    "map_of (bs_ceased_owners s) own = None" "s' = s\<lparr>bs_timing := resumed_timing own now (bs_timing s)\<rparr>"
proof (cases "map_of (tm_owners (bs_timing s)) own")
  case None
  then show ?thesis
    using assms by (intro that(2)) (auto simp: resume_mutate_def Let_def rbind_Inr_iff update_new resumed_timing_def)
next
  case (Some v)
  then show ?thesis using assms by (intro that(1)) (auto simp: resume_mutate_def Let_def rbind_Inr_iff)
qed

text \<open>A new owner starts now, so it adds no time yet.\<close>

lemma resumed_timing_keeps:
  assumes "validate_timing b s = Inr ()" and "tm_last_observed_at (bs_timing s) = now"
    and "t' = resumed_timing own now (bs_timing s)"
  shows "union_seconds t' = union_seconds (bs_timing s)"
    and "active_seconds (s\<lparr>bs_timing := t'\<rparr>) now = active_seconds s now"
    and "open_starts t' = open_starts (bs_timing s) @ [now]" and "tm_mode t' = tm_mode (bs_timing s)"
    and "tm_last_observed_at t' = now"
proof -
  let ?t = "bs_timing s"
  note F = validate_timing_facts [OF assms(1) refl, unfolded assms(2)]
  have "sort_key fst (map (\<lambda>x. interval_bounds now (snd x)) (tm_owners ?t) @ [(now, now)]) =
      sort_key fst (map (\<lambda>x. interval_bounds now (snd x)) (tm_owners ?t)) @ [(now, now)]"
    using F(1) [of now] by (intro sort_last) auto
  then show "union_seconds t' = union_seconds ?t"
    using assms(2) by (simp add: union_covered assms(3) resumed_timing_def interval_bounds_simps covered_end)
  show "active_seconds (s\<lparr>bs_timing := t'\<rparr>) now = active_seconds s now"
    by (auto simp: active_seconds_def assms(3) resumed_timing_def split: option.split)
  show "open_starts t' = open_starts ?t @ [now]" by (simp add: open_starts_def assms(3) resumed_timing_def)
  show "tm_mode t' = tm_mode ?t" by (simp add: assms(3) resumed_timing_def)
  show "tm_last_observed_at t' = now" by (simp add: assms(2,3) resumed_timing_def)
qed

lemma resume_core:
  assumes "ready b now s" and "evidence_identity own ''owner_id'' = Inr ()" and "resume_mutate now own s = Inr (u, s')"
  shows "core b s'"
  using assms(3)
proof (cases rule: resume_cases)
  case 1
  with assms(1) show ?thesis by (simp add: ready_def)
next
  case 2
  let ?t = "bs_timing s" and ?v = "\<lparr>iv_started_at = now, iv_stopped_at = None\<rparr>"
  define t' where "t' = resumed_timing own now ?t"
  have s': "s' = s\<lparr>bs_timing := t'\<rparr>" by (simp add: 2 t'_def)
  have core: "core b s" and last: "tm_last_observed_at ?t = now" using assms(1) by (simp_all add: ready_def)
  then have V: "validate_timing b s = Inr ()" by (simp add: core_def)
  note F = validate_timing_facts [OF V refl, unfolded last]
  note K = resumed_timing_keeps [OF V last t'_def]
  note W = V [unfolded validate_timing_iff Let_def last]
  have start: "b_started_at s \<le> now" "0 \<le> now" using W by auto
  have iv: "validate_interval s' e = Inr ()" if e: "e \<in> set (tm_owners t')" for e
  proof (cases "e = (own, ?v)")
    case True
    then show ?thesis using assms(2) 2(3) K(5) start by (simp add: validate_interval_iff s')
  next
    case False
    with e have "e \<in> set (tm_owners ?t)" by (simp add: t'_def resumed_timing_def)
    with timing_intervals [OF V] show ?thesis
      using K(5) last by (cases e) (auto simp: validate_interval_iff s')
  qed
  have since: "0 \<le> x \<and> b_started_at s \<le> x \<and> x \<le> Min (set (open_starts t'))" if x: "tm_active_since t' = Some x" for x
  proof (cases "tm_active_since ?t")
    case None
    then have "open_starts ?t = []" "x = now" using F(2) x by (simp_all add: t'_def resumed_timing_def)
    then show ?thesis using start by (simp add: K(3))
  next
    case (Some y)
    then have "x = y" "open_starts ?t \<noteq> []" using F(2) x by (simp_all add: t'_def resumed_timing_def)
    then show ?thesis using W F(3) [OF Some] Some by (simp add: K(3))
  qed
  have reserved: "map_of (tm_owners t') (rv_owner_id (snd x)) \<noteq> None" if "x \<in> set (bs_reservations s)" for x
    using W that 2(2) by (auto simp: t'_def resumed_timing_def)
  have frame: "bs_timing s' = t'" "b_started_at s' = b_started_at s" "b_schema s' = b_schema s"
    "bs_reservations s' = bs_reservations s" "bs_historical_usage_complete s' = bs_historical_usage_complete s"
    "tm_active_seconds t' = tm_active_seconds ?t" "tm_active_since t' \<noteq> None"
    by (simp_all add: s' t'_def resumed_timing_def split: option.split)
  have "validate_timing b s' = Inr ()"
    unfolding validate_timing_iff Let_def frame(1-6) K(1,2,4,5) s' [symmetric]
    using W iv since reserved 2(2) frame(7) K(2) by (simp add: K(3) s')
  with core_timing [OF core, of t'] show ?thesis by (simp add: s' K(4))
qed

text \<open>Closing an owner's interval, as its owner ceases.\<close>

lemma update_mem:
  "dict_ok d \<Longrightarrow> (k', w) \<in> set (AList.update k v d) \<longleftrightarrow> (if k' = k then w = v else (k', w) \<in> set d)"
  using map_of_eq_Some_iff [of "AList.update k v d" k' w] map_of_eq_Some_iff [of d k' w]
  by (auto simp: AList.update_conv')

lemma update_bounds:
  assumes "dict_ok d" and "map_of d k = Some v" and "f w = f v"
  shows "map (\<lambda>x. f (snd x)) (AList.update k w d) = map (\<lambda>x. f (snd x)) d"
  using assms by (induction d) (auto split: if_split_asm)

definition ceasing :: "string \<Rightarrow> owner_closure \<Rightarrow> (string, reservation) dict \<Rightarrow> (string, settlement) dict \<Rightarrow> budget_state \<Rightarrow> budget_state" where
  "ceasing own c rs es s =
     s\<lparr>bs_ceased_owners := AList.update own c (bs_ceased_owners s), bs_reservations := rs, bs_settlements := es\<rparr>"

definition closed_timing :: "string \<Rightarrow> rat \<Rightarrow> timing \<Rightarrow> timing" where
  "closed_timing own now t =
     (case map_of (tm_owners t) own of
        None \<Rightarrow> t
      | Some v \<Rightarrow>
          if iv_stopped_at v \<noteq> None then t
          else let t = t\<lparr>tm_owners := AList.update own (v\<lparr>iv_stopped_at := Some now\<rparr>) (tm_owners t)\<rparr>
               in if open_starts t \<noteq> [] then t
                  else t\<lparr>tm_active_seconds := tm_active_seconds t + (case tm_active_since t of None \<Rightarrow> 0 | Some x \<Rightarrow> now - x),
                         tm_active_since := None\<rparr>)"

lemma close_execution_timing: "close_execution own now s = s\<lparr>bs_timing := closed_timing own now (bs_timing s)\<rparr>"
  by (simp add: close_execution_def closed_timing_def Let_def split: option.split)

lemma open_starts_mem: "a \<in> set (open_starts t) \<longleftrightarrow> (\<exists>k v. (k, v) \<in> set (tm_owners t) \<and> is_open v \<and> iv_started_at v = a)"
  by (force simp: open_starts_def)

lemma closed_timing_keeps:
  assumes "validate_timing b s = Inr ()" and "tm_last_observed_at (bs_timing s) = now"
    and "dict_ok (tm_owners (bs_timing s))" and "t' = closed_timing own now (bs_timing s)"
  shows "tm_mode t' = tm_mode (bs_timing s)" and "tm_last_observed_at t' = now"
    and "union_seconds t' = union_seconds (bs_timing s)"
    and "active_seconds (s\<lparr>bs_timing := t'\<rparr>) now = active_seconds s now"
    and "(open_starts t' \<noteq> []) = (tm_active_since t' \<noteq> None)"
    and "tm_active_since t' = Some x \<Longrightarrow> tm_active_since (bs_timing s) = Some x \<and> x \<le> Min (set (open_starts t'))"
    and "tm_active_seconds t' \<ge> tm_active_seconds (bs_timing s)"
    and "tm_owners (bs_timing s) = [] \<Longrightarrow> t' = bs_timing s"
    and "map_of (tm_owners t') k \<noteq> None \<longleftrightarrow> map_of (tm_owners (bs_timing s)) k \<noteq> None"
    and "dict_ok (tm_owners t')"
proof -
  let ?t = "bs_timing s"
  note F = validate_timing_facts [OF assms(1) refl, unfolded assms(2)]
  have old: "x \<le> Min (set (open_starts ?t))" if "tm_active_since ?t = Some x" for x
    using assms(1) that by (simp add: validate_timing_iff Let_def del: Min_ge_iff)
  have "tm_mode t' = tm_mode ?t \<and> tm_last_observed_at t' = now \<and> union_seconds t' = union_seconds ?t \<and>
    active_seconds (s\<lparr>bs_timing := t'\<rparr>) now = active_seconds s now \<and>
    (open_starts t' \<noteq> []) = (tm_active_since t' \<noteq> None) \<and>
    (\<forall>x. tm_active_since t' = Some x \<longrightarrow> tm_active_since ?t = Some x \<and> x \<le> Min (set (open_starts t'))) \<and>
    tm_active_seconds t' \<ge> tm_active_seconds ?t \<and> (tm_owners ?t = [] \<longrightarrow> t' = ?t) \<and>
    (\<forall>k. map_of (tm_owners t') k \<noteq> None \<longleftrightarrow> map_of (tm_owners ?t) k \<noteq> None) \<and> dict_ok (tm_owners t')"
  proof (cases "\<exists>v. map_of (tm_owners ?t) own = Some v \<and> is_open v")
    case False
    then have "t' = ?t" unfolding assms(4) closed_timing_def by (auto split: option.split)
    then show ?thesis using F(2) old assms(2,3) by simp
  next
    case True
    then obtain v where v: "map_of (tm_owners ?t) own = Some v" "is_open v" by blast
    let ?owners = "AList.update own (v\<lparr>iv_stopped_at := Some now\<rparr>) (tm_owners ?t)"
    have vm: "(own, v) \<in> set (tm_owners ?t)" by (rule map_of_SomeD [OF v(1)])
    have "iv_started_at v \<in> set (open_starts ?t)" using vm v(2) unfolding open_starts_mem by blast
    then have ne: "open_starts ?t \<noteq> []" by auto
    then obtain y where y: "tm_active_since ?t = Some y" using F(2) by auto
    have ylast: "y \<le> now" by (rule F(3) [OF y])
    have bounds: "map (\<lambda>x. interval_bounds now (snd x)) ?owners = map (\<lambda>x. interval_bounds now (snd x)) (tm_owners ?t)"
      by (rule update_bounds [OF assms(3) v(1)]) (simp add: interval_bounds_def v(2))
    have sub: "set (open_starts (?t\<lparr>tm_owners := ?owners\<rparr>)) \<subseteq> set (open_starts ?t)"
      by (auto simp: open_starts_mem update_mem [OF assms(3)] split: if_split_asm) blast
    have min: "y \<le> Min (set (open_starts (?t\<lparr>tm_owners := ?owners\<rparr>)))" if "open_starts (?t\<lparr>tm_owners := ?owners\<rparr>) \<noteq> []"
      using order.trans [OF old [OF y] Min_antimono [OF sub]] that by simp
    have keys: "map_of ?owners k \<noteq> None \<longleftrightarrow> map_of (tm_owners ?t) k \<noteq> None" for k
      using v(1) by (simp add: AList.update_conv')
    have t': "t' = (let t = ?t\<lparr>tm_owners := ?owners\<rparr> in if open_starts t \<noteq> [] then t
        else t\<lparr>tm_active_seconds := tm_active_seconds t + (now - y), tm_active_since := None\<rparr>)"
      unfolding assms(4) closed_timing_def by (simp add: v y Let_def)
    have union: "union_seconds t' = union_seconds ?t"
      using bounds assms(2) by (simp add: t' Let_def union_covered)
    have opens: "open_starts t' = open_starts (?t\<lparr>tm_owners := ?owners\<rparr>)" by (simp add: t' Let_def open_starts_def)
    show ?thesis
      using union keys assms(2,3) y ylast min vm unfolding opens
      by (cases "open_starts (?t\<lparr>tm_owners := ?owners\<rparr>) = []") (auto simp: t' Let_def active_seconds_def simp del: Min_ge_iff)
  qed
  then show "tm_mode t' = tm_mode (bs_timing s)" and "tm_last_observed_at t' = now"
    and "union_seconds t' = union_seconds (bs_timing s)"
    and "active_seconds (s\<lparr>bs_timing := t'\<rparr>) now = active_seconds s now"
    and "(open_starts t' \<noteq> []) = (tm_active_since t' \<noteq> None)"
    and "tm_active_since t' = Some x \<Longrightarrow> tm_active_since (bs_timing s) = Some x \<and> x \<le> Min (set (open_starts t'))"
    and "tm_active_seconds t' \<ge> tm_active_seconds (bs_timing s)"
    and "tm_owners (bs_timing s) = [] \<Longrightarrow> t' = bs_timing s"
    and "map_of (tm_owners t') k \<noteq> None \<longleftrightarrow> map_of (tm_owners (bs_timing s)) k \<noteq> None"
    and "dict_ok (tm_owners t')" by blast+
qed

lemma validate_settlement_cease:
  assumes "validate_settlement ceased x = Inr ()" and "map_of ceased own = None"
  shows "validate_settlement (AList.update own c ceased) x = Inr ()"
  using assms by (cases x) (auto simp: validate_settlement_def Let_def rseq_Inr_iff AList.update_conv' split: option.split_asm)

lemma core_cease:
  assumes "ready b now s" and "map_of (bs_ceased_owners s) own = None"
    and "evidence_identity own ''owner_id'' = Inr ()" "evidence_identity (oc_evidence c) ''cessation_evidence'' = Inr ()"
    and rs: "\<And>i r. (i, r) \<in> set rs \<Longrightarrow> (i, r) \<in> set (bs_reservations s) \<and> rv_owner_id r \<noteq> own \<and> map_of es i = None"
    and es: "\<And>x. x \<in> set es \<Longrightarrow> x \<in> set (bs_settlements s) \<or>
      validate_settlement (AList.update own c (bs_ceased_owners s)) x = Inr ()"
  shows "core b (close_execution own now (ceasing own c rs es s))"
proof -
  let ?t = "bs_timing s" and ?c = "AList.update own c (bs_ceased_owners s)"
  define t' where "t' = closed_timing own now ?t"
  let ?s = "(ceasing own c rs es s)\<lparr>bs_timing := t'\<rparr>"
  have core: "core b s" and dicts: "dicts_ok s" and last: "tm_last_observed_at ?t = now"
    using assms(1) by (simp_all add: ready_def)
  have V: "validate_timing b s = Inr ()" using core by (simp add: core_def)
  have dict: "dict_ok (tm_owners ?t)" "dict_ok (bs_ceased_owners s)" using dicts by (simp_all add: dicts_ok_def)
  note K = closed_timing_keeps [OF V last dict(1) t'_def]
  note W = V [unfolded validate_timing_iff Let_def last]
  have iv: "validate_interval ?s e = Inr ()" if e: "e \<in> set (tm_owners t')" for e
  proof -
    obtain k v where kv: "e = (k, v)" by (cases e)
    show ?thesis
    proof (cases "k = own")
      case False
      then have "(k, v) \<in> set (tm_owners ?t)"
        using e kv update_mem [OF dict(1)]
        by (auto simp: t'_def closed_timing_def Let_def split: option.split_asm if_split_asm)
      with W have "validate_interval s (k, v) = Inr ()" by blast
      then show ?thesis using False K(2) last by (simp add: kv validate_interval_iff ceasing_def AList.update_conv')
    next
      case True
      have "map_of (tm_owners t') own = Some v" using e kv True K(10) by (simp add: map_of_eq_Some_iff)
      then obtain w where w: "map_of (tm_owners ?t) own = Some w" using K(9) [of own] by auto
      then have old: "validate_interval s (own, w) = Inr ()" using W map_of_SomeD by fast
      then have "is_open w" using assms(2) by (simp add: validate_interval_iff)
      with w \<open>map_of (tm_owners t') own = Some v\<close> have "v = w\<lparr>iv_stopped_at := Some now\<rparr>"
        by (auto simp: t'_def closed_timing_def Let_def AList.update_conv' split: if_split_asm)
      with old show ?thesis using K(2) last True kv by (simp add: validate_interval_iff ceasing_def AList.update_conv')
    qed
  qed
  have active: "active_seconds ?s now = active_seconds s now" using K(4) by (simp add: active_seconds_def ceasing_def)
  have since: "0 \<le> x \<and> b_started_at s \<le> x \<and> x \<le> Min (set (open_starts t'))" if "tm_active_since t' = Some x" for x
    using K(6) [OF that] W by blast
  have reserved: "map_of (tm_owners t') (rv_owner_id (snd x)) \<noteq> None" if "x \<in> set rs" "tm_mode ?t = ACTIVE_V2" for x
    unfolding K(9) using that rs [of "fst x" "snd x"] W by auto
  have frame: "bs_timing ?s = t'" "b_started_at ?s = b_started_at s" "b_schema ?s = b_schema s" "bs_reservations ?s = rs"
    "bs_historical_usage_complete ?s = bs_historical_usage_complete s" by (simp_all add: ceasing_def)
  have wall: "tm_owners t' = [] \<and> tm_active_seconds t' = 0" if "tm_mode ?t = WALL_CLOCK_V1"
    using that W K(8) by simp
  have low: "0 \<le> tm_active_seconds t'" using K(7) W by linarith
  have T: "validate_timing b ?s = Inr ()"
    unfolding validate_timing_iff Let_def frame K(1-3) active
    using W K(5) iv since reserved wall low by blast
  have E: "\<forall>x\<in>set (bs_settlements s). validate_settlement (bs_ceased_owners s) x = Inr ()"
    using core by (simp add: core_def rall_Inr_iff)
  have O: "validate_owners s = Inr ()" using core by (simp add: core_def)
  have "validate_owners ?s = Inr ()"
    unfolding validate_owners_def rall_Inr_iff
  proof
    fix x
    assume x: "x \<in> set (bs_ceased_owners ?s)"
    show "(case x of (own, c) \<Rightarrow> rseq [evidence_identity own ''owner_id'', evidence_identity (oc_evidence c) ''cessation_evidence'']) = Inr ()"
    proof (cases "x = (own, c)")
      case True
      then show ?thesis using assms(3,4) by (simp add: rseq_Inr_iff)
    next
      case False
      with x have "x \<in> set (bs_ceased_owners s)" using set_update_subset by (fastforce simp: ceasing_def)
      with O show ?thesis by (simp add: validate_owners_def rall_Inr_iff)
    qed
  qed
  moreover have "validate_reservations ?s = Inr ()"
    using core rs by (fastforce simp: core_def validate_reservations_def rall_Inr_iff rseq_Inr_iff ceasing_def AList.update_conv')
  moreover have "rall (validate_settlement ?c) es = Inr ()"
    unfolding rall_Inr_iff using E es validate_settlement_cease [OF _ assms(2)] by blast
  ultimately have "core b ?s"
    using core T rs K(1)
    by (auto simp: core_def ceasing_def list_all_iff validate_accounting_def validate_imports_def)
  moreover have "close_execution own now (ceasing own c rs es s) = ?s"
    by (simp add: close_execution_timing t'_def ceasing_def)
  ultimately show ?thesis by simp
qed

lemma pause_core:
  assumes "ready b now s" and "evidence_identity own ''owner_id'' = Inr ()" "evidence_identity ev ''cessation_evidence'' = Inr ()"
    and "pause_mutate now own ev s = Inr (u, s')"
  shows "core b s'"
proof (cases "map_of (bs_ceased_owners s) own")
  case (Some c)
  with assms(1,4) show ?thesis by (auto simp: pause_mutate_def rbind_Inr_iff ready_def)
next
  case None
  let ?c = "\<lparr>oc_evidence = ev, oc_dispatched = None\<rparr>"
  from None assms(4) have idle: "\<not> list_ex (\<lambda>(_, r). rv_owner_id r = own) (bs_reservations s)"
    and s': "s' = close_execution own now (ceasing own ?c (bs_reservations s) (bs_settlements s) s)"
    by (auto simp: pause_mutate_def rbind_Inr_iff ceasing_def)
  have free: "\<forall>x\<in>set (bs_reservations s). map_of (bs_settlements s) (fst x) = None"
    using assms(1) by (auto simp: ready_def core_def list_all_iff)
  have "core b (close_execution own now (ceasing own ?c (bs_reservations s) (bs_settlements s) s))"
    by (rule core_cease [OF assms(1) None assms(2)]) (use idle free assms(3) in \<open>auto simp: list_ex_iff\<close>)
  then show ?thesis unfolding s' .
qed

text \<open>The loop of a reconciliation: every selected reservation becomes a settlement without a report.\<close>

definition abandoned :: "string \<Rightarrow> bool \<Rightarrow> reservation \<Rightarrow> usage \<Rightarrow> settlement" where
  "abandoned ev dispatched r u =
     \<lparr>se_reservation = r, se_usage = u, se_dispatched = dispatched, se_cessation_evidence = Some ev\<rparr>"

lemma abandon_loop:
  assumes "rfold (abandon ev dispatched) sel s = Inr s'" and "dicts_ok s"
    and "\<And>i r. (i, r) \<in> set (bs_reservations s) \<Longrightarrow> map_of (bs_settlements s) i = None"
  shows "\<exists>es. s' = s\<lparr>bs_reservations := filter (\<lambda>x. fst x \<notin> set sel) (bs_reservations s), bs_settlements := es\<rparr> \<and>
    dict_ok es \<and>
    (\<forall>x\<in>set es. x \<in> set (bs_settlements s) \<or> (\<exists>i r u. i \<in> set sel \<and> (i, r) \<in> set (bs_reservations s) \<and>
       reported_usage None (rv_replay r) dispatched = Inr u \<and> x = (i, abandoned ev dispatched r u))) \<and>
    (\<forall>i. i \<notin> set sel \<longrightarrow> map_of es i = map_of (bs_settlements s) i)"
  using assms
proof (induction sel arbitrary: s)
  case Nil
  then have "s' = s\<lparr>bs_reservations := bs_reservations s, bs_settlements := bs_settlements s\<rparr>" "dict_ok (bs_settlements s)"
    by (simp_all add: dicts_ok_def)
  then show ?case by (intro exI [of _ "bs_settlements s"]) simp
next
  case (Cons i sel)
  from Cons.prems(1) obtain s1 where s1: "abandon ev dispatched i s = Inr s1"
    and rest: "rfold (abandon ev dispatched) sel s1 = Inr s'" by (auto simp: rbind_Inr_iff)
  from s1 obtain r u where r: "map_of (bs_reservations s) i = Some r"
    and u: "reported_usage None (rv_replay r) dispatched = Inr u"
    and s1': "s1 = s\<lparr>bs_reservations := AList.delete i (bs_reservations s),
      bs_settlements := AList.update i (abandoned ev dispatched r u) (bs_settlements s)\<rparr>"
    by (auto simp: abandon_def rbind_Inr_iff abandoned_def split: option.split_asm)
  have dict: "dict_ok (bs_settlements s)" "dict_ok (bs_reservations s)" using Cons.prems(2) by (simp_all add: dicts_ok_def)
  have "dicts_ok s1" using Cons.prems(2) by (simp add: s1' dicts_ok_def)
  moreover have "map_of (bs_settlements s1) j = None" if "(j, q) \<in> set (bs_reservations s1)" for j q
    using that Cons.prems(3) [of j q] by (simp add: s1' set_delete AList.update_conv')
  ultimately obtain es where es: "s' = s1\<lparr>bs_reservations := filter (\<lambda>x. fst x \<notin> set sel) (bs_reservations s1), bs_settlements := es\<rparr>"
    "dict_ok es"
    "\<forall>x\<in>set es. x \<in> set (bs_settlements s1) \<or> (\<exists>i r u. i \<in> set sel \<and> (i, r) \<in> set (bs_reservations s1) \<and>
       reported_usage None (rv_replay r) dispatched = Inr u \<and> x = (i, abandoned ev dispatched r u))"
    "\<forall>j. j \<notin> set sel \<longrightarrow> map_of es j = map_of (bs_settlements s1) j"
    using Cons.IH [OF rest] by blast
  have rs: "filter (\<lambda>x. fst x \<notin> set sel) (AList.delete i (bs_reservations s)) =
      filter (\<lambda>x. fst x \<notin> set (i # sel)) (bs_reservations s)"
    by (auto simp: AList.delete_eq case_prod_unfold intro: filter_cong)
  have entry: "x \<in> set (bs_settlements s) \<or> (\<exists>j r u. j \<in> set (i # sel) \<and> (j, r) \<in> set (bs_reservations s) \<and>
       reported_usage None (rv_replay r) dispatched = Inr u \<and> x = (j, abandoned ev dispatched r u))" if "x \<in> set es" for x
  proof (cases "x \<in> set (bs_settlements s1)")
    case True
    then have "x = (i, abandoned ev dispatched r u) \<or> x \<in> set (bs_settlements s)"
      using set_update_subset by (fastforce simp: s1')
    then show ?thesis using map_of_SomeD [OF r] u by auto
  next
    case False
    with es(3) that show ?thesis by (auto simp: s1' set_delete)
  qed
  show ?case
    using es(1,2,4) entry by (intro exI [of _ es]) (simp add: s1' rs AList.update_conv')
qed

lemma reconcile_core:
  assumes "ready b now s" and "evidence_identity own ''owner_id'' = Inr ()" "evidence_identity ev ''cessation_evidence'' = Inr ()"
    and "reconcile_mutate now own ev dispatched s = Inr (u, s')"
  shows "core b s'"
proof (cases "map_of (bs_ceased_owners s) own")
  case (Some c)
  with assms(1,4) show ?thesis by (auto simp: reconcile_mutate_def Let_def rbind_Inr_iff ready_def)
next
  case None
  let ?c = "\<lparr>oc_evidence = ev, oc_dispatched = Some dispatched\<rparr>" and ?sel = "owned_reservations own s"
  let ?s0 = "s\<lparr>bs_ceased_owners := AList.update own ?c (bs_ceased_owners s)\<rparr>"
  from None assms(4) obtain s1 where loop: "rfold (abandon ev dispatched) ?sel ?s0 = Inr s1"
    and s': "s' = close_execution own now s1"
    by (auto simp: reconcile_mutate_def Let_def rbind_Inr_iff)
  have core: "core b s" and dicts: "dicts_ok s" using assms(1) by (simp_all add: ready_def)
  have free: "map_of (bs_settlements s) i = None \<and> validate_reservation r = Inr () \<and> evidence_identity i ''reservation_id'' = Inr ()"
    if "(i, r) \<in> set (bs_reservations s)" for i r
    using core that by (fastforce simp: core_def list_all_iff validate_reservations_def rall_Inr_iff rseq_Inr_iff)
  have sel: "i \<in> set ?sel \<longleftrightarrow> rv_owner_id r = own" if "(i, r) \<in> set (bs_reservations s)" for i r
  proof
    assume "i \<in> set ?sel"
    then obtain q where "(i, q) \<in> set (bs_reservations s)" "rv_owner_id q = own" by (auto simp: owned_reservations_def)
    with that dicts show "rv_owner_id r = own" using eq_key_imp_eq_value by (fastforce simp: dicts_ok_def)
  next
    assume "rv_owner_id r = own"
    with that have "(i, r) \<in> set (filter (\<lambda>(_, r). rv_owner_id r = own) (bs_reservations s))" by simp
    then show "i \<in> set ?sel" unfolding owned_reservations_def set_sort set_map by force
  qed
  have "dicts_ok ?s0" using dicts by (simp add: dicts_ok_def)
  from abandon_loop [OF loop this] free obtain es where
    s1: "s1 = ?s0\<lparr>bs_reservations := filter (\<lambda>x. fst x \<notin> set ?sel) (bs_reservations s), bs_settlements := es\<rparr>"
    and es: "\<forall>x\<in>set es. x \<in> set (bs_settlements s) \<or> (\<exists>i r u. i \<in> set ?sel \<and> (i, r) \<in> set (bs_reservations s) \<and>
       reported_usage None (rv_replay r) dispatched = Inr u \<and> x = (i, abandoned ev dispatched r u))"
    and keep: "\<forall>i. i \<notin> set ?sel \<longrightarrow> map_of es i = map_of (bs_settlements s) i" by auto
  let ?rs = "filter (\<lambda>x. fst x \<notin> set ?sel) (bs_reservations s)"
  have "core b (close_execution own now (ceasing own ?c ?rs es s))"
  proof (rule core_cease [OF assms(1) None assms(2)])
    show "evidence_identity (oc_evidence ?c) ''cessation_evidence'' = Inr ()" using assms(3) by simp
    show "(i, r) \<in> set (bs_reservations s) \<and> rv_owner_id r \<noteq> own \<and> map_of es i = None" if "(i, r) \<in> set ?rs" for i r
      using that sel free keep by auto
    show "x \<in> set (bs_settlements s) \<or> validate_settlement (AList.update own ?c (bs_ceased_owners s)) x = Inr ()"
      if "x \<in> set es" for x
    proof (cases "x \<in> set (bs_settlements s)")
      case False
      with es that obtain i r u where x: "i \<in> set ?sel" "(i, r) \<in> set (bs_reservations s)"
        "reported_usage None (rv_replay r) dispatched = Inr u" "x = (i, abandoned ev dispatched r u)" by blast
      have own: "rv_owner_id r = own" using sel x by blast
      have "validate_settlement (AList.update own ?c (bs_ceased_owners s)) (i, abandoned ev dispatched r u) = Inr ()"
        unfolding abandoned_def
        by (rule validate_settlement_new [OF _ _ x(3)]) (use free [OF x(2)] own assms(3) in \<open>auto simp: AList.update_conv'\<close>)
      then show ?thesis by (simp add: x(4))
    qed simp
  qed
  then show ?thesis unfolding s' s1 ceasing_def by simp
qed

end
