(* ===== verification/Budget_Safety.thy ===== *)
theory Budget_Safety
  imports Budget_Laws
begin

text \<open>
  Runs of a budget: what the sequences of its operations guarantee. Spend stays within the ceilings
  when calls go through reservations, settlements are final, exhaustion is final, the incremental
  active clock is the union of the owners' intervals, and no stored document stops later operations.
\<close>

section \<open>What a transaction leaves alone\<close>

definition same_entries :: "budget_state \<Rightarrow> budget_state \<Rightarrow> bool" where
  "same_entries s s' \<longleftrightarrow> bs_reservations s' = bs_reservations s \<and> bs_settlements s' = bs_settlements s \<and>
     bs_ceased_owners s' = bs_ceased_owners s \<and> bs_direct_usage s' = bs_direct_usage s \<and>
     bs_direct_unknown s' = bs_direct_unknown s \<and> bs_legacy_imports s' = bs_legacy_imports s"

lemma same_entries_totals: "same_entries s s' \<Longrightarrow> totals b s' = totals b s"
  by (simp add: same_entries_def totals_def initial_totals_def)

lemma same_entries_committed: "same_entries s s' \<Longrightarrow> committed b s' c = committed b s c"
  by (simp add: committed_def same_entries_totals)

lemma observe_entries: "same_entries s (observe b now s)"
  using observe_cases [of b now s] by (auto simp: same_entries_def)

lemma finish_entries: "same_entries s (finish b now s)"
  using finish_cases [of b now s] by (auto simp: same_entries_def)

lemma finish_timing [simp]: "bs_timing (finish b now s) = bs_timing s"
  using finish_cases [of b now s] by auto

lemma observe_timing [simp]: "bs_timing (observe b now s) = wait now (bs_timing s)"
  using observe_cases [of b now s] by auto

lemma same_entries_trans: "same_entries s t \<Longrightarrow> same_entries t u \<Longrightarrow> same_entries s u"
  by (simp add: same_entries_def)

lemma dicts_ok_finish [simp]: "dicts_ok (finish b now s) = dicts_ok s"
  using finish_cases [of b now s] by (auto simp: dicts_ok_def)

section \<open>Operations on the dictionaries\<close>

lemma mutations_dicts_ok:
  assumes "dicts_ok s"
  shows "reserve_mutate b now l s = Inr (x, s') \<Longrightarrow> dicts_ok s'"
    and "charge_mutate turns inp out queries s = Inr (y, s') \<Longrightarrow> dicts_ok s'"
    and "reserve_call_mutate b now identifier own inp' out' replay s = Inr (z, s') \<Longrightarrow> dicts_ok s'"
    and "settle_mutate i report dispatched s = Inr (y, s') \<Longrightarrow> dicts_ok s'"
    and "resume_mutate now own s = Inr (y, s') \<Longrightarrow> dicts_ok s'"
proof -
  show "reserve_mutate b now l s = Inr (x, s') \<Longrightarrow> dicts_ok s'"
    using assms by (auto simp: reserve_mutate_def split: if_split_asm)
  show "charge_mutate turns inp out queries s = Inr (y, s') \<Longrightarrow> dicts_ok s'"
    using assms by (auto simp: charge_mutate_def Let_def dicts_ok_def)
  show "reserve_call_mutate b now identifier own inp' out' replay s = Inr (z, s') \<Longrightarrow> dicts_ok s'"
    using assms by (auto simp: reserve_call_mutate_def rbind_Inr_iff dicts_ok_def split: if_split_asm)
  show "settle_mutate i report dispatched s = Inr (y, s') \<Longrightarrow> dicts_ok s'"
    using assms by (auto simp: settle_mutate_def rbind_Inr_iff dicts_ok_def split: option.split_asm)
  show "resume_mutate now own s = Inr (y, s') \<Longrightarrow> dicts_ok s'"
    using assms by (auto simp: resume_mutate_def rbind_Inr_iff dicts_ok_def Let_def split: if_split_asm)
qed

lemma close_dicts_ok: "dicts_ok s \<Longrightarrow> dicts_ok (close_execution own now s)"
  by (auto simp: close_execution_timing closed_timing_def dicts_ok_def Let_def split: option.split)

lemma cease_dicts_ok: "dicts_ok s \<Longrightarrow> dicts_ok (s\<lparr>bs_ceased_owners := AList.update own c (bs_ceased_owners s)\<rparr>)"
  by (simp add: dicts_ok_def)

lemma pause_dicts_ok: "dicts_ok s \<Longrightarrow> pause_mutate now own ev s = Inr (y, s') \<Longrightarrow> dicts_ok s'"
  by (auto simp: pause_mutate_def rbind_Inr_iff intro: close_dicts_ok cease_dicts_ok split: option.split_asm)

lemma abandon_dicts_ok: "rfold (abandon ev dispatched) sel s = Inr s' \<Longrightarrow> dicts_ok s \<Longrightarrow> dicts_ok s'"
  by (rule rfold_invariant) (auto simp: abandon_def rbind_Inr_iff dicts_ok_def split: option.split_asm)

lemma reconcile_dicts_ok: "dicts_ok s \<Longrightarrow> reconcile_mutate now own ev dispatched s = Inr (y, s') \<Longrightarrow> dicts_ok s'"
  by (auto simp: reconcile_mutate_def Let_def rbind_Inr_iff intro: close_dicts_ok abandon_dicts_ok cease_dicts_ok
      split: option.split_asm)

section \<open>Runs of a budget\<close>

text \<open>
  The documents that the operations of one budget store, one after the other; the clock is what
  it is at each, and so are the attempt ledgers found beside the run, which a stored document only
  compares. A new budget starts with none of them to import. Identifiers come from \<open>uuid4\<close>.
\<close>

inductive budget_step :: "job_budget \<Rightarrow> budget_state \<Rightarrow> budget_state \<Rightarrow> bool" for b s where
  reopened: "open_budget b sources now (Some (Accounted s)) = Inr (u, s') \<Longrightarrow> budget_step b s s'"
| reserved: "reserve b sources now (Some (Accounted s)) l = Inr (r, s') \<Longrightarrow> budget_step b s s'"
| charged: "charge b sources now (Some (Accounted s)) turns inp out queries = Inr (x, s') \<Longrightarrow> budget_step b s s'"
| call_reserved: "evidence_identity identifier ''reservation_id'' = Inr () \<Longrightarrow>
    reserve_call b sources now (Some (Accounted s)) identifier own inp' out' replay = Inr (i, s') \<Longrightarrow> budget_step b s s'"
| call_settled: "settle_call b sources now (Some (Accounted s)) i' report dispatched = Inr (x, s') \<Longrightarrow> budget_step b s s'"
| resumed: "resume_execution b sources now (Some (Accounted s)) own = Inr (u, s') \<Longrightarrow> budget_step b s s'"
| paused: "pause_execution b sources now (Some (Accounted s)) own ev = Inr (u, s') \<Longrightarrow> budget_step b s s'"
| reconciled: "reconcile_owner b sources now (Some (Accounted s)) own ev dispatched = Inr (ids, s') \<Longrightarrow> budget_step b s s'"

inductive_cases budget_stepE: "budget_step b s s'"

definition new_budget :: "job_budget \<Rightarrow> budget_state \<Rightarrow> bool" where
  "new_budget b s = (\<exists>sources now. sources \<in> {None, Some []} \<and> open_budget b sources now None = Inr ((), s))"

definition stored :: "job_budget \<Rightarrow> budget_state \<Rightarrow> bool" where
  "stored b s = (\<exists>s0. new_budget b s0 \<and> (budget_step b)\<^sup>*\<^sup>* s0 s)"

lemma transact_valid: "transact b sources now doc mutate = Inr (r, s) \<Longrightarrow> validate b s = Inr ()"
  by (auto simp: transact_def rbind_Inr_iff store_def)

lemma import_kept: "import_attempts b sources now False s = Inr s' \<Longrightarrow> s' = s"
  by (auto simp: import_attempts_def Let_def rbind_Inr_iff split: option.split_asm if_split_asm)

lemma transact_elim:
  assumes "transact b sources now (Some (Accounted s)) mutate = Inr (r, s')"
  obtains s1 where "validate b s = Inr ()" "tm_last_observed_at (bs_timing s) \<le> now" "0 \<le> now"
    "mutate (observe b now s) = Inr (r, s1)" "s' = finish b now s1"
  using assms by (auto simp: transact_def rbind_Inr_iff store_def finish_def load_state_def dest: import_kept)

lemma import_none: "sources \<in> {None, Some []} \<Longrightarrow> import_attempts b sources now True s = Inr s"
  by (auto simp: import_attempts_def)

lemma import_absent: "import_attempts b None now fresh s = Inr s"
  by (simp add: import_attempts_def)

lemmas op_defs = open_budget_def reserve_def charge_def reserve_call_def settle_call_def resume_execution_def
  pause_execution_def reconcile_owner_def

text \<open>Every stored document passes validation, and its dictionaries are well formed.\<close>

lemma observe_dicts: "dicts_ok s \<Longrightarrow> dicts_ok (observe b now s)"
  using observe_cases [of b now s] by (auto simp: dicts_ok_def)

lemma transact_dicts:
  assumes "transact b sources now (Some (Accounted s)) mutate = Inr (r, s')" and "dicts_ok s"
    and "\<And>t t'. dicts_ok t \<Longrightarrow> mutate t = Inr (r, t') \<Longrightarrow> dicts_ok t'"
  shows "dicts_ok s'"
  using transact_elim [OF assms(1)] assms(3) [OF observe_dicts [OF assms(2)]] by (metis dicts_ok_finish)

lemma new_dicts:
  assumes "open_budget b sources now None = Inr (u, s)" and "sources \<in> {None, Some []}"
  shows "dicts_ok s"
proof -
  have "dicts_ok (initialize_accounting b False (new_ledger b now))"
    by (simp add: dicts_ok_def initialize_accounting_def base_state.defs budget_state.defs)
  with assms show ?thesis
    by (auto simp: open_budget_def transact_def rbind_Inr_iff store_def load_state_def import_none finish_def [symmetric]
        simp del: insert_iff intro: observe_dicts)
qed

lemma step_dicts: "budget_step b s s' \<Longrightarrow> dicts_ok s \<Longrightarrow> dicts_ok s'"
  by (elim budget_stepE)
    (auto simp: op_defs rbind_Inr_iff intro: mutations_dicts_ok pause_dicts_ok reconcile_dicts_ok elim!: transact_dicts)

lemma step_valid: "budget_step b s s' \<Longrightarrow> validate b s' = Inr ()"
  by (elim budget_stepE) (auto simp: op_defs rbind_Inr_iff dest: transact_valid)

interpretation document: transition_system "new_budget b" "budget_step b" "\<lambda>s. validate b s = Inr () \<and> dicts_ok s" for b
proof
  show "validate b s = Inr () \<and> dicts_ok s" if "new_budget b s" for s
    using that new_dicts transact_valid by (auto simp: new_budget_def op_defs)
  show "validate b s' = Inr () \<and> dicts_ok s'" if "validate b s = Inr () \<and> dicts_ok s" "budget_step b s s'" for s s'
    using that step_dicts step_valid by blast
qed

lemma stored_valid: "stored b s \<Longrightarrow> validate b s = Inr ()"
  and stored_dicts: "stored b s \<Longrightarrow> dicts_ok s"
  using document.reachable_inv unfolding stored_def by blast+

section \<open>Validation never stands in the way\<close>

text \<open>The state after a mutation of a stored document, whatever the time.\<close>

lemma stored_transact:
  assumes "stored b s" and "tm_last_observed_at (bs_timing s) \<le> now"
    and "\<And>r s'. ready b now (observe b now s) \<Longrightarrow> mutate (observe b now s) = Inr (r, s') \<Longrightarrow> core b s'"
  shows "transact b None now (Some (Accounted s)) mutate =
    rbind (mutate (observe b now s)) (\<lambda>(r, s'). Inr (r, finish b now s'))"
  using observe_ready [OF stored_valid [OF assms(1)] stored_dicts [OF assms(1)] assms(2)]
  by (intro transact_ready) (use assms stored_valid stored_dicts import_absent in blast)+

section \<open>What is committed\<close>

definition settled_weight :: "settlement \<Rightarrow> counter \<Rightarrow> int" where
  "settled_weight e c = settled_known e c + settled_liability e c"

lemma committed_sum:
  "committed b s c =
     bs_direct_usage s c + (\<Sum>x\<leftarrow>bs_legacy_imports s. imported_known (snd x) c) + direct_liability b s c +
     (\<Sum>x\<leftarrow>bs_settlements s. settled_weight (snd x) c) + (\<Sum>x\<leftarrow>bs_reservations s. reserved_tokens (snd x) c)"
  by (simp add: committed_def Let_def totals_sums settled_weight_def sum_list_addf)

text \<open>The counters that calls consume, and a report within what was reserved for it.\<close>

definition CALL_COUNTERS :: "counter set" where
  "CALL_COUNTERS = {MODEL_TURNS, INPUT_TOKENS, OUTPUT_TOKENS}"

definition within_reserve :: "usage option \<Rightarrow> reservation \<Rightarrow> bool" where
  "within_reserve report r =
     (case report of
        None \<Rightarrow> True
      | Some u \<Rightarrow> us_source u = REPLAY \<or>
          (\<forall>n. us_input_tokens u = Some n \<longrightarrow> n \<le> rv_input_tokens r) \<and>
          (\<forall>n. us_output_tokens u = Some n \<longrightarrow> n \<le> rv_output_tokens r))"

lemma settled_weight_le:
  assumes "reported_usage report (rv_replay r) dispatched = Inr u" and "within_reserve report r"
    and "rv_input_tokens r \<ge> 0" "rv_output_tokens r \<ge> 0" and "c \<in> CALL_COUNTERS"
  shows "settled_weight \<lparr>se_reservation = r, se_usage = u, se_dispatched = dispatched, se_cessation_evidence = cess\<rparr> c
    \<le> reserved_tokens r c"
proof -
  let ?raw = "given_usage report (rv_replay r) dispatched"
  have u: "us_source u = us_source ?raw" "rv_replay r \<longrightarrow> us_source ?raw = REPLAY"
    "us_input_tokens u = normalized (us_input_tokens ?raw)" "us_output_tokens u = normalized (us_output_tokens ?raw)"
    using assms(1) by (auto simp: reported_usage_def Let_def rbind_Inr_iff)
  have small: "us_source u = REPLAY \<or> (\<forall>n. us_input_tokens u = Some n \<longrightarrow> n \<le> rv_input_tokens r) \<and>
      (\<forall>n. us_output_tokens u = Some n \<longrightarrow> n \<le> rv_output_tokens r)"
    using assms(2) u
    by (cases report) (auto simp: within_reserve_def given_usage_def normalized_def token_count_def split: option.split_asm if_split_asm)
  show ?thesis
    using assms(3-5) small u(1,2)
    by (auto simp: CALL_COUNTERS_def settled_weight_def settled_known_def settled_liability_def reserved_tokens_def
        split: option.split)
qed

lemma settle_committed:
  assumes "settle_mutate i report dispatched s = Inr (x, s')" and "core b s" and "dicts_ok s"
    and "\<And>r. map_of (bs_reservations s) i = Some r \<Longrightarrow> within_reserve report r" and "c \<in> CALL_COUNTERS"
  shows "committed b s' c \<le> committed b s c"
proof (cases "map_of (bs_settlements s) i")
  case (Some e)
  with assms(1) show ?thesis by (auto simp: settle_mutate_def rbind_Inr_iff)
next
  case None
  with assms(1) obtain r u where r: "map_of (bs_reservations s) i = Some r"
    and u: "reported_usage report (rv_replay r) dispatched = Inr u"
    and s': "s' = s\<lparr>bs_settlements := bs_settlements s @ [(i, \<lparr>se_reservation = r, se_usage = u, se_dispatched = dispatched,
      se_cessation_evidence = None\<rparr>)], bs_reservations := AList.delete i (bs_reservations s)\<rparr>"
    by (auto simp: settle_mutate_def rbind_Inr_iff update_new split: option.split_asm)
  have "validate_reservation r = Inr ()"
    using assms(2) map_of_SomeD [OF r] by (fastforce simp: core_def validate_reservations_def rall_Inr_iff rseq_Inr_iff)
  then have "rv_input_tokens r \<ge> 0" "rv_output_tokens r \<ge> 0" by (simp_all add: validate_reservation_def rseq_Inr_iff)
  from settled_weight_le [OF u assms(4) [OF r] this assms(5), of None] show ?thesis
    using sum_delete [OF _ r, of "\<lambda>x. reserved_tokens (snd x) c"] assms(3)
    by (simp add: committed_sum s' dicts_ok_def direct_liability_def)
qed

definition countable :: "budget_state \<Rightarrow> bool" where
  "countable s = (dicts_ok s \<and> (\<forall>x\<in>set (bs_reservations s). map_of (bs_settlements s) (fst x) = None \<and>
     rv_input_tokens (snd x) \<ge> 0 \<and> rv_output_tokens (snd x) \<ge> 0))"

lemma core_countable: "core b s \<Longrightarrow> dicts_ok s \<Longrightarrow> countable s"
  by (fastforce simp: countable_def core_def list_all_iff validate_reservations_def validate_reservation_def rall_Inr_iff rseq_Inr_iff)

lemma abandon_committed:
  assumes "abandon ev dispatched i s = Inr s'" and "countable s" and "c \<in> CALL_COUNTERS"
  shows "countable s' \<and> committed b s' c \<le> committed b s c"
proof -
  from assms(1) obtain r u where r: "map_of (bs_reservations s) i = Some r"
    and u: "reported_usage None (rv_replay r) dispatched = Inr u"
    and s': "s' = s\<lparr>bs_reservations := AList.delete i (bs_reservations s), bs_settlements := AList.update i
      \<lparr>se_reservation = r, se_usage = u, se_dispatched = dispatched, se_cessation_evidence = Some ev\<rparr> (bs_settlements s)\<rparr>"
    by (auto simp: abandon_def rbind_Inr_iff split: option.split_asm)
  have ir: "(i, r) \<in> set (bs_reservations s)" by (rule map_of_SomeD [OF r])
  then have new: "map_of (bs_settlements s) i = None" and pos: "rv_input_tokens r \<ge> 0" "rv_output_tokens r \<ge> 0"
    using assms(2) by (force simp: countable_def)+
  have "countable s'"
    using assms(2) by (auto simp: countable_def dicts_ok_def s' set_delete AList.update_conv')
  moreover have "committed b s' c \<le> committed b s c"
    using settled_weight_le [OF u _ pos assms(3), of "Some ev"] assms(2)
      sum_delete [OF _ r, of "\<lambda>x. reserved_tokens (snd x) c"]
    by (simp add: committed_sum s' countable_def dicts_ok_def direct_liability_def update_new [OF new] within_reserve_def)
  ultimately show ?thesis ..
qed

lemma close_entries: "same_entries s (close_execution own now s)"
  by (simp add: same_entries_def close_execution_timing)

lemma cease_committed: "committed b (s\<lparr>bs_ceased_owners := d\<rparr>) c = committed b s c"
  by (simp add: committed_def)

lemma reconcile_committed:
  assumes "reconcile_mutate now own ev dispatched s = Inr (x, s')" and "countable s" and "c \<in> CALL_COUNTERS"
  shows "committed b s' c \<le> committed b s c"
proof (cases "map_of (bs_ceased_owners s) own")
  case (Some e)
  with assms(1) show ?thesis by (auto simp: reconcile_mutate_def Let_def rbind_Inr_iff)
next
  case None
  let ?s0 = "s\<lparr>bs_ceased_owners := AList.update own \<lparr>oc_evidence = ev, oc_dispatched = Some dispatched\<rparr> (bs_ceased_owners s)\<rparr>"
  from None assms(1) obtain s1 where loop: "rfold (abandon ev dispatched) (owned_reservations own s) ?s0 = Inr s1"
    and s': "s' = close_execution own now s1" by (auto simp: reconcile_mutate_def Let_def rbind_Inr_iff)
  have "countable ?s0" using assms(2) by (simp add: countable_def dicts_ok_def)
  then have "countable s1 \<and> committed b s1 c \<le> committed b ?s0 c"
    using rfold_invariant [OF loop, of "\<lambda>t. countable t \<and> committed b t c \<le> committed b ?s0 c"]
      abandon_committed [OF _ _ assms(3)] by (meson order.trans order_refl)
  then show ?thesis by (simp add: s' same_entries_committed [OF close_entries] cease_committed)
qed

lemma grant_committed:
  assumes "reserve_call_mutate b now identifier own inp out replay s = Inr (Some i, s')"
  shows "committed b s' c = committed b s c + requested inp out replay c \<and> admits b now inp out replay s"
proof -
  let ?r = "\<lparr>rv_owner_id = own, rv_input_tokens = inp, rv_output_tokens = out, rv_replay = replay\<rparr>"
  from assms have s': "s' = s\<lparr>bs_reservations := bs_reservations s @ [(identifier, ?r)]\<rparr>"
    and "admits b now inp out replay s"
    by (auto simp: reserve_call_mutate_def rbind_Inr_iff update_new split: if_split_asm)
  moreover have "reserved_tokens ?r c = requested inp out replay c"
    by (cases c) (simp_all add: reserved_tokens_def requested_def)
  ultimately show ?thesis by (simp add: committed_sum direct_liability_def)
qed

lemma refuse_same: "reserve_call_mutate b now identifier own inp out replay s = Inr (None, s') \<Longrightarrow> s' = s"
  by (auto simp: reserve_call_mutate_def rbind_Inr_iff split: if_split_asm)

section \<open>Calls within their reservations\<close>

text \<open>
  Steps in which every model call goes through a reservation, and every provider report stays within
  it: what the budget's documentation asks of its callers and providers. Retrieval queries are charged
  directly, as the team stage and the chain stage do (\<open>charge(retrieval_queries=n)\<close>).
\<close>

inductive metered_step :: "job_budget \<Rightarrow> budget_state \<Rightarrow> budget_state \<Rightarrow> bool" for b s where
  m_reopened: "open_budget b sources now (Some (Accounted s)) = Inr (u, s') \<Longrightarrow> metered_step b s s'"
| m_reserved: "reserve b sources now (Some (Accounted s)) l = Inr (r, s') \<Longrightarrow> metered_step b s s'"
| m_queries: "charge b sources now (Some (Accounted s)) 0 None None queries = Inr (x, s') \<Longrightarrow> metered_step b s s'"
| m_call_reserved: "evidence_identity identifier ''reservation_id'' = Inr () \<Longrightarrow>
    reserve_call b sources now (Some (Accounted s)) identifier own inp' out' replay = Inr (i, s') \<Longrightarrow> metered_step b s s'"
| m_call_settled: "(\<And>r. map_of (bs_reservations s) i' = Some r \<Longrightarrow> within_reserve report r) \<Longrightarrow>
    settle_call b sources now (Some (Accounted s)) i' report dispatched = Inr (x, s') \<Longrightarrow> metered_step b s s'"
| m_resumed: "resume_execution b sources now (Some (Accounted s)) own = Inr (u, s') \<Longrightarrow> metered_step b s s'"
| m_paused: "pause_execution b sources now (Some (Accounted s)) own ev = Inr (u, s') \<Longrightarrow> metered_step b s s'"
| m_reconciled: "reconcile_owner b sources now (Some (Accounted s)) own ev dispatched = Inr (ids, s') \<Longrightarrow> metered_step b s s'"

inductive_cases metered_stepE: "metered_step b s s'"

lemma metered_budget_step: "metered_step b s s' \<Longrightarrow> budget_step b s s'"
  by (elim metered_stepE) (blast intro: budget_step.intros)+

lemma transact_committed:
  assumes "transact b sources now (Some (Accounted s)) mutate = Inr (r, s')" and "dicts_ok s"
    and "\<And>t t'. ready b now t \<Longrightarrow> same_entries s t \<Longrightarrow> mutate t = Inr (r, t') \<Longrightarrow> committed b t' c \<le> n"
  shows "committed b s' c \<le> n"
proof -
  from assms(1) obtain s1 where v: "validate b s = Inr ()" "tm_last_observed_at (bs_timing s) \<le> now"
    and s1: "mutate (observe b now s) = Inr (r, s1)" "s' = finish b now s1" by (rule transact_elim)
  from assms(3) [OF observe_ready [OF v(1) assms(2) v(2)] observe_entries s1(1)]
  show ?thesis by (simp add: s1(2) same_entries_committed [OF finish_entries])
qed

lemma transact_keeps_committed:
  assumes "transact b sources now (Some (Accounted s)) mutate = Inr (r, s')"
    and "\<And>t t'. mutate t = Inr (r, t') \<Longrightarrow> committed b t' c = committed b t c"
  shows "committed b s' c = committed b s c"
proof -
  from assms(1) obtain s1 where "mutate (observe b now s) = Inr (r, s1)" "s' = finish b now s1"
    by (rule transact_elim)
  with assms(2) show ?thesis
    by (simp add: same_entries_committed [OF finish_entries] same_entries_committed [OF observe_entries])
qed

lemma pause_entries: "pause_mutate now own ev s = Inr (u, s') \<Longrightarrow> committed b s' c = committed b s c"
  by (auto simp: pause_mutate_def rbind_Inr_iff same_entries_committed [OF close_entries] cease_committed split: option.split_asm)

lemma resume_committed: "resume_mutate now own s = Inr (u, s') \<Longrightarrow> committed b s' c = committed b s c"
  by (elim resume_cases) (simp_all add: committed_def)

lemma reserve_committed: "reserve_mutate b now l s = Inr (x, s') \<Longrightarrow> committed b s' c = committed b s c"
  by (auto simp: reserve_mutate_def committed_def split: if_split_asm)

lemma queries_committed:
  assumes "charge_mutate 0 None None queries s = Inr (u, s')" and "c \<in> CALL_COUNTERS"
  shows "committed b s' c = committed b s c"
proof -
  from assms have "bs_direct_usage s' c = bs_direct_usage s c" "bs_direct_unknown s' = bs_direct_unknown s"
    "bs_reservations s' = bs_reservations s" "bs_settlements s' = bs_settlements s" "bs_legacy_imports s' = bs_legacy_imports s"
    by (auto simp: charge_mutate_def CALL_COUNTERS_def Let_def)
  then show ?thesis by (simp add: committed_sum direct_liability_def)
qed

lemma charge_recorded:
  assumes "stored b s" and "tm_last_observed_at (bs_timing s) \<le> now"
    and "turns \<ge> 0" "queries \<ge> 0" "\<forall>n. inp = Some n \<longrightarrow> n \<ge> 0" "\<forall>n. out = Some n \<longrightarrow> n \<ge> 0"
  obtains s1 where "charge_mutate turns inp out queries (observe b now s) = Inr ((), s1)"
    "charge b None now (Some (Accounted s)) turns inp out queries = Inr (exhaustion b (finish b now s1) now, finish b now s1)"
proof -
  have "transact b None now (Some (Accounted s)) (charge_mutate turns inp out queries) =
      rbind (charge_mutate turns inp out queries (observe b now s)) (\<lambda>(r, s'). Inr (r, finish b now s'))"
    by (rule stored_transact [OF assms(1,2)], rule charge_core [OF _ assms(3-6)]) (simp_all add: ready_def)
  moreover obtain s1 where "charge_mutate turns inp out queries (observe b now s) = Inr ((), s1)"
    by (simp add: charge_mutate_def Let_def)
  ultimately show thesis
    using assms(3-6) by (intro that) (auto simp: charge_def token_count_def split: option.split)
qed

lemma grant_within:
  assumes "reserve_call_mutate b now identifier own inp out replay s = Inr (r, s')"
    and "committed b s c \<le> limit_of (jb_limits b) c" and "c \<in> CALL_COUNTERS"
  shows "committed b s' c \<le> limit_of (jb_limits b) c"
proof (cases r)
  case None
  with assms show ?thesis by (auto dest: refuse_same)
next
  case (Some i)
  with grant_committed assms(1) have g: "committed b s' c = committed b s c + requested inp out replay c"
    "admits b now inp out replay s" by blast+
  from g(2) assms(3) have "committed b s c + requested inp out replay c \<le> limit_of (jb_limits b) c"
    by (auto simp: admits_def CEILINGS_def CALL_COUNTERS_def)
  with g(1) show ?thesis by simp
qed

lemma metered_step_within:
  assumes "metered_step b s s'" and "dicts_ok s" and "committed b s c \<le> limit_of (jb_limits b) c" and "c \<in> CALL_COUNTERS"
  shows "committed b s' c \<le> limit_of (jb_limits b) c"
proof -
  note E = same_entries_committed [of s _ b c]
  from assms(1) show ?thesis
  proof (cases rule: metered_step.cases)
    case (m_call_settled i report sources now dispatched x)
    then obtain u where "transact b sources now (Some (Accounted s)) (settle_mutate i report dispatched) = Inr (u, s')"
      by (auto simp: op_defs rbind_Inr_iff)
    then show ?thesis
    proof (rule transact_committed [OF _ assms(2)])
      fix t t'
      assume t: "ready b now t" "same_entries s t" "settle_mutate i report dispatched t = Inr (u, t')"
      have "committed b t' c \<le> committed b t c"
        by (rule settle_committed [OF t(3) _ _ _ assms(4)]) (use t m_call_settled(1) in \<open>auto simp: ready_def same_entries_def\<close>)
      with E [OF t(2)] assms(3) show "committed b t' c \<le> limit_of (jb_limits b) c" by simp
    qed
  next
    case (m_reconciled sources now own ev dispatched ids)
    then have "transact b sources now (Some (Accounted s)) (reconcile_mutate now own ev dispatched) = Inr (ids, s')"
      by (auto simp: op_defs rbind_Inr_iff)
    then show ?thesis
    proof (rule transact_committed [OF _ assms(2)])
      fix t t'
      assume t: "ready b now t" "same_entries s t" "reconcile_mutate now own ev dispatched t = Inr (ids, t')"
      have "countable t" using t(1) core_countable by (auto simp: ready_def)
      from reconcile_committed [OF t(3) this assms(4), of b] E [OF t(2)] assms(3)
      show "committed b t' c \<le> limit_of (jb_limits b) c" by simp
    qed
  next
    case (m_call_reserved j sources now own inp out replay i)
    then have "transact b sources now (Some (Accounted s)) (reserve_call_mutate b now j own inp out replay) = Inr (i, s')"
      by (auto simp: op_defs rbind_Inr_iff)
    then show ?thesis
    proof (rule transact_committed [OF _ assms(2)])
      fix t t'
      assume t: "same_entries s t" "reserve_call_mutate b now j own inp out replay t = Inr (i, t')"
      from grant_within [OF t(2) _ assms(4)] E [OF t(1)] assms(3)
      show "committed b t' c \<le> limit_of (jb_limits b) c" by simp
    qed
  qed (use assms(3) in \<open>auto simp: op_defs rbind_Inr_iff pause_entries resume_committed reserve_committed
        queries_committed [OF _ assms(4)]
        dest!: transact_keeps_committed [where c = c]\<close>)
qed

lemma new_committed: "new_budget b s \<Longrightarrow> committed b s c = 0"
proof -
  assume "new_budget b s"
  then obtain sources now where "open_budget b sources now None = Inr ((), s)" "sources \<in> {None, Some []}"
    unfolding new_budget_def by blast
  then have s: "s = finish b now (observe b now (initialize_accounting b False (new_ledger b now)))"
    by (auto simp: op_defs transact_def rbind_Inr_iff store_def load_state_def import_none finish_def [symmetric])
  have "committed b s c = committed b (initialize_accounting b False (new_ledger b now)) c"
    unfolding s by (intro same_entries_committed same_entries_trans [OF observe_entries finish_entries])
  also have "\<dots> = 0"
    by (simp add: committed_sum direct_liability_def initialize_accounting_def new_ledger_def no_counts_def base_state.defs budget_state.defs)
  finally show ?thesis .
qed

lemma known_le_committed:
  assumes "core b s" and "dicts_ok s" and "c \<in> CALL_COUNTERS" and "limit_of (jb_limits b) c \<ge> 0"
  shows "tt_known (totals b s) c \<le> committed b s c"
proof -
  have "settled_liability (snd x) c \<ge> 0" if "x \<in> set (bs_settlements s)" for x
  proof -
    obtain i e where x: "x = (i, e)" by (cases x)
    with that have "validate_settlement (bs_ceased_owners s) (i, e) = Inr ()"
      using assms(1) by (simp add: core_def rall_Inr_iff)
    then have "validate_reservation (se_reservation (snd x)) = Inr ()" unfolding x snd_conv
      by (simp add: validate_settlement_def Let_def rseq_Inr_iff)
    then show ?thesis using assms(3)
      by (auto simp: settled_liability_def validate_reservation_def rseq_Inr_iff CALL_COUNTERS_def)
  qed
  then have "(\<Sum>x\<leftarrow>bs_settlements s. settled_liability (snd x) c) \<ge> 0" by (intro sum_list_nonneg) auto
  moreover have "(\<Sum>x\<leftarrow>bs_reservations s. reserved_tokens (snd x) c) \<ge> 0"
    using core_countable [OF assms(1,2)] assms(3)
    by (intro sum_list_nonneg) (auto simp: countable_def reserved_tokens_def CALL_COUNTERS_def)
  moreover have "direct_liability b s c \<ge> 0" using assms(4) by (simp add: direct_liability_def)
  ultimately show ?thesis by (simp add: committed_def Let_def totals_sums)
qed

interpretation metered: transition_system "new_budget b" "metered_step b"
  "\<lambda>s. (validate b s = Inr () \<and> dicts_ok s) \<and>
       (\<forall>c\<in>CALL_COUNTERS. limit_of (jb_limits b) c \<ge> 0 \<longrightarrow> committed b s c \<le> limit_of (jb_limits b) c)" for b
proof
  fix s
  assume n: "new_budget b s"
  show "(validate b s = Inr () \<and> dicts_ok s) \<and>
       (\<forall>c\<in>CALL_COUNTERS. limit_of (jb_limits b) c \<ge> 0 \<longrightarrow> committed b s c \<le> limit_of (jb_limits b) c)"
    using document.initial_inv [OF n] by (simp add: new_committed [OF n])
next
  fix s s'
  assume i: "(validate b s = Inr () \<and> dicts_ok s) \<and>
       (\<forall>c\<in>CALL_COUNTERS. limit_of (jb_limits b) c \<ge> 0 \<longrightarrow> committed b s c \<le> limit_of (jb_limits b) c)"
    and m: "metered_step b s s'"
  show "(validate b s' = Inr () \<and> dicts_ok s') \<and>
       (\<forall>c\<in>CALL_COUNTERS. limit_of (jb_limits b) c \<ge> 0 \<longrightarrow> committed b s' c \<le> limit_of (jb_limits b) c)"
    using document.step_inv [OF _ metered_budget_step [OF m]] metered_step_within [OF m] i by blast
qed

text \<open>
  C17. The budget bounds the spend. From a new budget with no attempt ledgers to import, whatever is
  launched, resumed, paused, reconciled and however many retrieval queries are charged: as long as
  every model call goes through a reservation and no provider report exceeds what was reserved for it,
  the turns, input tokens and output tokens spent, reserved and left unreported never exceed their
  ceilings together, so the known spend does not either.
\<close>

theorem budget_bounds_spend:
  assumes "new_budget b s0" and "(metered_step b)\<^sup>*\<^sup>* s0 s" and "c \<in> CALL_COUNTERS" and "limit_of (jb_limits b) c \<ge> 0"
  shows "committed b s c \<le> limit_of (jb_limits b) c \<and> tt_known (totals b s) c \<le> limit_of (jb_limits b) c"
proof -
  from metered.reachable_inv [OF assms(1,2)] have inv: "validate b s = Inr ()" "dicts_ok s"
    and le: "committed b s c \<le> limit_of (jb_limits b) c" using assms(3,4) by blast+
  from inv(1) have "core b s" by (simp add: validate_iff)
  from known_le_committed [OF this inv(2) assms(3,4)] le show ?thesis by simp
qed

section \<open>Errors\<close>

text \<open>
  C21. When a reservation is refused, and how. On any stored document, at any time the clock has not
  run backwards, with a fresh identifier: a ceased owner and, in active timing, an owner that never
  started are contract errors; otherwise the call is granted exactly when it is admitted, and a
  refusal stores no reservation. No other outcome, and no validation error, is possible.
\<close>

theorem reserve_call_outcome:
  assumes "stored b s" and "tm_last_observed_at (bs_timing s) \<le> now"
    and "evidence_identity own ''owner_id'' = Inr ()" and "evidence_identity i ''reservation_id'' = Inr ()"
    and "inp \<ge> 0" "out \<ge> 0" and "map_of (bs_reservations s) i = None" "map_of (bs_settlements s) i = None"
  shows "reserve_call b None now (Some (Accounted s)) i own inp out replay =
    (if map_of (bs_ceased_owners s) own \<noteq> None
     then Inl (ExecutionContractError ''ceased budget owner cannot dispatch'')
     else if tm_mode (bs_timing s) = ACTIVE_V2 \<and> map_of (tm_owners (bs_timing s)) own = None
     then Inl (ExecutionContractError ''call owner has no active execution'')
     else if admits b now inp out replay (observe b now s)
     then Inr (Some i, finish b now ((observe b now s)\<lparr>bs_reservations := bs_reservations s @
       [(i, \<lparr>rv_owner_id = own, rv_input_tokens = inp, rv_output_tokens = out, rv_replay = replay\<rparr>)]\<rparr>))
     else Inr (None, finish b now (observe b now s)))"
proof -
  have same: "bs_reservations (observe b now s) = bs_reservations s" "bs_settlements (observe b now s) = bs_settlements s"
    "bs_ceased_owners (observe b now s) = bs_ceased_owners s" using observe_entries [of s b now] by (simp_all add: same_entries_def)
  have "transact b None now (Some (Accounted s)) (reserve_call_mutate b now i own inp out replay) =
    rbind (reserve_call_mutate b now i own inp out replay (observe b now s)) (\<lambda>(r, s'). Inr (r, finish b now s'))"
  proof (rule stored_transact [OF assms(1,2)])
    fix r s'
    assume "ready b now (observe b now s)" "reserve_call_mutate b now i own inp out replay (observe b now s) = Inr (r, s')"
    then show "core b s'" using reserve_call_core [OF _ _ assms(3-6)] unfolding ready_def by blast
  qed
  then show ?thesis
    using assms(3,5-8) by (auto simp: reserve_call_def token_count_def reserve_call_mutate_def same update_new rguard_def)
qed

lemma settle_recorded:
  assumes "settle_mutate i report dispatched s = Inr (x, s')"
  obtains e where "map_of (bs_settlements s') i = Some e" "se_dispatched e = dispatched"
    "reported_usage report (rv_replay (se_reservation e)) dispatched = Inr (se_usage e)"
  using assms
  by (cases "map_of (bs_settlements s) i") (auto simp: settle_mutate_def rbind_Inr_iff AList.update_conv' split: option.split_asm)

lemma settle_again:
  assumes "map_of (bs_settlements s) i = Some e" and "stored b s" and "tm_last_observed_at (bs_timing s) \<le> now"
    and "evidence_identity i ''reservation_id'' = Inr ()"
    and "reported_usage report (rv_replay (se_reservation e)) dispatched = Inr u"
  shows "settle_call b None now (Some (Accounted s)) i report dispatched =
    (if se_usage e = u \<and> se_dispatched e = dispatched
     then Inr (exhaustion b (finish b now (observe b now s)) now, finish b now (observe b now s))
     else Inl (ExecutionContractError ''conflicting call settlement''))"
proof -
  have e: "map_of (bs_settlements (observe b now s)) i = Some e"
    using assms(1) observe_entries [of s b now] by (simp add: same_entries_def)
  have "transact b None now (Some (Accounted s)) (settle_mutate i report dispatched) =
    rbind (settle_mutate i report dispatched (observe b now s)) (\<lambda>(r, s'). Inr (r, finish b now s'))"
  proof (rule stored_transact [OF assms(2,3)])
    fix r s'
    assume "ready b now (observe b now s)" "settle_mutate i report dispatched (observe b now s) = Inr (r, s')"
    then show "core b s'" using settle_core unfolding ready_def by blast
  qed
  then show ?thesis using assms(4,5) by (auto simp: settle_call_def settle_mutate_def e rguard_def)
qed

text \<open>
  C18. A call is settled once. After a settlement, repeating it with the same report and dispatch
  flag, at any later time, succeeds and changes no total; repeating it with a report that reads
  differently, or with the other dispatch flag, raises the conflict error.
\<close>

theorem settle_call_once:
  assumes "stored b s" and "settle_call b sources now (Some (Accounted s)) i report dispatched = Inr (x, s')" and "now \<le> later"
  shows "(\<exists>y s''. settle_call b None later (Some (Accounted s')) i report dispatched = Inr (y, s'') \<and>
      totals b s'' = totals b s') \<and>
    (\<forall>report' dispatched' e u. map_of (bs_settlements s') i = Some e \<and>
       reported_usage report' (rv_replay (se_reservation e)) dispatched' = Inr u \<and> (se_usage e \<noteq> u \<or> dispatched' \<noteq> dispatched) \<longrightarrow>
       settle_call b None later (Some (Accounted s')) i report' dispatched' =
         Inl (ExecutionContractError ''conflicting call settlement''))"
proof -
  from assms(2) obtain u where id: "evidence_identity i ''reservation_id'' = Inr ()"
    and t: "transact b sources now (Some (Accounted s)) (settle_mutate i report dispatched) = Inr (u, s')"
    by (auto simp: settle_call_def rbind_Inr_iff)
  from t obtain s1 where s1: "settle_mutate i report dispatched (observe b now s) = Inr (u, s1)" "s' = finish b now s1"
    by (rule transact_elim)
  from s1(1) obtain e where e: "map_of (bs_settlements s1) i = Some e" "se_dispatched e = dispatched"
    "reported_usage report (rv_replay (se_reservation e)) dispatched = Inr (se_usage e)" by (rule settle_recorded)
  have e': "map_of (bs_settlements s') i = Some e" using e(1) finish_entries [of s1 b now] by (simp add: s1(2) same_entries_def)
  have "bs_timing s1 = wait now (bs_timing s)"
    using s1(1) observe_timing [of b now s] by (auto simp: settle_mutate_def rbind_Inr_iff split: option.split_asm)
  then have last: "tm_last_observed_at (bs_timing s') \<le> later" using assms(3) by (simp add: s1(2))
  have st: "stored b s'"
    using assms(1) budget_step.call_settled [OF assms(2)] unfolding stored_def by (meson rtranclp.rtrancl_into_rtrancl)
  have same: "totals b (finish b later (observe b later s')) = totals b s'"
    by (intro same_entries_totals same_entries_trans [OF observe_entries finish_entries])
  show ?thesis
    using settle_again [OF e' st last id e(3)] same e(2) settle_again [OF e' st last id] e' by auto
qed

section \<open>Nothing wedges a budget\<close>

text \<open>
  C20. A budget stays usable. Whatever operations have been stored, at any time the clock has not run
  backwards the budget opens, a launch can be asked for, and any non-negative charge is recorded: no
  stored document is one that validation rejects later.
\<close>

theorem budget_stays_usable:
  assumes "stored b s" and "tm_last_observed_at (bs_timing s) \<le> now"
    and "turns \<ge> 0" "queries \<ge> 0" "\<forall>n. inp = Some n \<longrightarrow> n \<ge> 0" "\<forall>n. out = Some n \<longrightarrow> n \<ge> 0"
  shows "\<exists>s1 s2 s3 launch why. open_budget b None now (Some (Accounted s)) = Inr ((), s1) \<and>
    reserve b None now (Some (Accounted s)) l = Inr (launch, s2) \<and>
    charge b None now (Some (Accounted s)) turns inp out queries = Inr (why, s3)"
proof -
  have "open_budget b None now (Some (Accounted s)) = Inr ((), finish b now (observe b now s))"
    unfolding open_budget_def by (subst stored_transact [OF assms(1,2)]) (simp_all add: ready_def)
  moreover have "reserve b None now (Some (Accounted s)) l =
      rbind (reserve_mutate b now l (observe b now s)) (\<lambda>(r, s'). Inr (r, finish b now s'))"
    unfolding reserve_def
    by (rule stored_transact [OF assms(1,2)]) (auto simp: reserve_mutate_def ready_def reserve_core split: if_split_asm)
  moreover obtain s1 where "charge b None now (Some (Accounted s)) turns inp out queries =
      Inr (exhaustion b (finish b now s1) now, finish b now s1)"
    using charge_recorded [OF assms] by blast
  ultimately show ?thesis by (auto simp: reserve_mutate_def)
qed

section \<open>Exhaustion\<close>

lemma update_exhaustion_keeps: "b_exhausted s = Some c \<Longrightarrow> update_exhaustion b now s = s"
  by (simp add: update_exhaustion_def)

lemma abandon_exhausted: "rfold (abandon ev dispatched) sel s = Inr s' \<Longrightarrow> b_exhausted s' = b_exhausted s"
  by (rule rfold_invariant) (auto simp: abandon_def rbind_Inr_iff split: option.split_asm)

lemma mutations_exhausted:
  "reserve_mutate b now l s = Inr (r, s') \<Longrightarrow> b_exhausted s' = b_exhausted s"
  "charge_mutate turns inp out queries s = Inr (u, s') \<Longrightarrow> b_exhausted s' = b_exhausted s"
  "reserve_call_mutate b now i own inp' out' replay s = Inr (x, s') \<Longrightarrow> b_exhausted s' = b_exhausted s"
  "settle_mutate i report dispatched s = Inr (u, s') \<Longrightarrow> b_exhausted s' = b_exhausted s"
  "resume_mutate now own s = Inr (u, s') \<Longrightarrow> b_exhausted s' = b_exhausted s"
  "pause_mutate now own ev s = Inr (u, s') \<Longrightarrow> b_exhausted s' = b_exhausted s"
  "reconcile_mutate now own ev dispatched s = Inr (ids, s') \<Longrightarrow> b_exhausted s' = b_exhausted s"
  by (auto simp: reserve_mutate_def charge_mutate_def reserve_call_mutate_def settle_mutate_def resume_mutate_def
      pause_mutate_def reconcile_mutate_def Let_def rbind_Inr_iff close_execution_timing dest!: abandon_exhausted
      split: if_split_asm option.split_asm)

lemma transact_exhausted:
  assumes "transact b sources now (Some (Accounted s)) mutate = Inr (r, s')" and "b_exhausted s = Some c"
    and "\<And>t t'. mutate t = Inr (r, t') \<Longrightarrow> b_exhausted t' = b_exhausted t"
  shows "b_exhausted s' = Some c"
proof -
  from assms(1) obtain s1 where s1: "mutate (observe b now s) = Inr (r, s1)" "s' = finish b now s1"
    by (rule transact_elim)
  have "b_exhausted (observe b now s) = Some c" using assms(2) by (simp add: observe_def update_exhaustion_keeps)
  with assms(3) [OF s1(1)] have "b_exhausted s1 = Some c" by simp
  then show ?thesis by (simp add: s1(2) finish_def recount_def update_exhaustion_keeps)
qed

interpretation exhausted: transition_system "\<lambda>s. b_exhausted s = Some c" "budget_step b" "\<lambda>s. b_exhausted s = Some c" for b c
proof
  fix s s'
  assume "b_exhausted s = Some c" "budget_step b s s'"
  then show "b_exhausted s' = Some c"
    by (elim budget_stepE) (auto simp: op_defs rbind_Inr_iff elim!: transact_exhausted dest: mutations_exhausted)
qed

text \<open>
  C22. Exhaustion is sticky. Once a ceiling has stopped a budget, it stays the recorded reason
  through every later operation, and every later request to launch a team is answered with no.
\<close>

theorem exhaustion_sticky:
  assumes "b_exhausted s = Some c" and "(budget_step b)\<^sup>*\<^sup>* s s'"
    and "reserve b sources now (Some (Accounted s')) l = Inr (launch, s'')"
  shows "b_exhausted s' = Some c \<and> \<not> launch"
proof -
  have s': "b_exhausted s' = Some c" by (rule exhausted.run_inv [OF assms(2,1)])
  from assms(3) [unfolded reserve_def] obtain s1 where
    "reserve_mutate b now l (observe b now s') = Inr (launch, s1)" by (rule transact_elim)
  then show ?thesis
    using s' by (auto simp: reserve_mutate_def observe_def update_exhaustion_keeps exhaustion_def)
qed

section \<open>Active time\<close>

definition exact_time :: "budget_state \<Rightarrow> bool" where
  "exact_time s = (union_seconds (bs_timing s) = active_seconds s (tm_last_observed_at (bs_timing s)))"

lemma exact_time_cong: "bs_timing s' = bs_timing s \<Longrightarrow> exact_time s' = exact_time s"
  by (simp add: exact_time_def active_seconds_def)

lemma exact_closed:
  assumes "ready b now s" and "exact_time s" and "bs_timing s' = closed_timing own now (bs_timing s)"
  shows "exact_time s'"
proof -
  have "validate_timing b s = Inr ()" "tm_last_observed_at (bs_timing s) = now" "dict_ok (tm_owners (bs_timing s))"
    using assms(1) by (simp_all add: ready_def core_def dicts_ok_def)
  note K = closed_timing_keeps [OF this refl, of own]
  have "exact_time (s\<lparr>bs_timing := closed_timing own now (bs_timing s)\<rparr>)"
    using assms(2) K(2,3,4) \<open>tm_last_observed_at (bs_timing s) = now\<close> by (simp add: exact_time_def)
  then show ?thesis using exact_time_cong [of s' "s\<lparr>bs_timing := closed_timing own now (bs_timing s)\<rparr>"] assms(3) by simp
qed

lemma exact_observe:
  assumes "validate b s = Inr ()" and "tm_last_observed_at (bs_timing s) \<le> now" and "exact_time s"
  shows "exact_time (observe b now s)"
proof -
  have V: "validate_timing b s = Inr ()" using assms(1) by (simp add: validate_iff core_def)
  note F = validate_timing_facts [OF V refl]
  have "union_seconds (wait now (bs_timing s)) = union_seconds (bs_timing s) +
      (if open_starts (bs_timing s) \<noteq> [] then now - tm_last_observed_at (bs_timing s) else 0)"
    using F(1) assms(2) by (intro union_wait) auto
  with assms(3) F(2) show ?thesis by (auto simp: exact_time_def active_seconds_def split: option.split_asm)
qed

lemma abandon_timing: "rfold (abandon ev dispatched) sel s = Inr s' \<Longrightarrow> bs_timing s' = bs_timing s"
  by (rule rfold_invariant) (auto simp: abandon_def rbind_Inr_iff split: option.split_asm)

lemma mutations_timing:
  "reserve_mutate b now l s = Inr (r, s') \<Longrightarrow> bs_timing s' = bs_timing s"
  "charge_mutate turns inp out queries s = Inr (u, s') \<Longrightarrow> bs_timing s' = bs_timing s"
  "reserve_call_mutate b now i own inp' out' replay s = Inr (x, s') \<Longrightarrow> bs_timing s' = bs_timing s"
  "settle_mutate i report dispatched s = Inr (u, s') \<Longrightarrow> bs_timing s' = bs_timing s"
  "pause_mutate now own ev s = Inr (u, s') \<Longrightarrow> bs_timing s' = bs_timing s \<or> bs_timing s' = closed_timing own now (bs_timing s)"
  "reconcile_mutate now own ev dispatched s = Inr (ids, s') \<Longrightarrow>
     bs_timing s' = bs_timing s \<or> bs_timing s' = closed_timing own now (bs_timing s)"
  by (auto simp: reserve_mutate_def charge_mutate_def reserve_call_mutate_def settle_mutate_def
      pause_mutate_def reconcile_mutate_def Let_def rbind_Inr_iff close_execution_timing dest!: abandon_timing
      split: if_split_asm option.split_asm)

lemma exact_resume:
  assumes "ready b now s" and "exact_time s" and "resume_mutate now own s = Inr (u, s')"
  shows "exact_time s'"
  using assms(3)
proof (cases rule: resume_cases)
  case 2
  have "validate_timing b s = Inr ()" "tm_last_observed_at (bs_timing s) = now"
    using assms(1) by (simp_all add: ready_def core_def)
  note K = resumed_timing_keeps [OF this refl, of own]
  show ?thesis using assms(2) K \<open>tm_last_observed_at (bs_timing s) = now\<close> by (simp add: exact_time_def 2)
qed (use assms(2) in simp)

lemma transact_exact:
  assumes "transact b sources now (Some (Accounted s)) mutate = Inr (r, s')" and "dicts_ok s" and "exact_time s"
    and "\<And>t t'. ready b now t \<Longrightarrow> exact_time t \<Longrightarrow> mutate t = Inr (r, t') \<Longrightarrow> exact_time t'"
  shows "exact_time s'"
proof -
  from assms(1) obtain s1 where v: "validate b s = Inr ()" "tm_last_observed_at (bs_timing s) \<le> now"
    and s1: "mutate (observe b now s) = Inr (r, s1)" "s' = finish b now s1" by (rule transact_elim)
  from assms(4) [OF observe_ready [OF v(1) assms(2) v(2)] exact_observe [OF v assms(3)] s1(1)]
  show ?thesis using exact_time_cong [of s' s1] by (simp add: s1(2))
qed

lemma step_exact:
  assumes "budget_step b s s'" and "dicts_ok s" and "exact_time s"
  shows "exact_time s'"
proof -
  note same = exact_time_cong [THEN iffD2]
  show ?thesis using assms
    by (elim budget_stepE)
      (auto simp: op_defs rbind_Inr_iff elim!: transact_exact
        dest: mutations_timing(1-4) [THEN same] exact_resume mutations_timing(5,6) intro: exact_closed same)
qed

interpretation clocked: transition_system "new_budget b" "budget_step b"
  "\<lambda>s. (validate b s = Inr () \<and> dicts_ok s) \<and> exact_time s" for b
proof
  fix s
  assume n: "new_budget b s"
  then obtain sources now where "open_budget b sources now None = Inr ((), s)" "sources \<in> {None, Some []}"
    unfolding new_budget_def by blast
  then have "bs_timing s = wait now (bs_timing (initialize_accounting b False (new_ledger b now)))"
    by (auto simp: op_defs transact_def rbind_Inr_iff store_def load_state_def import_none finish_def [symmetric])
  then have "exact_time s"
    by (simp add: exact_time_def active_seconds_def union_covered initialize_accounting_def base_state.defs budget_state.defs)
  with document.initial_inv [OF n] show "(validate b s = Inr () \<and> dicts_ok s) \<and> exact_time s" ..
next
  show "(validate b s' = Inr () \<and> dicts_ok s') \<and> exact_time s'"
    if "(validate b s = Inr () \<and> dicts_ok s) \<and> exact_time s" "budget_step b s s'" for s s'
    using that document.step_inv step_exact by blast
qed

text \<open>
  C19. Active time is the union of the owners' intervals. The clock that resuming and pausing keep,
  one accumulated total and one start, agrees exactly with merging the intervals of all owners, open
  ones running to the last observation: overlapping owners are counted once and idle time not at all.
\<close>

theorem active_time_is_union:
  assumes "stored b s"
  shows "active_seconds s (tm_last_observed_at (bs_timing s)) = union_seconds (bs_timing s)"
  using assms clocked.reachable_inv unfolding stored_def exact_time_def by metis

section \<open>A concrete budget\<close>

lemma identity_short: "strip v \<noteq> [] \<Longrightarrow> length v \<le> 1024 \<Longrightarrow> evidence_identity v n = Inr ()"
  by (simp add: evidence_identity_def)

lemma new_core: "now \<ge> 0 \<Longrightarrow> core b (initialize_accounting b False (new_ledger b now))"
  by (auto simp: core_def initialize_accounting_def new_ledger_def base_state.defs budget_state.defs no_counts_def
      validate_accounting_def validate_imports_def validate_owners_def validate_reservations_def rseq_Inr_iff rall_Inr_iff
      counts_def KNOWN_def TOKENS_def USAGE_COUNTERS_def validate_timing_iff open_starts_def union_covered active_seconds_def
      is_close_def BUDGET_SCHEMA_def BUDGET_SCHEMA_V1_def split: option.split)

definition new_state :: "job_budget \<Rightarrow> rat \<Rightarrow> budget_state" where
  "new_state b now = finish b now (observe b now (initialize_accounting b False (new_ledger b now)))"

lemma open_new: "now \<ge> 0 \<Longrightarrow> open_budget b None now None = Inr ((), new_state b now)"
proof -
  assume now: "now \<ge> 0"
  let ?s = "initialize_accounting b False (new_ledger b now)"
  have "\<forall>c\<in>set USAGE_COUNTERS. b_counters ?s c = tt_known (totals b ?s) c"
    by (auto simp: totals_known initialize_accounting_def new_ledger_def base_state.defs budget_state.defs no_counts_def)
  with new_core [OF now] have v: "validate b ?s = Inr ()" by (simp add: validate_iff)
  have last: "tm_last_observed_at (bs_timing ?s) = now"
    by (simp add: initialize_accounting_def new_ledger_def base_state.defs budget_state.defs)
  have "dicts_ok ?s" by (simp add: dicts_ok_def initialize_accounting_def base_state.defs budget_state.defs)
  with observe_ready [OF v] last have "core b (observe b now ?s)" by (simp add: ready_def)
  then have "validate b (new_state b now) = Inr ()" by (simp add: new_state_def finish_valid)
  with v last now show ?thesis
    by (simp add: open_budget_def transact_def load_state_def import_none store_def new_state_def finish_def)
qed

lemma new_initial: "now \<ge> 0 \<Longrightarrow> new_budget b (new_state b now)"
  using open_new unfolding new_budget_def by blast

lemma new_stored: "now \<ge> 0 \<Longrightarrow> stored b (new_state b now)"
  using new_initial unfolding stored_def by blast

text \<open>Three turns, a hundred input and fifty output tokens, ten minutes.\<close>

definition sample_budget :: "timing_mode \<Rightarrow> job_budget" where
  "sample_budget mode =
     \<lparr>jb_limits = \<lparr>budget_team_packages = Some 0, max_model_turns = 3, max_input_tokens = 100, max_output_tokens = 50,
        max_retrieval_queries = 9, timeout_seconds = 600\<rparr>,
      jb_timing_mode = None, jb_new_timing_mode = mode\<rparr>"

lemma sample_new_entries:
  "same_entries (initialize_accounting (sample_budget m) False (new_ledger (sample_budget m) 0)) (new_state (sample_budget m) 0)"
  unfolding new_state_def by (rule same_entries_trans [OF observe_entries finish_entries])

lemma sample_new_fields:
  "bs_reservations (new_state (sample_budget m) 0) = []" "bs_settlements (new_state (sample_budget m) 0) = []"
  "bs_ceased_owners (new_state (sample_budget m) 0) = []" "bs_legacy_imports (new_state (sample_budget m) 0) = []"
  "bs_direct_usage (new_state (sample_budget m) 0) c = 0" "bs_direct_unknown (new_state (sample_budget m) 0) c = 0"
  "bs_timing (new_state (sample_budget m) 0) =
     \<lparr>tm_mode = m, tm_active_seconds = 0, tm_active_since = None, tm_owners = [], tm_last_observed_at = 0\<rparr>"
proof -
  let ?i = "initialize_accounting (sample_budget m) False (new_ledger (sample_budget m) 0)"
  have "bs_reservations ?i = [] \<and> bs_settlements ?i = [] \<and> bs_ceased_owners ?i = [] \<and> bs_legacy_imports ?i = [] \<and>
    bs_direct_usage ?i c = 0 \<and> bs_direct_unknown ?i c = 0 \<and> wait 0 (bs_timing ?i) =
     \<lparr>tm_mode = m, tm_active_seconds = 0, tm_active_since = None, tm_owners = [], tm_last_observed_at = 0\<rparr>"
    by (simp add: initialize_accounting_def new_ledger_def base_state.defs budget_state.defs no_counts_def sample_budget_def wait_def)
  with sample_new_entries [of m] show
    "bs_reservations (new_state (sample_budget m) 0) = []" "bs_settlements (new_state (sample_budget m) 0) = []"
    "bs_ceased_owners (new_state (sample_budget m) 0) = []" "bs_legacy_imports (new_state (sample_budget m) 0) = []"
    "bs_direct_usage (new_state (sample_budget m) 0) c = 0" "bs_direct_unknown (new_state (sample_budget m) 0) c = 0"
    "bs_timing (new_state (sample_budget m) 0) =
       \<lparr>tm_mode = m, tm_active_seconds = 0, tm_active_since = None, tm_owners = [], tm_last_observed_at = 0\<rparr>"
    by (simp_all add: same_entries_def) (simp_all add: new_state_def)
qed

abbreviation wall_budget :: job_budget where
  "wall_budget \<equiv> sample_budget WALL_CLOCK_V1"

lemma new_started: "b_started_at (new_state b now) = now" "b_started_at (observe b t (new_state b now)) = now"
proof -
  have keep: "b_started_at (finish b t s) = b_started_at s" "b_started_at (observe b t s) = b_started_at s" for b t s
    using finish_cases [of b t s] observe_cases [of b t s] by auto
  show "b_started_at (new_state b now) = now" "b_started_at (observe b t (new_state b now)) = now"
    by (simp_all add: keep new_state_def initialize_accounting_def new_ledger_def base_state.defs budget_state.defs)
qed

lemma sample_admits: "admits wall_budget 0 10 5 False (observe wall_budget 0 (new_state wall_budget 0))"
proof -
  let ?s = "observe wall_budget 0 (new_state wall_budget 0)"
  have same: "same_entries (new_state wall_budget 0) ?s" by (rule observe_entries)
  have zero: "committed wall_budget ?s c = 0" "tt_known (totals wall_budget ?s) c = 0" for c
    using same by (simp_all add: committed_sum totals_known direct_liability_def same_entries_def sample_new_fields)
  have "elapsed ?s 0 = 0" by (simp add: elapsed_def new_started sample_new_fields)
  moreover have "bs_direct_unknown ?s c = 0" for c using same by (simp add: same_entries_def sample_new_fields)
  moreover have "limit_of (jb_limits wall_budget) MODEL_TURNS = 3" "limit_of (jb_limits wall_budget) INPUT_TOKENS = 100"
    "limit_of (jb_limits wall_budget) OUTPUT_TOKENS = 50" "limit_of (jb_limits wall_budget) RETRIEVAL_QUERIES = 9"
    "timeout_seconds (jb_limits wall_budget) = 600" by (simp_all add: sample_budget_def)
  ultimately show ?thesis
    by (simp add: admits_def CEILINGS_def zero requested_def del: limit_of.simps)
qed

text \<open>The budget grants the first call.\<close>

theorem reserve_call_outcome_witness:
  "\<exists>s'. reserve_call wall_budget None 0 (Some (Accounted (new_state wall_budget 0))) ''r'' ''w'' 10 5 False = Inr (Some ''r'', s')"
proof -
  have ok: "evidence_identity ''w'' ''owner_id'' = Inr ()" "evidence_identity ''r'' ''reservation_id'' = Inr ()"
    by code_simp+
  show ?thesis
    by (subst reserve_call_outcome [OF new_stored _ ok]) (simp_all add: sample_new_fields sample_admits)
qed

text \<open>The reservation, and its settlement without a report.\<close>

lemma sample_reserved:
  obtains s' where
    "reserve_call wall_budget None 0 (Some (Accounted (new_state wall_budget 0))) ''r'' ''w'' 10 5 False = Inr (Some ''r'', s')"
    "stored wall_budget s'" "map_of (bs_settlements s') ''r'' = None" "tm_last_observed_at (bs_timing s') = 0"
    "map_of (bs_reservations s') ''r'' = Some \<lparr>rv_owner_id = ''w'', rv_input_tokens = 10, rv_output_tokens = 5, rv_replay = False\<rparr>"
proof -
  let ?b = wall_budget and ?n = "new_state wall_budget 0" and
    ?r = "\<lparr>rv_owner_id = ''w'', rv_input_tokens = 10, rv_output_tokens = 5, rv_replay = False\<rparr>"
  let ?s = "finish ?b 0 ((observe ?b 0 ?n)\<lparr>bs_reservations := [(''r'', ?r)]\<rparr>)"
  have ok: "evidence_identity ''w'' ''owner_id'' = Inr ()" "evidence_identity ''r'' ''reservation_id'' = Inr ()"
    by code_simp+
  have o: "bs_reservations (observe ?b 0 ?n) = []" "bs_settlements (observe ?b 0 ?n) = []" "bs_ceased_owners (observe ?b 0 ?n) = []"
    using observe_entries [of ?n ?b 0] by (simp_all add: same_entries_def sample_new_fields)
  have "transact ?b None 0 (Some (Accounted ?n)) (reserve_call_mutate ?b 0 ''r'' ''w'' 10 5 False) =
      rbind (reserve_call_mutate ?b 0 ''r'' ''w'' 10 5 False (observe ?b 0 ?n)) (\<lambda>(r, s'). Inr (r, finish ?b 0 s'))"
  proof (rule stored_transact [OF new_stored])
    fix r s'
    assume "ready ?b 0 (observe ?b 0 ?n)" "reserve_call_mutate ?b 0 ''r'' ''w'' 10 5 False (observe ?b 0 ?n) = Inr (r, s')"
    then show "core ?b s'" using reserve_call_core [OF _ _ ok, of ?b _ 10 5] unfolding ready_def by fastforce
  qed (simp_all add: sample_new_fields)
  then have r: "reserve_call ?b None 0 (Some (Accounted ?n)) ''r'' ''w'' 10 5 False = Inr (Some ''r'', ?s)"
    by (simp add: reserve_call_def ok token_count_def reserve_call_mutate_def o sample_admits sample_new_fields)
  have "stored ?b ?s"
    using new_stored [of 0 ?b] budget_step.call_reserved [OF ok(2) r] unfolding stored_def
    by (auto intro: rtranclp.rtrancl_into_rtrancl)
  moreover have "same_entries ((observe ?b 0 ?n)\<lparr>bs_reservations := [(''r'', ?r)]\<rparr>) ?s" by (rule finish_entries)
  ultimately show ?thesis
    using r o by (intro that [of ?s]) (simp_all add: same_entries_def)
qed

theorem budget_bounds_spend_witness:
  "\<exists>s. (metered_step wall_budget)\<^sup>*\<^sup>* (new_state wall_budget 0) s \<and> bs_reservations s \<noteq> [] \<and>
     bs_direct_usage s RETRIEVAL_QUERIES > 0 \<and>
     committed wall_budget s INPUT_TOKENS \<le> 100 \<and> tt_known (totals wall_budget s) INPUT_TOKENS \<le> 100"
proof -
  let ?b = wall_budget
  obtain s where s: "reserve_call ?b None 0 (Some (Accounted (new_state ?b 0))) ''r'' ''w'' 10 5 False = Inr (Some ''r'', s)"
    "map_of (bs_reservations s) ''r'' = Some \<lparr>rv_owner_id = ''w'', rv_input_tokens = 10, rv_output_tokens = 5, rv_replay = False\<rparr>"
    "stored ?b s" "tm_last_observed_at (bs_timing s) = 0"
    by (rule sample_reserved)
  obtain s1 where s1: "charge_mutate 0 None None 3 (observe ?b 1 s) = Inr ((), s1)"
    "charge ?b None 1 (Some (Accounted s)) 0 None None 3 = Inr (exhaustion ?b (finish ?b 1 s1) 1, finish ?b 1 s1)"
    by (rule charge_recorded [OF s(3), of 1 0 3 None None]) (simp_all add: s(4))
  have "evidence_identity ''r'' ''reservation_id'' = Inr ()" by code_simp
  then have run: "(metered_step ?b)\<^sup>*\<^sup>* (new_state ?b 0) (finish ?b 1 s1)"
    using m_call_reserved [OF _ s(1)] m_queries [OF s1(2)] by (meson r_into_rtranclp rtranclp.rtrancl_into_rtrancl)
  have "core ?b s" using stored_valid [OF s(3)] by (simp add: validate_iff)
  then have "bs_direct_usage s RETRIEVAL_QUERIES \<ge> 0" by (auto simp: core_def validate_accounting_def counts_def KNOWN_def USAGE_COUNTERS_def)
  then have "bs_direct_usage (finish ?b 1 s1) RETRIEVAL_QUERIES > 0" "bs_reservations (finish ?b 1 s1) \<noteq> []"
    using s1(1) s(2) observe_entries [of s ?b 1] finish_entries [of s1 ?b 1]
    by (auto simp: charge_mutate_def Let_def same_entries_def)
  moreover have "limit_of (jb_limits ?b) INPUT_TOKENS = 100" by (simp add: sample_budget_def)
  ultimately show ?thesis
    using budget_bounds_spend [OF new_initial run, of INPUT_TOKENS] run by (auto simp: CALL_COUNTERS_def)
qed

theorem settle_call_once_witness:
  "\<exists>s x s' y s''. stored wall_budget s \<and>
     settle_call wall_budget None 1 (Some (Accounted s)) ''r'' None True = Inr (x, s') \<and>
     settle_call wall_budget None 2 (Some (Accounted s')) ''r'' None True = Inr (y, s'') \<and>
     totals wall_budget s'' = totals wall_budget s'"
proof -
  let ?b = wall_budget
  obtain s where s: "stored ?b s" "tm_last_observed_at (bs_timing s) = 0" "map_of (bs_settlements s) ''r'' = None"
    "map_of (bs_reservations s) ''r'' = Some \<lparr>rv_owner_id = ''w'', rv_input_tokens = 10, rv_output_tokens = 5, rv_replay = False\<rparr>"
    by (rule sample_reserved)
  have ok: "evidence_identity ''r'' ''reservation_id'' = Inr ()" by code_simp
  have o: "bs_settlements (observe ?b 1 s) = bs_settlements s" "bs_reservations (observe ?b 1 s) = bs_reservations s"
    using observe_entries [of s ?b 1] by (simp_all add: same_entries_def)
  have "transact ?b None 1 (Some (Accounted s)) (settle_mutate ''r'' None True) =
      rbind (settle_mutate ''r'' None True (observe ?b 1 s)) (\<lambda>(r, s'). Inr (r, finish ?b 1 s'))"
  proof (rule stored_transact [OF s(1)])
    fix r s'
    assume "ready ?b 1 (observe ?b 1 s)" "settle_mutate ''r'' None True (observe ?b 1 s) = Inr (r, s')"
    then show "core ?b s'" using settle_core by (auto simp: ready_def)
  qed (simp add: s(2))
  moreover have "\<exists>s1. settle_mutate ''r'' None True (observe ?b 1 s) = Inr ((), s1)"
    by (simp add: settle_mutate_def o s(3,4) reported_usage_def given_usage_def Let_def)
  ultimately obtain x s' where x: "settle_call ?b None 1 (Some (Accounted s)) ''r'' None True = Inr (x, s')"
    by (auto simp: settle_call_def ok)
  from settle_call_once [OF s(1) x, of 2] s(1) x show ?thesis by fastforce
qed

theorem budget_stays_usable_witness:
  "\<exists>s1 s2 s3 launch why. open_budget wall_budget None 5 (Some (Accounted (new_state wall_budget 0))) = Inr ((), s1) \<and>
    reserve wall_budget None 5 (Some (Accounted (new_state wall_budget 0))) HUNT = Inr (launch, s2) \<and>
    charge wall_budget None 5 (Some (Accounted (new_state wall_budget 0))) 1 None (Some 7) 2 = Inr (why, s3)"
  by (rule budget_stays_usable [OF new_stored]) (simp_all add: sample_new_fields)

lemma sample_stopped: "b_exhausted (new_state (sample_budget m) 0) = Some BUDGET_TEAM_PACKAGES"
proof -
  let ?b = "sample_budget m"
  let ?i = "initialize_accounting ?b False (new_ledger ?b 0)"
  have "b_exhausted (observe ?b 0 ?i) = Some BUDGET_TEAM_PACKAGES"
    by (simp add: observe_def update_exhaustion_def CEILINGS_def initialize_accounting_def new_ledger_def base_state.defs
        budget_state.defs no_counts_def sample_budget_def lane_members_def)
  then show ?thesis by (simp add: new_state_def finish_def recount_def update_exhaustion_keeps)
qed

theorem exhaustion_sticky_witness:
  "\<exists>s'. reserve wall_budget None 5 (Some (Accounted (new_state wall_budget 0))) HUNT = Inr (False, s')"
proof -
  let ?b = wall_budget and ?n = "new_state wall_budget 0"
  have "transact ?b None 5 (Some (Accounted ?n)) (reserve_mutate ?b 5 HUNT) =
      rbind (reserve_mutate ?b 5 HUNT (observe ?b 5 ?n)) (\<lambda>(r, s'). Inr (r, finish ?b 5 s'))"
    by (rule stored_transact [OF new_stored])
      (auto simp: sample_new_fields ready_def reserve_mutate_def reserve_core split: if_split_asm)
  then obtain r s' where r: "reserve ?b None 5 (Some (Accounted ?n)) HUNT = Inr (r, s')"
    by (cases "exhaustion ?b (observe ?b 5 ?n) 5") (auto simp: reserve_def reserve_mutate_def)
  from exhaustion_sticky [OF sample_stopped rtranclp.rtrancl_refl r] r show ?thesis by auto
qed

theorem active_time_is_union_witness:
  "\<exists>s. stored (sample_budget ACTIVE_V2) s \<and> map fst (tm_owners (bs_timing s)) = [''w''] \<and>
     active_seconds s (tm_last_observed_at (bs_timing s)) = union_seconds (bs_timing s)"
proof -
  let ?b = "sample_budget ACTIVE_V2"
  let ?n = "new_state ?b 0"
  have ok: "evidence_identity ''w'' ''owner_id'' = Inr ()" by code_simp
  have o: "bs_ceased_owners (observe ?b 1 ?n) = []"
    using observe_entries [of ?n ?b 1] by (simp add: same_entries_def sample_new_fields)
  have "transact ?b None 1 (Some (Accounted ?n)) (resume_mutate 1 ''w'') =
      rbind (resume_mutate 1 ''w'' (observe ?b 1 ?n)) (\<lambda>(r, s'). Inr (r, finish ?b 1 s'))"
  proof (rule stored_transact [OF new_stored])
    fix r s'
    assume "ready ?b 1 (observe ?b 1 ?n)" "resume_mutate 1 ''w'' (observe ?b 1 ?n) = Inr (r, s')"
    then show "core ?b s'" using resume_core [OF _ ok] by blast
  qed (simp_all add: sample_new_fields)
  then obtain s where s: "resume_execution ?b None 1 (Some (Accounted ?n)) ''w'' = Inr ((), s)"
    "map fst (tm_owners (bs_timing s)) = [''w'']"
    by (simp add: resume_execution_def ok resume_mutate_def Let_def o sample_new_fields)
  have st: "stored ?b s"
    using new_stored [of 0 ?b] budget_step.resumed [OF s(1)] unfolding stored_def by (auto intro: rtranclp.rtrancl_into_rtrancl)
  show ?thesis by (intro exI [of _ s] conjI st s(2) active_time_is_union [OF st])
qed

end
