(* ===== verification/Claims.thy ===== *)
theory Claims
  imports Projection
begin

text \<open>
  Claim identity normalization (\<open>review/claims.py\<close>): a proposal's entities, weakness, security predicate
  and preconditions in canonical form, and the identity they give. Statement, lane, package and origin
  are not part of it, so that the same condition found twice merges.

  The lookup of the symbol that encloses a span is a parameter.
\<close>

section \<open>Normal forms\<close>

definition CLAIM_IDENTITY_VERSION :: int where
  "CLAIM_IDENTITY_VERSION = 2"

definition SECURITY_PREDICATES_VERSION :: string where
  "SECURITY_PREDICATES_VERSION = ''security-predicates/1''"

text \<open>The pattern \<open>CWE-0*([1-9][0-9]{0,5})\<close> on a whole string, with its group.\<close>

definition match_cwe :: "string \<Rightarrow> string option" where
  "match_cwe t =
     (let ds = dropWhile (\<lambda>c. c = CHR ''0'') (drop 4 t)
      in if starts_with ''CWE-'' t \<and> ds \<noteq> [] \<and> list_all is_digit ds \<and> length ds \<le> 6 then Some ds else None)"

definition normalize_cwe :: "string \<Rightarrow> string option" where
  "normalize_cwe v =
     (let t = map upper_char (concat (py_split v));
          t = (if t \<noteq> [] \<and> list_all is_digit t then ''CWE-'' @ t else t)
      in map_option (\<lambda>ds. ''CWE-'' @ ds) (match_cwe t))"

definition is_separator :: "char \<Rightarrow> bool" where
  "is_separator c = (is_space c \<or> c = CHR ''-'')"

text \<open>Every run of separators becomes one underscore.\<close>

function underscore :: "string \<Rightarrow> string" where
  "underscore [] = []"
| "underscore (c # cs) =
     (if is_separator c then CHR ''_'' # underscore (dropWhile is_separator cs) else c # underscore cs)"
  by pat_completeness auto
termination
  by (relation "measure length") (auto simp: le_imp_less_Suc length_dropWhile_le)

definition normalize_security_predicate :: "string \<Rightarrow> security_predicate \<times> bool" where
  "normalize_security_predicate v =
     (case enum_of security_predicate_members security_predicate_value (underscore (lower (strip v))) of
        Inr p \<Rightarrow> (p, True) | Inl _ \<Rightarrow> (SP_OTHER, False))"

type_synonym symbol_lookup = "string \<Rightarrow> string option"

definition normalize_entity :: "symbol_lookup option \<Rightarrow> string \<Rightarrow> string res" where
  "normalize_entity lookup v =
     rbind (parse_identity (strip v)) (\<lambda>i.
       case (if li_kind i = EK_SOURCE_SPAN then Option.bind lookup (\<lambda>f. f (li_value i)) else None) of
         None \<Rightarrow> Inr (li_value i)
       | Some symbol \<Rightarrow>
           rbind (parse_identity symbol) (\<lambda>r.
           rbind (rguard (li_kind r = EK_SYMBOL) (ValueError ''enclosing symbol lookup returned a non-symbol identity'')) (\<lambda>_.
             Inr (li_value r))))"

definition normalize_entities :: "symbol_lookup option \<Rightarrow> string list \<Rightarrow> string list res" where
  "normalize_entities lookup entities =
     rbind (rmap (normalize_entity lookup) entities) (\<lambda>vs.
     rbind (rguard (vs \<noteq> []) (ValueError ''a claim requires at least one affected entity'')) (\<lambda>_.
       Inr (sorted_set vs)))"

section \<open>Identity\<close>

definition claim_body :: "string list \<Rightarrow> string option \<Rightarrow> security_predicate \<Rightarrow> string list \<Rightarrow> json" where
  "claim_body entities cwe sp preconditions =
     jobj [(''affected_entities'', JArr (map JStr entities)), (''weakness_cwe'', opt_json cwe),
           (''security_predicate'', JStr (security_predicate_value sp)),
           (''security_predicates'', JStr SECURITY_PREDICATES_VERSION),
           (''preconditions'', JArr (map JStr preconditions))]"

definition claim_identity :: "hash \<Rightarrow> string list \<Rightarrow> string option \<Rightarrow> security_predicate \<Rightarrow> string list \<Rightarrow> string" where
  "claim_identity H entities cwe sp preconditions =
     id_of H ''claim'' CLAIM_IDENTITY_VERSION (claim_body entities cwe sp preconditions)"

text \<open>The weakness kept, and whether one was given and dropped.\<close>

definition accepted_cwe :: "string list \<Rightarrow> string option \<Rightarrow> string option \<times> bool" where
  "accepted_cwe accepted_ids cwe =
     (case cwe of
        None \<Rightarrow> (None, False)
      | Some v \<Rightarrow>
          if strip v = [] then (None, False)
          else (case normalize_cwe v of
                  None \<Rightarrow> (None, True)
                | Some w \<Rightarrow> if w \<in> set (List.map_filter normalize_cwe accepted_ids) then (Some w, False) else (None, True)))"

record proposal_input =
  in_lane :: lane
  in_package_id :: string
  in_affected_entities :: "string list"
  in_weakness_cwe :: "string option"
  in_security_predicate :: string
  in_preconditions :: "string list"
  in_statement :: string
  in_origin_cell_ids :: "string list"
  in_round :: int

definition normalize_claim ::
  "hash \<Rightarrow> string list \<Rightarrow> symbol_lookup option \<Rightarrow> proposal_input \<Rightarrow> (claim \<times> gap list) res" where
  "normalize_claim H accepted_ids lookup i =
     rbind (normalize_entities lookup (in_affected_entities i)) (\<lambda>entities.
       let (sp, known) = normalize_security_predicate (in_security_predicate i)
       in rbind (rmap parse_precondition (in_preconditions i)) (\<lambda>parsed.
            let conditions = sorted_set (map precondition_value parsed);
                (cwe, rejected) = accepted_cwe accepted_ids (in_weakness_cwe i);
                claim_id = claim_identity H entities cwe sp conditions;
                gaps = (if rejected then [make_gap H GC_EVIDENCE_GAP claim_id
                          ''weakness is not an accepted CWE reference identity'' None (in_round i)] else []) @
                       (if \<not> known then [make_gap H GC_EVIDENCE_GAP claim_id
                          (''security predicate is not a '' @ SECURITY_PREDICATES_VERSION @ '' member; normalized to other'')
                          None (in_round i)] else [])
            in Inr (\<lparr>c_claim_id = claim_id, c_lane = in_lane i, c_package_id = in_package_id i,
                     c_affected_entities = entities, c_weakness_cwe = cwe, c_security_predicate = sp,
                     c_preconditions = conditions, c_statement = squeeze (in_statement i), c_state = PROPOSED,
                     c_duplicate_of = None, c_origin_cell_ids = sorted_set (in_origin_cell_ids i)\<rparr>, gaps)))"

section \<open>Possible duplicates\<close>

fun nominate :: "claim list \<Rightarrow> (string \<times> string) list" where
  "nominate [] = []"
| "nominate (left # rest) =
     map (\<lambda>right. (c_claim_id left, c_claim_id right))
       (filter (\<lambda>right. c_weakness_cwe left \<noteq> c_weakness_cwe right \<and>
          set (c_affected_entities left) \<inter> set (c_affected_entities right) \<noteq> {}) rest) @
     nominate rest"

definition possible_duplicates :: "claim list \<Rightarrow> (string \<times> string) list" where
  "possible_duplicates claims =
     nominate (map snd (sort_key fst (fold (\<lambda>c. AList.update (c_claim_id c) c) claims [])))"

section \<open>What the identity covers\<close>

lemma map_JStr_inj: "map JStr xs = map JStr ys \<longleftrightarrow> xs = ys"
  by (metis inj_onI json.inject(3) inj_map_eq_map)

lemma opt_json_inj: "opt_json a = opt_json b \<longleftrightarrow> a = b"
  by (simp add: opt_json_def split: option.split)

lemma claim_body_inj:
  "claim_body es cwe sp pcs = claim_body es' cwe' sp' pcs' \<longleftrightarrow> es = es' \<and> cwe = cwe' \<and> sp = sp' \<and> pcs = pcs'"
proof
  assume eq: "claim_body es cwe sp pcs = claim_body es' cwe' sp' pcs'"
  have get: "jget k (claim_body es cwe sp pcs) = jget k (claim_body es' cwe' sp' pcs')" for k using eq by simp
  show "es = es' \<and> cwe = cwe' \<and> sp = sp' \<and> pcs = pcs'"
    using get [of "''affected_entities''"] get [of "''weakness_cwe''"] get [of "''security_predicate''"] get [of "''preconditions''"]
    by (simp add: claim_body_def security_predicate_enum.val_inj map_JStr_inj opt_json_inj)
qed simp

text \<open>The document the identity is the digest of.\<close>

definition identity_document :: "claim \<Rightarrow> json" where
  "identity_document c =
     jobj [(''kind'', JStr ''claim''), (''version'', JInt CLAIM_IDENTITY_VERSION),
       (''body'', claim_body (c_affected_entities c) (c_weakness_cwe c) (c_security_predicate c) (c_preconditions c))]"

lemma normalized_identity:
  assumes "normalize_claim H ids lookup i = Inr (c, gs)"
  shows "c_claim_id c = ''claim-'' @ H (identity_document c)"
  using assms
  by (auto simp: normalize_claim_def rbind_Inr_iff Let_def claim_identity_def id_of_def make_id_def PREFIXES_def
      identity_document_def CLAIM_IDENTITY_VERSION_def case_prod_unfold)

lemma identity_document_inj: "identity_document c = identity_document c' \<longleftrightarrow> same_identity c c'"
proof -
  have "identity_document c = identity_document c' \<longleftrightarrow>
      claim_body (c_affected_entities c) (c_weakness_cwe c) (c_security_predicate c) (c_preconditions c) =
      claim_body (c_affected_entities c') (c_weakness_cwe c') (c_security_predicate c') (c_preconditions c')"
  proof
    assume "identity_document c = identity_document c'"
    then have "jget ''body'' (identity_document c) = jget ''body'' (identity_document c')" by simp
    then show "claim_body (c_affected_entities c) (c_weakness_cwe c) (c_security_predicate c) (c_preconditions c) =
      claim_body (c_affected_entities c') (c_weakness_cwe c') (c_security_predicate c') (c_preconditions c')"
      by (simp add: identity_document_def)
  qed (simp add: identity_document_def)
  then show ?thesis by (simp add: claim_body_inj same_identity_def)
qed

text \<open>
  C15. The claim identity is exactly the condition claimed. Two normalized proposals, from whatever lanes,
  packages and statements, have the same claim identity if and only if they agree on affected entities,
  weakness, security predicate and preconditions, as long as the digest does not collide on their two
  identity documents. So merging proposals by identity never meets unequal content.
\<close>

theorem claim_identity_exact:
  assumes "normalize_claim H ids lookup i = Inr (c, gs)" and "normalize_claim H ids' lookup' i' = Inr (c', gs')"
    and "no_collision H {identity_document c, identity_document c'}"
  shows "c_claim_id c = c_claim_id c' \<longleftrightarrow> same_identity c c'"
  using assms(3) normalized_identity [OF assms(1)] normalized_identity [OF assms(2)] identity_document_inj [of c c']
  by (auto simp: no_collision_def)

section \<open>Canonical weaknesses\<close>

lemma split_ws_word: "w \<noteq> [] \<or> cs \<noteq> [] \<Longrightarrow> list_all (\<lambda>c. \<not> is_space c) cs \<Longrightarrow> split_ws w cs = [rev w @ cs]"
  by (induction cs arbitrary: w) auto

lemma digit_chars:
  assumes "is_digit c"
  shows "\<not> is_space c" "upper_char c = c"
  using assms by (auto simp: is_digit_def is_space_def upper_char_def Let_def)

lemma match_cwe_digits:
  assumes "match_cwe t = Some ds"
  shows "ds \<noteq> []" "list_all is_digit ds" "length ds \<le> 6" "hd ds \<noteq> CHR ''0''"
  using assms hd_dropWhile [of "\<lambda>c. c = CHR ''0''" "drop 4 t"] by (auto simp: match_cwe_def Let_def split: if_splits)

text \<open>A normalized weakness normalizes to itself.\<close>

lemma normalize_cwe_canonical:
  assumes "normalize_cwe v = Some w"
  shows "normalize_cwe w = Some w"
proof -
  from assms obtain t ds where m: "match_cwe t = Some ds" and w: "w = ''CWE-'' @ ds" by (auto simp: normalize_cwe_def Let_def)
  note ds = match_cwe_digits [OF m]
  have "list_all (\<lambda>c. \<not> is_space c) w" using ds(2) digit_chars(1) by (auto simp: w list_all_iff is_space_def)
  then have "py_split w = [w]" using split_ws_word [of "[]" w] by (simp add: py_split_def w)
  moreover have "map upper_char w = w" using ds(2) digit_chars(2) by (auto simp: w list_all_iff upper_char_def Let_def intro: map_idI)
  moreover have "\<not> list_all is_digit w" by (simp add: w is_digit_def)
  moreover have "dropWhile (\<lambda>c. c = CHR ''0'') ds = ds" using ds(1,4) by (cases ds) auto
  then have "match_cwe w = Some ds" using ds by (simp add: match_cwe_def w starts_with_def)
  ultimately show ?thesis by (auto simp: normalize_cwe_def Let_def w)
qed

lemma accepted_cwe_canonical: "accepted_cwe ids cwe = (Some w, b) \<Longrightarrow> normalize_cwe w = Some w"
  by (auto simp: accepted_cwe_def split: option.splits if_splits intro: normalize_cwe_canonical)

lemma normalized_weakness:
  assumes "normalize_claim H ids lookup i = Inr (c, gs)" "c_weakness_cwe c = Some w"
  shows "normalize_cwe w = Some w"
proof -
  from assms have "fst (accepted_cwe ids (in_weakness_cwe i)) = Some w"
    by (auto simp: normalize_claim_def rbind_Inr_iff Let_def case_prod_unfold)
  then show ?thesis by (metis accepted_cwe_canonical prod.collapse)
qed

section \<open>What the identity does not depend on\<close>

lemma rmap_sets:
  assumes "rmap f xs = Inr ys" "set xs' = set xs"
  obtains ys' where "rmap f xs' = Inr ys'" "set ys' = set ys"
proof -
  from assms(1) have ok: "\<forall>x\<in>set xs. f x = Inr (projr (f x))" and ys: "ys = map (projr \<circ> f) xs"
    by (induction xs arbitrary: ys) (auto simp: rbind_Inr_iff)
  with assms(2) have "rmap f xs' = Inr (map (projr \<circ> f) xs')" by (intro rmap_pure) simp
  with ys assms(2) that show thesis by simp
qed

text \<open>Proposals that list the same entities and preconditions, in any order and as often as they like.\<close>

lemma identity_order_independent:
  assumes "normalize_claim H ids lookup i = Inr (c, gs)"
    and "set (in_affected_entities i') = set (in_affected_entities i)" "set (in_preconditions i') = set (in_preconditions i)"
    and "in_weakness_cwe i' = in_weakness_cwe i" "in_security_predicate i' = in_security_predicate i"
  obtains c' gs' where "normalize_claim H ids lookup i' = Inr (c', gs')" "c_claim_id c' = c_claim_id c"
proof -
  from assms(1) obtain vs parsed where vs: "rmap (normalize_entity lookup) (in_affected_entities i) = Inr vs" "vs \<noteq> []"
    and parsed: "rmap parse_precondition (in_preconditions i) = Inr parsed"
    and c: "c_claim_id c = claim_identity H (sorted_set vs) (fst (accepted_cwe ids (in_weakness_cwe i)))
      (fst (normalize_security_predicate (in_security_predicate i))) (sorted_set (map precondition_value parsed))"
    by (auto simp: normalize_claim_def normalize_entities_def rbind_Inr_iff Let_def case_prod_unfold)
  obtain vs' where vs': "rmap (normalize_entity lookup) (in_affected_entities i') = Inr vs'" "set vs' = set vs"
    by (rule rmap_sets [OF vs(1) assms(2)])
  obtain parsed' where parsed': "rmap parse_precondition (in_preconditions i') = Inr parsed'" "set parsed' = set parsed"
    by (rule rmap_sets [OF parsed assms(3)])
  have same: "sorted_set vs' = sorted_set vs" "sorted_set (map precondition_value parsed') = sorted_set (map precondition_value parsed)"
    by (rule sorted_set_cong; simp add: vs' parsed')+
  have "vs' \<noteq> []" using vs(2) vs'(2) by auto
  with same obtain c' gs' where c': "normalize_claim H ids lookup i' = Inr (c', gs')" "c_claim_id c' = c_claim_id c"
    by (simp add: normalize_claim_def normalize_entities_def vs' parsed' assms(4,5) c case_prod_unfold Let_def)
  then show thesis by (rule that)
qed

definition sample_input :: "lane \<Rightarrow> string list \<Rightarrow> proposal_input" where
  "sample_input l entities =
     \<lparr>in_lane = l, in_package_id = ''p'', in_affected_entities = entities, in_weakness_cwe = Some '' cwe-0120 '',
      in_security_predicate = ''Memory-Corruption'', in_preconditions = [], in_statement = ''s'', in_origin_cell_ids = [], in_round = 0\<rparr>"

definition sample_entity :: "char \<Rightarrow> string" where
  "sample_entity c = ''asr:symbol:'' @ replicate 64 c"

text \<open>The same condition found in both lanes.\<close>

theorem claim_identity_exact_witness:
  "\<exists>c gs c' gs'. normalize_claim (\<lambda>_. ''h'') [''CWE-120''] None (sample_input LEAD [sample_entity CHR ''a'']) = Inr (c, gs) \<and>
     normalize_claim (\<lambda>_. ''h'') [''CWE-120''] None (sample_input HUNT [sample_entity CHR ''a'']) = Inr (c', gs') \<and>
     c_claim_id c = c_claim_id c' \<and> c_lane c \<noteq> c_lane c' \<and> c_weakness_cwe c = Some ''CWE-120''"
proof -
  let ?N = "\<lambda>l. normalize_claim (\<lambda>_. ''h'') [''CWE-120''] None (sample_input l [sample_entity CHR ''a''])"
  have "case (?N LEAD, ?N HUNT) of
      (Inr (c, _), Inr (c', _)) \<Rightarrow> same_identity c c' \<and> c_lane c = LEAD \<and> c_lane c' = HUNT \<and> c_weakness_cwe c = Some ''CWE-120''
    | _ \<Rightarrow> False"
    by code_simp
  then obtain c gs c' gs' where N: "?N LEAD = Inr (c, gs)" "?N HUNT = Inr (c', gs')"
    and s: "same_identity c c'" "c_lane c \<noteq> c_lane c'" "c_weakness_cwe c = Some ''CWE-120''"
    by (auto split: sum.splits)
  from s(1) have "identity_document c = identity_document c'" by (simp add: identity_document_inj)
  then have "no_collision (\<lambda>_. ''h'') {identity_document c, identity_document c'}" by (simp add: no_collision_def)
  with claim_identity_exact [OF N this] N s show ?thesis by blast
qed

end
