(* ===== verification/Cwe_Impact.thy ===== *)
theory Cwe_Impact
  imports Claims Risk_Model
begin

text \<open>
  The CWE impact class (\<open>review/scoring/cwe_impact.py\<close>) and the \<open>impact_class\<close> extractor
  (\<open>review/scoring/factors.py\<close>): overrides, derivation from the pinned catalog's consequences, and the
  reasons of a missing class. What was read from the catalog's database is a record with the fields
  scoring uses (\<open>review/references.py\<close>).

  The theory shows that a derived class is the highest its consequences allow, rests on at least one of
  them, and never falls when consequences are added.
\<close>

section \<open>Rules\<close>

definition DERIVATION_RULE :: string where
  "DERIVATION_RULE = ''cwe-impact-derivation/1''"

definition OVERRIDE_KEY :: string where
  "OVERRIDE_KEY = ''cwe_impact_overrides''"

definition MAX_REASON_CHARS :: nat where
  "MAX_REASON_CHARS = 200"

definition IMPACT_RULES :: "(string, string) dict" where
  "IMPACT_RULES =
     [(''execute unauthorized code or commands'', ''critical''), (''modify memory'', ''high''),
      (''gain privileges or assume identity'', ''high''), (''bypass protection mechanism'', ''high''),
      (''modify application data'', ''high''), (''modify files or directories'', ''high''),
      (''read memory'', ''medium''), (''read application data'', ''medium''), (''read files or directories'', ''medium''),
      (''alter execution logic'', ''medium''), (''dos: crash, exit, or restart'', ''medium''), (''dos: instability'', ''medium''),
      (''dos: amplification'', ''medium''), (''dos: resource consumption (cpu)'', ''medium''),
      (''dos: resource consumption (memory)'', ''medium''), (''dos: resource consumption (other)'', ''medium''),
      (''hide activities'', ''low''), (''unexpected state'', ''low''), (''quality degradation'', ''low''),
      (''reduce performance'', ''low''), (''reduce reliability'', ''low''), (''reduce maintainability'', ''low'')]"

definition READ_IMPACTS :: "string list" where
  "READ_IMPACTS = [''read memory'', ''read application data'', ''read files or directories'']"

text \<open>An optional string inside an f-string.\<close>

definition opt_text :: "string option \<Rightarrow> string" where
  "opt_text v = (case v of None \<Rightarrow> ''None'' | Some s \<Rightarrow> s)"

section \<open>Overrides and catalog\<close>

record impact_override =
  io_impact_class :: string
  io_reason :: string

definition mk_override :: "string \<Rightarrow> string \<Rightarrow> impact_override res" where
  "mk_override impact reason =
     rbind (rguard (impact \<in> set IMPACT_CLASSES) (ValueError ''impact class must be one of: low, medium, high, critical'')) (\<lambda>_.
       Inr \<lparr>io_impact_class = impact, io_reason = take MAX_REASON_CHARS (squeeze reason)\<rparr>)"

text \<open>An entry of the configured table is an override with its reason, or only a class.\<close>

datatype override_entry =
    Reasoned string string
  | Plain string

fun entry_override :: "override_entry \<Rightarrow> impact_override res" where
  "entry_override (Reasoned impact reason) = mk_override impact reason"
| "entry_override (Plain impact) = mk_override impact []"

definition override_step ::
  "string \<times> override_entry \<Rightarrow> (string, impact_override) dict \<Rightarrow> (string, impact_override) dict res" where
  "override_step item table =
     (let (cwe, entry) = item
      in rbind (entry_override entry) (\<lambda>ov.
         case normalize_cwe cwe of
           None \<Rightarrow> Inl (ValueError (''invalid CWE impact override entry: '' @ cwe))
         | Some c \<Rightarrow>
             rbind (rguard (map_of table c \<in> {None, Some ov}) (ValueError (''conflicting CWE impact override entries: '' @ c))) (\<lambda>_.
               Inr (AList.update c ov table))))"

definition overrides_table :: "(string, override_entry) dict \<Rightarrow> (string, impact_override) dict res" where
  "overrides_table raw = rbind (rfold override_step raw []) (\<lambda>table. Inr (sort_key fst table))"

record consequence =
  cq_ordinal :: int
  cq_scopes :: "string list"
  cq_impacts :: "string list"

record cwe_reference =
  cr_source :: string
  cr_entries :: "(string, consequence list) dict"
  cr_snapshot_id :: "string option"
  cr_manifest_sha256 :: "string option"
  cr_version :: "string option"
  cr_gap :: "string option"
  cr_stale :: bool
  cr_consequences_indexed :: bool

record impact_catalog =
  ic_status :: string
  ic_consequences :: "(string, consequence list) dict"
  ic_snapshot_id :: "string option"
  ic_manifest_sha256 :: "string option"
  ic_version :: "string option"
  ic_gap :: "string option"

definition mk_catalog ::
  "string \<Rightarrow> (string, consequence list) dict \<Rightarrow> string option \<Rightarrow> string option \<Rightarrow> string option \<Rightarrow> string option \<Rightarrow>
   impact_catalog res" where
  "mk_catalog status consequences snapshot_id manifest version gap =
     rbind (rchecks
       [(status \<in> {''current'', ''stale'', ''unavailable''}, ''unknown impact catalog status: '' @ status),
        (status = ''unavailable'' \<or> snapshot_id \<notin> {None, Some []}, ''an available impact catalog needs its snapshot id''),
        (status = ''current'' \<or> gap \<notin> {None, Some []}, ''a stale or unavailable impact catalog needs its gap'')]) (\<lambda>_.
       Inr \<lparr>ic_status = status, ic_consequences = sort_key fst consequences, ic_snapshot_id = snapshot_id,
            ic_manifest_sha256 = manifest, ic_version = version, ic_gap = gap\<rparr>)"

text \<open>\<open>reference.gap or default\<close>.\<close>

definition gap_or :: "string option \<Rightarrow> string \<Rightarrow> string" where
  "gap_or gap d = (case gap of None \<Rightarrow> d | Some g \<Rightarrow> if g = [] then d else g)"

definition from_reference :: "cwe_reference \<Rightarrow> impact_catalog res" where
  "from_reference r =
     (let build = (\<lambda>status consequences gap.
            mk_catalog status consequences (cr_snapshot_id r) (cr_manifest_sha256 r) (cr_version r) gap);
          available = (\<lambda>status gap.
            if \<not> cr_consequences_indexed r
            then build ''unavailable'' [] (Some (''mitre_consequences_unavailable: the pinned MITRE index predates '' @
                   ''mitre-index/2 and records no CWE Common_Consequences''))
            else build status (cr_entries r) gap)
      in if cr_source r = ''mitre_catalog'' then available ''current'' None
         else if cr_stale r \<and> cr_entries r \<noteq> [] then available ''stale'' (Some (gap_or (cr_gap r) ''mitre_stale_feed''))
         else build ''unavailable'' [] (Some (gap_or (cr_gap r) ''mitre_feed_unavailable'')))"

definition UNAVAILABLE_CATALOG :: impact_catalog where
  "UNAVAILABLE_CATALOG =
     \<lparr>ic_status = ''unavailable'', ic_consequences = [], ic_snapshot_id = None, ic_manifest_sha256 = None, ic_version = None,
      ic_gap = Some (''mitre_feed_unavailable: no pinned MITRE CWE catalog was '' @ ''supplied to scoring'')\<rparr>"

section \<open>Derivation\<close>

text \<open>
  \<open>str.casefold\<close> below code point 256: letters are lowered and sharp s expands. (The micro sign folds
  to a Greek letter; neither occurs in a rule.)
\<close>

definition casefold :: "string \<Rightarrow> string" where
  "casefold s = concat (map (\<lambda>c. if (of_char c :: nat) = 223 then ''ss'' else [lower_char c]) s)"

definition impact_key :: "string \<Rightarrow> string" where
  "impact_key impact = casefold (squeeze impact)"

definition integrity_scoped :: "consequence \<Rightarrow> bool" where
  "integrity_scoped q =
     (list_ex (\<lambda>s. casefold (strip s) = ''integrity'') (cq_scopes q) \<and>
      \<not> list_all (\<lambda>i. map_of IMPACT_RULES (impact_key i) = Some ''low'') (cq_impacts q))"

record scored_impact =
  si_index :: nat
  si_consequence :: consequence
  si_impact :: string
  si_raised :: bool

definition score_impact :: "consequence list \<Rightarrow> consequence \<Rightarrow> string \<Rightarrow> scored_impact option" where
  "score_impact qs q i =
     (case map_of IMPACT_RULES (impact_key i) of
        None \<Rightarrow> None
      | Some v \<Rightarrow>
          let raised = (impact_key i \<in> set READ_IMPACTS \<and> list_ex integrity_scoped qs)
          in Some \<lparr>si_index = enum_index IMPACT_CLASSES (if raised then ''high'' else v), si_consequence = q,
                   si_impact = i, si_raised = raised\<rparr>)"

definition score_impacts :: "consequence list \<Rightarrow> scored_impact list" where
  "score_impacts qs = concat (map (\<lambda>q. List.map_filter (score_impact qs q) (cq_impacts q)) qs)"

record derivation =
  dv_impact_class :: string
  dv_consequences :: "consequence list"
  dv_impacts :: "string list"
  dv_scopes :: "string list"
  dv_integrity_raised :: bool

definition derive :: "consequence list \<Rightarrow> derivation option" where
  "derive qs =
     (let scored = score_impacts qs
      in if scored = [] then None
         else let best = fold max (map si_index scored) 0;
                  winners = filter (\<lambda>s. si_index s = best) scored;
                  raised = list_ex si_raised winners;
                  cited = fold (\<lambda>q. AList.update (cq_ordinal q) q)
                            (map si_consequence winners @ (if raised then filter integrity_scoped qs else [])) [];
                  chosen = map snd (sort_key fst cited)
              in Some \<lparr>dv_impact_class = IMPACT_CLASSES ! best, dv_consequences = chosen,
                   dv_impacts = sorted_set (map si_impact winners), dv_scopes = sorted_set (concat (map cq_scopes chosen)),
                   dv_integrity_raised = raised\<rparr>)"

section \<open>The extractor\<close>

record impact_extractor =
  ie_overrides :: "(string, impact_override) dict"
  ie_catalog :: impact_catalog

definition mk_impact_extractor :: "(string, override_entry) dict \<Rightarrow> impact_catalog option \<Rightarrow> impact_extractor res" where
  "mk_impact_extractor raw catalog =
     rbind (overrides_table raw) (\<lambda>table.
       Inr \<lparr>ie_overrides = table, ie_catalog = (case catalog of None \<Rightarrow> UNAVAILABLE_CATALOG | Some c \<Rightarrow> c)\<rparr>)"

definition derive_class :: "impact_catalog \<Rightarrow> string \<Rightarrow> derivation option \<times> string" where
  "derive_class catalog cwe =
     (if ic_status catalog = ''unavailable''
      then (None, take 400 (''impact_class not derived: '' @ opt_text (ic_gap catalog)))
      else case map_of (ic_consequences catalog) cwe of
        None \<Rightarrow> (None, cwe @ '' is not a weakness in the pinned MITRE CWE catalog '' @ opt_text (ic_snapshot_id catalog) @
                   '' and has no '' @ OVERRIDE_KEY @ '' entry'')
      | Some qs \<Rightarrow>
          if qs = [] then (None, cwe @ '' has no Common_Consequences in the pinned MITRE CWE catalog '' @
                   opt_text (ic_snapshot_id catalog) @ '' and no '' @ OVERRIDE_KEY @ '' entry'')
          else (case derive qs of
                  None \<Rightarrow>
                    let text = take 200 (join '', '' (sorted_set (concat (map cq_impacts qs))))
                    in (None, ''no technical impact of '' @ cwe @ '' ('' @ (if text = [] then ''none'' else text) @
                          '') is mapped by '' @ DERIVATION_RULE @ '', and it has no '' @ OVERRIDE_KEY @ '' entry'')
                | Some dv \<Rightarrow> (Some dv, [])))"

definition consequence_reference :: "impact_catalog \<Rightarrow> string \<Rightarrow> consequence \<Rightarrow> string" where
  "consequence_reference catalog cwe q =
     ''mitre-cwe:'' @ opt_text (ic_snapshot_id catalog) @ '':'' @ cwe @ '':consequence/'' @ int_str (cq_ordinal q)"

definition catalog_detail :: "impact_catalog \<Rightarrow> (string, string list) dict" where
  "catalog_detail catalog =
     (if ic_status catalog = ''unavailable'' then []
      else [(''catalog_snapshot'', [opt_text (ic_snapshot_id catalog)]), (''catalog_status'', [ic_status catalog])] @
           (if ic_gap catalog \<in> {None, Some []} then [] else [(''catalog_gap'', [take 200 (opt_text (ic_gap catalog))])]))"

datatype factor_outcome =
    Present factor_value
  | Missing missing_factor

definition extract_cwe :: "impact_extractor \<Rightarrow> string option \<Rightarrow> factor_outcome res" where
  "extract_cwe S cwe =
     (case cwe of
        None \<Rightarrow> Inr (Missing \<lparr>mf_factor = FI_IMPACT_CLASS, mf_reason = ''claim has no weakness CWE''\<rparr>)
      | Some c \<Rightarrow>
          let catalog = ie_catalog S; (derived, reason) = derive_class catalog c
          in (case map_of (ie_overrides S) c of
                Some ov \<Rightarrow>
                  rbind (mk_factor_value FI_IMPACT_CLASS (io_impact_class ov)
                     [\<lparr>sct_kind = CK_CONFIGURATION, sct_id = OVERRIDE_KEY @ ''.'' @ c\<rparr>]
                     ([(''cwe'', [c]), (''basis'', [''override'']), (''rule'', [DERIVATION_RULE])] @ catalog_detail catalog @
                      (if io_reason ov = [] then [] else [(''override_reason'', [io_reason ov])]) @
                      (case derived of None \<Rightarrow> [] | Some dv \<Rightarrow> [(''derived_class'', [dv_impact_class dv])]))) (\<lambda>v. Inr (Present v))
              | None \<Rightarrow>
                  (case derived of
                     None \<Rightarrow> Inr (Missing \<lparr>mf_factor = FI_IMPACT_CLASS, mf_reason = reason\<rparr>)
                   | Some dv \<Rightarrow>
                       rbind (mk_factor_value FI_IMPACT_CLASS (dv_impact_class dv)
                          (map (\<lambda>q. \<lparr>sct_kind = CK_REFERENCE_INPUT, sct_id = consequence_reference catalog c q\<rparr>) (dv_consequences dv))
                          ([(''cwe'', [c]), (''basis'', [''derived'']), (''rule'', [DERIVATION_RULE]),
                            (''technical_impacts'', dv_impacts dv), (''scopes'', dv_scopes dv)] @ catalog_detail catalog @
                           (if dv_integrity_raised dv
                            then [(''integrity_raised'', [''read impact raised to high: the weakness is also integrity-scoped''])] else [])))
                         (\<lambda>v. Inr (Present v)))))"

section \<open>Outcomes\<close>

fun outcome_factor :: "factor_outcome \<Rightarrow> factor_id" where
  "outcome_factor (Present v) = fv_factor v"
| "outcome_factor (Missing m) = mf_factor m"

text \<open>A value of the factor, on its scale and cited; or the factor is missing.\<close>

fun outcome_ok :: "factor_id \<Rightarrow> factor_outcome \<Rightarrow> bool" where
  "outcome_ok f (Present v) = (fv_factor v = f \<and> fv_value v \<in> set (SCALES f) \<and> fv_citations v \<noteq> [])"
| "outcome_ok f (Missing m) = (mf_factor m = f)"

lemma mk_factor_value_Inr:
  "mk_factor_value f v cs detail = Inr x \<Longrightarrow> outcome_ok f (Present x) \<and> fv_value x = v"
  by (auto simp: mk_factor_value_def rbind_Inr_iff)

lemma mk_factor_value_total:
  assumes "v \<in> set (SCALES f)" "cs \<noteq> []"
  obtains x where "mk_factor_value f v cs detail = Inr x" "outcome_ok f (Present x)" "fv_value x = v"
proof -
  from assms obtain x where "mk_factor_value f v cs detail = Inr x"
    by (simp add: mk_factor_value_def rchecks.simps)
  with mk_factor_value_Inr [OF this] that show thesis by blast
qed

section \<open>The derived class\<close>

text \<open>The strongest position among candidates.\<close>

lemma fold_max:
  fixes ns :: "nat list"
  shows "n \<in> set ns \<Longrightarrow> n \<le> fold max ns 0" and "ns \<noteq> [] \<Longrightarrow> fold max ns 0 \<in> set ns"
proof -
  have eq: "fold max ns 0 = Max (set (0 # ns))" by (rule Max.set_eq_fold [symmetric])
  show "n \<in> set ns \<Longrightarrow> n \<le> fold max ns 0" by (simp add: eq)
  show "fold max ns 0 \<in> set ns" if "ns \<noteq> []"
    using that Max_in [of "set ns"] by (simp add: eq)
qed

lemma IMPACT_RULES_class: "map_of IMPACT_RULES k = Some v \<Longrightarrow> v \<in> set IMPACT_CLASSES"
proof -
  have "\<forall>v\<in>snd ` set IMPACT_RULES. v \<in> set IMPACT_CLASSES" by (simp add: IMPACT_RULES_def)
  then show "map_of IMPACT_RULES k = Some v \<Longrightarrow> v \<in> set IMPACT_CLASSES" by (force dest: map_of_SomeD)
qed

lemma READ_IMPACTS_medium: "k \<in> set READ_IMPACTS \<Longrightarrow> map_of IMPACT_RULES k = Some ''medium''"
  by (auto simp: READ_IMPACTS_def IMPACT_RULES_def)

lemma score_impacts_iff:
  "s \<in> set (score_impacts qs) \<longleftrightarrow> (\<exists>q\<in>set qs. \<exists>i\<in>set (cq_impacts q). score_impact qs q i = Some s)"
  by (force simp: score_impacts_def List.map_filter_def image_iff)

lemma score_impact_Some:
  assumes "score_impact qs q i = Some s"
  obtains v where "map_of IMPACT_RULES (impact_key i) = Some v" "si_consequence s = q"
    "si_index s = enum_index IMPACT_CLASSES (if impact_key i \<in> set READ_IMPACTS \<and> list_ex integrity_scoped qs then ''high'' else v)"
  using assms by (auto simp: score_impact_def Let_def simp del: SCALES.simps split: option.splits)

lemma score_impact_index:
  assumes "score_impact qs q i = Some s"
  shows "si_index s < length IMPACT_CLASSES"
proof -
  obtain v where v: "map_of IMPACT_RULES (impact_key i) = Some v"
    "si_index s = enum_index IMPACT_CLASSES (if impact_key i \<in> set READ_IMPACTS \<and> list_ex integrity_scoped qs then ''high'' else v)"
    by (rule score_impact_Some [OF assms])
  have "(if impact_key i \<in> set READ_IMPACTS \<and> list_ex integrity_scoped qs then ''high'' else v) \<in> set IMPACT_CLASSES"
    using IMPACT_RULES_class [OF v(1)] by simp
  from enum_index_nth [OF this] v(2) show ?thesis by (simp only:)
qed

lemma score_impact_mono:
  assumes "set qs \<subseteq> set qs'" "score_impact qs q i = Some s"
  obtains s' where "score_impact qs' q i = Some s'" "si_index s \<le> si_index s'"
proof -
  obtain v where v: "map_of IMPACT_RULES (impact_key i) = Some v"
    "si_index s = enum_index IMPACT_CLASSES (if impact_key i \<in> set READ_IMPACTS \<and> list_ex integrity_scoped qs then ''high'' else v)"
    by (rule score_impact_Some [OF assms(2)])
  have mono: "list_ex integrity_scoped qs \<longrightarrow> list_ex integrity_scoped qs'" using assms(1) by (auto simp: list_ex_iff)
  have med: "v = ''medium''" if "impact_key i \<in> set READ_IMPACTS" using READ_IMPACTS_medium [OF that] v(1) by simp
  have "enum_index IMPACT_CLASSES (if impact_key i \<in> set READ_IMPACTS \<and> list_ex integrity_scoped qs then ''high'' else v) \<le>
      enum_index IMPACT_CLASSES (if impact_key i \<in> set READ_IMPACTS \<and> list_ex integrity_scoped qs' then ''high'' else v)"
    using mono med by (cases "impact_key i \<in> set READ_IMPACTS") auto
  moreover obtain s' where "score_impact qs' q i = Some s'"
    "si_index s' = enum_index IMPACT_CLASSES (if impact_key i \<in> set READ_IMPACTS \<and> list_ex integrity_scoped qs' then ''high'' else v)"
    using v(1) by (simp add: score_impact_def Let_def del: SCALES.simps)
  ultimately show thesis using v(2) that by (simp only:)
qed

lemma derive_None_iff: "derive qs = None \<longleftrightarrow> score_impacts qs = []"
  by (simp add: derive_def Let_def)

lemma update_all_nonempty: "xs \<noteq> [] \<Longrightarrow> fold (\<lambda>q. AList.update (k q) (g q)) xs d \<noteq> []"
proof (induction xs arbitrary: d)
  case (Cons x xs)
  have "AList.update k v d \<noteq> []" for k v by (cases d) auto
  with Cons show ?case by (cases "xs = []") simp_all
qed simp

text \<open>The class is the highest any consequence gives, and it is cited.\<close>

lemma derive_highest:
  assumes "derive qs = Some dv"
  shows "dv_impact_class dv \<in> set IMPACT_CLASSES" and "dv_consequences dv \<noteq> []"
    and "s \<in> set (score_impacts qs) \<Longrightarrow> si_index s \<le> enum_index IMPACT_CLASSES (dv_impact_class dv)"
    and "\<exists>s\<in>set (score_impacts qs). si_index s = enum_index IMPACT_CLASSES (dv_impact_class dv)"
proof -
  let ?best = "fold max (map si_index (score_impacts qs)) 0"
  from assms have ne: "score_impacts qs \<noteq> []" using derive_None_iff [of qs] by auto
  from fold_max(2) [of "map si_index (score_impacts qs)"] ne
  obtain s0 where s0: "s0 \<in> set (score_impacts qs)" "si_index s0 = ?best" by fastforce
  then have lt: "?best < length IMPACT_CLASSES" using score_impact_index by (force simp: score_impacts_iff simp del: SCALES.simps)
  from assms ne have cls: "dv_impact_class dv = IMPACT_CLASSES ! ?best" by (auto simp: derive_def Let_def simp del: SCALES.simps)
  then have idx: "enum_index IMPACT_CLASSES (dv_impact_class dv) = ?best"
    using lt by (simp add: enum_index_of_nth del: SCALES.simps)
  show "dv_impact_class dv \<in> set IMPACT_CLASSES" using lt by (simp add: cls del: SCALES.simps)
  show "\<exists>s\<in>set (score_impacts qs). si_index s = enum_index IMPACT_CLASSES (dv_impact_class dv)"
    using s0 idx by (auto simp del: SCALES.simps)
  show "s \<in> set (score_impacts qs) \<Longrightarrow> si_index s \<le> enum_index IMPACT_CLASSES (dv_impact_class dv)"
    using fold_max(1) [of "si_index s" "map si_index (score_impacts qs)"] idx by (simp del: SCALES.simps)
  have "filter (\<lambda>s. si_index s = ?best) (score_impacts qs) \<noteq> []" using s0 by (auto simp: filter_empty_conv)
  with assms ne show "dv_consequences dv \<noteq> []"
    by (auto simp: derive_def Let_def update_all_nonempty simp del: SCALES.simps fold_append)
qed

lemma derive_mono:
  assumes "set qs \<subseteq> set qs'" "derive qs = Some dv"
  obtains dv' where "derive qs' = Some dv'"
    "enum_index IMPACT_CLASSES (dv_impact_class dv) \<le> enum_index IMPACT_CLASSES (dv_impact_class dv')"
proof -
  from derive_highest(4) [OF assms(2)] obtain s q i where s: "q \<in> set qs" "i \<in> set (cq_impacts q)" "score_impact qs q i = Some s"
    "si_index s = enum_index IMPACT_CLASSES (dv_impact_class dv)"
    by (auto simp: score_impacts_iff)
  obtain s' where s': "score_impact qs' q i = Some s'" "si_index s \<le> si_index s'"
    by (rule score_impact_mono [OF assms(1) s(3)])
  then have in': "s' \<in> set (score_impacts qs')" using s(1,2) assms(1) by (auto simp: score_impacts_iff)
  then obtain dv' where dv': "derive qs' = Some dv'" using derive_None_iff [of qs'] by (cases "derive qs'") auto
  from derive_highest(3) [OF dv' in'] s' s(4) that [OF dv'] show thesis by (simp del: SCALES.simps)
qed

section \<open>The extractor never fails\<close>

lemma mk_override_class: "mk_override c r = Inr ov \<Longrightarrow> io_impact_class ov \<in> set IMPACT_CLASSES"
  by (auto simp: mk_override_def rbind_Inr_iff)

lemma override_step_Inr:
  "override_step (cwe, entry) table = Inr t \<Longrightarrow> \<exists>c ov. entry_override entry = Inr ov \<and> t = AList.update c ov table"
  by (auto simp: override_step_def rbind_Inr_iff split: option.splits)

lemma overrides_class:
  assumes "rfold override_step raw table = Inr t" "\<forall>(c, ov)\<in>set table. io_impact_class ov \<in> set IMPACT_CLASSES"
  shows "\<forall>(c, ov)\<in>set t. io_impact_class ov \<in> set IMPACT_CLASSES"
  using assms
proof (induction raw arbitrary: table)
  case (Cons e raw)
  obtain cwe entry where e: "e = (cwe, entry)" by (cases e)
  from Cons.prems(1) obtain c ov where ov: "entry_override entry = Inr ov" and t: "rfold override_step raw (AList.update c ov table) = Inr t"
    by (auto simp: e rbind_Inr_iff dest!: override_step_Inr)
  have "io_impact_class ov \<in> set IMPACT_CLASSES" using ov by (cases entry) (auto dest: mk_override_class simp del: SCALES.simps)
  with Cons.prems(2) have "\<forall>(c, ov)\<in>set (AList.update c ov table). io_impact_class ov \<in> set IMPACT_CLASSES"
    using set_update_subset [of c ov table] by (force simp del: SCALES.simps)
  from Cons.IH [OF t this] show ?case .
qed simp

lemma extractor_overrides:
  assumes "mk_impact_extractor raw catalog = Inr S" "map_of (ie_overrides S) c = Some ov"
  shows "io_impact_class ov \<in> set IMPACT_CLASSES"
proof -
  from assms(1) obtain t where t: "rfold override_step raw [] = Inr t" "ie_overrides S = sort_key fst t"
    by (auto simp: mk_impact_extractor_def overrides_table_def rbind_Inr_iff)
  with assms(2) have "(c, ov) \<in> set t" by (auto dest: map_of_SomeD)
  with overrides_class [OF t(1)] show ?thesis by (auto simp del: SCALES.simps)
qed

lemma derive_class_Some: "derive_class catalog c = (Some dv, r) \<Longrightarrow> \<exists>qs. derive qs = Some dv"
  by (auto simp: derive_class_def Let_def split: if_splits option.splits)

lemma extract_cwe_total:
  assumes "mk_impact_extractor raw catalog = Inr S"
  obtains out where "extract_cwe S cwe = Inr out" "outcome_ok FI_IMPACT_CLASS out"
proof (cases cwe)
  case None
  then show thesis using that by (simp add: extract_cwe_def)
next
  case (Some c)
  obtain derived reason where d: "derive_class (ie_catalog S) c = (derived, reason)" by fastforce
  show thesis
  proof (cases "map_of (ie_overrides S) c")
    case ov: (Some ov)
    from extractor_overrides [OF assms ov]
    have "\<exists>x. mk_factor_value FI_IMPACT_CLASS (io_impact_class ov) cs detail = Inr x \<and> outcome_ok FI_IMPACT_CLASS (Present x)"
      if "cs \<noteq> []" for cs detail
      using that by (metis mk_factor_value_total)
    then obtain x where "extract_cwe S cwe = Inr (Present x)" "outcome_ok FI_IMPACT_CLASS (Present x)"
      using Some ov d by (auto simp: extract_cwe_def Let_def rbind_Inr_iff simp del: outcome_ok.simps)
    then show thesis by (rule that)
  next
    case None
    show thesis
    proof (cases derived)
      case (Some dv)
      with d obtain qs where "derive qs = Some dv" using derive_class_Some by blast
      from derive_highest(1,2) [OF this]
      have "\<exists>x. mk_factor_value FI_IMPACT_CLASS (dv_impact_class dv) (map g (dv_consequences dv)) detail = Inr x \<and>
          outcome_ok FI_IMPACT_CLASS (Present x)" for g detail
        by (metis mk_factor_value_total map_is_Nil_conv)
      then obtain x where "extract_cwe S cwe = Inr (Present x)" "outcome_ok FI_IMPACT_CLASS (Present x)"
        using \<open>cwe = Some c\<close> None Some d by (auto simp: extract_cwe_def Let_def rbind_Inr_iff simp del: outcome_ok.simps)
      then show thesis by (rule that)
    qed (use that Some None d in \<open>simp add: extract_cwe_def Let_def\<close>)
  qed
qed

end
