(* ===== verification/Factor_Extraction.thy ===== *)
theory Factor_Extraction
  imports Cwe_Impact
begin

text \<open>
  Scoring factors from adjudicated evidence: the inputs and extractors of \<open>review/scoring/factors.py\<close>, the
  accepted evidence they read (\<open>review/scoring/evidence_source.py\<close>, \<open>review/scope.py\<close>), the
  numeric-weakness table (\<open>review/numeric_reasoning.py\<close>) and the validation of a score request
  (\<open>review/scoring/application_matrix_v3.py\<close>).

  A claim that adjudication supported or confirmed can always be scored; the payload a factor reads is the
  one its citation was validated with; and more counted evidence never lowers the severity guaranteed.
\<close>

section \<open>Inputs\<close>

record resolved_entity =
  re_entity_id :: string
  re_kind :: string
  re_payload :: json
  re_path :: "string option"
  re_component_id :: "string option"

record tag_assignment =
  ta_assignment_id :: string
  ta_tag :: string
  ta_basis :: string
  ta_match :: string

record factor_inputs =
  fi_claim_id :: string
  fi_adjudication_id :: string
  fi_claim_state :: claim_state
  fi_weakness_cwe :: "string option"
  fi_supporting :: "evidence_relation list"
  fi_entities :: "(string, resolved_entity) dict"
  fi_unresolved :: "string list"
  fi_tags :: "tag_assignment list option"
  fi_tags_unavailable_reason :: string
  fi_kev_listed :: "bool option"

definition TAGS_NOT_SUPPLIED :: string where
  "TAGS_NOT_SUPPLIED = ''accepted security tag assignments were not supplied to scoring''"

definition supporting_for :: "factor_inputs \<Rightarrow> predicate \<Rightarrow> evidence_relation list" where
  "supporting_for d p = filter (\<lambda>r. er_predicate r = p \<and> er_kind r = SUPPORTS) (fi_supporting d)"

text \<open>\<open>sub in text\<close>.\<close>

definition contains_text :: "string \<Rightarrow> string \<Rightarrow> bool" where
  "contains_text sub s = list_ex (\<lambda>i. starts_with sub (drop i s)) [0..<Suc (length s)]"

definition locator_path :: "string \<Rightarrow> string option" where
  "locator_path loc =
     (let tail = rev (takeWhile (\<lambda>c. c \<noteq> CHR '':'') (rev loc)); head = take (length loc - Suc (length tail)) loc
      in if CHR '':'' \<in> set loc \<and> head \<noteq> [] \<and> contains_text ''#b'' tail \<and> contains_text ''@'' tail then Some head else None)"

text \<open>The interface \<open>EvidenceSource\<close>; sets of strings are lists whose order does not matter.\<close>

record evidence_source =
  es_resolve :: "evidence_relation \<Rightarrow> resolved_entity option res"
  es_tags :: "string list \<Rightarrow> string list \<Rightarrow> string list \<Rightarrow> tag_assignment list option"
  es_tags_unavailable_reason :: string

definition resolve_step ::
  "evidence_source \<Rightarrow> evidence_relation \<Rightarrow> (string, resolved_entity) dict \<times> string list \<Rightarrow>
   ((string, resolved_entity) dict \<times> string list) res" where
  "resolve_step source r acc =
     (let (entities, unresolved) = acc
      in if map_of entities (er_entity_id r) \<noteq> None then Inr acc
         else rbind (es_resolve source r) (\<lambda>resolved.
           case resolved of
             None \<Rightarrow> Inr (entities, unresolved @ [er_entity_id r])
           | Some e \<Rightarrow> Inr (AList.update (er_entity_id r) e entities, unresolved)))"

definition nonempty_text :: "string option \<Rightarrow> bool" where
  "nonempty_text v = (v \<notin> {None, Some []})"

text \<open>The relations the adjudication counted as supporting; each must be one the projection holds.\<close>

definition counted_support :: "string set \<Rightarrow> evidence_relation list \<Rightarrow> evidence_relation list res" where
  "counted_support ids relations =
     (let supporting = sort_key er_relation_id (filter (\<lambda>r. er_relation_id r \<in> ids \<and> er_kind r = SUPPORTS) relations)
      in rbind (rguard (set (map er_relation_id supporting) = ids)
                  (ValueError ''adjudication counts a supporting relation the projection does not hold'')) (\<lambda>_.
           Inr supporting))"

definition factor_input ::
  "claim \<Rightarrow> adjudication \<Rightarrow> evidence_relation list \<Rightarrow> evidence_source option \<Rightarrow> bool option \<Rightarrow> factor_inputs res" where
  "factor_input c a relations source kev =
     rbind (counted_support (\<Union>s\<in>set (a_predicates a). set (ps_supporting s)) relations) (\<lambda>supporting.
     rbind (case source of
              None \<Rightarrow> Inr ([], [], None, TAGS_NOT_SUPPLIED)
            | Some src \<Rightarrow>
                rbind (rfold (resolve_step src) supporting ([], [])) (\<lambda>(entities, unresolved).
                  let anchors = c_affected_entities c @ map er_entity_id supporting;
                      paths = filter (\<lambda>p. p \<noteq> []) (List.map_filter (locator_path \<circ> er_locator) supporting) @
                              filter (\<lambda>p. p \<noteq> []) (List.map_filter (re_path \<circ> snd) entities);
                      components = filter (\<lambda>p. p \<noteq> []) (List.map_filter (re_component_id \<circ> snd) entities)
                  in Inr (sort_key fst entities, sorted_set unresolved, es_tags src anchors paths components,
                          es_tags_unavailable_reason src)))
       (\<lambda>(entities, unresolved, tags, reason).
         Inr \<lparr>fi_claim_id = c_claim_id c, fi_adjudication_id = a_adjudication_id a, fi_claim_state = a_state a,
              fi_weakness_cwe = c_weakness_cwe c, fi_supporting = supporting, fi_entities = entities,
              fi_unresolved = unresolved, fi_tags = tags, fi_tags_unavailable_reason = reason, fi_kev_listed = kev\<rparr>))"

section \<open>Accepted evidence\<close>

text \<open>The components of the accepted scope and the one with the longest root over a path.\<close>

record scope_component =
  co_component_id :: string
  co_root :: string
  co_identity :: string

definition under_root :: "string \<Rightarrow> string \<Rightarrow> bool" where
  "under_root path prefix = (prefix = ''.'' \<or> path = prefix \<or> starts_with (prefix @ ''/'') path)"

definition longest :: "string option \<Rightarrow> scope_component list \<Rightarrow> scope_component option" where
  "longest path items =
     (case path of
        None \<Rightarrow> None
      | Some p \<Rightarrow>
          (case sort_key (\<lambda>i. (if co_root i \<noteq> ''.'' then - int (length (co_root i)) else 0, co_root i, co_identity i))
                  (filter (\<lambda>i. under_root p (co_root i)) items) of
             [] \<Rightarrow> None | i # _ \<Rightarrow> Some i))"

record accepted_source =
  as_core :: core
  as_components :: "scope_component list"
  as_tag_rows :: "json list option"

text \<open>The tag assignments of the accepted rows, with what they are indexed by.\<close>

definition row_tags :: "string \<Rightarrow> string \<Rightarrow> json \<Rightarrow> (string \<times> tag_assignment) option" where
  "row_tags field match row =
     (let payload = jget_or_null ''payload'' row; subject = obj_or_empty (jget_or_null ''subject'' payload)
      in case (jget_or_null ''tag'' payload, jget_or_null ''basis'' payload, jget_or_null ''identity'' row, jget_or_null field subject) of
           (JStr tag, JStr basis, JStr identity, JStr key) \<Rightarrow>
             Some (key, \<lparr>ta_assignment_id = identity, ta_tag = tag, ta_basis = basis, ta_match = match\<rparr>)
         | _ \<Rightarrow> None)"

definition tag_index :: "string \<Rightarrow> string \<Rightarrow> json list \<Rightarrow> (string, tag_assignment list) dict" where
  "tag_index field match rows = fold (\<lambda>(key, t). dict_append key t) (List.map_filter (row_tags field match) rows) []"

definition component_of :: "accepted_source \<Rightarrow> string option \<Rightarrow> json \<Rightarrow> string option" where
  "component_of src path payload =
     (case jget_or_null ''component_id'' (obj_or_empty (jget_or_null ''scope'' payload)) of
        JStr (c # cs) \<Rightarrow> Some (c # cs)
      | _ \<Rightarrow> map_option co_component_id (longest path (as_components src)))"

definition entity_path :: "json \<Rightarrow> string option" where
  "entity_path entity =
     (case jget_or_null ''path'' (obj_or_empty (jget_or_null ''location'' entity)) of
        JStr (c # cs) \<Rightarrow> Some (c # cs) | _ \<Rightarrow> None)"

definition resolve_accepted :: "hash \<Rightarrow> accepted_source \<Rightarrow> evidence_relation \<Rightarrow> resolved_entity option res" where
  "resolve_accepted H src r =
     rbind (core_find (as_core src) (er_entity_id r)) (\<lambda>found.
     case results found of
       [] \<Rightarrow> Inr None
     | entity # _ \<Rightarrow>
         if jget_or_null ''identity'' entity \<noteq> JStr (er_entity_id r) \<or> jget_or_null ''kind'' entity \<noteq> JStr (er_entity_kind r)
         then Inr None
         else rbind (read_location (as_core src) (er_entity_id r) entity) (\<lambda>read.
           case read of
             Inl _ \<Rightarrow> Inr None
           | Inr (excerpt, _) \<Rightarrow>
               if H (content_record entity excerpt) \<noteq> er_content_sha256 r then Inr None
               else let payload = obj_or_empty (jget_or_null ''payload'' entity); path = entity_path entity
                    in Inr (Some \<lparr>re_entity_id = er_entity_id r, re_kind = er_entity_kind r, re_payload = payload,
                                  re_path = path, re_component_id = component_of src path payload\<rparr>)))"

definition setdefault_tag :: "tag_assignment \<Rightarrow> (string, tag_assignment) dict \<Rightarrow> (string, tag_assignment) dict" where
  "setdefault_tag t found = (if map_of found (ta_assignment_id t) = None then AList.update (ta_assignment_id t) t found else found)"

definition accepted_tags ::
  "accepted_source \<Rightarrow> string list \<Rightarrow> string list \<Rightarrow> string list \<Rightarrow> tag_assignment list option" where
  "accepted_tags src anchors paths components =
     map_option (\<lambda>rows.
       let component_ids = fold (\<lambda>i. AList.update (co_identity i) (co_component_id i)) (as_components src) [];
           owners = components @ List.map_filter (map_of component_ids) anchors @
                    List.map_filter (\<lambda>p. map_option co_component_id (longest (Some p) (as_components src))) paths;
           found = fold (fold setdefault_tag \<circ> dict_get_list (tag_index ''component_id'' ''component'' rows)) (sorted_set owners)
                     (fold (fold setdefault_tag \<circ> dict_get_list (tag_index ''logical_id'' ''entity'' rows)) (sorted_set anchors) [])
       in map snd (sort_key fst found)) (as_tag_rows src)"

definition TAGS_PRODUCER_UNAVAILABLE :: string where
  "TAGS_PRODUCER_UNAVAILABLE = ''the security_tagging producer has no accepted shard in this run''"

definition accepted_evidence :: "hash \<Rightarrow> accepted_source \<Rightarrow> evidence_source" where
  "accepted_evidence H src =
     \<lparr>es_resolve = resolve_accepted H src, es_tags = accepted_tags src, es_tags_unavailable_reason = TAGS_PRODUCER_UNAVAILABLE\<rparr>"

section \<open>The strongest candidate\<close>

datatype evidence_item =
    RelationItem evidence_relation
  | TagItem tag_assignment

type_synonym candidate = "string \<times> evidence_item \<times> (string \<times> string) list"

fun item_citations :: "evidence_item \<Rightarrow> score_citation list" where
  "item_citations (TagItem t) = [\<lparr>sct_kind = CK_TAG_ASSIGNMENT, sct_id = ta_assignment_id t\<rparr>]"
| "item_citations (RelationItem r) =
     [\<lparr>sct_kind = CK_EVIDENCE_RELATION, sct_id = er_relation_id r\<rparr>, \<lparr>sct_kind = CK_ENTITY, sct_id = er_entity_id r\<rparr>]"

definition best_factor :: "factor_id \<Rightarrow> candidate list \<Rightarrow> string \<Rightarrow> factor_outcome res" where
  "best_factor f candidates missing =
     (if candidates = [] then Inr (Missing \<lparr>mf_factor = f, mf_reason = missing\<rparr>)
      else rbind (rguard (list_all (\<lambda>(v, _). v \<in> set (SCALES f)) candidates) (ValueError ''value is not in scale'')) (\<lambda>_.
        let top = fold max (map (\<lambda>(v, _). enum_index (SCALES f) v) candidates) 0;
            winners = filter (\<lambda>(v, _). enum_index (SCALES f) v = top) candidates;
            details = fold (\<lambda>(_, _, detail). fold (\<lambda>(k, v). dict_append k v) detail) winners []
        in rbind (mk_factor_value f (SCALES f ! top) (concat (map (\<lambda>(_, s, _). item_citations s) winners)) details) (\<lambda>v.
             Inr (Present v))))"

section \<open>Extractors\<close>

definition verification_factor :: "factor_inputs \<Rightarrow> factor_outcome res" where
  "verification_factor d =
     (if fi_claim_state d \<notin> {CONFIRMED, SUPPORTED}
      then Inr (Missing \<lparr>mf_factor = FI_VERIFICATION, mf_reason = ''claim state '' @ claim_state_value (fi_claim_state d) @ '' is not scored''\<rparr>)
      else rbind (mk_factor_value FI_VERIFICATION (claim_state_value (fi_claim_state d))
                    [\<lparr>sct_kind = CK_ADJUDICATION, sct_id = fi_adjudication_id d\<rparr>] []) (\<lambda>v. Inr (Present v)))"

text \<open>Membership of a JSON value in a set or mapping of strings: arrays and objects are not hashable.\<close>

definition hashable :: "json \<Rightarrow> bool" where
  "hashable v = (case v of JArr _ \<Rightarrow> False | JObj _ \<Rightarrow> False | _ \<Rightarrow> True)"

definition is_codeql_path :: "resolved_entity option \<Rightarrow> bool res" where
  "is_codeql_path e =
     (case e of
        None \<Rightarrow> Inr False
      | Some e \<Rightarrow>
          let payload = re_payload e
          in if \<not> (case jget_or_null ''producer'' payload of JStr s \<Rightarrow> lower s = ''codeql'' | _ \<Rightarrow> False) then Inr False
             else let properties = obj_or_empty (jget_or_null ''properties'' (obj_or_empty (jget_or_null ''rule'' payload)));
                      kinds = [jget_or_null ''query_kind'' payload, jget_or_null ''kind'' properties, jget_or_null ''kind'' payload]
                  in rbind (rguard (list_all hashable kinds) TypeError) (\<lambda>_. Inr (JStr ''path-problem'' \<in> set kinds)))"

definition direct_eligible_entity :: "resolved_entity option \<Rightarrow> bool" where
  "direct_eligible_entity e =
     (case e of
        None \<Rightarrow> False
      | Some e \<Rightarrow> jget_or_null ''direct_eligible'' (obj_or_empty (jget_or_null ''admissibility'' (re_payload e))) = JBool True)"

definition entity_of :: "factor_inputs \<Rightarrow> evidence_relation \<Rightarrow> resolved_entity option" where
  "entity_of d r = map_of (fi_entities d) (er_entity_id r)"

definition taint_basis :: "factor_inputs \<Rightarrow> evidence_relation \<Rightarrow> string res" where
  "taint_basis d r =
     (if er_entity_kind r = family_value F_DATAFLOW_PATH then Inr ''graph_dataflow_path''
      else if er_entity_kind r = ''tool_observation'' then
        rbind (is_codeql_path (entity_of d r)) (\<lambda>b. Inr (if b then ''codeql_path_observation'' else ''tool_observation''))
      else Inr ''code_evidence'')"

definition taint_path_factor :: "factor_inputs \<Rightarrow> factor_outcome res" where
  "taint_path_factor d =
     rbind (rmap (\<lambda>r. rbind (taint_basis d r) (\<lambda>b. Inr (b, RelationItem r, [(''entity_kind'', er_entity_kind r)])))
              (supporting_for d P_SOURCE_TO_SINK_REACHABILITY)) (\<lambda>candidates.
       best_factor FI_TAINT_PATH candidates ''no counted direct support on source_to_sink_reachability'')"

definition SOURCE_CLASS_VALUES :: "(string, string) dict" where
  "SOURCE_CLASS_VALUES =
     map (\<lambda>s. (source_class_value s, ''local'')) [SRC_LOCAL_USER, SRC_ARGV, SRC_ENVIRONMENT, SRC_FILE, SRC_IPC] @
     [(source_class_value SRC_REMOTE, ''remote''), (source_class_value SRC_DATABASE, ''internal''),
      (source_class_value SRC_INTERNAL, ''internal'')]"

definition cited_source_class :: "factor_inputs \<Rightarrow> evidence_relation \<Rightarrow> json" where
  "cited_source_class d r =
     (case entity_of d r of
        Some e \<Rightarrow>
          if er_entity_kind r \<in> {family_value F_ENTRY_POINT, family_value F_DATAFLOW_PATH} \<and> direct_eligible_entity (Some e)
          then let result = obj_or_empty (jget_or_null ''result'' (re_payload e))
               in jget_or_null ''source_class''
                    (if er_entity_kind r = family_value F_DATAFLOW_PATH then obj_or_empty (jget_or_null ''source'' result) else result)
          else JNull
      | None \<Rightarrow> JNull)"

definition control_candidates :: "factor_inputs \<Rightarrow> evidence_relation \<Rightarrow> candidate list res" where
  "control_candidates d r =
     (let cls = cited_source_class d r
      in rbind (rguard (hashable cls) TypeError) (\<lambda>_.
           case (case cls of JStr s \<Rightarrow> map_option (Pair s) (map_of SOURCE_CLASS_VALUES s) | _ \<Rightarrow> None) of
             Some (s, v) \<Rightarrow> Inr [(v, RelationItem r, [(''source_class'', s)])]
           | None \<Rightarrow> Inr (if er_predicate r = P_ATTACKER_INPUT_CONTROL then [(''direct_unclassified'', RelationItem r, [])] else [])))"

definition attacker_control_factor :: "factor_inputs \<Rightarrow> factor_outcome res" where
  "attacker_control_factor d =
     rbind (rmap (control_candidates d) (supporting_for d P_ATTACKER_INPUT_CONTROL @ supporting_for d P_SOURCE_TO_SINK_REACHABILITY)) (\<lambda>cs.
       best_factor FI_ATTACKER_CONTROL (concat cs)
         ''no counted direct support on attacker_input_control and no classified cited source'')"

definition effective_guard :: "factor_inputs \<Rightarrow> evidence_relation \<Rightarrow> bool" where
  "effective_guard d r =
     (case entity_of d r of
        None \<Rightarrow> False
      | Some e \<Rightarrow>
          er_entity_kind r \<in> {family_value F_GUARD_FACT, family_value F_RANGE_FACT} \<and>
          (let result = obj_or_empty (jget_or_null ''result'' (re_payload e));
               sink = obj_or_empty (jget_or_null ''sink'' result);
               same_sink = (\<lambda>other. re_kind other = family_value F_GUARD_FACT \<and> is_obj (jget_or_null ''result'' (re_payload other)) \<and>
                 is_obj (jget_or_null ''sink'' (jget_or_null ''result'' (re_payload other))) \<and>
                 jget_or_null ''sink_site'' (jget_or_null ''sink'' (jget_or_null ''result'' (re_payload other))) =
                   jget_or_null ''sink_site'' sink);
               destination = (if er_entity_kind r = family_value F_RANGE_FACT
                 then sink_destination_bytes (map (\<lambda>(_, other). jget_or_null ''result'' (re_payload other))
                        (filter (\<lambda>(_, other). same_sink other) (fi_entities d)))
                 else None)
           in bounds (fact_bounds_destination (er_entity_kind r) result destination)))"

text \<open>The weaknesses whose guard is a numeric fact.\<close>

definition NUMERIC_RULE :: string where
  "NUMERIC_RULE = ''numeric-reasoning-guardrail/1''"

definition NUMERIC_CWE_TABLE_VERSION :: string where
  "NUMERIC_CWE_TABLE_VERSION = ''numeric-weakness-cwes/1''"

definition SCORING_MISSING_REASON :: string where
  "SCORING_MISSING_REASON =
     ''numeric weakness: support that the guard is missing or ineffective rests only on '' @
     ''code_evidence; ranges, bounds and overflow must come from a graph or tool fact ('' @ NUMERIC_RULE @ '')''"

definition NUMERIC_CWE_NUMBERS :: "nat list" where
  "NUMERIC_CWE_NUMBERS =
     [190, 191, 192, 194, 195, 196, 197, 128, 681, 682, 193, 129, 131, 680, 369, 835, 834, 606,
      119, 120, 121, 122, 125, 787, 805, 806]"

definition NUMERIC_WEAKNESS_CWES :: "string list" where
  "NUMERIC_WEAKNESS_CWES = map (\<lambda>n. ''CWE-'' @ nat_str n) NUMERIC_CWE_NUMBERS"

text \<open>The pattern \<open>\s*(?:cwe)?[\s:_-]*0*(\d+)\s*\<close>, in any case, with its group as a number.\<close>

definition numeric_cwe :: "string \<Rightarrow> string option" where
  "numeric_cwe v =
     (let t = strip v; t = (if lower (take 3 t) = ''cwe'' then drop 3 t else t);
          ds = dropWhile (\<lambda>c. is_space c \<or> c \<in> {CHR '':'', CHR ''_'', CHR ''-''}) t;
          n = dropWhile (\<lambda>c. c = CHR ''0'') ds
      in if ds \<noteq> [] \<and> list_all is_digit ds then Some (''CWE-'' @ (if n = [] then ''0'' else n)) else None)"

definition is_numeric_weakness :: "string option \<Rightarrow> bool" where
  "is_numeric_weakness cwe =
     (case Option.bind cwe numeric_cwe of None \<Rightarrow> False | Some c \<Rightarrow> c \<in> set NUMERIC_WEAKNESS_CWES)"

definition guard_basis :: "evidence_relation \<Rightarrow> string" where
  "guard_basis r =
     (if er_entity_kind r \<in> {family_value F_GUARD_FACT, family_value F_RANGE_FACT} then ''graph_fact''
      else if er_entity_kind r = ''tool_observation'' then ''tool_observation'' else ''code_evidence'')"

definition guard_relations :: "factor_inputs \<Rightarrow> evidence_relation list" where
  "guard_relations d = filter (\<lambda>r. \<not> effective_guard d r) (supporting_for d P_MISSING_OR_INEFFECTIVE_GUARD)"

definition guard_absent_factor :: "factor_inputs \<Rightarrow> factor_outcome res" where
  "guard_absent_factor d =
     (let numeric = is_numeric_weakness (fi_weakness_cwe d);
          kept = filter (\<lambda>r. \<not> (numeric \<and> guard_basis r = ''code_evidence'')) (guard_relations d);
          candidates = map (\<lambda>r. (guard_basis r, RelationItem r, [(''entity_kind'', er_entity_kind r)])) kept
      in if candidates = [] \<and> guard_relations d \<noteq> []
         then Inr (Missing \<lparr>mf_factor = FI_GUARD_ABSENT,
                mf_reason = SCORING_MISSING_REASON\<rparr>)
         else rbind (best_factor FI_GUARD_ABSENT candidates ''no counted direct support on missing_or_ineffective_guard'') (\<lambda>out.
           case out of
             Present v \<Rightarrow>
               if numeric
               then rbind (mk_factor_value FI_GUARD_ABSENT (fv_value v) (fv_citations v)
                      (fold (\<lambda>(k, x). AList.update k x) [(''numeric_guardrail'', [NUMERIC_RULE]),
                         (''numeric_cwe_table'', [NUMERIC_CWE_TABLE_VERSION])] (fv_detail v))) (\<lambda>v'. Inr (Present v'))
               else Inr (Present v)
           | Missing m \<Rightarrow> Inr (Missing m)))"

definition EXPOSURE_TAGS :: "(string, string) dict" where
  "EXPOSURE_TAGS =
     [(''surface:entry:http-public'', ''public''), (''surface:entry:cloud-public'', ''public''),
      (''surface:entry:mobile-deeplink'', ''public''), (''surface:entry:ci-untrusted'', ''public''),
      (''surface:entry:http-internal'', ''internal_network''), (''surface:entry:rpc'', ''internal_network''),
      (''surface:entry:message-consumer'', ''internal_network''), (''surface:entry:cli'', ''local''),
      (''surface:entry:env-config'', ''local''), (''surface:entry:file-input'', ''local''),
      (''surface:entry:local-ipc'', ''local'')]"

definition PRIVILEGE_TAGS :: "(string, string) dict" where
  "PRIVILEGE_TAGS =
     [(''surface:priv:elevated'', ''elevated''), (''surface:priv:host'', ''elevated''),
      (''surface:priv:cluster-admin'', ''elevated''), (''surface:priv:cloud-admin'', ''elevated''),
      (''surface:priv:ci-write'', ''elevated''), (''surface:priv:sandboxed'', ''sandboxed'')]"

definition DATA_TAGS :: "(string, string) dict" where
  "DATA_TAGS =
     [(''data:credential'', ''secret''), (''data:key-material'', ''secret''), (''data:session-token'', ''secret''),
      (''data:pii'', ''sensitive''), (''data:financial'', ''sensitive''), (''data:health'', ''sensitive'')]"

definition TAG_BASES :: "string list" where
  "TAG_BASES = [''declared'', ''invoked'', ''derived'']"

definition tag_candidates :: "(string, string) dict \<Rightarrow> tag_assignment list \<Rightarrow> candidate list" where
  "tag_candidates tags ts =
     concat (map (\<lambda>t. case map_of tags (ta_tag t) of
         None \<Rightarrow> []
       | Some v \<Rightarrow> if ta_basis t \<in> set TAG_BASES
           then [(v, TagItem t, [(''tag'', ta_tag t), (''match'', ta_match t)])] else []) ts)"

definition tag_factor :: "factor_id \<Rightarrow> (string, string) dict \<Rightarrow> string \<Rightarrow> factor_inputs \<Rightarrow> factor_outcome res" where
  "tag_factor f tags description d =
     (case fi_tags d of
        None \<Rightarrow> Inr (Missing \<lparr>mf_factor = f, mf_reason = fi_tags_unavailable_reason d\<rparr>)
      | Some ts \<Rightarrow>
          best_factor f (tag_candidates tags ts)
            (''no accepted '' @ description @ '' tag on the affected entities or component''))"

definition threat_factor :: "factor_inputs \<Rightarrow> factor_outcome res" where
  "threat_factor d =
     (case fi_kev_listed d of
        None \<Rightarrow> Inr (Missing \<lparr>mf_factor = FI_THREAT, mf_reason = ''no CISA KEV reference input for this claim''\<rparr>)
      | Some listed \<Rightarrow>
          rbind (mk_factor_value FI_THREAT (if listed then ''kev_listed'' else ''not_listed'')
                   [\<lparr>sct_kind = CK_REFERENCE_INPUT, sct_id = ''kev_listed''\<rparr>] []) (\<lambda>v. Inr (Present v)))"

section \<open>The registry\<close>

text \<open>The default registry has an extractor for every factor.\<close>

fun extract_factor :: "impact_extractor \<Rightarrow> factor_inputs \<Rightarrow> factor_id \<Rightarrow> factor_outcome res" where
  "extract_factor S d FI_VERIFICATION = verification_factor d"
| "extract_factor S d FI_TAINT_PATH = taint_path_factor d"
| "extract_factor S d FI_ATTACKER_CONTROL = attacker_control_factor d"
| "extract_factor S d FI_GUARD_ABSENT = guard_absent_factor d"
| "extract_factor S d FI_EXPOSURE = tag_factor FI_EXPOSURE EXPOSURE_TAGS ''surface:entry'' d"
| "extract_factor S d FI_PRIVILEGE = tag_factor FI_PRIVILEGE PRIVILEGE_TAGS ''surface:priv'' d"
| "extract_factor S d FI_DATA_SENSITIVITY = tag_factor FI_DATA_SENSITIVITY DATA_TAGS ''data'' d"
| "extract_factor S d FI_IMPACT_CLASS = extract_cwe S (fi_weakness_cwe d)"
| "extract_factor S d FI_THREAT = threat_factor d"

definition extract_one :: "impact_extractor \<Rightarrow> factor_inputs \<Rightarrow> factor_id \<Rightarrow> factor_outcome res" where
  "extract_one S d f =
     rbind (extract_factor S d f) (\<lambda>out.
     rbind (rguard (outcome_factor out = f) (ValueError ''extractor returned another factor'')) (\<lambda>_. Inr out))"

definition extract_factors :: "impact_extractor \<Rightarrow> factor_inputs \<Rightarrow> factor_id list \<Rightarrow> factor_set res" where
  "extract_factors S d factors =
     rbind (rmap (extract_one S d) (sort_key factor_id_value (remdups factors))) (\<lambda>outs.
       mk_factor_set (List.map_filter (\<lambda>out. case out of Present v \<Rightarrow> Some v | Missing _ \<Rightarrow> None) outs)
         (List.map_filter (\<lambda>out. case out of Present _ \<Rightarrow> None | Missing m \<Rightarrow> Some m) outs))"

section \<open>Scoring a claim\<close>

definition SCOREABLE_STATES :: "claim_state set" where
  "SCOREABLE_STATES = {CONFIRMED, SUPPORTED}"

text \<open>\<open>validate_inputs\<close>: the errors, none of them when the request is valid.\<close>

definition validate_inputs ::
  "impact_extractor \<Rightarrow> risk_model \<Rightarrow> claim_state \<Rightarrow> string option \<Rightarrow> factor_set option \<Rightarrow> string list res" where
  "validate_inputs S m state cwe factors =
     (let state_errors = (if state \<notin> SCOREABLE_STATES then [''claim state '' @ claim_state_value state @ '' is not scored''] else []);
          cwe_errors = (case cwe of None \<Rightarrow> []
            | Some c \<Rightarrow> if normalize_cwe c \<noteq> Some c then [''weakness is not a canonical CWE id''] else [])
      in case factors of
           None \<Rightarrow> Inr (state_errors @ cwe_errors @ [''application_risk_matrix/3 needs the score-factors/2 factors it consumes''])
         | Some fs \<Rightarrow>
             rbind (case fs_get fs FI_IMPACT_CLASS of
                      None \<Rightarrow> Inr []
                    | Some impact \<Rightarrow> rbind (extract_cwe S cwe) (\<lambda>out.
                        Inr (if out \<noteq> Present impact
                             then [''impact_class factor disagrees with this provider's overrides and pinned CWE catalog''] else [])))
               (\<lambda>impact_errors.
                 Inr (state_errors @ cwe_errors @
                   (if set (factor_ids fs) \<noteq> set (consumed_factors m)
                    then [''factor set does not hold exactly the consumed factors''] else []) @
                   (case fs_get fs FI_VERIFICATION of None \<Rightarrow> []
                    | Some v \<Rightarrow> if fv_value v \<noteq> claim_state_value state
                        then [''verification factor disagrees with the claim state''] else []) @
                   impact_errors)))"

text \<open>The \<open>application_risk_matrix/3\<close> provider, and one claim of the scoring stage: its score, or a gap.\<close>

definition provider_score ::
  "hash \<Rightarrow> impact_extractor \<Rightarrow> risk_model \<Rightarrow> string \<Rightarrow> claim_state \<Rightarrow> string option \<Rightarrow> factor_set option \<Rightarrow> (gap + risk_score) res" where
  "provider_score H S m claim_id state cwe factors =
     rbind (validate_inputs S m state cwe factors) (\<lambda>errors.
       if errors \<noteq> []
       then Inr (Inl (make_gap H GC_SCORE_GAP claim_id (''application_risk_matrix: '' @ join ''; '' errors) None 0))
       else (case factors of
               None \<Rightarrow> Inl TypeError
             | Some fs \<Rightarrow> rbind (score_factors m fs) (\<lambda>s. Inr (Inr s))))"

definition score_claim ::
  "hash \<Rightarrow> impact_extractor \<Rightarrow> risk_model \<Rightarrow> claim \<Rightarrow> adjudication \<Rightarrow> evidence_relation list \<Rightarrow> evidence_source option \<Rightarrow>
   bool option \<Rightarrow> (gap + risk_score) option res" where
  "score_claim H S m c a relations source kev =
     (if a_state a \<notin> SCOREABLE_STATES then Inr None
      else rbind (factor_input c a relations source kev) (\<lambda>d.
           rbind (extract_factors S d (consumed_factors m)) (\<lambda>fs.
           rbind (provider_score H S m (c_claim_id c) (a_state a) (c_weakness_cwe c) (Some fs)) (\<lambda>outcome.
             Inr (Some outcome)))))"

section \<open>The strongest candidate wins\<close>

definition outcome_le :: "factor_outcome \<Rightarrow> factor_outcome \<Rightarrow> bool" where
  "outcome_le out out' = (\<forall>v. out = Present v \<longrightarrow> (\<exists>v'. out' = Present v' \<and> rank v \<le> rank v'))"

lemma outcome_le_Missing [simp]: "outcome_le (Missing m) out"
  by (simp add: outcome_le_def)

lemma outcome_le_Present: "outcome_le (Present v) (Present v') \<longleftrightarrow> rank v \<le> rank v'"
  by (simp add: outcome_le_def)

text \<open>The candidate positions, and what the strongest of them gives.\<close>

abbreviation candidate_ranks :: "factor_id \<Rightarrow> candidate list \<Rightarrow> nat list" where
  "candidate_ranks f cs \<equiv> map (\<lambda>(v, _). enum_index (SCALES f) v) cs"

lemma item_citations_nonempty [simp]: "item_citations s \<noteq> []"
  by (cases s) simp_all

lemma best_factor_total:
  assumes "\<forall>v\<in>fst ` set cs. v \<in> set (SCALES f)"
  obtains (missing) "cs = []" "best_factor f cs m = Inr (Missing \<lparr>mf_factor = f, mf_reason = m\<rparr>)"
  | (present) v where "cs \<noteq> []" "best_factor f cs m = Inr (Present v)" "outcome_ok f (Present v)"
      "rank v = fold max (candidate_ranks f cs) 0"
proof (cases "cs = []")
  case True
  then show thesis by (intro missing) (simp_all add: best_factor_def)
next
  case False
  let ?top = "fold max (candidate_ranks f cs) 0" and ?ws = "filter (\<lambda>(v, _). enum_index (SCALES f) v = fold max (candidate_ranks f cs) 0) cs"
  from False fold_max(2) [of "candidate_ranks f cs"] obtain v s d where c: "(v, s, d) \<in> set cs" "enum_index (SCALES f) v = ?top"
    by fastforce
  with assms have v: "v \<in> set (SCALES f)" "SCALES f ! ?top = v" using enum_index_nth [of v "SCALES f"] by force+
  have "concat (map (\<lambda>(_, s, _). item_citations s) ?ws) \<noteq> []" using c by force
  from mk_factor_value_total [OF v(1) this] obtain x where
    x: "mk_factor_value f v (concat (map (\<lambda>(_, s, _). item_citations s) ?ws))
          (fold (\<lambda>(_, _, detail). fold (\<lambda>(k, v). dict_append k v) detail) ?ws []) = Inr x" "outcome_ok f (Present x)" "fv_value x = v"
    by metis
  have scale: "list_all (\<lambda>(v, _). v \<in> set (SCALES f)) cs" using assms by (auto simp: list_all_iff)
  have "best_factor f cs m = Inr (Present x)" using False scale x(1) v(2) by (simp add: best_factor_def Let_def)
  moreover have "rank x = ?top" using x(2,3) c(2) by (simp add: rank_def)
  ultimately show thesis using False x(2) by (intro present)
qed

lemma best_factor_Inr:
  "best_factor f cs m = Inr out \<Longrightarrow> \<forall>v\<in>fst ` set cs. v \<in> set (SCALES f)"
  by (auto simp: best_factor_def rbind_Inr_iff list_all_iff split: if_splits)

lemma best_factor_ok: "best_factor f cs m = Inr out \<Longrightarrow> outcome_ok f out"
  by (rule best_factor_total [OF best_factor_Inr, of f cs m out m]) (auto simp del: outcome_ok.simps(1))

lemma best_factor_mono:
  assumes "best_factor f cs m = Inr out" "best_factor f cs' m' = Inr out'" "fst ` set cs \<subseteq> fst ` set cs'"
  shows "outcome_le out out'"
proof (rule best_factor_total [OF best_factor_Inr [OF assms(1)], of m])
  fix v
  assume v: "cs \<noteq> []" "best_factor f cs m = Inr (Present v)" "rank v = fold max (candidate_ranks f cs) 0"
  show ?thesis
  proof (rule best_factor_total [OF best_factor_Inr [OF assms(2)], of m'])
    fix v'
    assume v': "best_factor f cs' m' = Inr (Present v')" "rank v' = fold max (candidate_ranks f cs') 0"
    from fold_max(2) [of "candidate_ranks f cs"] v have "rank v \<in> set (candidate_ranks f cs)" by simp
    then obtain w where "w \<in> fst ` set cs" "rank v = enum_index (SCALES f) w" by force
    with assms(3) have "rank v \<in> set (candidate_ranks f cs')" by force
    then have "rank v \<le> rank v'" using fold_max(1) v'(2) by metis
    with assms(1,2) v v' show ?thesis by (auto simp: outcome_le_Present)
  qed (use v assms in auto)
qed (use assms in auto)

section \<open>Every extractor answers\<close>

text \<open>The fields a factor looks up in a closed vocabulary hold no arrays or objects.\<close>

definition readable_payload :: "json \<Rightarrow> bool" where
  "readable_payload p =
     list_all hashable
       [jget_or_null ''query_kind'' p, jget_or_null ''kind'' p,
        jget_or_null ''kind'' (obj_or_empty (jget_or_null ''properties'' (obj_or_empty (jget_or_null ''rule'' p)))),
        jget_or_null ''source_class'' (obj_or_empty (jget_or_null ''result'' p)),
        jget_or_null ''source_class'' (obj_or_empty (jget_or_null ''source'' (obj_or_empty (jget_or_null ''result'' p))))]"

definition readable :: "factor_inputs \<Rightarrow> bool" where
  "readable d = (\<forall>(k, e)\<in>set (fi_entities d). readable_payload (re_payload e))"

lemma readable_entity: "readable d \<Longrightarrow> entity_of d r = Some e \<Longrightarrow> readable_payload (re_payload e)"
  by (auto simp: readable_def entity_of_def dest!: map_of_SomeD)

lemma is_codeql_path_total: "readable d \<Longrightarrow> \<exists>b. is_codeql_path (entity_of d r) = Inr b"
  using readable_entity [of d r]
  by (auto simp: is_codeql_path_def Let_def readable_payload_def split: option.split)

lemma cited_source_class_hashable: "readable d \<Longrightarrow> hashable (cited_source_class d r)"
  using readable_entity [of d r]
  by (auto simp: cited_source_class_def Let_def readable_payload_def hashable_def [of JNull] split: option.split)

lemma taint_basis_total: "readable d \<Longrightarrow> \<exists>b. taint_basis d r = Inr b"
  using is_codeql_path_total [of d r] by (auto simp: taint_basis_def)

lemma taint_basis_scale: "taint_basis d r = Inr b \<Longrightarrow> b \<in> set (SCALES FI_TAINT_PATH)"
  by (auto simp: taint_basis_def rbind_Inr_iff split: if_splits)

lemma guard_basis_scale: "guard_basis r \<in> set (SCALES FI_GUARD_ABSENT)"
  by (simp add: guard_basis_def)

lemma dict_values: "map_of d k = Some v \<Longrightarrow> set (map snd d) \<subseteq> A \<Longrightarrow> v \<in> A"
  by (force dest: map_of_SomeD)

lemma SOURCE_CLASS_VALUES_scale: "map_of SOURCE_CLASS_VALUES s = Some v \<Longrightarrow> v \<in> set (SCALES FI_ATTACKER_CONTROL)"
  by (erule dict_values) (simp add: SOURCE_CLASS_VALUES_def)

lemma control_candidates_scale:
  "control_candidates d r = Inr cs \<Longrightarrow> v \<in> fst ` set cs \<Longrightarrow> v \<in> set (SCALES FI_ATTACKER_CONTROL)"
  by (auto simp: control_candidates_def Let_def rbind_Inr_iff simp del: SCALES.simps(3)
      dest!: SOURCE_CLASS_VALUES_scale split: option.splits json.splits if_splits) simp_all

lemma control_candidates_total: "readable d \<Longrightarrow> \<exists>cs. control_candidates d r = Inr cs"
  using cited_source_class_hashable [of d r] by (auto simp: control_candidates_def Let_def split: option.split)

lemma tags_scale:
  "map_of EXPOSURE_TAGS t = Some v \<Longrightarrow> v \<in> set (SCALES FI_EXPOSURE)"
  "map_of PRIVILEGE_TAGS t = Some v \<Longrightarrow> v \<in> set (SCALES FI_PRIVILEGE)"
  "map_of DATA_TAGS t = Some v \<Longrightarrow> v \<in> set (SCALES FI_DATA_SENSITIVITY)"
  by (erule dict_values; simp add: EXPOSURE_TAGS_def PRIVILEGE_TAGS_def DATA_TAGS_def)+

lemma rmap_total: "\<forall>x\<in>set xs. \<exists>y. f x = Inr y \<Longrightarrow> \<exists>ys. rmap f xs = Inr ys"
  by (induction xs) auto

lemma rmap_set: "rmap f xs = Inr ys \<Longrightarrow> y \<in> set ys \<longleftrightarrow> (\<exists>x\<in>set xs. f x = Inr y)"
  by (induction xs arbitrary: ys) (auto simp: rbind_Inr_iff)

lemma taint_path_ok:
  assumes "readable d"
  shows "\<exists>out. taint_path_factor d = Inr out \<and> outcome_ok FI_TAINT_PATH out"
proof -
  let ?f = "\<lambda>r. rbind (taint_basis d r) (\<lambda>b. Inr (b, RelationItem r, [(''entity_kind'', er_entity_kind r)]))"
  have "\<forall>r\<in>set (supporting_for d P_SOURCE_TO_SINK_REACHABILITY). \<exists>y. ?f r = Inr y"
    using taint_basis_total [OF assms] by (auto simp: rbind_Inr_iff)
  from rmap_total [OF this] obtain cs where cs: "rmap ?f (supporting_for d P_SOURCE_TO_SINK_REACHABILITY) = Inr cs"
    by (elim exE)
  have "\<forall>v\<in>fst ` set cs. v \<in> set (SCALES FI_TAINT_PATH)"
    using taint_basis_scale by (auto simp: rmap_set [OF cs] rbind_Inr_iff simp del: SCALES.simps)
  from best_factor_total [OF this] obtain out where
    "best_factor FI_TAINT_PATH cs ''no counted direct support on source_to_sink_reachability'' = Inr out"
    by metis
  with cs best_factor_ok show ?thesis by (auto simp: taint_path_factor_def)
qed

lemma attacker_control_ok:
  assumes "readable d"
  shows "\<exists>out. attacker_control_factor d = Inr out \<and> outcome_ok FI_ATTACKER_CONTROL out"
proof -
  let ?rs = "supporting_for d P_ATTACKER_INPUT_CONTROL @ supporting_for d P_SOURCE_TO_SINK_REACHABILITY"
  have "\<forall>r\<in>set ?rs. \<exists>cs. control_candidates d r = Inr cs" using control_candidates_total [OF assms] by simp
  from rmap_total [OF this] obtain css where css: "rmap (control_candidates d) ?rs = Inr css" by (elim exE)
  have "\<forall>v\<in>fst ` set (concat css). v \<in> set (SCALES FI_ATTACKER_CONTROL)"
    using control_candidates_scale by (force simp: rmap_set [OF css] simp del: SCALES.simps)
  from best_factor_total [OF this] obtain out where "best_factor FI_ATTACKER_CONTROL (concat css)
      ''no counted direct support on attacker_input_control and no classified cited source'' = Inr out"
    by metis
  with css best_factor_ok show ?thesis by (auto simp: attacker_control_factor_def)
qed

text \<open>The candidates of the guard factor, and the value with the numeric labels added.\<close>

definition guard_candidates :: "factor_inputs \<Rightarrow> candidate list" where
  "guard_candidates d =
     map (\<lambda>r. (guard_basis r, RelationItem r, [(''entity_kind'', er_entity_kind r)]))
       (filter (\<lambda>r. \<not> (is_numeric_weakness (fi_weakness_cwe d) \<and> guard_basis r = ''code_evidence'')) (guard_relations d))"

lemma guard_absent_cases:
  obtains (missing) m where "guard_absent_factor d = Inr (Missing m)" "mf_factor m = FI_GUARD_ABSENT" "guard_candidates d = []"
  | (present) v v' where "guard_absent_factor d = Inr (Present v')" "outcome_ok FI_GUARD_ABSENT (Present v')" "rank v' = rank v"
      "best_factor FI_GUARD_ABSENT (guard_candidates d) ''no counted direct support on missing_or_ineffective_guard'' = Inr (Present v)"
proof -
  let ?m = "''no counted direct support on missing_or_ineffective_guard''"
  have "\<forall>v\<in>fst ` set (guard_candidates d). v \<in> set (SCALES FI_GUARD_ABSENT)"
    using guard_basis_scale by (auto simp: guard_candidates_def simp del: SCALES.simps)
  then show thesis
  proof (cases rule: best_factor_total [where m = ?m])
    case m: missing
    then have "\<exists>m. guard_absent_factor d = Inr (Missing m) \<and> mf_factor m = FI_GUARD_ABSENT"
      by (auto simp: guard_absent_factor_def Let_def guard_candidates_def)
    then show thesis using missing m(1) by blast
  next
    case v: (present v)
    have cs: "fv_citations v \<noteq> []" "fv_value v \<in> set (SCALES FI_GUARD_ABSENT)" "fv_factor v = FI_GUARD_ABSENT"
      using v(3) by simp_all
    obtain v' where v': "guard_absent_factor d = Inr (Present v')" "outcome_ok FI_GUARD_ABSENT (Present v')" "rank v' = rank v"
    proof (cases "is_numeric_weakness (fi_weakness_cwe d)")
      case True
      let ?detail = "fold (\<lambda>(k, x). AList.update k x) [(''numeric_guardrail'', [NUMERIC_RULE]),
        (''numeric_cwe_table'', [NUMERIC_CWE_TABLE_VERSION])] (fv_detail v)"
      obtain x where x: "mk_factor_value FI_GUARD_ABSENT (fv_value v) (fv_citations v) ?detail = Inr x"
        "outcome_ok FI_GUARD_ABSENT (Present x)" "fv_value x = fv_value v"
        by (rule mk_factor_value_total [OF cs(2,1)])
      have "guard_absent_factor d = Inr (Present x)"
        using v(1,2) x(1) True by (auto simp: guard_absent_factor_def Let_def guard_candidates_def)
      moreover have "rank x = rank v" using x(2,3) cs(3) by (simp add: rank_def)
      ultimately show thesis using x(2) that by blast
    next
      case False
      then have "guard_absent_factor d = Inr (Present v)"
        using v(1,2) by (auto simp: guard_absent_factor_def Let_def guard_candidates_def)
      with v(3) show thesis using that by blast
    qed
    then show thesis using v(2) by (rule present)
  qed
qed

lemma tag_candidates_ok:
  assumes "\<And>t v. map_of tags t = Some v \<Longrightarrow> v \<in> set (SCALES f)"
  shows "\<exists>out. tag_factor f tags description d = Inr out \<and> outcome_ok f out"
proof (cases "fi_tags d")
  case (Some ts)
  let ?m = "''no accepted '' @ description @ '' tag on the affected entities or component''"
  have "\<forall>v\<in>fst ` set (tag_candidates tags ts). v \<in> set (SCALES f)"
    using assms by (auto simp: tag_candidates_def split: option.splits if_splits)
  from best_factor_total [OF this, of ?m] obtain out where "best_factor f (tag_candidates tags ts) ?m = Inr out" by metis
  with Some best_factor_ok show ?thesis by (auto simp: tag_factor_def)
qed (simp add: tag_factor_def)

lemma verification_ok: "\<exists>out. verification_factor d = Inr out \<and> outcome_ok FI_VERIFICATION out"
proof (cases "fi_claim_state d \<in> {CONFIRMED, SUPPORTED}")
  case True
  then have "claim_state_value (fi_claim_state d) \<in> set (SCALES FI_VERIFICATION)" by auto
  then obtain x where "mk_factor_value FI_VERIFICATION (claim_state_value (fi_claim_state d))
      [\<lparr>sct_kind = CK_ADJUDICATION, sct_id = fi_adjudication_id d\<rparr>] [] = Inr x" "outcome_ok FI_VERIFICATION (Present x)"
    by (rule mk_factor_value_total) (rule list.distinct(2))
  with True show ?thesis by (simp add: verification_factor_def del: outcome_ok.simps)
qed (simp add: verification_factor_def)

lemma threat_ok: "\<exists>out. threat_factor d = Inr out \<and> outcome_ok FI_THREAT out"
proof (cases "fi_kev_listed d")
  case (Some listed)
  have "(if listed then ''kev_listed'' else ''not_listed'') \<in> set (SCALES FI_THREAT)" by simp
  then obtain x where "mk_factor_value FI_THREAT (if listed then ''kev_listed'' else ''not_listed'')
      [\<lparr>sct_kind = CK_REFERENCE_INPUT, sct_id = ''kev_listed''\<rparr>] [] = Inr x" "outcome_ok FI_THREAT (Present x)"
    by (rule mk_factor_value_total) (rule list.distinct(2))
  with Some show ?thesis by (simp add: threat_factor_def del: outcome_ok.simps)
qed (simp add: threat_factor_def)

lemma guard_absent_ok: "\<exists>out. guard_absent_factor d = Inr out \<and> outcome_ok FI_GUARD_ABSENT out"
  by (cases rule: guard_absent_cases [of d]) auto

lemma extract_factor_ok:
  assumes "mk_impact_extractor raw catalog = Inr S" "readable d"
  obtains out where "extract_factor S d f = Inr out" "outcome_ok f out"
proof -
  have "\<exists>out. extract_factor S d f = Inr out \<and> outcome_ok f out"
    using taint_path_ok [OF assms(2)] attacker_control_ok [OF assms(2)] guard_absent_ok [of d] verification_ok [of d] threat_ok [of d]
      tag_candidates_ok [OF tags_scale(1)] tag_candidates_ok [OF tags_scale(2)] tag_candidates_ok [OF tags_scale(3)]
      extract_cwe_total [OF assms(1), of "fi_weakness_cwe d"]
    by (cases f) (simp_all del: outcome_ok.simps, metis)
  then show thesis using that by blast
qed

section \<open>Factor sets\<close>

lemma distinct_map_sort_key: "distinct (map f (sort_key k xs)) \<longleftrightarrow> distinct (map f xs)"
  by (metis mset_eq_imp_distinct_iff mset_map mset_sort)

abbreviation present_value :: "factor_outcome \<Rightarrow> factor_value option" where
  "present_value out \<equiv> (case out of Present v \<Rightarrow> Some v | Missing _ \<Rightarrow> None)"

abbreviation missing_value :: "factor_outcome \<Rightarrow> missing_factor option" where
  "missing_value out \<equiv> (case out of Present _ \<Rightarrow> None | Missing m \<Rightarrow> Some m)"

lemma present_value_Some: "present_value out = Some v \<longleftrightarrow> out = Present v"
  by (cases out) auto

lemma outcomes_split:
  "set (map fv_factor (List.map_filter present_value outs) @ map mf_factor (List.map_filter missing_value outs)) = outcome_factor ` set outs"
  "distinct (map outcome_factor outs) \<Longrightarrow>
     distinct (map fv_factor (List.map_filter present_value outs) @ map mf_factor (List.map_filter missing_value outs))"
proof -
  show split: "set (map fv_factor (List.map_filter present_value outs) @ map mf_factor (List.map_filter missing_value outs)) =
      outcome_factor ` set outs" for outs
    by (induction outs) (auto simp: List.map_filter_simps split: factor_outcome.split)
  show "distinct (map outcome_factor outs) \<Longrightarrow>
     distinct (map fv_factor (List.map_filter present_value outs) @ map mf_factor (List.map_filter missing_value outs))"
  proof (induction outs)
    case (Cons out outs)
    then have "outcome_factor out \<notin> set (map fv_factor (List.map_filter present_value outs) @ map mf_factor (List.map_filter missing_value outs))"
      unfolding split by simp
    with Cons show ?case by (cases out) (auto simp: List.map_filter_simps)
  qed (simp add: List.map_filter_simps)
qed

lemma map_filter_set: "y \<in> set (List.map_filter f xs) \<longleftrightarrow> (\<exists>x\<in>set xs. f x = Some y)"
  by (force simp: List.map_filter_def image_iff)

lemma extract_one_Inr: "extract_one S d f = Inr out \<longleftrightarrow> extract_factor S d f = Inr out \<and> outcome_factor out = f"
  by (auto simp: extract_one_def rbind_Inr_iff)

lemma extract_all_factors: "rmap (extract_one S d) Fs = Inr outs \<Longrightarrow> map outcome_factor outs = Fs"
  by (induction Fs arbitrary: outs) (auto simp: rbind_Inr_iff extract_one_Inr)

text \<open>An extracted set holds for each requested factor what its extractor returned, and nothing else.\<close>

lemma extract_factors_get:
  assumes "extract_factors S d F = Inr fs"
  shows "f \<in> set F \<Longrightarrow> \<exists>out. extract_factor S d f = Inr out \<and> outcome_factor out = f"
    and "fs_get fs f = Some v \<longleftrightarrow> f \<in> set F \<and> extract_factor S d f = Inr (Present v) \<and> fv_factor v = f"
    and "v \<in> set (fs_values fs) \<Longrightarrow> fv_factor v \<in> set F \<and> extract_factor S d (fv_factor v) = Inr (Present v)"
    and "set (factor_ids fs) = set F"
proof -
  from assms obtain outs where outs: "rmap (extract_one S d) (sort_key factor_id_value (remdups F)) = Inr outs"
    and vals: "fs_values fs = sort_key (\<lambda>v. factor_id_value (fv_factor v)) (List.map_filter present_value outs)"
    and missing: "fs_missing fs = sort_key (\<lambda>m. factor_id_value (mf_factor m)) (List.map_filter missing_value outs)"
    by (auto simp: extract_factors_def mk_factor_set_def Let_def rbind_Inr_iff)
  have mem: "out \<in> set outs \<longleftrightarrow> outcome_factor out \<in> set F \<and> extract_factor S d (outcome_factor out) = Inr out" for out
    by (auto simp: rmap_set [OF outs] extract_one_Inr)
  show val: "v \<in> set (fs_values fs) \<Longrightarrow> fv_factor v \<in> set F \<and> extract_factor S d (fv_factor v) = Inr (Present v)" for v
    using mem [of "Present v"] by (auto simp: vals map_filter_set present_value_Some)
  show "fs_get fs f = Some v \<longleftrightarrow> f \<in> set F \<and> extract_factor S d f = Inr (Present v) \<and> fv_factor v = f"
  proof
    assume "fs_get fs f = Some v"
    with val [of v] show "f \<in> set F \<and> extract_factor S d f = Inr (Present v) \<and> fv_factor v = f" by (auto dest!: fs_get_Some)
  next
    assume f: "f \<in> set F \<and> extract_factor S d f = Inr (Present v) \<and> fv_factor v = f"
    then have "Present v \<in> set outs" by (simp add: mem)
    then have v: "v \<in> set (fs_values fs)" by (simp add: vals map_filter_set present_value_Some)
    then have "fs_get fs f \<noteq> None" using f by (auto simp: fs_get_def find_None_iff)
    then obtain w where "fs_get fs f = Some w" by blast
    moreover from this have "w = v" using f val [of w] by (auto dest!: fs_get_Some)
    ultimately show "fs_get fs f = Some v" by simp
  qed
  have "set (map outcome_factor outs) = set F" by (simp only: extract_all_factors [OF outs] set_sort set_remdups)
  then have all: "outcome_factor ` set outs = set F" by simp
  then show "f \<in> set F \<Longrightarrow> \<exists>out. extract_factor S d f = Inr out \<and> outcome_factor out = f"
    using mem by (metis imageE)
  show "set (factor_ids fs) = set F"
    using outcomes_split(1) [of outs] all by (simp add: factor_ids_def vals missing)
qed

lemma extract_factors_total:
  assumes "mk_impact_extractor raw catalog = Inr S" "readable d"
  obtains fs where "extract_factors S d F = Inr fs"
proof -
  let ?F = "sort_key factor_id_value (remdups F)"
  have ok: "\<exists>out. extract_one S d f = Inr out" for f
  proof -
    obtain out where "extract_factor S d f = Inr out" "outcome_ok f out" by (rule extract_factor_ok [OF assms])
    then show ?thesis by (cases out) (auto simp: extract_one_Inr)
  qed
  then obtain outs where outs: "rmap (extract_one S d) ?F = Inr outs" using rmap_total [of ?F "extract_one S d"] by auto
  then have "distinct (map outcome_factor outs)" by (simp add: extract_all_factors distinct_map_sort_key [of "\<lambda>x. x", simplified])
  from outcomes_split(2) [OF this] have "\<exists>fs. mk_factor_set (List.map_filter present_value outs) (List.map_filter missing_value outs) = Inr fs"
    by (auto simp: mk_factor_set_def Let_def distinct_map_sort_key)
  with outs that show thesis by (auto simp: extract_factors_def)
qed

lemma extracted_on_scale:
  assumes "mk_impact_extractor raw catalog = Inr S" "readable d" "extract_factors S d F = Inr fs"
  shows "on_scale fs" and "v \<in> set (fs_values fs) \<Longrightarrow> fv_citations v \<noteq> []"
proof -
  have "outcome_ok (fv_factor v) (Present v)" if "v \<in> set (fs_values fs)" for v
    using extract_factor_ok [OF assms(1,2), of "fv_factor v"] extract_factors_get(3) [OF assms(3) that] by (metis Inr_inject)
  then show "on_scale fs" "v \<in> set (fs_values fs) \<Longrightarrow> fv_citations v \<noteq> []" by (auto simp: on_scale_def)
qed

section \<open>More evidence\<close>

text \<open>
  \<open>d'\<close> has at least the counted support and tags of \<open>d\<close> for the same weakness, its claim's state is no
  weaker and its listing not withdrawn; what \<open>d\<close> cites resolves as before, and no guard cited in \<open>d\<close> is
  shown effective only in \<open>d'\<close>. (A range fact is shown effective by the size of its destination, which
  another guard fact may supply.)
\<close>

definition more_evidence :: "factor_inputs \<Rightarrow> factor_inputs \<Rightarrow> bool" where
  "more_evidence d d' =
     (set (fi_supporting d) \<subseteq> set (fi_supporting d') \<and>
      (\<forall>r\<in>set (fi_supporting d). entity_of d' r = entity_of d r \<and> (effective_guard d' r \<longrightarrow> effective_guard d r)) \<and>
      fi_weakness_cwe d' = fi_weakness_cwe d \<and>
      (fi_claim_state d = SUPPORTED \<longrightarrow> fi_claim_state d' \<in> {SUPPORTED, CONFIRMED}) \<and>
      (fi_claim_state d = CONFIRMED \<longrightarrow> fi_claim_state d' = CONFIRMED) \<and>
      (\<forall>ts. fi_tags d = Some ts \<longrightarrow> (\<exists>ts'. fi_tags d' = Some ts' \<and> set ts \<subseteq> set ts')) \<and>
      (\<forall>b. fi_kev_listed d = Some b \<longrightarrow> (\<exists>b'. fi_kev_listed d' = Some b' \<and> (b \<longrightarrow> b'))))"

lemma more_supporting: "more_evidence d d' \<Longrightarrow> set (supporting_for d p) \<subseteq> set (supporting_for d' p)"
  by (auto simp: more_evidence_def supporting_for_def)

lemma more_entity: "more_evidence d d' \<Longrightarrow> r \<in> set (supporting_for d p) \<Longrightarrow> entity_of d' r = entity_of d r"
  by (auto simp: more_evidence_def supporting_for_def)

lemma rmap_mono:
  assumes "rmap f xs = Inr ys" "rmap g xs' = Inr ys'" "set xs \<subseteq> set xs'" "\<And>x. x \<in> set xs \<Longrightarrow> g x = f x"
  shows "set ys \<subseteq> set ys'"
proof
  fix y assume "y \<in> set ys"
  then obtain x where "x \<in> set xs" "f x = Inr y" by (auto simp: rmap_set [OF assms(1)])
  with assms(3,4) show "y \<in> set ys'" unfolding rmap_set [OF assms(2)] by (metis subsetD)
qed

lemma taint_path_mono:
  assumes m: "more_evidence d d'" and "taint_path_factor d = Inr out" "taint_path_factor d' = Inr out'"
  shows "outcome_le out out'"
proof -
  let ?c = "\<lambda>d r. rbind (taint_basis d r) (\<lambda>b. Inr (b, RelationItem r, [(''entity_kind'', er_entity_kind r)]))"
  let ?p = P_SOURCE_TO_SINK_REACHABILITY and ?m = "''no counted direct support on source_to_sink_reachability''"
  from assms(2,3) obtain cs cs' where cs: "rmap (?c d) (supporting_for d ?p) = Inr cs" "best_factor FI_TAINT_PATH cs ?m = Inr out"
    and cs': "rmap (?c d') (supporting_for d' ?p) = Inr cs'" "best_factor FI_TAINT_PATH cs' ?m = Inr out'"
    unfolding taint_path_factor_def rbind_Inr_iff [of "rmap _ _"] by (elim exE conjE)
  have "taint_basis d' r = taint_basis d r" if "r \<in> set (supporting_for d ?p)" for r
    using more_entity [OF m that] by (simp add: taint_basis_def)
  then have "set cs \<subseteq> set cs'" by (intro rmap_mono [OF cs(1) cs'(1) more_supporting [OF m]]) simp
  then show ?thesis by (intro best_factor_mono [OF cs(2) cs'(2)] image_mono)
qed

lemma attacker_control_mono:
  assumes m: "more_evidence d d'" and "attacker_control_factor d = Inr out" "attacker_control_factor d' = Inr out'"
  shows "outcome_le out out'"
proof -
  let ?rs = "\<lambda>d. supporting_for d P_ATTACKER_INPUT_CONTROL @ supporting_for d P_SOURCE_TO_SINK_REACHABILITY"
  let ?m = "''no counted direct support on attacker_input_control and no classified cited source''"
  from assms(2,3) obtain cs cs' where
    cs: "rmap (control_candidates d) (?rs d) = Inr cs" "best_factor FI_ATTACKER_CONTROL (concat cs) ?m = Inr out" and
    cs': "rmap (control_candidates d') (?rs d') = Inr cs'" "best_factor FI_ATTACKER_CONTROL (concat cs') ?m = Inr out'"
    unfolding attacker_control_factor_def rbind_Inr_iff by (elim exE conjE)
  have "control_candidates d' r = control_candidates d r" if "r \<in> set (?rs d)" for r
    using that more_entity [OF m] by (auto simp: control_candidates_def cited_source_class_def)
  then have "set cs \<subseteq> set cs'"
    using more_supporting [OF m] by (intro rmap_mono [OF cs(1) cs'(1)]) auto
  then have "set (concat cs) \<subseteq> set (concat cs')" by auto
  then show ?thesis by (intro best_factor_mono [OF cs(2) cs'(2)] image_mono)
qed

lemma guard_absent_mono:
  assumes m: "more_evidence d d'" and "guard_absent_factor d = Inr out" "guard_absent_factor d' = Inr out'"
  shows "outcome_le out out'"
proof -
  have "set (guard_relations d) \<subseteq> set (guard_relations d')" "fi_weakness_cwe d' = fi_weakness_cwe d"
    using m by (auto simp: guard_relations_def supporting_for_def more_evidence_def)
  then have sub: "set (guard_candidates d) \<subseteq> set (guard_candidates d')" by (auto simp: guard_candidates_def)
  show ?thesis
  proof (cases rule: guard_absent_cases [of d])
    case (present v w)
    show ?thesis
    proof (cases rule: guard_absent_cases [of d'])
      case (missing x)
      with sub present(4) show ?thesis by (simp add: best_factor_def)
    next
      case p': (present v' w')
      have "outcome_le (Present v) (Present v')" using best_factor_mono [OF present(4) p'(4)] sub by auto
      with present(1,3) p'(1,3) assms(2,3) show ?thesis by (auto simp: outcome_le_Present)
    qed
  qed (use assms(2) in simp)
qed

lemma tag_factor_mono:
  assumes m: "more_evidence d d'" and "tag_factor f tags description d = Inr out" "tag_factor f tags description d' = Inr out'"
  shows "outcome_le out out'"
proof (cases "fi_tags d")
  case None
  with assms(2) show ?thesis by (auto simp: tag_factor_def)
next
  case (Some ts)
  with m obtain ts' where ts': "fi_tags d' = Some ts'" "set ts \<subseteq> set ts'" by (auto simp: more_evidence_def)
  then have "set (tag_candidates tags ts) \<subseteq> set (tag_candidates tags ts')" by (auto simp: tag_candidates_def)
  with assms(2,3) Some ts'(1) show ?thesis by (simp add: tag_factor_def best_factor_mono image_mono)
qed

lemma verification_mono:
  assumes "more_evidence d d'" "verification_factor d = Inr out" "verification_factor d' = Inr out'"
  shows "outcome_le out out'"
proof (cases "fi_claim_state d \<in> {CONFIRMED, SUPPORTED}")
  case True
  then obtain v where v: "out = Present v" "fv_factor v = FI_VERIFICATION" "fv_value v = claim_state_value (fi_claim_state d)"
    using assms(2) by (auto simp: verification_factor_def rbind_Inr_iff dest!: mk_factor_value_Inr)
  from True assms(1) have "fi_claim_state d' \<in> {CONFIRMED, SUPPORTED}" by (auto simp: more_evidence_def)
  then obtain v' where v': "out' = Present v'" "fv_factor v' = FI_VERIFICATION" "fv_value v' = claim_state_value (fi_claim_state d')"
    using assms(3) by (auto simp: verification_factor_def rbind_Inr_iff dest!: mk_factor_value_Inr)
  have "rank w = (if s = CONFIRMED then 1 else 0)"
    if "s \<in> {CONFIRMED, SUPPORTED}" "fv_factor w = FI_VERIFICATION" "fv_value w = claim_state_value s" for w s
    using that by (auto simp: rank_def)
  with v v' True \<open>fi_claim_state d' \<in> {CONFIRMED, SUPPORTED}\<close> have
    ranks: "rank v = (if fi_claim_state d = CONFIRMED then 1 else 0)" "rank v' = (if fi_claim_state d' = CONFIRMED then 1 else 0)"
    by blast+
  from assms(1) have "fi_claim_state d = CONFIRMED \<longrightarrow> fi_claim_state d' = CONFIRMED" by (simp add: more_evidence_def)
  with ranks show ?thesis by (simp add: v(1) v'(1) outcome_le_Present)
qed (use assms(2) in \<open>auto simp: verification_factor_def\<close>)

lemma threat_mono:
  assumes "more_evidence d d'" "threat_factor d = Inr out" "threat_factor d' = Inr out'"
  shows "outcome_le out out'"
proof (cases "fi_kev_listed d")
  case None
  with assms(2) show ?thesis by (auto simp: threat_factor_def)
next
  case (Some b)
  with assms(1) obtain b' where b': "fi_kev_listed d' = Some b'" "b \<longrightarrow> b'" by (auto simp: more_evidence_def)
  from Some assms(2) obtain v where v: "out = Present v" "fv_factor v = FI_THREAT" "fv_value v = (if b then ''kev_listed'' else ''not_listed'')"
    by (auto simp: threat_factor_def rbind_Inr_iff dest!: mk_factor_value_Inr)
  from b'(1) assms(3) obtain v' where
    v': "out' = Present v'" "fv_factor v' = FI_THREAT" "fv_value v' = (if b' then ''kev_listed'' else ''not_listed'')"
    by (auto simp: threat_factor_def rbind_Inr_iff dest!: mk_factor_value_Inr)
  from b'(2) v v' show ?thesis by (cases b) (auto simp: outcome_le_Present rank_def)
qed

lemmas factor_monos = verification_mono taint_path_mono attacker_control_mono guard_absent_mono tag_factor_mono threat_mono

lemma extract_factor_mono:
  assumes "more_evidence d d'" "extract_factor S d f = Inr out" "extract_factor S d' f = Inr out'"
  shows "outcome_le out out'"
proof (cases "f = FI_IMPACT_CLASS")
  case True
  with assms have "out' = out" by (simp add: more_evidence_def)
  then show ?thesis by (simp add: outcome_le_def)
next
  case False
  with assms factor_monos [OF assms(1)] show ?thesis by (cases f) simp_all
qed

lemma extract_strengthens:
  assumes "more_evidence d d'" "extract_factors S d F = Inr fs" "extract_factors S d' F' = Inr fs'" "set F \<subseteq> set F'"
  shows "strengthens fs fs'"
  unfolding strengthens_def
proof (intro allI impI)
  fix f v
  assume "fs_get fs f = Some v"
  then have f: "f \<in> set F" "extract_factor S d f = Inr (Present v)" by (auto simp: extract_factors_get(2) [OF assms(2)])
  with assms(4) obtain out where out: "extract_factor S d' f = Inr out" "outcome_factor out = f"
    using extract_factors_get(1) [OF assms(3)] by blast
  from extract_factor_mono [OF assms(1) f(2) out(1)] obtain v' where "out = Present v'" "rank v \<le> rank v'"
    by (auto simp: outcome_le_def)
  with f(1) assms(4) out show "\<exists>v'. fs_get fs' f = Some v' \<and> rank v \<le> rank v'"
    by (auto simp: extract_factors_get(2) [OF assms(3)])
qed

section \<open>Sources of evidence\<close>

text \<open>What the scoring stage relies on in a source: an entity it resolves is the one the relation cites.\<close>

locale evidence_provider =
  fixes source :: evidence_source
  assumes resolved_identity:
    "es_resolve source r = Inr (Some e) \<Longrightarrow> re_entity_id e = er_entity_id r \<and> re_kind e = er_entity_kind r"
begin

text \<open>Every entity the factors may read was resolved for one of the relations.\<close>

lemma resolve_step_entities:
  assumes "rfold (resolve_step source) rs acc = Inr acc'" "(k, e) \<in> set (fst acc')"
  shows "(k, e) \<in> set (fst acc) \<or> (\<exists>r\<in>set rs. er_entity_id r = k \<and> es_resolve source r = Inr (Some e))"
  using assms
proof (induction rs arbitrary: acc)
  case (Cons r rs)
  obtain es us where acc: "acc = (es, us)" by (cases acc)
  from Cons.prems(1) obtain acc1 where step: "resolve_step source r acc = Inr acc1" "rfold (resolve_step source) rs acc1 = Inr acc'"
    by (auto simp: rbind_Inr_iff)
  have "(k, e) \<in> set (fst acc1) \<Longrightarrow> (k, e) \<in> set es \<or> er_entity_id r = k \<and> es_resolve source r = Inr (Some e)"
    using step(1) by (auto simp: resolve_step_def acc rbind_Inr_iff update_new split: if_splits option.splits)
  with Cons.IH [OF step(2) Cons.prems(2)] show ?case by (auto simp: acc)
qed simp

lemma input_entities:
  assumes "factor_input c a relations (Some source) kev = Inr d" "(k, e) \<in> set (fi_entities d)"
  obtains r where "r \<in> set relations" "er_kind r = SUPPORTS" "er_relation_id r \<in> (\<Union>s\<in>set (a_predicates a). set (ps_supporting s))"
    "er_entity_id r = k" "es_resolve source r = Inr (Some e)" "re_entity_id e = k" "re_kind e = er_entity_kind r"
proof -
  from assms(1) obtain rs acc where rs: "counted_support (\<Union>s\<in>set (a_predicates a). set (ps_supporting s)) relations = Inr rs"
    and acc: "rfold (resolve_step source) rs ([], []) = Inr acc" "fi_entities d = sort_key fst (fst acc)"
    by (auto simp: factor_input_def Let_def rbind_Inr_iff case_prod_unfold)
  from resolve_step_entities [OF acc(1), of k e] assms(2) acc(2) obtain r where
    r: "r \<in> set rs" "er_entity_id r = k" "es_resolve source r = Inr (Some e)" by auto
  from rs r(1) have "r \<in> set relations" "er_kind r = SUPPORTS" "er_relation_id r \<in> (\<Union>s\<in>set (a_predicates a). set (ps_supporting s))"
    by (auto simp: counted_support_def Let_def rbind_Inr_iff)
  with r resolved_identity [OF r(3)] that show thesis by blast
qed

end

lemma resolve_accepted_Some:
  assumes "resolve_accepted H src r = Inr (Some e)"
  obtains found entity rest excerpt where "core_find (as_core src) (er_entity_id r) = Inr found" "results found = entity # rest"
    "jget_or_null ''identity'' entity = JStr (er_entity_id r)" "jget_or_null ''kind'' entity = JStr (er_entity_kind r)"
    "H (content_record entity excerpt) = er_content_sha256 r" "re_entity_id e = er_entity_id r" "re_kind e = er_entity_kind r"
    "re_payload e = obj_or_empty (jget_or_null ''payload'' entity)"
proof -
  note R = assms [unfolded resolve_accepted_def Let_def]
  from R obtain found where found: "core_find (as_core src) (er_entity_id r) = Inr found" by (auto simp: rbind_Inr_iff)
  note R = R [unfolded found, simplified]
  from R obtain entity rest where entity: "results found = entity # rest" by (cases "results found") auto
  note R = R [unfolded entity, simplified]
  from R have same: "jget_or_null ''identity'' entity = JStr (er_entity_id r)" "jget_or_null ''kind'' entity = JStr (er_entity_kind r)"
    by (auto split: if_split_asm)
  note R = R [unfolded same, simplified]
  from R obtain out where out: "read_location (as_core src) (er_entity_id r) entity = Inr out" by (auto simp: rbind_Inr_iff)
  note R = R [unfolded out, simplified]
  from R obtain excerpt b where eb: "out = Inr (excerpt, b)" by (cases out) auto
  note R = R [unfolded eb, simplified]
  from R have sha: "H (content_record entity excerpt) = er_content_sha256 r" by (auto split: if_split_asm)
  with R have "re_entity_id e = er_entity_id r" "re_kind e = er_entity_kind r"
    "re_payload e = obj_or_empty (jget_or_null ''payload'' entity)" by auto
  with found entity same sha show thesis by (rule that)
qed

interpretation accepted: evidence_provider "accepted_evidence H src" for H src
  by unfold_locales (auto simp: accepted_evidence_def elim: resolve_accepted_Some)

lemma content_record_payload:
  assumes "content_record entity x = content_record entity' x'"
  shows "jget_or_null ''payload'' entity = jget_or_null ''payload'' entity'"
proof -
  have "jget_or_null ''payload'' (content_record e y) = jget_or_null ''payload'' e" for e y
    by (simp add: content_record_def split: option.split)
  with assms show ?thesis by metis
qed

lemma mint_content: "mint_relation H sr core ct parsed entity excerpt cmpl = Inr r \<Longrightarrow>
    er_content_sha256 r = H (content_record entity excerpt) \<and> er_entity_id r = li_value parsed"
  by (auto simp: mint_relation_def Let_def rbind_Inr_iff split: prod.splits)

text \<open>
  C28. Scoring reads what validation read. Every payload that enters the factors belongs to a relation the
  adjudication counted as supporting, whose citation was validated against the accepted manifest; the
  entity scoring finds has the same identity and kind and the recorded content digest. Unless the digest
  collides on the two content records, the payload is the one validation saw, even if the index
  changed in between.
\<close>

theorem scoring_reads_validated_content:
  assumes "factor_input c a relations (Some (accepted_evidence H src)) kev = Inr d" and "(k, e) \<in> set (fi_entities d)"
    and "\<forall>r\<in>set relations. \<exists>ct. resolve_relation H show_reason core ct = Inr (Inr r)"
  shows "\<exists>r found entity entity' x x'. r \<in> set relations \<and> er_kind r = SUPPORTS \<and>
     (\<exists>p\<in>set (a_predicates a). er_relation_id r \<in> set (ps_supporting p)) \<and> er_entity_id r = k \<and>
     re_kind e = er_entity_kind r \<and> core_find core k = Inr found \<and> entity = hd (results found) \<and>
     re_payload e = obj_or_empty (jget_or_null ''payload'' entity') \<and>
     H (content_record entity x) = er_content_sha256 r \<and> H (content_record entity' x') = er_content_sha256 r \<and>
     (no_collision H {content_record entity x, content_record entity' x'} \<longrightarrow>
        re_payload e = obj_or_empty (jget_or_null ''payload'' entity))"
proof -
  obtain r where r: "r \<in> set relations" "er_kind r = SUPPORTS" "er_entity_id r = k" "re_kind e = er_entity_kind r"
    "resolve_accepted H src r = Inr (Some e)" "\<exists>p\<in>set (a_predicates a). er_relation_id r \<in> set (ps_supporting p)"
    by (rule accepted.input_entities [OF assms(1,2)]) (simp add: accepted_evidence_def)
  obtain entity' x' where e': "H (content_record entity' x') = er_content_sha256 r"
    "re_payload e = obj_or_empty (jget_or_null ''payload'' entity')"
    by (rule resolve_accepted_Some [OF r(5)])
  from assms(3) r(1) obtain ct where ct: "resolve_relation H show_reason core ct = Inr (Inr r)" by blast
  obtain parsed found entity x cmpl where f: "core_find core (li_value parsed) = Inr found" "entity = hd (results found)"
    "mint_relation H show_reason core ct parsed entity x cmpl = Inr r"
    by (rule resolve_relation_elim [OF ct])
  note mint = mint_content [OF f(3)]
  have "re_payload e = obj_or_empty (jget_or_null ''payload'' entity)"
    if "no_collision H {content_record entity x, content_record entity' x'}"
  proof -
    have "content_record entity x = content_record entity' x'"
      by (rule inj_onD [OF that [unfolded no_collision_def]]) (use e'(1) mint in auto)
    from content_record_payload [OF this] e'(2) show ?thesis by simp
  qed
  with r(1-4,6) f(1,2) mint e' show ?thesis
    by (intro exI [of _ r] exI [of _ found] exI [of _ entity] exI [of _ entity'] exI [of _ x] exI [of _ x']) simp
qed

section \<open>A claim that adjudication supported is scored\<close>

lemma adjudicated_support:
  assumes "adjudicate H policy c rs vi scope existing prior vg rnd = Inr a"
  shows "(\<Union>s\<in>set (a_predicates a). set (ps_supporting s)) = er_relation_id ` {r \<in> set rs. counted r \<and> er_kind r = SUPPORTS}"
proof -
  obtain R where R: "required_predicates_for c = Inr R" "\<forall>r\<in>set rs. er_claim_id r = c_claim_id c"
    by (rule adjudicate_elim [OF assms])
  obtain row st where row: "decide_row c (map (predicate_status_of rs R) sorted_predicates) vi scope existing = (row, st)"
    by fastforce
  from assms R row have "a_predicates a = map (predicate_status_of rs R) sorted_predicates"
    by (auto simp: adjudicate_def predicate_statuses_def Let_def simp del: fmap_of_list_simps)
  moreover have "p \<in> set sorted_predicates" for p
    using predicate_enum.complete [of p] by (simp add: sorted_predicates_def)
  ultimately show ?thesis by (auto simp: predicate_status_of_def Let_def counted_ids_def)
qed

lemma counted_support_total:
  assumes "ids = er_relation_id ` {r \<in> set rs. counted r \<and> er_kind r = SUPPORTS}"
  obtains supporting where "counted_support ids rs = Inr supporting" "set supporting \<subseteq> set rs"
proof -
  have "set (map er_relation_id (filter (\<lambda>r. er_relation_id r \<in> ids \<and> er_kind r = SUPPORTS) rs)) = ids"
    using assms by auto
  then show thesis by (intro that) (auto simp: counted_support_def Let_def)
qed

text \<open>A source that answers for these relations, with payloads whose vocabulary fields are readable.\<close>

definition source_answers :: "evidence_source option \<Rightarrow> evidence_relation list \<Rightarrow> bool" where
  "source_answers source rs =
     (case source of
        None \<Rightarrow> True
      | Some src \<Rightarrow> \<forall>r\<in>set rs. (case es_resolve src r of
            Inl _ \<Rightarrow> False | Inr None \<Rightarrow> True | Inr (Some e) \<Rightarrow> readable_payload (re_payload e)))"

lemma resolve_total:
  assumes "\<forall>r\<in>set rs. (case es_resolve src r of Inl _ \<Rightarrow> False | Inr None \<Rightarrow> True | Inr (Some e) \<Rightarrow> readable_payload (re_payload e))"
    and "\<forall>(k, e)\<in>set (fst acc). readable_payload (re_payload e)"
  shows "\<exists>acc'. rfold (resolve_step src) rs acc = Inr acc' \<and> (\<forall>(k, e)\<in>set (fst acc'). readable_payload (re_payload e))"
  using assms
proof (induction rs arbitrary: acc)
  case (Cons r rs)
  obtain es us where acc: "acc = (es, us)" by (cases acc)
  have "\<exists>acc1. resolve_step src r acc = Inr acc1 \<and> (\<forall>(k, e)\<in>set (fst acc1). readable_payload (re_payload e))"
    using Cons.prems by (auto simp: resolve_step_def acc update_new split: sum.splits option.splits)
  with Cons.IH Cons.prems(1) show ?case by fastforce
qed simp

lemma factor_input_total:
  assumes "adjudicate H policy c rs vi scope existing prior vg rnd = Inr a" "source_answers source rs"
  obtains d where "factor_input c a rs source kev = Inr d" "readable d" "fi_claim_state d = a_state a"
    "fi_weakness_cwe d = c_weakness_cwe c"
proof -
  obtain sup where sup: "counted_support (\<Union>s\<in>set (a_predicates a). set (ps_supporting s)) rs = Inr sup" "set sup \<subseteq> set rs"
    by (rule counted_support_total [OF adjudicated_support [OF assms(1)]])
  have "\<exists>d. factor_input c a rs source kev = Inr d \<and> readable d \<and> fi_claim_state d = a_state a \<and> fi_weakness_cwe d = c_weakness_cwe c"
  proof (cases source)
    case None
    then show ?thesis by (simp add: factor_input_def sup(1) readable_def)
  next
    case (Some src)
    with assms(2) sup(2) have "\<forall>r\<in>set sup. (case es_resolve src r of Inl _ \<Rightarrow> False | Inr None \<Rightarrow> True
        | Inr (Some e) \<Rightarrow> readable_payload (re_payload e))"
      by (auto simp: source_answers_def)
    from resolve_total [OF this, of "([], [])"] obtain es us where
      "rfold (resolve_step src) sup ([], []) = Inr (es, us)" "\<forall>(k, e)\<in>set es. readable_payload (re_payload e)" by auto
    then show ?thesis by (simp add: factor_input_def sup(1) Some Let_def readable_def)
  qed
  then show thesis using that by blast
qed

lemma validate_extracted:
  assumes S: "mk_impact_extractor raw catalog = Inr S" and "readable d" "extract_factors S d (consumed_factors m) = Inr fs"
    and state: "fi_claim_state d \<in> SCOREABLE_STATES" and cwe: "\<forall>w. fi_weakness_cwe d = Some w \<longrightarrow> normalize_cwe w = Some w"
  shows "validate_inputs S m (fi_claim_state d) (fi_weakness_cwe d) (Some fs) = Inr []"
proof -
  note get = extract_factors_get(2) [OF assms(3)] and ids = extract_factors_get(4) [OF assms(3)]
  have "fv_value v = claim_state_value (fi_claim_state d)" if "fs_get fs FI_VERIFICATION = Some v" for v
    using that by (auto simp: get verification_factor_def rbind_Inr_iff split: if_splits dest!: mk_factor_value_Inr)
  moreover have "extract_cwe S (fi_weakness_cwe d) = Inr (Present v)" if "fs_get fs FI_IMPACT_CLASS = Some v" for v
    using that by (simp add: get)
  ultimately show ?thesis using ids state cwe by (auto simp: validate_inputs_def Let_def split: option.split)
qed

text \<open>
  C27. A claim that adjudication supported or confirmed is always scored. For a normalized claim, whatever
  relations were counted, if the evidence source answers for them and the pinned catalog, the overrides
  and the risk model were accepted, the stage builds its factors, the provider finds no fault with the
  request, and scoring returns: the ratings are exploitability ratings, the severity ends are severity
  bands in order (or both absent, without an impact class) and so is the band, which is given exactly
  when the assessment is not \<open>unrated\<close>. It neither raises nor reports a gap.
\<close>

theorem adjudicated_claim_scored:
  assumes "from_document x env matrix = Inr m" "dict_ok (fst x)" "dict_ok (fst env)"
    and "mk_impact_extractor raw catalog = Inr S"
    and "normalize_claim H ids lookup i = Inr (c, gs)"
    and "adjudicate H policy c rs vi scope existing prior vg rnd = Inr a" and "a_state a \<in> SCOREABLE_STATES"
    and "source_answers source rs"
  shows "\<exists>s. score_claim H S m c a rs source kev = Inr (Some (Inr s)) \<and>
    rs_floor_rating s \<in> set RATINGS \<and> rs_ceiling_rating s \<in> set RATINGS \<and>
    rating_index (rs_floor_rating s) \<le> rating_index (rs_ceiling_rating s) \<and>
    (sa_severity_floor (rs_assessment s) = None \<and> sa_severity_ceiling (rs_assessment s) = None \<or>
     (\<exists>low\<in>set BANDS. \<exists>high\<in>set BANDS. band_index low \<le> band_index high \<and>
        sa_severity_floor (rs_assessment s) = Some low \<and> sa_severity_ceiling (rs_assessment s) = Some high)) \<and>
    (rs_band s = None \<longleftrightarrow> sa_assessment (rs_assessment s) = ''unrated'') \<and>
    (\<forall>b. rs_band s = Some b \<longrightarrow> b \<in> set BANDS \<and>
       sa_severity_floor (rs_assessment s) = Some b \<and> sa_severity_ceiling (rs_assessment s) = Some b)"
proof -
  obtain d where d: "factor_input c a rs source kev = Inr d" "readable d" "fi_claim_state d = a_state a"
    "fi_weakness_cwe d = c_weakness_cwe c"
    by (rule factor_input_total [OF assms(6,8)])
  obtain fs where fs: "extract_factors S d (consumed_factors m) = Inr fs"
    by (rule extract_factors_total [OF assms(4) d(2)])
  have "validate_inputs S m (a_state a) (c_weakness_cwe c) (Some fs) = Inr []"
    using validate_extracted [OF assms(4) d(2) fs] assms(7) normalized_weakness [OF assms(5)] by (simp add: d(3,4))
  moreover have "on_scale fs" by (rule extracted_on_scale(1) [OF assms(4) d(2) fs])
  from score_well_typed [OF assms(1-3) this] obtain s where
    s: "score_factors m fs = Inr s" "rs_floor_rating s \<in> set RATINGS" "rs_ceiling_rating s \<in> set RATINGS"
      "rating_index (rs_floor_rating s) \<le> rating_index (rs_ceiling_rating s)"
      and sev: "if fs_get fs FI_IMPACT_CLASS = None
        then sa_severity_floor (rs_assessment s) = None \<and> sa_severity_ceiling (rs_assessment s) = None
        else \<exists>low\<in>set BANDS. \<exists>high\<in>set BANDS. band_index low \<le> band_index high \<and>
          sa_severity_floor (rs_assessment s) = Some low \<and> sa_severity_ceiling (rs_assessment s) = Some high" and band:
      "rs_band s = None \<longleftrightarrow> sa_assessment (rs_assessment s) = ''unrated''"
      "\<forall>b. rs_band s = Some b \<longrightarrow> sa_severity_floor (rs_assessment s) = Some b \<and> sa_severity_ceiling (rs_assessment s) = Some b"
    by (elim exE conjE)
  ultimately have scored: "score_claim H S m c a rs source kev = Inr (Some (Inr s))"
    using assms(7) d(1) fs by (simp add: score_claim_def provider_score_def)
  from sev have ends: "sa_severity_floor (rs_assessment s) = None \<and> sa_severity_ceiling (rs_assessment s) = None \<or>
     (\<exists>low\<in>set BANDS. \<exists>high\<in>set BANDS. band_index low \<le> band_index high \<and>
        sa_severity_floor (rs_assessment s) = Some low \<and> sa_severity_ceiling (rs_assessment s) = Some high)"
    by (metis (no_types, lifting))
  then have "\<forall>b. rs_band s = Some b \<longrightarrow> b \<in> set BANDS \<and>
      sa_severity_floor (rs_assessment s) = Some b \<and> sa_severity_ceiling (rs_assessment s) = Some b"
    using band(2) by fastforce
  then show ?thesis by (intro exI [of _ s] conjI scored s ends band(1))
qed

text \<open>
  C26. More counted evidence never lowers a severity. If a claim gains counted support or tags, becomes
  confirmed or listed, while what it cited resolves as before and none of its guards is newly shown
  effective, then every extracted factor keeps or raises its value, and the exploitability rating and the
  severity that scoring guarantees do not fall.
\<close>

theorem evidence_never_lowers_severity:
  assumes "from_document x env matrix = Inr m" "dict_ok (fst x)" "dict_ok (fst env)"
    and "mk_impact_extractor raw catalog = Inr S" and "readable d" "readable d'"
    and "extract_factors S d (consumed_factors m) = Inr fs" "extract_factors S d' (consumed_factors m) = Inr fs'"
    and "more_evidence d d'" and "score_factors m fs = Inr s" "score_factors m fs' = Inr s'"
  shows "strengthens fs fs' \<and> rating_index (rs_floor_rating s) \<le> rating_index (rs_floor_rating s') \<and>
    (\<forall>low. sa_severity_floor (rs_assessment s) = Some low \<longrightarrow>
       (\<exists>low'. sa_severity_floor (rs_assessment s') = Some low' \<and> band_index low \<le> band_index low'))"
proof -
  have str: "strengthens fs fs'" by (rule extract_strengthens [OF assms(9,7,8)]) simp
  note scale = extracted_on_scale(1) [OF assms(4,5,7)] extracted_on_scale(1) [OF assms(4,6,8)]
  from score_never_lower [OF from_document_valid [OF assms(1-3)] scale str assms(10,11)] str show ?thesis by blast
qed

section \<open>Samples\<close>

text \<open>A tool observation cited in support of the impact predicate, validated and then scored.\<close>

definition sample_validated :: "evidence_relation list" where
  "sample_validated =
     (case resolve_relation (\<lambda>_. ''h'') (\<lambda>_. []) (sample_core ''tool_observation'' JNull)
        (sample_citation ''tool_observation'' P_SECURITY_IMPACT SUPPORTS) of Inr (Inr r) \<Rightarrow> [r] | _ \<Rightarrow> [])"

definition sample_source :: accepted_source where
  "sample_source = \<lparr>as_core = sample_core ''tool_observation'' JNull, as_components = [], as_tag_rows = None\<rparr>"

definition sample_factor_input :: "adjudication \<Rightarrow> factor_inputs res" where
  "sample_factor_input a = factor_input sample_claim a sample_validated (Some (accepted_evidence (\<lambda>_. ''h'') sample_source)) None"

theorem scoring_reads_validated_content_witness:
  "\<exists>a d e r. sample_adjudication sample_validated = Inr a \<and> sample_factor_input a = Inr d \<and>
     (sample_identity ''tool_observation'', e) \<in> set (fi_entities d) \<and> r \<in> set sample_validated \<and> re_kind e = er_entity_kind r"
proof -
  let ?R = "resolve_relation (\<lambda>_. ''h'') (\<lambda>_. []) (sample_core ''tool_observation'' JNull)
     (sample_citation ''tool_observation'' P_SECURITY_IMPACT SUPPORTS)"
  have "case sample_adjudication sample_validated of
      Inr a \<Rightarrow> (case sample_factor_input a of Inr d \<Rightarrow> sample_identity ''tool_observation'' \<in> fst ` set (fi_entities d) | _ \<Rightarrow> False)
    | _ \<Rightarrow> False"
    by code_simp
  then obtain a d e where s: "sample_adjudication sample_validated = Inr a" "sample_factor_input a = Inr d"
    and e: "(sample_identity ''tool_observation'', e) \<in> set (fi_entities d)"
    by (auto split: sum.split_asm)
  have "\<forall>r\<in>set sample_validated. \<exists>ct. resolve_relation (\<lambda>_. ''h'') (\<lambda>_. []) (sample_core ''tool_observation'' JNull) ct = Inr (Inr r)"
    by (auto simp: sample_validated_def split: sum.splits)
  from scoring_reads_validated_content [OF s(2) [unfolded sample_factor_input_def] e this] s e show ?thesis by blast
qed

text \<open>A normalized claim with support for every predicate, in a run whose source resolves none of it.\<close>

definition scored_support :: "string \<Rightarrow> evidence_relation list" where
  "scored_support claim_id = map (\<lambda>p. sample_relation SUPPORTS p\<lparr>er_claim_id := claim_id\<rparr>) predicate_members"

definition scored_normalized :: "(claim \<times> gap list) res" where
  "scored_normalized = normalize_claim (\<lambda>_. ''h'') [''CWE-120''] None (sample_input LEAD [sample_entity CHR ''a''])"

definition scored_adjudication :: "claim \<Rightarrow> adjudication res" where
  "scored_adjudication c =
     adjudicate (\<lambda>_. ''h'') ''policy'' c (scored_support (c_claim_id c)) True (set (c_affected_entities c)) {} PROPOSED None 0"

theorem adjudicated_claim_scored_witness:
  "\<exists>m S c gs a s. DEFAULT_RISK_MODEL = Inr m \<and> mk_impact_extractor [(''120'', Plain ''high'')] None = Inr S \<and>
     scored_normalized = Inr (c, gs) \<and> scored_adjudication c = Inr a \<and>
     score_claim (\<lambda>_. ''h'') S m c a (scored_support (c_claim_id c)) (Some (accepted_evidence (\<lambda>_. ''h'') sample_source)) None =
       Inr (Some (Inr s)) \<and> rs_floor_rating s \<in> set RATINGS"
proof -
  obtain m where m: "DEFAULT_RISK_MODEL = Inr m" by (rule default_scores [OF default_bands(1)])
  have "case mk_impact_extractor [(''120'', Plain ''high'')] None of Inr _ \<Rightarrow> True | _ \<Rightarrow> False" by code_simp
  then obtain S where S: "mk_impact_extractor [(''120'', Plain ''high'')] None = Inr S" by (auto split: sum.split_asm)
  have "case scored_normalized of
      Inr (c, _) \<Rightarrow> source_answers (Some (accepted_evidence (\<lambda>_. ''h'') sample_source)) (scored_support (c_claim_id c)) \<and>
        (case scored_adjudication c of Inr a \<Rightarrow> a_state a \<in> SCOREABLE_STATES | _ \<Rightarrow> False)
    | _ \<Rightarrow> False"
    by code_simp
  then obtain c gs a where c: "scored_normalized = Inr (c, gs)"
    "source_answers (Some (accepted_evidence (\<lambda>_. ''h'') sample_source)) (scored_support (c_claim_id c))"
    and a: "scored_adjudication c = Inr a" "a_state a \<in> SCOREABLE_STATES"
    by (auto split: sum.split_asm)
  from adjudicated_claim_scored [OF m [unfolded DEFAULT_RISK_MODEL_def] _ _ S c(1) [unfolded scored_normalized_def]
      a(1) [unfolded scored_adjudication_def] a(2) c(2)] default_dicts
  show ?thesis using m S c(1) a(1) by fastforce
qed

text \<open>A weakness with an override, first with no counted support and then with a cited source span.\<close>

definition sample_data :: "evidence_relation list \<Rightarrow> factor_inputs" where
  "sample_data rs =
     \<lparr>fi_claim_id = ''c1'', fi_adjudication_id = ''a'', fi_claim_state = SUPPORTED, fi_weakness_cwe = Some ''CWE-120'',
      fi_supporting = rs, fi_entities = [], fi_unresolved = [], fi_tags = None, fi_tags_unavailable_reason = TAGS_NOT_SUPPLIED,
      fi_kev_listed = None\<rparr>"

definition sample_score :: "evidence_relation list \<Rightarrow> (factor_set \<times> risk_score) res" where
  "sample_score rs =
     rbind (mk_impact_extractor [(''120'', Plain ''high'')] None) (\<lambda>S. rbind DEFAULT_RISK_MODEL (\<lambda>m.
     rbind (extract_factors S (sample_data rs) (consumed_factors m)) (\<lambda>fs. rbind (score_factors m fs) (\<lambda>s. Inr (fs, s)))))"

theorem evidence_never_lowers_severity_witness:
  "\<exists>fs s fs' s'. sample_score [] = Inr (fs, s) \<and> sample_score [sample_relation SUPPORTS P_SOURCE_TO_SINK_REACHABILITY] = Inr (fs', s') \<and>
     strengthens fs fs' \<and> rating_index (rs_floor_rating s) \<le> rating_index (rs_floor_rating s')"
proof -
  let ?r = "[sample_relation SUPPORTS P_SOURCE_TO_SINK_REACHABILITY]"
  have "case (sample_score [], sample_score ?r) of (Inr _, Inr _) \<Rightarrow> True | _ \<Rightarrow> False" by code_simp
  then obtain fs s fs' s' where sc: "sample_score [] = Inr (fs, s)" "sample_score ?r = Inr (fs', s')"
    by (auto split: sum.split_asm)
  obtain m where m: "DEFAULT_RISK_MODEL = Inr m" by (rule default_scores [OF default_bands(1)])
  from sc obtain S where S: "mk_impact_extractor [(''120'', Plain ''high'')] None = Inr S"
    and fs: "extract_factors S (sample_data []) (consumed_factors m) = Inr fs" "score_factors m fs = Inr s"
    and fs': "extract_factors S (sample_data ?r) (consumed_factors m) = Inr fs'" "score_factors m fs' = Inr s'"
    by (auto simp: sample_score_def rbind_Inr_iff m)
  have "readable (sample_data rs)" for rs by (simp add: readable_def sample_data_def)
  moreover have "more_evidence (sample_data []) (sample_data ?r)" by (simp add: more_evidence_def sample_data_def)
  ultimately show ?thesis
    using evidence_never_lowers_severity [OF m [unfolded DEFAULT_RISK_MODEL_def] _ _ S _ _ fs(1) fs'(1) _ fs(2) fs'(2)] default_dicts sc
    by auto
qed

end
