(* ===== verification/Labels.thy ===== *)
theory Labels
  imports Models
begin

text \<open>
  Cell-local evidence labels (\<open>review/labels.py\<close>): the table that turns what a model cites into an
  identity, and the labels a package view adds for further identities (\<open>review/package_view.py\<close>).

  A label handed out during a cell keeps its meaning for the rest of it, and a citation resolves only to
  an identity the cell has received. Tokens are strings, as the answer schemas require.
\<close>

section \<open>The table\<close>

record label_table =
  lt_texts :: "(string, string) dict"
  lt_labels :: "(string, string) dict"
  lt_by_ref :: "(string, string) dict"
  lt_known :: "string set"
  lt_retrieved :: nat

definition RETRIEVAL_PREFIX :: string where
  "RETRIEVAL_PREFIX = ''Q''"

text \<open>The pattern \<open>[A-Z][0-9]{1,4}\<close> on a whole string.\<close>

definition is_label :: "string \<Rightarrow> bool" where
  "is_label s =
     (case s of [] \<Rightarrow> False
      | c # ds \<Rightarrow> (let n = of_char c :: nat in 65 \<le> n \<and> n \<le> 90) \<and> ds \<noteq> [] \<and> length ds \<le> 4 \<and> list_all is_digit ds)"

text \<open>\<open>LabelTable(labels, known, texts)\<close>.\<close>

definition mk_labels :: "(string, string) dict \<Rightarrow> string set \<Rightarrow> (string, string) dict \<Rightarrow> label_table" where
  "mk_labels labels known texts =
     \<lparr>lt_texts = texts, lt_labels = labels, lt_by_ref = fold (\<lambda>(label, ref). dict_setdefault ref label) labels [],
      lt_known = known \<union> set (map snd labels), lt_retrieved = 0\<rparr>"

definition retrieved_labels :: "label_table \<Rightarrow> (string, string) dict" where
  "retrieved_labels t = filter (\<lambda>(label, _). starts_with RETRIEVAL_PREFIX label) (lt_labels t)"

definition know :: "label_table \<Rightarrow> string set \<Rightarrow> label_table" where
  "know t refs = t\<lparr>lt_known := lt_known t \<union> refs\<rparr>"

definition add_package_label :: "label_table \<Rightarrow> string \<Rightarrow> string \<Rightarrow> label_table res" where
  "add_package_label t label ref =
     rbind (rguard (map_of (lt_labels t) label \<in> {None, Some ref}) (ValueError (''label '' @ label @ '' is already assigned''))) (\<lambda>_.
       Inr (t\<lparr>lt_labels := AList.update label ref (lt_labels t), lt_by_ref := dict_setdefault ref label (lt_by_ref t),
              lt_known := insert ref (lt_known t)\<rparr>))"

definition label_for :: "label_table \<Rightarrow> string \<Rightarrow> string option" where
  "label_for t ref = map_of (lt_by_ref t) ref"

definition add_retrieved :: "label_table \<Rightarrow> string \<Rightarrow> string \<times> label_table" where
  "add_retrieved t ref =
     (case map_of (lt_by_ref t) ref of
        Some label \<Rightarrow> (label, t)
      | None \<Rightarrow>
          let n = Suc (lt_retrieved t); label = RETRIEVAL_PREFIX @ nat_str n
          in (label, t\<lparr>lt_retrieved := n, lt_labels := AList.update label ref (lt_labels t),
                       lt_by_ref := AList.update ref label (lt_by_ref t), lt_known := insert ref (lt_known t)\<rparr>))"

definition resolve :: "label_table \<Rightarrow> string \<Rightarrow> string option" where
  "resolve t token =
     (if is_label token then map_of (lt_labels t) token
      else if match_logical_id token \<noteq> None \<and> token \<in> lt_known t then Some token else None)"

definition text_of :: "label_table \<Rightarrow> string \<Rightarrow> string option" where
  "text_of t token = map_of (lt_texts t) token"

definition resolve_all :: "label_table \<Rightarrow> string list \<Rightarrow> string list \<times> string list" where
  "resolve_all t tokens =
     fold (\<lambda>token (found, dropped).
             case resolve t token of
               None \<Rightarrow> (found, dropped @ [take 80 token])
             | Some ref \<Rightarrow> (append_new ref found, dropped)) tokens ([], [])"

section \<open>Labels of a package view\<close>

record package_view =
  pv_labels :: "(string, string) dict"
  pv_packaged_refs :: "string set"
  pv_texts :: "(string, string) dict"

definition view_table :: "package_view \<Rightarrow> string set \<Rightarrow> label_table" where
  "view_table v extra_known = mk_labels (pv_labels v) (pv_packaged_refs v \<union> extra_known) (pv_texts v)"

definition extra_step ::
  "string \<Rightarrow> string \<Rightarrow> (string, string) dict \<times> (string, string) dict \<times> nat \<times> (string, string) dict \<Rightarrow>
   (string, string) dict \<times> (string, string) dict \<times> nat \<times> (string, string) dict" where
  "extra_step prefix ref acc =
     (let (labels, by_ref, count, added) = acc
      in case map_of by_ref ref of
           Some label \<Rightarrow> (labels, by_ref, count, AList.update ref label added)
         | None \<Rightarrow>
             let label = prefix @ nat_str (Suc count)
             in (AList.update label ref labels, AList.update ref label by_ref, Suc count, AList.update ref label added))"

definition with_extra :: "package_view \<Rightarrow> string list \<Rightarrow> string \<Rightarrow> package_view \<times> (string, string) dict" where
  "with_extra v refs prefix =
     (let by_ref = fold (\<lambda>(label, ref). dict_setdefault ref label) (pv_labels v) [];
          count = length (filter (\<lambda>(label, _). starts_with prefix label) (pv_labels v));
          (labels, _, _, added) = fold (extra_step prefix) refs (pv_labels v, by_ref, count, [])
      in (v\<lparr>pv_labels := labels, pv_packaged_refs := pv_packaged_refs v \<union> set (map fst added)\<rparr>, added))"

section \<open>Cells\<close>

text \<open>What a cell does to its table: it receives identities, labels retrieved ones and adds package labels.\<close>

inductive label_step :: "label_table \<Rightarrow> label_table \<Rightarrow> bool" where
  received: "label_step t (know t refs)"
| retrieved: "add_retrieved t ref = (label, t') \<Longrightarrow> label_step t t'"
| package: "add_package_label t label ref = Inr t' \<Longrightarrow> \<not> starts_with RETRIEVAL_PREFIX label \<Longrightarrow> is_label label \<Longrightarrow> label_step t t'"

inductive_cases label_step_cases: "label_step t t'"

text \<open>Package labels are labels, and leave the retrieval letter alone.\<close>

definition package_labels :: "(string, string) dict \<Rightarrow> bool" where
  "package_labels labels = (dict_ok labels \<and> (\<forall>(l, r)\<in>set labels. is_label l \<and> \<not> starts_with RETRIEVAL_PREFIX l))"

definition retrieval_label :: "label_table \<Rightarrow> string \<Rightarrow> bool" where
  "retrieval_label t l = (\<exists>n. 0 < n \<and> n \<le> lt_retrieved t \<and> l = RETRIEVAL_PREFIX @ nat_str n)"

definition table_ok :: "label_table \<Rightarrow> bool" where
  "table_ok t =
     ((\<forall>r l. map_of (lt_by_ref t) r = Some l \<longrightarrow> map_of (lt_labels t) l = Some r) \<and>
      (\<forall>l r. map_of (lt_labels t) l = Some r \<longrightarrow>
         r \<in> lt_known t \<and> (is_label l \<and> \<not> starts_with RETRIEVAL_PREFIX l \<or> retrieval_label t l)))"

section \<open>The invariant\<close>

lemma first_labels:
  "map_of (fold (\<lambda>(label, ref). dict_setdefault ref label) labels acc) r = Some l \<Longrightarrow>
   map_of acc r = Some l \<or> (l, r) \<in> set labels"
proof (induction labels arbitrary: acc)
  case (Cons a labels)
  then show ?case by (cases a) (force simp: map_of_setdefault split: if_splits)
qed simp

lemma is_retrieval_label [simp]: "is_label (RETRIEVAL_PREFIX @ nat_str n) \<longleftrightarrow> n < 10000"
  using nat_str_length [of n 3] by (simp add: is_label_def RETRIEVAL_PREFIX_def)

lemma starts_retrieval [simp]: "starts_with RETRIEVAL_PREFIX (RETRIEVAL_PREFIX @ s)"
  by (simp add: starts_with_def RETRIEVAL_PREFIX_def)

lemma mk_labels_ok:
  assumes "package_labels labels"
  shows "table_ok (mk_labels labels known texts)"
  unfolding table_ok_def
proof (intro conjI allI impI)
  fix r l
  assume "map_of (lt_by_ref (mk_labels labels known texts)) r = Some l"
  then have "(l, r) \<in> set labels" using first_labels [of labels "[]" r l] by (simp add: mk_labels_def)
  then show "map_of (lt_labels (mk_labels labels known texts)) l = Some r"
    using assms by (simp add: mk_labels_def package_labels_def)
qed (use assms in \<open>force simp: mk_labels_def package_labels_def dest: map_of_SomeD\<close>)+

lemma table_okD:
  assumes "table_ok t"
  shows "map_of (lt_by_ref t) r = Some l \<Longrightarrow> map_of (lt_labels t) l = Some r"
    "map_of (lt_labels t) l = Some r \<Longrightarrow> r \<in> lt_known t"
    "map_of (lt_labels t) l = Some r \<Longrightarrow> is_label l \<and> \<not> starts_with RETRIEVAL_PREFIX l \<or> retrieval_label t l"
  using assms by (auto simp: table_ok_def)

lemma next_label_fresh:
  assumes "table_ok t"
  shows "map_of (lt_labels t) (RETRIEVAL_PREFIX @ nat_str (Suc (lt_retrieved t))) = None"
proof -
  have "\<not> retrieval_label t (RETRIEVAL_PREFIX @ nat_str (Suc (lt_retrieved t)))"
    by (auto simp: retrieval_label_def)
  then have "map_of (lt_labels t) (RETRIEVAL_PREFIX @ nat_str (Suc (lt_retrieved t))) \<noteq> Some r" for r
    using assms unfolding table_ok_def by (metis starts_retrieval)
  then show ?thesis using not_None_eq by blast
qed

lemma know_ok: "table_ok t \<Longrightarrow> table_ok (know t refs)"
  by (auto simp: table_ok_def know_def retrieval_label_def)

text \<open>Labels only ever gain meanings.\<close>

definition extends :: "label_table \<Rightarrow> label_table \<Rightarrow> bool" where
  "extends t t' = (map_of (lt_labels t) \<subseteq>\<^sub>m map_of (lt_labels t') \<and> lt_known t \<subseteq> lt_known t' \<and> lt_retrieved t \<le> lt_retrieved t')"

lemma extends_refl [simp]: "extends t t"
  by (simp add: extends_def)

lemma extends_trans: "extends t t' \<Longrightarrow> extends t' t'' \<Longrightarrow> extends t t''"
  by (auto simp: extends_def intro: map_le_trans)

lemma add_retrieved_ok:
  assumes ok: "table_ok t" and step: "add_retrieved t ref = (label, t')"
  shows "table_ok t'" "extends t t'" "map_of (lt_labels t') label = Some ref" "ref \<in> lt_known t'"
proof -
  show "map_of (lt_labels t') label = Some ref"
    using assms by (auto simp: add_retrieved_def table_ok_def Let_def split: option.splits)
  show "extends t t'"
    using step next_label_fresh [OF ok]
    by (auto simp: add_retrieved_def extends_def map_le_def Let_def split: option.splits)
  show table: "table_ok t'"
  proof (cases "map_of (lt_by_ref t) ref")
    case None
    have t': "t' = t\<lparr>lt_retrieved := Suc (lt_retrieved t), lt_labels := AList.update label ref (lt_labels t),
                       lt_by_ref := AList.update ref label (lt_by_ref t), lt_known := insert ref (lt_known t)\<rparr>"
      and label: "label = RETRIEVAL_PREFIX @ nat_str (Suc (lt_retrieved t))"
      using step None by (auto simp: add_retrieved_def Let_def)
    have new: "retrieval_label t' label" and old: "retrieval_label t l \<Longrightarrow> retrieval_label t' l" for l
      by (auto simp: t' label retrieval_label_def)
    have fresh: "map_of (lt_by_ref t) r \<noteq> Some label" for r
      using ok next_label_fresh [OF ok] by (auto simp: table_ok_def label)
    show ?thesis
      unfolding table_ok_def
    proof (intro conjI allI impI)
      fix r l
      assume "map_of (lt_by_ref t') r = Some l"
      then show "map_of (lt_labels t') l = Some r" using ok fresh by (auto simp: t' table_ok_def split: if_splits)
    next
      fix l r
      assume "map_of (lt_labels t') l = Some r"
      then show "r \<in> lt_known t'" "is_label l \<and> \<not> starts_with RETRIEVAL_PREFIX l \<or> retrieval_label t' l"
        using new old table_okD(2,3) [OF ok, of l r] by (auto simp: t' split: if_splits)
    qed
  qed (use assms in \<open>auto simp: add_retrieved_def\<close>)
  show "ref \<in> lt_known t'"
    using \<open>map_of (lt_labels t') label = Some ref\<close> table by (auto simp: table_ok_def)
qed

lemma add_package_label_ok:
  assumes ok: "table_ok t" and step: "add_package_label t label ref = Inr t'"
    and label: "is_label label" "\<not> starts_with RETRIEVAL_PREFIX label"
  shows "table_ok t'" "extends t t'" "map_of (lt_labels t') label = Some ref"
proof -
  have old: "map_of (lt_labels t) label \<in> {None, Some ref}"
    and t': "t' = t\<lparr>lt_labels := AList.update label ref (lt_labels t), lt_by_ref := dict_setdefault ref label (lt_by_ref t),
                     lt_known := insert ref (lt_known t)\<rparr>"
    using step by (auto simp: add_package_label_def rbind_Inr_iff)
  show "map_of (lt_labels t') label = Some ref" by (simp add: t')
  show "extends t t'" using old by (auto simp: t' extends_def map_le_def)
  show "table_ok t'"
    using ok old label by (auto simp: table_ok_def t' map_of_setdefault retrieval_label_def split: if_splits)
qed

lemma label_step_ok: "table_ok t \<Longrightarrow> label_step t t' \<Longrightarrow> table_ok t' \<and> extends t t'"
proof (elim label_step_cases)
  fix refs
  assume "table_ok t" "t' = know t refs"
  then show "table_ok t' \<and> extends t t'" using know_ok by (auto simp: know_def extends_def)
qed (auto intro: add_retrieved_ok add_package_label_ok)

interpretation cell_labels: transition_system
  "\<lambda>t. \<exists>labels known texts. package_labels labels \<and> t = mk_labels labels known texts" label_step table_ok
  by unfold_locales (auto simp: mk_labels_ok dest: label_step_ok)

lemma run_extends: "label_step\<^sup>*\<^sup>* t t' \<Longrightarrow> table_ok t \<Longrightarrow> extends t t'"
proof (induction rule: rtranclp_induct)
  case (step u v)
  then show ?case using cell_labels.run_inv label_step_ok extends_trans by blast
qed simp

lemma retrieved_step: "label_step t (snd (add_retrieved t ref))"
  by (rule label_step.retrieved [of _ _ "fst (add_retrieved t ref)"]) simp

section \<open>Resolution\<close>

lemma resolve_known: "table_ok t \<Longrightarrow> resolve t token = Some ref \<Longrightarrow> ref \<in> lt_known t"
  by (auto simp: resolve_def table_ok_def split: if_splits)

lemma resolve_extends: "extends t t' \<Longrightarrow> resolve t token = Some ref \<Longrightarrow> resolve t' token = Some ref"
  by (auto simp: resolve_def extends_def map_le_def dom_def split: if_splits)

lemma resolve_all_found:
  "fst (resolve_all t tokens) = fold append_new (List.map_filter (resolve t) tokens) []"
  "snd (resolve_all t tokens) = map (take 80) (filter (\<lambda>token. resolve t token = None) tokens)"
proof -
  have "fold (\<lambda>token (found, dropped).
             case resolve t token of
               None \<Rightarrow> (found, dropped @ [take 80 token])
             | Some ref \<Rightarrow> (append_new ref found, dropped)) tokens (f, d) =
        (fold append_new (List.map_filter (resolve t) tokens) f,
         d @ map (take 80) (filter (\<lambda>token. resolve t token = None) tokens))" for f d
    by (induction tokens arbitrary: f d) (auto simp: List.map_filter_def split: option.splits)
  then show "fst (resolve_all t tokens) = fold append_new (List.map_filter (resolve t) tokens) []"
    "snd (resolve_all t tokens) = map (take 80) (filter (\<lambda>token. resolve t token = None) tokens)"
    by (simp_all add: resolve_all_def)
qed

lemma resolve_all_set: "set (fst (resolve_all t tokens)) = {ref. \<exists>token\<in>set tokens. resolve t token = Some ref}"
  by (force simp: resolve_all_found List.map_filter_def)

lemma resolve_all_known: "table_ok t \<Longrightarrow> set (fst (resolve_all t tokens)) \<subseteq> lt_known t"
  by (auto simp: resolve_all_set dest: resolve_known)

section \<open>Labels for further identities\<close>

text \<open>The labels of a letter are numbered without a hole, so that the next number is free.\<close>

definition numbered :: "string \<Rightarrow> nat \<Rightarrow> (string, string) dict \<Rightarrow> bool" where
  "numbered prefix n labels =
     (\<forall>l\<in>set (map fst labels). starts_with prefix l \<longrightarrow> (\<exists>k. 0 < k \<and> k \<le> n \<and> l = prefix @ nat_str k))"

definition prefix_count :: "string \<Rightarrow> (string, string) dict \<Rightarrow> nat" where
  "prefix_count prefix labels = length (filter (\<lambda>(label, _). starts_with prefix label) labels)"

lemma numbered_fresh: "numbered prefix n labels \<Longrightarrow> map_of labels (prefix @ nat_str (Suc n)) = None"
  by (rule ccontr) (force simp: numbered_def dest: map_of_SomeD)

lemma numbered_update:
  "numbered prefix n labels \<Longrightarrow> numbered prefix (Suc n) (AList.update (prefix @ nat_str (Suc n)) r labels)"
  unfolding numbered_def set_fst_update by (metis insert_iff le_SucI le_refl zero_less_Suc)

text \<open>What holds while further identities are labelled.\<close>

definition extra_ok ::
  "string \<Rightarrow> (string, string) dict \<Rightarrow> (string, string) dict \<times> (string, string) dict \<times> nat \<times> (string, string) dict \<Rightarrow> bool" where
  "extra_ok prefix labels0 acc =
     (let (labels, by_ref, count, added) = acc
      in numbered prefix count labels \<and> map_of labels0 \<subseteq>\<^sub>m map_of labels \<and>
         (\<forall>r l. map_of by_ref r = Some l \<longrightarrow> map_of labels l = Some r) \<and>
         (\<forall>r l. map_of added r = Some l \<longrightarrow> map_of labels l = Some r))"

lemma extra_step_ok:
  assumes "extra_ok prefix labels0 acc"
  shows "extra_ok prefix labels0 (extra_step prefix ref acc)"
proof -
  obtain labels by_ref count added where acc: "acc = (labels, by_ref, count, added)" by (cases acc)
  show ?thesis
  proof (cases "map_of by_ref ref")
    case None
    have fresh: "map_of labels (prefix @ nat_str (Suc count)) = None"
      using assms numbered_fresh by (simp add: extra_ok_def acc)
    then have "map_of labels \<subseteq>\<^sub>m map_of (AList.update (prefix @ nat_str (Suc count)) ref labels)"
      by (auto simp: map_le_def)
    then show ?thesis
      using assms None fresh numbered_update
      by (auto simp: extra_ok_def acc extra_step_def Let_def intro: map_le_trans)
  qed (use assms in \<open>auto simp: extra_ok_def acc extra_step_def\<close>)
qed

lemma extra_steps_ok: "extra_ok prefix labels0 acc \<Longrightarrow> extra_ok prefix labels0 (fold (extra_step prefix) refs acc)"
  by (induction refs arbitrary: acc) (auto simp: extra_step_ok)

lemma extra_step_simps:
  "map_of by_ref ref = None \<Longrightarrow>
   extra_step prefix ref (labels, by_ref, n, added) =
     (AList.update (prefix @ nat_str (Suc n)) ref labels, AList.update ref (prefix @ nat_str (Suc n)) by_ref, Suc n,
      AList.update ref (prefix @ nat_str (Suc n)) added)"
  "map_of by_ref ref = Some label \<Longrightarrow>
   extra_step prefix ref (labels, by_ref, n, added) = (labels, by_ref, n, AList.update ref label added)"
  by (simp_all add: extra_step_def Let_def)

lemma extra_steps_added:
  "fold (extra_step prefix) refs (labels, by_ref, n, added) = (labels', by_ref', n', added') \<Longrightarrow>
   dom (map_of added') = dom (map_of added) \<union> set refs"
proof (induction refs arbitrary: labels by_ref n added)
  case (Cons ref refs)
  then show ?case by (cases "map_of by_ref ref") (force simp: extra_step_simps)+
qed simp

text \<open>New labels are the letter followed by a number within the count.\<close>

lemma extra_steps_labels:
  "fold (extra_step prefix) refs (labels, by_ref, n, added) = (labels', by_ref', n', added') \<Longrightarrow>
   n \<le> n' \<and> n' \<le> n + length refs \<and> (dict_ok labels \<longrightarrow> dict_ok labels') \<and>
   set (map fst labels') \<subseteq> set (map fst labels) \<union> (\<lambda>k. prefix @ nat_str k) ` {0<..n'}"
proof (induction refs arbitrary: labels by_ref n added)
  case (Cons ref refs)
  show ?case
  proof (cases "map_of by_ref ref")
    case None
    have "fold (extra_step prefix) refs
            (AList.update (prefix @ nat_str (Suc n)) ref labels,
             AList.update ref (prefix @ nat_str (Suc n)) by_ref, Suc n,
             AList.update ref (prefix @ nat_str (Suc n)) added) = (labels', by_ref', n', added')"
      using Cons.prems None by (simp add: extra_step_simps)
    from Cons.IH [OF this] have ih: "Suc n \<le> n'" "n' \<le> Suc n + length refs" "dict_ok labels \<longrightarrow> dict_ok labels'"
      "set (map fst labels') \<subseteq> insert (prefix @ nat_str (Suc n)) (set (map fst labels)) \<union> (\<lambda>k. prefix @ nat_str k) ` {0<..n'}"
      unfolding set_fst_update by (auto simp del: set_map)
    moreover have "prefix @ nat_str (Suc n) \<in> (\<lambda>k. prefix @ nat_str k) ` {0<..n'}" using ih(1) by auto
    ultimately show ?thesis by (auto simp del: set_map)
  next
    case (Some label)
    then have "fold (extra_step prefix) refs (labels, by_ref, n, AList.update ref label added) = (labels', by_ref', n', added')"
      using Cons.prems by (simp add: extra_step_simps)
    from Cons.IH [OF this] show ?thesis by (auto simp del: set_map)
  qed
qed simp

lemma by_ref_inverse:
  "dict_ok labels \<Longrightarrow> map_of (fold (\<lambda>(label, ref). dict_setdefault ref label) labels []) r = Some l \<Longrightarrow>
   map_of labels l = Some r"
  using first_labels [of labels "[]" r l] by simp

lemma with_extra_labels:
  assumes ok: "dict_ok (pv_labels v)" and numbers: "numbered prefix (prefix_count prefix (pv_labels v)) (pv_labels v)"
    and extra: "with_extra v refs prefix = (v', added)"
  shows "map_of (pv_labels v) \<subseteq>\<^sub>m map_of (pv_labels v')" "dom (map_of added) = set refs"
    "map_of added r = Some l \<Longrightarrow> map_of (pv_labels v') l = Some r"
    "dict_ok (pv_labels v')" "pv_texts v' = pv_texts v" "pv_packaged_refs v' = pv_packaged_refs v \<union> set refs"
    "set (map fst (pv_labels v')) \<subseteq> set (map fst (pv_labels v)) \<union>
       (\<lambda>k. prefix @ nat_str k) ` {0<..prefix_count prefix (pv_labels v) + length refs}"
proof -
  let ?by_ref = "fold (\<lambda>(label, ref). dict_setdefault ref label) (pv_labels v) []"
  obtain labels by_ref n a where run:
    "fold (extra_step prefix) refs (pv_labels v, ?by_ref, prefix_count prefix (pv_labels v), []) = (labels, by_ref, n, a)"
    by (cases "fold (extra_step prefix) refs (pv_labels v, ?by_ref, prefix_count prefix (pv_labels v), [])")
  have v': "v' = v\<lparr>pv_labels := labels, pv_packaged_refs := pv_packaged_refs v \<union> set (map fst a)\<rparr>" and "added = a"
    using extra run by (auto simp: with_extra_def prefix_count_def Let_def split: prod.splits)
  have "extra_ok prefix (pv_labels v) (pv_labels v, ?by_ref, prefix_count prefix (pv_labels v), [])"
    using numbers by_ref_inverse [OF ok] by (simp add: extra_ok_def)
  then have "extra_ok prefix (pv_labels v) (labels, by_ref, n, a)"
    using extra_steps_ok run by metis
  then show "map_of (pv_labels v) \<subseteq>\<^sub>m map_of (pv_labels v')" "map_of added r = Some l \<Longrightarrow> map_of (pv_labels v') l = Some r"
    by (auto simp: extra_ok_def v' \<open>added = a\<close>)
  show added: "dom (map_of added) = set refs" using extra_steps_added [OF run] by (simp add: \<open>added = a\<close>)
  show "pv_texts v' = pv_texts v" by (simp add: v')
  show "pv_packaged_refs v' = pv_packaged_refs v \<union> set refs"
    using added by (simp add: v' \<open>added = a\<close> dom_map_of_conv_image_fst)
  show "dict_ok (pv_labels v')" using extra_steps_labels [OF run] ok by (simp add: v')
  show "set (map fst (pv_labels v')) \<subseteq> set (map fst (pv_labels v)) \<union>
       (\<lambda>k. prefix @ nat_str k) ` {0<..prefix_count prefix (pv_labels v) + length refs}"
    using extra_steps_labels [OF run] by (force simp: v')
qed

definition letter_prefix :: "string \<Rightarrow> bool" where
  "letter_prefix prefix = (is_label (prefix @ ''1'') \<and> length prefix = 1 \<and> prefix \<noteq> RETRIEVAL_PREFIX)"

lemma letter_label:
  assumes "letter_prefix prefix" "n < 10000"
  shows "is_label (prefix @ nat_str n)" "\<not> starts_with RETRIEVAL_PREFIX (prefix @ s)"
proof -
  obtain c where c: "prefix = [c]" using assms(1) by (auto simp: letter_prefix_def length_Suc_conv)
  then show "\<not> starts_with RETRIEVAL_PREFIX (prefix @ s)"
    using assms(1) by (simp add: letter_prefix_def RETRIEVAL_PREFIX_def starts_with_def)
  show "is_label (prefix @ nat_str n)"
    using assms nat_str_length [of n 3] by (simp add: c letter_prefix_def is_label_def)
qed

lemma with_extra_package:
  assumes ok: "package_labels (pv_labels v)" and numbers: "numbered prefix (prefix_count prefix (pv_labels v)) (pv_labels v)"
    and letter: "letter_prefix prefix" and few: "prefix_count prefix (pv_labels v) + length refs < 10000"
    and extra: "with_extra v refs prefix = (v', added)"
  shows "package_labels (pv_labels v')"
proof -
  have dict: "dict_ok (pv_labels v)" using ok by (simp add: package_labels_def)
  have "is_label l \<and> \<not> starts_with RETRIEVAL_PREFIX l" if "l \<in> set (map fst (pv_labels v'))" for l
  proof -
    from that consider "l \<in> set (map fst (pv_labels v))"
      | k where "k \<le> prefix_count prefix (pv_labels v) + length refs" "l = prefix @ nat_str k"
      using with_extra_labels(7) [OF dict numbers extra] by (auto simp del: set_map)
    then show ?thesis
      by cases (use ok letter few in \<open>auto simp: package_labels_def letter_label\<close>)
  qed
  then show ?thesis
    using with_extra_labels(4) [OF dict numbers extra] by (force simp: package_labels_def)
qed

lemma view_table_ok: "package_labels (pv_labels v) \<Longrightarrow> table_ok (view_table v extra)"
  by (simp add: view_table_def mk_labels_ok)

lemma resolve_view:
  "package_labels (pv_labels v) \<Longrightarrow> map_of (pv_labels v) l = Some r \<Longrightarrow> resolve (view_table v extra) l = Some r"
  by (auto simp: resolve_def view_table_def mk_labels_def package_labels_def)

section \<open>Claims\<close>

text \<open>
  C33. A label handed out for a retrieved identity keeps its meaning for the rest of the cell: whatever
  the cell receives, retrieves or labels afterwards, the label still resolves to the identity it was
  given for. The pattern of labels has four digits, so this is up to the 9999th retrieved identity.
\<close>

theorem label_keeps_meaning:
  assumes "package_labels labels" "label_step\<^sup>*\<^sup>* (mk_labels labels known texts) t"
    and "add_retrieved t ref = (label, t')" "lt_retrieved t' \<le> 9999" "label_step\<^sup>*\<^sup>* t' t''"
  shows "resolve t'' label = Some ref"
proof -
  have ok: "table_ok t" using assms(1,2) cell_labels.reachable_inv by blast
  note added = add_retrieved_ok [OF ok assms(3)]
  have "is_label label"
    using table_okD(3) [OF added(1) added(3)] assms(4) by (auto simp: retrieval_label_def)
  then have "resolve t' label = Some ref" using added(3) by (simp add: resolve_def)
  then show ?thesis using resolve_extends run_extends [OF assms(5) added(1)] by blast
qed

theorem label_keeps_meaning_witness:
  "resolve (know (snd (add_retrieved (snd (add_retrieved (mk_labels [(''L1'', ''lead'')] {} []) ''range'')) ''sink'')) {''x''}) ''Q1'' =
   Some ''range''"
proof (rule label_keeps_meaning)
  show "package_labels [(''L1'', ''lead'')]"
    by (simp add: package_labels_def is_label_def is_digit_def starts_with_def RETRIEVAL_PREFIX_def)
  show "add_retrieved (mk_labels [(''L1'', ''lead'')] {} []) ''range'' =
        (''Q1'', snd (add_retrieved (mk_labels [(''L1'', ''lead'')] {} []) ''range''))"
    by (simp add: add_retrieved_def mk_labels_def dict_setdefault_def RETRIEVAL_PREFIX_def nat_str.simps Let_def char_of_def bit_0)
  show "lt_retrieved (snd (add_retrieved (mk_labels [(''L1'', ''lead'')] {} []) ''range'')) \<le> 9999"
    by (simp add: add_retrieved_def mk_labels_def dict_setdefault_def Let_def)
  show "label_step\<^sup>*\<^sup>* (snd (add_retrieved (mk_labels [(''L1'', ''lead'')] {} []) ''range''))
     (know (snd (add_retrieved (snd (add_retrieved (mk_labels [(''L1'', ''lead'')] {} []) ''range'')) ''sink'')) {''x''})"
    by (rule rtranclp.rtrancl_into_rtrancl, rule r_into_rtranclp, rule retrieved_step, rule label_step.received)
qed (rule rtranclp.rtrancl_refl)

end
