(* ===== verification/Compact.thy ===== *)
theory Compact
  imports Labels
begin

text \<open>
  Compact model answers and their expansion (\<open>review/compact.py\<close>, the shared layer and the blue, verifier
  and judge wrappers). A cell answers with stances and citations by label; the application validates the
  answer, resolves every label through the cell's table and arranges what is left as a result document.

  The answer schemas fix the shape of a valid answer, so a valid answer is a record whose optional fields are
  options, lists or dictionaries; an answer that is no object or that the validator refuses is a constructor
  of \<open>answer\<close> of its own, with the validator's messages as data. Stances and predicates stay strings.
\<close>

section \<open>Expansions\<close>

definition UNRESOLVED :: string where
  "UNRESOLVED = ''unresolved''"

definition STANCE_ORDER :: "string list" where
  "STANCE_ORDER = [''contradicts'', ''qualifies'', ''supports'', UNRESOLVED]"

definition MAX_FEEDBACK :: nat where
  "MAX_FEEDBACK = 20"

definition MAX_TEXT :: nat where
  "MAX_TEXT = 2000"

definition PREDICATES :: "string list" where
  "PREDICATES =
     [''affected_construct'', ''attacker_input_control'', ''source_to_sink_reachability'',
      ''missing_or_ineffective_guard'', ''configuration_enables'', ''security_impact'']"

record 'r expansion =
  ex_result :: "'r option"
  ex_feedback :: "string list"
  ex_errors :: "string list"

definition no_expansion :: "'r expansion" where
  "no_expansion = \<lparr>ex_result = None, ex_feedback = [], ex_errors = []\<rparr>"

definition add_note :: "string \<Rightarrow> 'r expansion \<Rightarrow> 'r expansion" where
  "add_note message e =
     (if length (ex_feedback e) < MAX_FEEDBACK then e\<lparr>ex_feedback := ex_feedback e @ [take 256 message]\<rparr> else e)"

definition add_error :: "string \<Rightarrow> 'r expansion \<Rightarrow> 'r expansion" where
  "add_error message e = e\<lparr>ex_errors := ex_errors e @ [message]\<rparr>"

section \<open>Positions\<close>

record position =
  po_predicate :: string
  po_stance :: string
  po_refs :: "string list"
  po_why :: "string option"
  po_requested :: string

text \<open>\<open>text(value, default, limit)\<close>: runs of white space collapse, an empty text is the default.\<close>

definition clean_text :: "string option \<Rightarrow> string \<Rightarrow> nat \<Rightarrow> string" where
  "clean_text value dflt limit =
     (let cleaned = (case value of Some s \<Rightarrow> squeeze s | None \<Rightarrow> [])
      in take limit (if cleaned = [] then dflt else cleaned))"

text \<open>Python's \<open>a or b\<close> on optional strings: an empty string is no value.\<close>

definition str_or :: "string option \<Rightarrow> string option \<Rightarrow> string option" where
  "str_or a b = (case a of Some (c # s) \<Rightarrow> a | _ \<Rightarrow> b)"

definition resolve_position ::
  "string \<Rightarrow> string \<Rightarrow> string list \<Rightarrow> string option \<Rightarrow> label_table \<Rightarrow> 'r expansion \<Rightarrow> string \<Rightarrow> position \<times> 'r expansion" where
  "resolve_position predicate stance tokens why labels e owner =
     (let (refs, dropped) = resolve_all labels tokens;
          e = fold (\<lambda>token. add_note (owner @ '': citation '' @ token @ '' does not resolve in this cell and was dropped'')) dropped e;
          why = (let w = clean_text why [] 1000 in if w = [] then None else Some w)
      in if stance \<noteq> UNRESOLVED \<and> refs = []
         then (\<lparr>po_predicate = predicate, po_stance = UNRESOLVED, po_refs = refs, po_why = why, po_requested = stance\<rparr>,
               add_note (owner @ '': stance '' @ stance @ '' on '' @ predicate @ '' has no resolvable citation; recorded as unresolved'') e)
         else (\<lparr>po_predicate = predicate, po_stance = stance, po_refs = refs, po_why = why, po_requested = []\<rparr>, e))"

definition RELATION_KIND :: "(string, string) dict" where
  "RELATION_KIND = [(''supports'', ''supports''), (''contradicts'', ''contradicts''), (''qualifies'', ''qualifies'')]"

record proposed_relation =
  pr_predicate :: string
  pr_kind :: string
  pr_entity_id :: string
  pr_rationale :: string

definition position_relations :: "position \<Rightarrow> proposed_relation list" where
  "position_relations p =
     (case map_of RELATION_KIND (po_stance p) of
        None \<Rightarrow> []
      | Some kind \<Rightarrow>
          map (\<lambda>ref. \<lparr>pr_predicate = po_predicate p, pr_kind = kind, pr_entity_id = ref,
                      pr_rationale = clean_text (po_why p) (kind @ '' '' @ po_predicate p @ '' (cited by label)'') 1000\<rparr>)
              (po_refs p))"

definition relations_of :: "position list \<Rightarrow> proposed_relation list" where
  "relations_of positions = fold (\<lambda>p found. fold append_new (position_relations p) found) positions []"

definition citations_of :: "position list \<Rightarrow> (string, string list) dict" where
  "citations_of positions =
     fold (\<lambda>p cited. fold (\<lambda>ref cited. AList.update (po_predicate p) (append_new ref (dict_get_list cited (po_predicate p))) cited)
                         (po_refs p) cited) positions []"

record compact_position =
  cp_stance :: string
  cp_cites :: "string list"
  cp_why :: "string option"
  cp_missing :: "string list"

record compact =
  c_stance :: "string option"
  c_predicate :: "string option"
  c_cites :: "string list"
  c_why :: "string option"
  c_per_predicate :: "(string, compact_position) dict"

fun predicate_positions ::
  "string list \<Rightarrow> 'a compact_scheme \<Rightarrow> label_table \<Rightarrow> 'r expansion \<Rightarrow> string \<Rightarrow> position list \<times> 'r expansion" where
  "predicate_positions [] c labels e owner = ([], e)"
| "predicate_positions (predicate # ps) c labels e owner =
     (case map_of (c_per_predicate c) predicate of
        None \<Rightarrow> predicate_positions ps c labels e owner
      | Some entry \<Rightarrow>
          let (p, e) = resolve_position predicate (cp_stance entry) (cp_cites entry) (str_or (cp_why entry) (c_why c)) labels e
                         (owner @ '' '' @ predicate);
              (positions, e) = predicate_positions ps c labels e owner
          in (p # positions, e))"

definition positions_of ::
  "'a compact_scheme \<Rightarrow> label_table \<Rightarrow> 'r expansion \<Rightarrow> string \<Rightarrow> position list \<times> 'r expansion" where
  "positions_of c labels e owner =
     (let (positions, e) = predicate_positions PREDICATES c labels e owner
      in case (c_stance c, c_predicate c) of
           (Some stance, Some (x # xs)) \<Rightarrow>
             let (p, e) = resolve_position (x # xs) stance (c_cites c) (c_why c) labels e (owner @ '' '' @ x # xs)
             in (positions @ [p], e)
         | _ \<Rightarrow> (positions, e))"

definition overall_stance :: "'a compact_scheme \<Rightarrow> position list \<Rightarrow> string" where
  "overall_stance c positions =
     (let declared = (case c_stance c of Some s \<Rightarrow> s | None \<Rightarrow> []);
          single = filter (\<lambda>p. Some (po_predicate p) = c_predicate c) positions
      in if declared \<noteq> [] \<and> single \<noteq> [] \<and> po_stance (hd single) = declared then declared
         else if declared \<noteq> [] \<and> single = [] \<and> positions = [] then UNRESOLVED
         else case List.find (\<lambda>stance. stance \<in> set (map po_stance positions)) STANCE_ORDER of
                Some stance \<Rightarrow> stance
              | None \<Rightarrow> UNRESOLVED)"

definition summary_why :: "'a compact_scheme \<Rightarrow> position list \<Rightarrow> string" where
  "summary_why c positions =
     (let parts = clean_text (c_why c) [] 1000 # map (\<lambda>p. case po_why p of Some w \<Rightarrow> w | None \<Rightarrow> []) positions;
          missing = concat (map (\<lambda>(_, entry). map (\<lambda>m. clean_text (Some m) [] 300) (cp_missing entry)) (c_per_predicate c));
          parts = (if missing \<noteq> [] then parts @ [''missing: '' @ join ''; '' missing] else parts)
      in clean_text (Some (join '' '' (filter (\<lambda>part. part \<noteq> []) (fold append_new parts [])))) ''no reason given'' MAX_TEXT)"

section \<open>Evidence requests\<close>

record evidence_request =
  erq_predicate :: string
  erq_requested_kind :: string
  erq_anchors :: "string list"
  erq_question :: string
  erq_specialist :: "string option"

definition expand_request ::
  "label_table \<Rightarrow> string \<Rightarrow> evidence_request \<Rightarrow> evidence_request list \<times> 'r expansion \<Rightarrow> evidence_request list \<times> 'r expansion" where
  "expand_request labels owner it acc =
     (let (requests, e) = acc; (anchors, dropped) = resolve_all labels (erq_anchors it)
      in if dropped \<noteq> []
         then (requests, add_error (owner @ '': evidence request has unresolved anchors: '' @ join '', '' dropped) e)
         else (append_new (it\<lparr>erq_anchors := anchors\<rparr>) requests, e))"

definition expand_requests ::
  "evidence_request list \<Rightarrow> label_table \<Rightarrow> 'r expansion \<Rightarrow> string \<Rightarrow> evidence_request list \<times> 'r expansion" where
  "expand_requests items labels e owner = fold (expand_request labels owner) items ([], e)"

section \<open>Role wrappers\<close>

text \<open>What the application receives: a value that is no object, one the validator refuses, or a valid answer.\<close>

datatype 'c answer = Not_an_object | Refused "string list" | Valid 'c

text \<open>\<open>_validate\<close>: the valid answer, or the errors to report.\<close>

fun validate_answer :: "'c answer \<Rightarrow> string \<Rightarrow> 'r expansion \<Rightarrow> 'c option \<times> 'r expansion" where
  "validate_answer Not_an_object name e = (None, add_error ''the answer must be a JSON object'' e)"
| "validate_answer (Refused errors) name e = (None, fold (\<lambda>m. add_error (take 256 (name @ '': '' @ m))) errors e)"
| "validate_answer (Valid c) name e = (Some c, e)"

record blue_compact = compact +
  bc_requests :: "evidence_request list"

record blue_result =
  br_schema :: string
  br_claim_id :: string
  br_citations :: "(string, string list) dict"
  br_relations :: "proposed_relation list"
  br_requests :: "evidence_request list"
  br_rationale :: string
  br_task :: string
  br_disposition :: string

definition BLUE_SCHEMA :: string where
  "BLUE_SCHEMA = ''appsec-review/blue-result/1''"

definition expand_blue :: "blue_compact answer \<Rightarrow> label_table \<Rightarrow> string \<Rightarrow> string \<Rightarrow> blue_result expansion" where
  "expand_blue ans labels claim_id task =
     (case validate_answer ans ''blue-compact'' no_expansion of
        (None, e) \<Rightarrow> e
      | (Some c, e) \<Rightarrow>
          let (positions, e) = positions_of c labels e ''blue'';
              stance = overall_stance c positions;
              (requests, e) = expand_requests (bc_requests c) labels e ''blue''
          in if ex_errors e \<noteq> [] then e
             else e\<lparr>ex_result := Some
               \<lparr>br_schema = BLUE_SCHEMA, br_claim_id = claim_id, br_citations = citations_of positions,
                br_relations = relations_of positions, br_requests = requests, br_rationale = summary_why c positions,
                br_task = task, br_disposition = stance\<rparr>\<rparr>)"

record verifier_compact = compact +
  vc_requests :: "evidence_request list"
  vc_disposition :: string

record verifier_result =
  vr_schema :: string
  vr_claim_id :: string
  vr_citations :: "(string, string list) dict"
  vr_relations :: "proposed_relation list"
  vr_requests :: "evidence_request list"
  vr_rationale :: string
  vr_proposed_disposition :: string

definition VERIFIER_SCHEMA :: string where
  "VERIFIER_SCHEMA = ''appsec-review/verifier-result/1''"

definition expand_verifier :: "verifier_compact answer \<Rightarrow> label_table \<Rightarrow> string \<Rightarrow> verifier_result expansion" where
  "expand_verifier ans labels claim_id =
     (case validate_answer ans ''verifier-compact'' no_expansion of
        (None, e) \<Rightarrow> e
      | (Some c, e) \<Rightarrow>
          let (positions, e) = positions_of (c\<lparr>c_stance := None, c_predicate := None\<rparr>) labels e ''verifier'';
              (requests, e) = expand_requests (vc_requests c) labels e ''verifier''
          in if ex_errors e \<noteq> [] then e
             else e\<lparr>ex_result := Some
               \<lparr>vr_schema = VERIFIER_SCHEMA, vr_claim_id = claim_id, vr_citations = citations_of positions,
                vr_relations = relations_of positions, vr_requests = requests, vr_rationale = summary_why c positions,
                vr_proposed_disposition = vc_disposition c\<rparr>\<rparr>)"

record judge_position =
  jp_verdict :: string
  jp_cites :: "string list"
  jp_why :: "string option"

record judge_compact =
  jc_verdict :: string
  jc_per_predicate :: "(string, judge_position) dict"
  jc_reason :: string

record judge_result =
  jr_schema :: string
  jr_claim_id :: string
  jr_verdict :: string
  jr_per_predicate :: "(string, string \<times> string list) dict"
  jr_citations :: "(string, string list) dict"
  jr_reason :: string

definition JUDGE_RESULT_SCHEMA :: string where
  "JUDGE_RESULT_SCHEMA = ''appsec-review/judge-result/1''"

definition deshuffle :: "string \<Rightarrow> (string, string) dict \<Rightarrow> string" where
  "deshuffle choice side_map =
     (case map_of side_map choice of
        Some role \<Rightarrow> role @ ''_correct''
      | None \<Rightarrow> if choice = ''both'' then ''partly'' else choice)"

definition judge_entries :: "judge_compact \<Rightarrow> compact" where
  "judge_entries c =
     \<lparr>c_stance = None, c_predicate = None, c_cites = [], c_why = None,
      c_per_predicate = map (\<lambda>(name, entry). (name, \<lparr>cp_stance = jp_verdict entry, cp_cites = jp_cites entry,
                                                     cp_why = jp_why entry, cp_missing = []\<rparr>)) (jc_per_predicate c)\<rparr>"

definition expand_judge ::
  "judge_compact answer \<Rightarrow> label_table \<Rightarrow> string \<Rightarrow> (string, string) dict \<Rightarrow> judge_result expansion" where
  "expand_judge ans labels claim_id side_map =
     (case validate_answer ans ''judge-result-compact'' no_expansion of
        (None, e) \<Rightarrow> e
      | (Some c, e) \<Rightarrow>
          let (positions, e) = positions_of (judge_entries c) labels e ''judge'';
              uncited = jc_verdict c \<in> {''A'', ''B'', ''both''} \<and> (\<forall>p\<in>set positions. po_refs p = []);
              e = (if uncited then add_note (''judge: verdict '' @ jc_verdict c @ '' has no resolvable citation; recorded as unresolved'') e else e);
              verdict = (if uncited then UNRESOLVED else jc_verdict c)
          in e\<lparr>ex_result := Some
               \<lparr>jr_schema = JUDGE_RESULT_SCHEMA, jr_claim_id = claim_id, jr_verdict = deshuffle verdict side_map,
                jr_per_predicate = fold (\<lambda>p. AList.update (po_predicate p) (deshuffle (po_stance p) side_map, po_refs p)) positions [],
                jr_citations = citations_of positions,
                jr_reason = clean_text (Some (jc_reason c)) ''no reason given'' MAX_TEXT\<rparr>\<rparr>)"

section \<open>Positions cite what the cell received\<close>

definition position_ok :: "label_table \<Rightarrow> position \<Rightarrow> bool" where
  "position_ok t p = (set (po_refs p) \<subseteq> lt_known t \<and> (po_stance p \<noteq> UNRESOLVED \<longrightarrow> po_refs p \<noteq> []))"

lemma resolve_position_fst:
  "fst (resolve_position predicate stance tokens why t e owner) =
     (let refs = fst (resolve_all t tokens); open_stance = stance \<noteq> UNRESOLVED \<and> refs = []
      in \<lparr>po_predicate = predicate, po_stance = (if open_stance then UNRESOLVED else stance), po_refs = refs,
          po_why = (let w = clean_text why [] 1000 in if w = [] then None else Some w),
          po_requested = (if open_stance then stance else [])\<rparr>)"
  by (simp add: resolve_position_def Let_def split: prod.split)

lemma resolve_position_ok: "table_ok t \<Longrightarrow> position_ok t (fst (resolve_position predicate stance tokens why t e owner))"
  using resolve_all_known by (simp add: resolve_position_fst position_ok_def Let_def)

lemma predicate_positions_ok:
  "table_ok t \<Longrightarrow> list_all (position_ok t) (fst (predicate_positions ps c t e owner))"
  by (induction ps arbitrary: e) (simp_all add: Let_def split_beta resolve_position_ok split: option.split)

lemma positions_of_ok: "table_ok t \<Longrightarrow> list_all (position_ok t) (fst (positions_of c t e owner))"
  by (simp add: positions_of_def Let_def split_beta resolve_position_ok predicate_positions_ok split: option.split list.split)

lemma relations_of_set: "set (relations_of ps) = (\<Union>p\<in>set ps. set (position_relations p))"
proof -
  have "set (fold (\<lambda>p found. fold append_new (position_relations p) found) ps acc) =
        set acc \<union> (\<Union>p\<in>set ps. set (position_relations p))" for acc
    by (induction ps arbitrary: acc) auto
  then show ?thesis by (simp add: relations_of_def)
qed

lemma dict_get_update: "dict_get_list (AList.update k v d) k' = (if k' = k then v else dict_get_list d k')"
  by (simp add: dict_get_list_def)

lemma citations_of_set:
  "set (dict_get_list (citations_of ps) k) = {ref. \<exists>p\<in>set ps. po_predicate p = k \<and> ref \<in> set (po_refs p)}"
proof -
  have inner: "set (dict_get_list (fold (\<lambda>ref cited. AList.update q (append_new ref (dict_get_list cited q)) cited) refs d) k) =
        set (dict_get_list d k) \<union> (if q = k then set refs else {})" for q refs d
    by (induction refs arbitrary: d) (auto simp: dict_get_update)
  have "set (dict_get_list (fold (\<lambda>p cited. fold (\<lambda>ref cited. AList.update (po_predicate p)
          (append_new ref (dict_get_list cited (po_predicate p))) cited) (po_refs p) cited) ps d) k) =
        set (dict_get_list d k) \<union> {ref. \<exists>p\<in>set ps. po_predicate p = k \<and> ref \<in> set (po_refs p)}" for d
    by (induction ps arbitrary: d) (auto simp: inner)
  then show ?thesis by (simp add: citations_of_def dict_get_list_def)
qed

lemma overall_stance_held:
  assumes "overall_stance c ps \<noteq> UNRESOLVED"
  shows "\<exists>p\<in>set ps. po_stance p = overall_stance c ps"
proof -
  let ?single = "filter (\<lambda>p. Some (po_predicate p) = c_predicate c) ps"
  let ?found = "List.find (\<lambda>stance. stance \<in> set (map po_stance ps)) STANCE_ORDER"
  consider "?single \<noteq> []" "po_stance (hd ?single) = overall_stance c ps" | "?found = Some (overall_stance c ps)"
    using assms unfolding overall_stance_def Let_def by (auto simp del: set_map split: if_splits option.splits)
  then show ?thesis
  proof cases
    case 1
    then have "hd ?single \<in> set ps" using hd_in_set [of ?single] by simp
    then show ?thesis using 1(2) by blast
  next
    case 2
    then have "overall_stance c ps \<in> po_stance ` set ps" by (auto simp: find_Some_iff)
    then show ?thesis by auto
  qed
qed

lemma position_relations_kind:
  "r \<in> set (position_relations p) \<Longrightarrow> pr_kind r = po_stance p \<and> pr_entity_id r \<in> set (po_refs p) \<and> pr_predicate r = po_predicate p"
  by (auto simp: position_relations_def RELATION_KIND_def split: option.splits if_splits)

lemma position_relations_exist:
  "po_stance p \<in> {''supports'', ''contradicts'', ''qualifies''} \<Longrightarrow> ref \<in> set (po_refs p) \<Longrightarrow>
   \<exists>r\<in>set (position_relations p). pr_kind r = po_stance p \<and> pr_entity_id r = ref"
  by (auto simp: position_relations_def RELATION_KIND_def)

lemma relations_known:
  "list_all (position_ok t) ps \<Longrightarrow> r \<in> set (relations_of ps) \<Longrightarrow> pr_entity_id r \<in> lt_known t"
  by (auto simp: relations_of_set list_all_iff position_ok_def dest!: position_relations_kind)

lemma citations_known:
  "list_all (position_ok t) ps \<Longrightarrow> set (dict_get_list (citations_of ps) k) \<subseteq> lt_known t"
  by (auto simp: citations_of_set list_all_iff position_ok_def)

lemma relations_are_citations:
  "r \<in> set (relations_of ps) \<Longrightarrow> pr_entity_id r \<in> set (dict_get_list (citations_of ps) (pr_predicate r))"
  by (auto simp: relations_of_set citations_of_set dest!: position_relations_kind)

lemma expand_request_known:
  "table_ok t \<Longrightarrow> \<forall>r\<in>set (fst acc). set (erq_anchors r) \<subseteq> lt_known t \<Longrightarrow>
   \<forall>r\<in>set (fst (expand_request t owner it acc)). set (erq_anchors r) \<subseteq> lt_known t"
  using resolve_all_known [of t "erq_anchors it"] by (simp add: expand_request_def Let_def split_beta)

lemma requests_known:
  fixes e :: "'r expansion"
  assumes "table_ok t"
  shows "\<forall>r\<in>set (fst (expand_requests items t e owner)). set (erq_anchors r) \<subseteq> lt_known t"
proof -
  have "\<forall>r\<in>set (fst acc). set (erq_anchors r) \<subseteq> lt_known t \<Longrightarrow>
        \<forall>r\<in>set (fst (fold (expand_request t owner) items acc)). set (erq_anchors r) \<subseteq> lt_known t" for acc :: "evidence_request list \<times> 'r expansion"
  proof (induction items arbitrary: acc)
    case (Cons it items)
    from Cons.IH [OF expand_request_known [OF assms Cons.prems]] show ?case by simp
  qed simp
  from this [of "([], e)"] show ?thesis by (simp add: expand_requests_def)
qed

section \<open>Errors\<close>

lemma note_errors [simp]: "ex_errors (add_note m e) = ex_errors e" "ex_result (add_note m e) = ex_result e"
  by (simp_all add: add_note_def)

lemma notes_errors [simp]:
  "ex_errors (fold (\<lambda>x. add_note (f x)) xs e) = ex_errors e" "ex_result (fold (\<lambda>x. add_note (f x)) xs e) = ex_result e"
  by (induction xs arbitrary: e) simp_all

lemma resolve_position_errors [simp]:
  "ex_errors (snd (resolve_position predicate stance tokens why t e owner)) = ex_errors e"
  "ex_result (snd (resolve_position predicate stance tokens why t e owner)) = ex_result e"
  by (simp_all add: resolve_position_def Let_def split_beta)

lemma positions_errors [simp]:
  "ex_errors (snd (predicate_positions ps c t e owner)) = ex_errors e"
  "ex_result (snd (predicate_positions ps c t e owner)) = ex_result e"
  by (induction ps arbitrary: e) (simp_all add: Let_def split_beta split: option.split)

lemma positions_of_errors [simp]:
  "ex_errors (snd (positions_of c t e owner)) = ex_errors e"
  "ex_result (snd (positions_of c t e owner)) = ex_result e"
  by (simp_all add: positions_of_def Let_def split_beta split: option.split list.split)

lemma expand_requests_result [simp]:
  fixes e :: "'r expansion"
  shows "ex_result (snd (expand_requests items t e owner)) = ex_result e"
proof -
  have "ex_result (snd (fold (expand_request t owner) items acc)) = ex_result (snd acc)" for acc :: "evidence_request list \<times> 'r expansion"
    by (induction items arbitrary: acc) (simp_all add: expand_request_def Let_def split_beta add_error_def)
  then show ?thesis by (simp add: expand_requests_def)
qed

lemma add_errors:
  "ex_result (fold (\<lambda>m. add_error (f m)) ms e) = ex_result e"
  "ex_errors (fold (\<lambda>m. add_error (f m)) ms e) = ex_errors e @ map f ms"
  by (induction ms arbitrary: e) (simp_all add: add_error_def)

lemma no_expansion_simps [simp]: "ex_result no_expansion = None" "ex_errors no_expansion = []" "ex_feedback no_expansion = []"
  by (simp_all add: no_expansion_def)

section \<open>Claims\<close>

text \<open>The answer schema of a blue refuter: it may contradict, qualify or leave open.\<close>

definition blue_stances :: "blue_compact \<Rightarrow> bool" where
  "blue_stances c =
     (let allowed = {''contradicts'', ''qualifies'', UNRESOLVED}
      in (case c_stance c of Some s \<Rightarrow> s \<in> allowed | None \<Rightarrow> False) \<and>
         (\<forall>(name, entry)\<in>set (c_per_predicate c). cp_stance entry \<in> allowed))"

lemma predicate_positions_stance:
  "\<forall>(name, entry)\<in>set (c_per_predicate c). cp_stance entry \<in> S \<Longrightarrow> UNRESOLVED \<in> S \<Longrightarrow>
   \<forall>p\<in>set (fst (predicate_positions ps c t e owner)). po_stance p \<in> S"
  by (induction ps arbitrary: e)
     (auto simp: Let_def split_beta resolve_position_fst dest!: map_of_SomeD split: option.split)

lemma blue_positions_stance:
  "blue_stances c \<Longrightarrow> \<forall>p\<in>set (fst (positions_of c t e owner)). po_stance p \<in> {''contradicts'', ''qualifies'', UNRESOLVED}"
  using predicate_positions_stance [of c "{''contradicts'', ''qualifies'', UNRESOLVED}" PREDICATES t e owner]
  by (auto simp: blue_stances_def positions_of_def Let_def split_beta resolve_position_fst split: option.splits list.splits if_splits)

lemma expand_blue_result:
  assumes "ex_result (expand_blue ans t claim_id task) = Some r"
  obtains c ps and e :: "blue_result expansion"
  where "ans = Valid c" "ps = fst (positions_of c t (no_expansion :: blue_result expansion) ''blue'')"
    "br_relations r = relations_of ps" "br_citations r = citations_of ps"
    "br_requests r = fst (expand_requests (bc_requests c) t e ''blue'')" "br_disposition r = overall_stance c ps"
proof (cases ans)
  case (Valid c)
  let ?ps = "positions_of c t no_expansion ''blue'' :: position list \<times> blue_result expansion"
  show ?thesis
    by (rule that [OF Valid refl, where e = "snd ?ps"])
       (use assms in \<open>auto simp: Valid expand_blue_def Let_def split_beta split: if_splits\<close>)
qed (use assms in \<open>simp_all add: expand_blue_def add_errors add_error_def\<close>)

text \<open>
  C34. What a blue refuter's answer becomes rests on evidence the cell has received. Every relation, citation and
  request anchor of the result names an identity the label table knows, a relation's identity is among the
  citations of its predicate, and a disposition other than \<open>unresolved\<close> is the kind of one of the relations:
  a stance whose labels resolve to nothing is not recorded.
\<close>

theorem blue_result_backed:
  assumes "table_ok t" and valid: "\<And>c. ans = Valid c \<Longrightarrow> blue_stances c"
    and result: "ex_result (expand_blue ans t claim_id task) = Some r"
  shows "(\<forall>rel\<in>set (br_relations r). pr_entity_id rel \<in> lt_known t \<and>
            pr_entity_id rel \<in> set (dict_get_list (br_citations r) (pr_predicate rel))) \<and>
         (\<forall>k. set (dict_get_list (br_citations r) k) \<subseteq> lt_known t) \<and>
         (\<forall>req\<in>set (br_requests r). set (erq_anchors req) \<subseteq> lt_known t) \<and>
         (br_disposition r \<noteq> UNRESOLVED \<longrightarrow> (\<exists>rel\<in>set (br_relations r). pr_kind rel = br_disposition r))"
proof -
  obtain c ps and e :: "blue_result expansion"
  where c: "ans = Valid c" "ps = fst (positions_of c t (no_expansion :: blue_result expansion) ''blue'')"
    and r: "br_relations r = relations_of ps" "br_citations r = citations_of ps"
      "br_requests r = fst (expand_requests (bc_requests c) t e ''blue'')" "br_disposition r = overall_stance c ps"
    using expand_blue_result [OF result] by metis
  have ok: "list_all (position_ok t) ps" using positions_of_ok [OF assms(1)] by (simp add: c)
  have "\<exists>rel\<in>set (relations_of ps). pr_kind rel = overall_stance c ps" if open_stance: "overall_stance c ps \<noteq> UNRESOLVED"
  proof -
    obtain p where p: "p \<in> set ps" "po_stance p = overall_stance c ps"
      using overall_stance_held [OF open_stance] by blast
    have "po_stance p \<in> {''contradicts'', ''qualifies'', UNRESOLVED}"
      using blue_positions_stance [OF valid [OF c(1)]] p(1) c(2) by blast
    moreover obtain ref where "ref \<in> set (po_refs p)"
      using ok p open_stance by (metis list.set_sel(1) list_all_iff position_ok_def)
    ultimately have "\<exists>rel\<in>set (position_relations p). pr_kind rel = po_stance p"
      using position_relations_exist p(2) open_stance by fastforce
    then show ?thesis using p by (auto simp: relations_of_set)
  qed
  then show ?thesis
    using relations_known [OF ok] citations_known [OF ok] requests_known [OF assms(1)] relations_are_citations
    by (simp add: r)
qed

definition example_table :: label_table where
  "example_table = mk_labels [(''G1'', ''guard'')] {} []"

definition example_answer :: blue_compact where
  "example_answer =
     \<lparr>c_stance = Some ''contradicts'', c_predicate = Some ''security_impact'', c_cites = [''G1'', ''G2''], c_why = None,
      c_per_predicate = [], bc_requests = []\<rparr>"

lemma example_resolve: "resolve example_table ''G1'' = Some ''guard''" "resolve example_table ''G2'' = None"
  by (simp_all add: example_table_def resolve_def is_label_def is_digit_def mk_labels_def)

lemma example_table_ok: "table_ok example_table"
  unfolding example_table_def
  by (rule mk_labels_ok) (simp add: package_labels_def is_label_def is_digit_def starts_with_def RETRIEVAL_PREFIX_def)

lemma example_disposition:
  "\<exists>r. ex_result (expand_blue (Valid example_answer) example_table ''claim'' ''task'') = Some r \<and> br_disposition r = ''contradicts''"
  by (simp add: expand_blue_def example_answer_def positions_of_def PREDICATES_def resolve_position_def resolve_all_def
        example_resolve Let_def append_new_def expand_requests_def overall_stance_def add_note_def no_expansion_def UNRESOLVED_def)

theorem blue_result_backed_witness:
  "\<exists>r. ex_result (expand_blue (Valid example_answer) example_table ''claim'' ''task'') = Some r \<and>
       br_disposition r \<noteq> UNRESOLVED \<and> (\<exists>rel\<in>set (br_relations r). pr_kind rel = br_disposition r)"
proof -
  have "blue_stances example_answer" by (simp add: blue_stances_def example_answer_def)
  then show ?thesis
    using blue_result_backed [OF example_table_ok, of "Valid example_answer" "''claim''" "''task''"] example_disposition
    by (auto simp: UNRESOLVED_def)
qed

text \<open>The two sides of a judge's answer exchanged, and the map from sides to roles with them.\<close>

definition swap_side :: "string \<Rightarrow> string" where
  "swap_side s = (if s = ''A'' then ''B'' else if s = ''B'' then ''A'' else s)"

definition swap_answer :: "judge_compact \<Rightarrow> judge_compact" where
  "swap_answer c =
     c\<lparr>jc_verdict := swap_side (jc_verdict c),
       jc_per_predicate := map (\<lambda>(name, entry). (name, entry\<lparr>jp_verdict := swap_side (jp_verdict entry)\<rparr>)) (jc_per_predicate c)\<rparr>"

definition swap_map :: "(string, string) dict \<Rightarrow> (string, string) dict" where
  "swap_map m = map (\<lambda>(side, role). (swap_side side, role)) m"

lemma swap_side_inj [simp]: "swap_side a = swap_side b \<longleftrightarrow> a = b"
  by (auto simp: swap_side_def)

lemma swap_side_unresolved [simp]: "swap_side s = UNRESOLVED \<longleftrightarrow> s = UNRESOLVED" "swap_side UNRESOLVED = UNRESOLVED"
  by (auto simp: swap_side_def UNRESOLVED_def)

definition both_sides :: "(string, string) dict \<Rightarrow> bool" where
  "both_sides m = (map_of m ''A'' \<noteq> None \<and> map_of m ''B'' \<noteq> None)"

lemma deshuffle_swap: "both_sides m \<Longrightarrow> deshuffle (swap_side s) (swap_map m) = deshuffle s m"
proof -
  assume both: "both_sides m"
  have "map_of (swap_map m) (swap_side s) = map_of m s"
    by (induction m) (auto simp: swap_map_def)
  then show ?thesis
    using both by (auto simp: deshuffle_def both_sides_def swap_side_def split: option.split)
qed

lemma map_of_map_entry: "map_of (map (\<lambda>(k, v). (k, f v)) d) k = map_option f (map_of d k)"
  by (induction d) auto

lemma positions_entries:
  "c_stance c = None \<Longrightarrow> fst (positions_of c t e owner) = fst (predicate_positions PREDICATES c t e owner)"
  by (simp add: positions_of_def Let_def split_beta)

definition swap_position :: "position \<Rightarrow> position" where
  "swap_position p = p\<lparr>po_stance := swap_side (po_stance p), po_requested := swap_side (po_requested p)\<rparr>"

lemma swap_position_simps [simp]:
  "po_predicate (swap_position p) = po_predicate p" "po_refs (swap_position p) = po_refs p"
  "po_stance (swap_position p) = swap_side (po_stance p)" "po_why (swap_position p) = po_why p"
  by (simp_all add: swap_position_def)

lemma resolve_position_swap:
  "fst (resolve_position predicate (swap_side stance) tokens why t e owner) =
   swap_position (fst (resolve_position predicate stance tokens why t e' owner))"
  by (simp add: resolve_position_fst swap_position_def Let_def) (simp add: swap_side_def)

lemma judge_entries_simps [simp]:
  "c_stance (judge_entries c) = None" "c_why (judge_entries c) = None"
  "map_of (c_per_predicate (judge_entries c)) k =
     map_option (\<lambda>j. \<lparr>cp_stance = jp_verdict j, cp_cites = jp_cites j, cp_why = jp_why j, cp_missing = []\<rparr>)
       (map_of (jc_per_predicate c) k)"
  by (simp_all add: judge_entries_def map_of_map_entry)

lemma swap_answer_entry [simp]:
  "map_of (jc_per_predicate (swap_answer c)) k =
     map_option (\<lambda>j. j\<lparr>jp_verdict := swap_side (jp_verdict j)\<rparr>) (map_of (jc_per_predicate c) k)"
  by (simp add: swap_answer_def map_of_map_entry)

lemma predicate_positions_swap:
  "fst (predicate_positions ps (judge_entries (swap_answer c)) t e owner) =
   map swap_position (fst (predicate_positions ps (judge_entries c) t e' owner))"
proof (induction ps arbitrary: e e')
  case (Cons predicate ps)
  show ?case
    by (cases "map_of (jc_per_predicate c) predicate")
       (simp_all add: Let_def split_beta resolve_position_swap [where e' = e'] Cons.IH)
qed simp

lemma citations_swap: "citations_of (map swap_position ps) = citations_of ps"
  by (simp add: citations_of_def fold_map comp_def)

text \<open>The verdict a judge's answer stands for, before the sides are named.\<close>

definition standing_verdict :: "judge_compact \<Rightarrow> position list \<Rightarrow> string" where
  "standing_verdict c ps =
     (if jc_verdict c \<in> {''A'', ''B'', ''both''} \<and> (\<forall>p\<in>set ps. po_refs p = []) then UNRESOLVED else jc_verdict c)"

definition judge_positions :: "judge_compact \<Rightarrow> label_table \<Rightarrow> position list" where
  "judge_positions c t = fst (predicate_positions PREDICATES (judge_entries c) t (no_expansion :: judge_result expansion) ''judge'')"

lemma expand_judge_result:
  "ex_result (expand_judge (Valid c) t claim_id m) = Some
     \<lparr>jr_schema = JUDGE_RESULT_SCHEMA, jr_claim_id = claim_id, jr_verdict = deshuffle (standing_verdict c (judge_positions c t)) m,
      jr_per_predicate = fold (\<lambda>p. AList.update (po_predicate p) (deshuffle (po_stance p) m, po_refs p)) (judge_positions c t) [],
      jr_citations = citations_of (judge_positions c t),
      jr_reason = clean_text (Some (jc_reason c)) ''no reason given'' MAX_TEXT\<rparr>"
  by (simp add: expand_judge_def Let_def split_beta positions_entries judge_positions_def standing_verdict_def)

lemma judge_positions_swap: "judge_positions (swap_answer c) t = map swap_position (judge_positions c t)"
  unfolding judge_positions_def by (rule predicate_positions_swap)

lemma standing_verdict_swap:
  "standing_verdict (swap_answer c) (map swap_position ps) = swap_side (standing_verdict c ps)"
  by (auto simp: standing_verdict_def swap_answer_def swap_side_def UNRESOLVED_def)

text \<open>
  C35. The order in which the two sides are shown does not matter: an answer with the letters A and B exchanged,
  read through the map with the letters exchanged, expands to the same judge result.
\<close>

theorem judge_order_irrelevant:
  assumes "both_sides m"
  shows "ex_result (expand_judge (Valid (swap_answer c)) t claim_id (swap_map m)) =
         ex_result (expand_judge (Valid c) t claim_id m)"
proof -
  have "jc_reason (swap_answer c) = jc_reason c" by (simp add: swap_answer_def)
  then show ?thesis
    by (simp add: expand_judge_result judge_positions_swap standing_verdict_swap citations_swap fold_map comp_def
          deshuffle_swap [OF assms])
qed

text \<open>A verdict for side A that cites the guard, over both orders of the sides.\<close>

definition example_verdict :: judge_compact where
  "example_verdict =
     \<lparr>jc_verdict = ''A'', jc_per_predicate = [(''security_impact'', \<lparr>jp_verdict = ''A'', jp_cites = [''G1''], jp_why = None\<rparr>)],
      jc_reason = ''r''\<rparr>"

lemma example_verdict_stands:
  "\<exists>r. ex_result (expand_judge (Valid example_verdict) example_table ''claim'' [(''A'', ''red''), (''B'', ''blue'')]) = Some r \<and>
     jr_verdict r = ''red_correct'' \<and> jr_citations r = [(''security_impact'', [''guard''])]"
  by (simp add: expand_judge_result judge_positions_def judge_entries_def standing_verdict_def example_verdict_def PREDICATES_def
        resolve_position_fst resolve_all_def example_resolve citations_of_def deshuffle_def append_new_def dict_get_list_def
        UNRESOLVED_def Let_def split_beta)

theorem judge_order_irrelevant_witness:
  "both_sides [(''A'', ''red''), (''B'', ''blue'')] \<and> jc_verdict (swap_answer example_verdict) = ''B'' \<and>
   (\<exists>r. ex_result (expand_judge (Valid (swap_answer example_verdict)) example_table ''claim''
          (swap_map [(''A'', ''red''), (''B'', ''blue'')])) = Some r \<and>
     jr_verdict r = ''red_correct'' \<and> jr_citations r = [(''security_impact'', [''guard''])])"
proof -
  have both: "both_sides [(''A'', ''red''), (''B'', ''blue'')]" by (simp add: both_sides_def)
  show ?thesis
    unfolding judge_order_irrelevant [OF both]
    using both example_verdict_stands by (simp add: example_verdict_def swap_answer_def swap_side_def)
qed

end
