(* ===== verification/Red_Discovery.thy ===== *)
theory Red_Discovery
  imports Compact
begin

text \<open>
  Red discovery results (\<open>review/red_discovery.py\<close>): the document a red cell proposes, the limits it must
  keep, the admission rules it is checked against, and the read-only views normalization takes of an
  admitted result.

  A result is the record its schema describes; the limits on its size are measured on the JSON document
  \<open>red_doc\<close> of the record. An admission check is the list of the messages it adds; the error list keeps the
  first 20 of them, cut to 256 characters, and is read only at the end.
\<close>

section \<open>Result documents\<close>

record lead_entry =
  le_observation_id :: string
  le_outcome :: string
  le_proposal_ids :: "string list"
  le_gap_ids :: "string list"
  le_reason :: string

record attacker_entry =
  ae_entity_id :: "string option"
  ae_control :: string
  ae_preconditions :: "string list"

record poc_trigger =
  pt_field :: string
  pt_where :: string
  pt_constraint :: string
  pt_why :: string

record poc_basis =
  pb_entry :: "string list"
  pb_path :: "string list"
  pb_trigger :: "poc_trigger list"
  pb_input_format :: string
  pb_preconditions :: "string list"
  pb_expected_observation :: string
  pb_unknowns :: "string list"

record red_proposal =
  rp_local_id :: string
  rp_source_lead_ids :: "string list"
  rp_affected_entities :: "string list"
  rp_statement :: string
  rp_mechanism :: string
  rp_weakness :: "string option"
  rp_security_predicate :: string
  rp_attacker_entry :: attacker_entry
  rp_trigger :: string
  rp_suspected_consequence :: string
  rp_assumptions :: "string list"
  rp_evidence_ids :: "string list"
  rp_counterevidence_ids :: "string list"
  rp_obligation_ids :: "string list"
  rp_taint_path_ids :: "string list"
  rp_poc_basis :: "poc_basis option"

record red_obligation =
  ro_local_id :: string
  ro_proposal_id :: string
  ro_predicate :: string
  ro_question :: string
  ro_candidate_evidence_ids :: "string list"

record taint_node =
  tn_local_id :: string
  tn_role :: string
  tn_entity_id :: "string option"
  tn_description :: string
  tn_guard_effect :: "string option"

record taint_edge =
  te_from_node :: string
  te_to_node :: string
  te_kind :: string
  te_basis :: string
  te_evidence_ids :: "string list"
  te_open_question :: "string option"

record taint_path =
  tp_local_id :: string
  tp_proposal_id :: string
  tp_source_node :: string
  tp_sink_node :: string
  tp_basis :: string
  tp_nodes :: "taint_node list"
  tp_edges :: "taint_edge list"
  tp_gap_ids :: "string list"

record seed_step =
  ss_local_id :: string
  ss_description :: string
  ss_proposal_id :: "string option"
  ss_prerequisite :: string
  ss_resulting_state :: string
  ss_entity_ids :: "string list"

record seed_link =
  sl_from_step :: string
  sl_to_step :: string
  sl_continuity_dimensions :: "string list"
  sl_evidence_ids :: "string list"
  sl_open_questions :: "string list"

record chain_seed =
  sd_local_id :: string
  sd_objective :: string
  sd_steps :: "seed_step list"
  sd_links :: "seed_link list"
  sd_gap_ids :: "string list"

datatype evidence_locator =
    Source_line string string int int
  | Run_artifact string string
  | Unresolved_locator string

record evidence_ref =
  ev_local_id :: string
  ev_entity_id :: string
  ev_shard_id :: "string option"
  ev_shard_sha256 :: "string option"
  ev_relation :: string
  ev_predicate :: string
  ev_locator :: evidence_locator

record red_request =
  rq_local_id :: string
  rq_proposal_id :: string
  rq_predicate :: string
  rq_requested_kind :: string
  rq_scope_entity_ids :: "string list"
  rq_reason :: string
  rq_specialist :: "string option"

record red_gap =
  rg_local_id :: string
  rg_kind :: string
  rg_scope :: string
  rg_reason :: string

record red_result =
  rr_schema :: string
  rr_basis_sha256 :: string
  rr_role :: string
  rr_round_id :: string
  rr_result_status :: string
  rr_lead_accounting :: "lead_entry list"
  rr_proposals :: "red_proposal list"
  rr_proof_obligations :: "red_obligation list"
  rr_taint_paths :: "taint_path list"
  rr_chain_seeds :: "chain_seed list"
  rr_evidence_refs :: "evidence_ref list"
  rr_evidence_requests :: "red_request list"
  rr_gaps :: "red_gap list"

subsection \<open>The document of a result\<close>

definition jstr_list :: "string list \<Rightarrow> json" where
  "jstr_list xs = JArr (map JStr xs)"

definition optional :: "string \<Rightarrow> ('a \<Rightarrow> json) \<Rightarrow> 'a option \<Rightarrow> (string \<times> json) list" where
  "optional k f x = (case x of None \<Rightarrow> [] | Some v \<Rightarrow> [(k, f v)])"

definition lead_entry_doc :: "lead_entry \<Rightarrow> json" where
  "lead_entry_doc x = jobj
     [(''observation_id'', JStr (le_observation_id x)), (''outcome'', JStr (le_outcome x)),
      (''proposal_ids'', jstr_list (le_proposal_ids x)), (''gap_ids'', jstr_list (le_gap_ids x)),
      (''reason'', JStr (le_reason x))]"

definition poc_trigger_doc :: "poc_trigger \<Rightarrow> json" where
  "poc_trigger_doc x = jobj
     [(''field'', JStr (pt_field x)), (''where'', JStr (pt_where x)), (''constraint'', JStr (pt_constraint x)),
      (''why'', JStr (pt_why x))]"

definition poc_basis_doc :: "poc_basis \<Rightarrow> json" where
  "poc_basis_doc x = jobj
     [(''entry'', jstr_list (pb_entry x)), (''path'', jstr_list (pb_path x)),
      (''trigger'', JArr (map poc_trigger_doc (pb_trigger x))), (''input_format'', JStr (pb_input_format x)),
      (''preconditions'', jstr_list (pb_preconditions x)), (''expected_observation'', JStr (pb_expected_observation x)),
      (''unknowns'', jstr_list (pb_unknowns x))]"

definition red_proposal_doc :: "red_proposal \<Rightarrow> json" where
  "red_proposal_doc x = jobj
     ([(''local_id'', JStr (rp_local_id x)), (''source_lead_ids'', jstr_list (rp_source_lead_ids x)),
       (''affected_entities'', jstr_list (rp_affected_entities x)), (''statement'', JStr (rp_statement x)),
       (''mechanism'', JStr (rp_mechanism x)),
       (''weakness'', (case rp_weakness x of None \<Rightarrow> JNull | Some w \<Rightarrow> jobj [(''namespace'', JStr ''CWE''), (''id'', JStr w)])),
       (''security_predicate'', JStr (rp_security_predicate x)),
       (''attacker_entry'', jobj
          [(''entity_id'', opt_json (ae_entity_id (rp_attacker_entry x))), (''control'', JStr (ae_control (rp_attacker_entry x))),
           (''preconditions'', jstr_list (ae_preconditions (rp_attacker_entry x)))]),
       (''trigger'', JStr (rp_trigger x)), (''suspected_consequence'', JStr (rp_suspected_consequence x)),
       (''assumptions'', jstr_list (rp_assumptions x)), (''evidence_ids'', jstr_list (rp_evidence_ids x)),
       (''counterevidence_ids'', jstr_list (rp_counterevidence_ids x)), (''obligation_ids'', jstr_list (rp_obligation_ids x)),
       (''taint_path_ids'', jstr_list (rp_taint_path_ids x))] @ optional ''poc_basis'' poc_basis_doc (rp_poc_basis x))"

definition red_obligation_doc :: "red_obligation \<Rightarrow> json" where
  "red_obligation_doc x = jobj
     [(''local_id'', JStr (ro_local_id x)), (''proposal_id'', JStr (ro_proposal_id x)), (''predicate'', JStr (ro_predicate x)),
      (''question'', JStr (ro_question x)), (''candidate_evidence_ids'', jstr_list (ro_candidate_evidence_ids x))]"

definition taint_node_doc :: "taint_node \<Rightarrow> json" where
  "taint_node_doc x = jobj
     ([(''local_id'', JStr (tn_local_id x)), (''role'', JStr (tn_role x)), (''entity_id'', opt_json (tn_entity_id x)),
       (''description'', JStr (tn_description x))] @ optional ''guard_effect'' JStr (tn_guard_effect x))"

definition taint_edge_doc :: "taint_edge \<Rightarrow> json" where
  "taint_edge_doc x = jobj
     [(''from_node'', JStr (te_from_node x)), (''to_node'', JStr (te_to_node x)), (''kind'', JStr (te_kind x)),
      (''basis'', JStr (te_basis x)), (''evidence_ids'', jstr_list (te_evidence_ids x)),
      (''open_question'', opt_json (te_open_question x))]"

definition taint_path_doc :: "taint_path \<Rightarrow> json" where
  "taint_path_doc x = jobj
     [(''local_id'', JStr (tp_local_id x)), (''proposal_id'', JStr (tp_proposal_id x)),
      (''source_node'', JStr (tp_source_node x)), (''sink_node'', JStr (tp_sink_node x)), (''basis'', JStr (tp_basis x)),
      (''nodes'', JArr (map taint_node_doc (tp_nodes x))), (''edges'', JArr (map taint_edge_doc (tp_edges x))),
      (''gap_ids'', jstr_list (tp_gap_ids x))]"

definition seed_step_doc :: "seed_step \<Rightarrow> json" where
  "seed_step_doc x = jobj
     [(''local_id'', JStr (ss_local_id x)), (''description'', JStr (ss_description x)),
      (''proposal_id'', opt_json (ss_proposal_id x)), (''prerequisite'', JStr (ss_prerequisite x)),
      (''resulting_state'', JStr (ss_resulting_state x)), (''entity_ids'', jstr_list (ss_entity_ids x))]"

definition seed_link_doc :: "seed_link \<Rightarrow> json" where
  "seed_link_doc x = jobj
     [(''from_step'', JStr (sl_from_step x)), (''to_step'', JStr (sl_to_step x)),
      (''continuity_dimensions'', jstr_list (sl_continuity_dimensions x)), (''evidence_ids'', jstr_list (sl_evidence_ids x)),
      (''open_questions'', jstr_list (sl_open_questions x))]"

definition chain_seed_doc :: "chain_seed \<Rightarrow> json" where
  "chain_seed_doc x = jobj
     [(''local_id'', JStr (sd_local_id x)), (''objective'', JStr (sd_objective x)),
      (''steps'', JArr (map seed_step_doc (sd_steps x))), (''links'', JArr (map seed_link_doc (sd_links x))),
      (''gap_ids'', jstr_list (sd_gap_ids x))]"

fun locator_doc :: "evidence_locator \<Rightarrow> json" where
  "locator_doc (Source_line path sha start_line end_line) = jobj
     [(''kind'', JStr ''source_line''), (''path'', JStr path), (''file_sha256'', JStr sha),
      (''start_line'', JInt start_line), (''end_line'', JInt end_line)]"
| "locator_doc (Run_artifact artifact sha) = jobj
     [(''kind'', JStr ''run_artifact''), (''artifact_id'', JStr artifact), (''artifact_sha256'', JStr sha)]"
| "locator_doc (Unresolved_locator reason) = jobj [(''kind'', JStr ''unresolved''), (''reason'', JStr reason)]"

definition evidence_ref_doc :: "evidence_ref \<Rightarrow> json" where
  "evidence_ref_doc x = jobj
     [(''local_id'', JStr (ev_local_id x)), (''entity_id'', JStr (ev_entity_id x)), (''shard_id'', opt_json (ev_shard_id x)),
      (''shard_sha256'', opt_json (ev_shard_sha256 x)), (''relation'', JStr (ev_relation x)),
      (''predicate'', JStr (ev_predicate x)), (''locator'', locator_doc (ev_locator x))]"

definition red_request_doc :: "red_request \<Rightarrow> json" where
  "red_request_doc x = jobj
     ([(''local_id'', JStr (rq_local_id x)), (''proposal_id'', JStr (rq_proposal_id x)), (''predicate'', JStr (rq_predicate x)),
       (''requested_kind'', JStr (rq_requested_kind x)), (''scope_entity_ids'', jstr_list (rq_scope_entity_ids x)),
       (''reason'', JStr (rq_reason x))] @ optional ''specialist'' JStr (rq_specialist x))"

definition red_gap_doc :: "red_gap \<Rightarrow> json" where
  "red_gap_doc x = jobj
     [(''local_id'', JStr (rg_local_id x)), (''kind'', JStr (rg_kind x)), (''scope'', JStr (rg_scope x)), (''reason'', JStr (rg_reason x))]"

definition red_doc :: "red_result \<Rightarrow> json" where
  "red_doc r = jobj
     [(''schema'', JStr (rr_schema r)), (''package'', jobj [(''basis_sha256'', JStr (rr_basis_sha256 r))]),
      (''role'', JStr (rr_role r)), (''round_id'', JStr (rr_round_id r)), (''result_status'', JStr (rr_result_status r)),
      (''lead_accounting'', JArr (map lead_entry_doc (rr_lead_accounting r))),
      (''proposals'', JArr (map red_proposal_doc (rr_proposals r))),
      (''proof_obligations'', JArr (map red_obligation_doc (rr_proof_obligations r))),
      (''taint_paths'', JArr (map taint_path_doc (rr_taint_paths r))),
      (''chain_seeds'', JArr (map chain_seed_doc (rr_chain_seeds r))),
      (''evidence_refs'', JArr (map evidence_ref_doc (rr_evidence_refs r))),
      (''evidence_requests'', JArr (map red_request_doc (rr_evidence_requests r))),
      (''gaps'', JArr (map red_gap_doc (rr_gaps r)))]"

subsection \<open>Size of a document\<close>

text \<open>
  The bytes of a character in a JSON text that keeps non-ASCII characters, encoded as UTF-8: quotes, backslashes and
  the short escapes take two, other control characters six, characters from 128 on two.
\<close>

definition char_bytes :: "char \<Rightarrow> nat" where
  "char_bytes c =
     (let n = of_char c :: nat
      in if n \<in> {34, 92, 8, 9, 10, 12, 13} then 2 else if n < 32 then 6 else if n < 128 then 1 else 2)"

definition string_bytes :: "string \<Rightarrow> nat" where
  "string_bytes s = 2 + sum_list (map char_bytes s)"

primrec json_bytes :: "json \<Rightarrow> nat" where
  "json_bytes JNull = 4"
| "json_bytes (JBool b) = (if b then 4 else 5)"
| "json_bytes (JInt i) = length (int_str i)"
| "json_bytes (JStr s) = string_bytes s"
| "json_bytes (JArr xs) = 2 + sum_list (map json_bytes xs) + (length xs - 1)"
| "json_bytes (JObj m) =
     2 + (\<Sum>k\<in>fset (fmdom m). string_bytes k + 1 + the (fmlookup (fmmap json_bytes m) k)) + (fcard (fmdom m) - 1)"

text \<open>The longest text value (\<open>_strings\<close>): keys do not count.\<close>

primrec longest_text :: "json \<Rightarrow> nat" where
  "longest_text JNull = 0"
| "longest_text (JBool b) = 0"
| "longest_text (JInt i) = 0"
| "longest_text (JStr s) = length s"
| "longest_text (JArr xs) = foldr max (map longest_text xs) 0"
| "longest_text (JObj m) = Max (insert 0 ((\<lambda>k. the (fmlookup (fmmap longest_text m) k)) ` fset (fmdom m)))"

section \<open>Limits\<close>

record red_limits =
  rl_max_result_bytes :: int
  rl_max_proposals :: int
  rl_max_obligations :: int
  rl_max_taint_paths :: int
  rl_max_path_nodes :: int
  rl_max_chain_seeds :: int
  rl_max_chain_steps :: int
  rl_max_evidence_refs :: int
  rl_max_evidence_requests :: int
  rl_max_gaps :: int
  rl_max_text_chars :: int

text \<open>The fields in order, with their ceilings and defaults.\<close>

definition RED_LIMIT_FIELDS :: "(string \<times> int \<times> int) list" where
  "RED_LIMIT_FIELDS =
     [(''max_result_bytes'', 256 * 1024, 65536), (''max_proposals'', 32, 8), (''max_obligations'', 256, 48),
      (''max_taint_paths'', 32, 8), (''max_path_nodes'', 64, 16), (''max_chain_seeds'', 16, 4), (''max_chain_steps'', 32, 8),
      (''max_evidence_refs'', 256, 64), (''max_evidence_requests'', 64, 16), (''max_gaps'', 128, 32), (''max_text_chars'', 4096, 2000)]"

definition default_limits :: red_limits where
  "default_limits =
     \<lparr>rl_max_result_bytes = 65536, rl_max_proposals = 8, rl_max_obligations = 48, rl_max_taint_paths = 8, rl_max_path_nodes = 16,
      rl_max_chain_seeds = 4, rl_max_chain_steps = 8, rl_max_evidence_refs = 64, rl_max_evidence_requests = 16, rl_max_gaps = 32,
      rl_max_text_chars = 2000\<rparr>"

text \<open>\<open>__post_init__\<close> on one field: an integer (a boolean is none) between 1 and the ceiling.\<close>

definition check_limit :: "string \<Rightarrow> string \<Rightarrow> int \<Rightarrow> json \<Rightarrow> int res" where
  "check_limit field name high v =
     (let bad = Inl (ValueError (field @ ''.'' @ name @ '' must be an integer between 1 and '' @ int_str high))
      in case v of JInt i \<Rightarrow> if 1 \<le> i \<and> i \<le> high then Inr i else bad | _ \<Rightarrow> bad)"

definition red_limits_from_mapping :: "json option \<Rightarrow> string \<Rightarrow> red_limits res" where
  "red_limits_from_mapping value field =
     (case value of
        None \<Rightarrow> Inr default_limits
      | Some (JObj m) \<Rightarrow>
          (let unknown = filter (\<lambda>k. k \<notin> set (map fst RED_LIMIT_FIELDS)) (sorted_list_of_fset (fmdom m))
           in if unknown \<noteq> [] then Inl (ValueError (field @ '' has unknown settings: '' @ join '', '' unknown))
              else rbind (rmap (\<lambda>(name, high, std). check_limit field name high
                                  (case fmlookup m name of None \<Rightarrow> JInt std | Some v \<Rightarrow> v)) RED_LIMIT_FIELDS)
                (\<lambda>vs. Inr \<lparr>rl_max_result_bytes = vs ! 0, rl_max_proposals = vs ! 1, rl_max_obligations = vs ! 2,
                  rl_max_taint_paths = vs ! 3, rl_max_path_nodes = vs ! 4, rl_max_chain_seeds = vs ! 5, rl_max_chain_steps = vs ! 6,
                  rl_max_evidence_refs = vs ! 7, rl_max_evidence_requests = vs ! 8, rl_max_gaps = vs ! 9,
                  rl_max_text_chars = vs ! 10\<rparr>))
      | Some _ \<Rightarrow> Inl (ValueError (field @ '' must be a table'')))"

record red_invocation =
  ri_role :: role
  ri_round :: int
  ri_basis_sha256 :: string
  ri_lead_ids :: "string list"

section \<open>Admission\<close>

definition MAX_ERRORS :: nat where
  "MAX_ERRORS = 20"

definition check_that :: "bool \<Rightarrow> string \<Rightarrow> string list" where
  "check_that ok message = (if ok then [] else [message])"

definition size_errors :: "red_result \<Rightarrow> red_limits \<Rightarrow> string list" where
  "size_errors r limits =
     (let size = json_bytes (red_doc r); longest = longest_text (red_doc r)
      in check_that (int size \<le> rl_max_result_bytes limits)
           (''result is '' @ nat_str size @ '' bytes; the limit is '' @ int_str (rl_max_result_bytes limits)) @
         concat (map (\<lambda>(key, held, limit). check_that (int held \<le> limit)
                       (key @ '' holds '' @ nat_str held @ '' items; the limit is '' @ int_str limit))
           [(''proposals'', length (rr_proposals r), rl_max_proposals limits),
            (''proof_obligations'', length (rr_proof_obligations r), rl_max_obligations limits),
            (''taint_paths'', length (rr_taint_paths r), rl_max_taint_paths limits),
            (''chain_seeds'', length (rr_chain_seeds r), rl_max_chain_seeds limits),
            (''evidence_refs'', length (rr_evidence_refs r), rl_max_evidence_refs limits),
            (''evidence_requests'', length (rr_evidence_requests r), rl_max_evidence_requests limits),
            (''gaps'', length (rr_gaps r), rl_max_gaps limits)]) @
         check_that (int longest \<le> rl_max_text_chars limits)
           (''a text value has '' @ nat_str longest @ '' characters; the limit is '' @ int_str (rl_max_text_chars limits)))"

definition echo_errors :: "red_result \<Rightarrow> red_invocation \<Rightarrow> string list" where
  "echo_errors r invocation =
     check_that (rr_basis_sha256 r = ri_basis_sha256 invocation) ''package echo does not match the invoked package'' @
     check_that (rr_role r = role_value (ri_role invocation)) ''role echo does not match the invoked role'' @
     check_that (rr_round_id r = int_str (ri_round invocation)) ''round echo does not match the invoked round''"

text \<open>The local identifiers of all tables, in the order the tables are read.\<close>

definition result_ids :: "red_result \<Rightarrow> string list" where
  "result_ids r =
     map rp_local_id (rr_proposals r) @ map ro_local_id (rr_proof_obligations r) @ map tp_local_id (rr_taint_paths r) @
     map sd_local_id (rr_chain_seeds r) @ map ev_local_id (rr_evidence_refs r) @ map rq_local_id (rr_evidence_requests r) @
     map rg_local_id (rr_gaps r)"

fun repeated_ids :: "string list \<Rightarrow> string list \<Rightarrow> string list" where
  "repeated_ids seen [] = []"
| "repeated_ids seen (x # xs) = (if x \<in> set seen then [x] else []) @ repeated_ids (x # seen) xs"

definition table_of :: "('a \<Rightarrow> string) \<Rightarrow> 'a list \<Rightarrow> (string, 'a) dict" where
  "table_of key items = fold (\<lambda>it. dict_setdefault (key it) it) items []"

definition unique_errors :: "red_result \<Rightarrow> string list" where
  "unique_errors r =
     map (\<lambda>local. ''local id '' @ local @ '' is not unique'') (repeated_ids [] (result_ids r)) @
     concat (map (\<lambda>path. check_that (distinct (map tn_local_id (tp_nodes path)))
                   (''taint path '' @ tp_local_id path @ '' repeats a node id'')) (rr_taint_paths r)) @
     concat (map (\<lambda>seed. check_that (distinct (map ss_local_id (sd_steps seed)))
                   (''chain seed '' @ sd_local_id seed @ '' repeats a step id'')) (rr_chain_seeds r))"

definition last12 :: "string \<Rightarrow> string" where
  "last12 s = drop (length s - 12) s"

definition lead_entry_errors :: "(string, red_proposal) dict \<Rightarrow> (string, red_gap) dict \<Rightarrow> lead_entry \<Rightarrow> string list" where
  "lead_entry_errors proposals gaps entry =
     (let lead = le_observation_id entry; outcome = le_outcome entry
      in check_that (\<not> (outcome = ''proposal'' \<and> le_proposal_ids entry = []))
           (''lead '' @ last12 lead @ '' is accounted as proposal without a proposal id'') @
         check_that (\<not> (outcome \<noteq> ''proposal'' \<and> le_proposal_ids entry \<noteq> []))
           (''lead '' @ last12 lead @ '' is accounted as '' @ outcome @ '' but names proposals'') @
         check_that (\<not> (outcome = ''blocked'' \<and> le_gap_ids entry = [])) (''lead '' @ last12 lead @ '' is blocked without naming a gap'') @
         concat (map (\<lambda>local. case map_of proposals local of
                        None \<Rightarrow> [''lead accounting names unknown proposal '' @ local]
                      | Some p \<Rightarrow> check_that (lead \<in> set (rp_source_lead_ids p))
                          (''lead accounting names proposal '' @ local @ '', which does not cite that lead'')) (le_proposal_ids entry)) @
         concat (map (\<lambda>local. check_that (map_of gaps local \<noteq> None) (''lead accounting names unknown gap '' @ local)) (le_gap_ids entry)))"

definition proposal_lead_errors ::
  "red_invocation \<Rightarrow> (string, lead_entry) dict \<Rightarrow> string \<times> red_proposal \<Rightarrow> string list" where
  "proposal_lead_errors invocation by_lead entry =
     (let (local, proposal) = entry; leads = rp_source_lead_ids proposal
      in check_that (\<not> (ri_role invocation = RED_TEAM_ANALYST \<and> leads = []))
           (''proposal '' @ local @ '' develops no package lead; a lead analyst proposal names its lead'') @
         concat (map (\<lambda>lead. if lead \<notin> set (ri_lead_ids invocation) then [''proposal '' @ local @ '' names a source lead outside the package'']
                             else case map_of by_lead lead of
                               None \<Rightarrow> []
                             | Some e \<Rightarrow> check_that (local \<in> set (le_proposal_ids e))
                                 (''proposal '' @ local @ '' is missing from its source lead's accounting entry'')) leads))"

definition accounting_errors :: "red_result \<Rightarrow> red_invocation \<Rightarrow> string list" where
  "accounting_errors r invocation =
     (let entries = rr_lead_accounting r; accounted = map le_observation_id entries; expected = ri_lead_ids invocation;
          missing = remdups (filter (\<lambda>l. l \<notin> set accounted) expected);
          extra = remdups (filter (\<lambda>l. l \<notin> set expected) accounted);
          proposals = table_of rp_local_id (rr_proposals r); gaps = table_of rg_local_id (rr_gaps r);
          by_lead = fold (\<lambda>e. AList.update (le_observation_id e) e) entries []
      in check_that (distinct accounted) ''lead accounting names a lead more than once'' @
         check_that (missing = []) (''lead accounting omits '' @ nat_str (length missing) @ '' package leads; every lead needs exactly one entry'') @
         check_that (extra = []) (''lead accounting names '' @ nat_str (length extra) @ '' leads outside the package'') @
         concat (map (lead_entry_errors proposals gaps) entries) @
         concat (map (proposal_lead_errors invocation by_lead) proposals))"

subsection \<open>Closure\<close>

definition SUPPORT_RELATIONS :: "string list" where
  "SUPPORT_RELATIONS = [''supports'', ''qualifies'', ''nominates'']"

definition COUNTER_RELATIONS :: "string list" where
  "COUNTER_RELATIONS = [''contradicts'', ''qualifies'']"

definition refs_exist :: "(string, evidence_ref) dict \<Rightarrow> string \<Rightarrow> string list \<Rightarrow> string list option \<Rightarrow> string list" where
  "refs_exist refs owner locals allowed =
     concat (map (\<lambda>local. case map_of refs local of
                    None \<Rightarrow> [owner @ '' cites unknown evidence '' @ local]
                  | Some ref \<Rightarrow> check_that (case allowed of None \<Rightarrow> True | Some rs \<Rightarrow> ev_relation ref \<in> set rs)
                      (owner @ '' cites evidence '' @ local @ '' whose relation is '' @ ev_relation ref)) locals)"

definition proposal_closure_errors ::
  "(string, evidence_ref) dict \<Rightarrow> (string, red_obligation) dict \<Rightarrow> (string, taint_path) dict \<Rightarrow> string \<times> red_proposal \<Rightarrow> string list" where
  "proposal_closure_errors refs obligations paths entry =
     (let (local, proposal) = entry
      in refs_exist refs (''proposal '' @ local) (rp_evidence_ids proposal) (Some SUPPORT_RELATIONS) @
         refs_exist refs (''proposal '' @ local @ '' counterevidence'') (rp_counterevidence_ids proposal) (Some COUNTER_RELATIONS) @
         concat (map (\<lambda>x. check_that (map_option ro_proposal_id (map_of obligations x) = Some local)
                       (''proposal '' @ local @ '' names obligation '' @ x @ '', which is unknown or another proposal's''))
                   (rp_obligation_ids proposal)) @
         concat (map (\<lambda>x. check_that (map_option tp_proposal_id (map_of paths x) = Some local)
                       (''proposal '' @ local @ '' names taint path '' @ x @ '', which is unknown or another proposal's''))
                   (rp_taint_path_ids proposal)))"

definition obligation_closure_errors ::
  "(string, red_proposal) dict \<Rightarrow> (string, evidence_ref) dict \<Rightarrow> string \<times> red_obligation \<Rightarrow> string list" where
  "obligation_closure_errors proposals refs entry =
     (let (local, obligation) = entry
      in check_that (case map_of proposals (ro_proposal_id obligation) of None \<Rightarrow> False | Some p \<Rightarrow> local \<in> set (rp_obligation_ids p))
           (''obligation '' @ local @ '' is not listed by its proposal'') @
         refs_exist refs (''obligation '' @ local) (ro_candidate_evidence_ids obligation) None)"

definition path_closure_errors ::
  "(string, red_proposal) dict \<Rightarrow> (string, red_gap) dict \<Rightarrow> string \<times> taint_path \<Rightarrow> string list" where
  "path_closure_errors proposals gaps entry =
     (let (local, path) = entry
      in check_that (case map_of proposals (tp_proposal_id path) of None \<Rightarrow> False | Some p \<Rightarrow> local \<in> set (rp_taint_path_ids p))
           (''taint path '' @ local @ '' is not listed by its proposal'') @
         concat (map (\<lambda>x. check_that (map_of gaps x \<noteq> None) (''taint path '' @ local @ '' names unknown gap '' @ x)) (tp_gap_ids path)))"

fun locator_error :: "string \<times> evidence_ref \<Rightarrow> string list" where
  "locator_error (local, ref) =
     (case ev_locator ref of
        Source_line _ _ start_line end_line \<Rightarrow> check_that (start_line \<le> end_line)
          (''evidence '' @ local @ '' has a source locator that ends before it starts'')
      | _ \<Rightarrow> [])"

definition closure_errors :: "red_result \<Rightarrow> string list" where
  "closure_errors r =
     (let proposals = table_of rp_local_id (rr_proposals r); refs = table_of ev_local_id (rr_evidence_refs r);
          gaps = table_of rg_local_id (rr_gaps r); obligations = table_of ro_local_id (rr_proof_obligations r);
          paths = table_of tp_local_id (rr_taint_paths r)
      in concat (map (proposal_closure_errors refs obligations paths) proposals) @
         concat (map (obligation_closure_errors proposals refs) obligations) @
         concat (map (path_closure_errors proposals gaps) paths) @
         concat (map (\<lambda>(local, request). check_that (map_of proposals (rq_proposal_id request) \<noteq> None)
                       (''evidence request '' @ local @ '' names an unknown proposal''))
                   (table_of rq_local_id (rr_evidence_requests r))) @
         concat (map locator_error refs))"

subsection \<open>Taint paths\<close>

definition OBSERVED_EDGE_BASES :: "string list" where
  "OBSERVED_EDGE_BASES = [''accepted_tool_path'', ''source_mapped_analysis'']"

definition HYPOTHESIS_EDGE_BASIS :: string where
  "HYPOTHESIS_EDGE_BASIS = ''analyst_hypothesis''"

text \<open>\<open>_reaches\<close>: depth-first search over the forward edges; the top of the stack is the head of the list.\<close>

function edges_reach :: "(string, string list) dict \<Rightarrow> string \<Rightarrow> string list \<Rightarrow> string list \<Rightarrow> bool" where
  "edges_reach forward goal [] visited = False"
| "edges_reach forward goal (node # stack) visited =
     (if node = goal then True
      else if node \<notin> set visited then edges_reach forward goal (rev (dict_get_list forward node) @ stack) (node # visited)
      else edges_reach forward goal stack visited)"
  by pat_completeness auto
termination
proof (relation "measures [\<lambda>(forward, goal, stack, visited). card (set (map fst forward) - set visited),
                          \<lambda>(forward, goal, stack, visited). length stack]", goal_cases)
  case (2 forward goal node stack visited)
  show ?case
  proof (cases "node \<in> set (map fst forward)")
    case True
    then have "set (map fst forward) - set (node # visited) \<subset> set (map fst forward) - set visited" using 2 by auto
    then have "card (set (map fst forward) - set (node # visited)) < card (set (map fst forward) - set visited)"
      by (rule psubset_card_mono [rotated]) simp
    then show ?thesis by simp
  next
    case False
    then have "dict_get_list forward node = []" by (simp add: dict_get_list_def map_of_eq_None_iff [THEN iffD2])
    moreover have "set (map fst forward) - set (node # visited) = set (map fst forward) - set visited" using False by auto
    ultimately show ?thesis by simp
  qed
qed auto

record edge_scan =
  es_pairs :: "(string \<times> string) list"
  es_forward :: "(string, string list) dict"
  es_errors :: "string list"

definition node_index :: "taint_path \<Rightarrow> (string, nat \<times> taint_node) dict" where
  "node_index path = fold (\<lambda>(i, node). AList.update (tn_local_id node) (i, node)) (enumerate 0 (tp_nodes path)) []"

definition scan_edge ::
  "string \<Rightarrow> (string, nat \<times> taint_node) dict \<Rightarrow> (string, evidence_ref) dict \<Rightarrow> taint_edge \<Rightarrow> edge_scan \<Rightarrow> edge_scan" where
  "scan_edge local nodes refs edge s =
     (let a = te_from_node edge; b = te_to_node edge
      in case (map_of nodes a, map_of nodes b) of
           (Some (i, _), Some (j, _)) \<Rightarrow>
             \<lparr>es_pairs = (a, b) # es_pairs s,
              es_forward = AList.update a (append_new b (dict_get_list (es_forward s) a)) (es_forward s),
              es_errors = es_errors s @
                check_that (i < j) (''taint path '' @ local @ '' has an edge that is not ordered forward (cycle or back edge)'') @
                check_that ((a, b) \<notin> set (es_pairs s)) (''taint path '' @ local @ '' repeats an edge'') @
                concat (map (\<lambda>x. check_that (map_of refs x \<noteq> None) (''taint path '' @ local @ '' edge cites unknown evidence '' @ x))
                          (te_evidence_ids edge)) @
                check_that (\<not> (te_basis edge \<in> set OBSERVED_EDGE_BASES \<and> te_evidence_ids edge = []))
                  (''taint path '' @ local @ '' has an observed ('' @ te_basis edge @ '') edge without a citation'')\<rparr>
         | _ \<Rightarrow> s\<lparr>es_errors := es_errors s @ [''taint path '' @ local @ '' has an edge to an unknown node'']\<rparr>)"

definition node_has_role :: "(string, nat \<times> taint_node) dict \<Rightarrow> string \<Rightarrow> string \<Rightarrow> bool" where
  "node_has_role nodes x wanted = (case map_of nodes x of None \<Rightarrow> False | Some (_, node) \<Rightarrow> tn_role node = wanted)"

definition taint_path_errors :: "(string, evidence_ref) dict \<Rightarrow> red_limits \<Rightarrow> taint_path \<Rightarrow> string list" where
  "taint_path_errors refs limits path =
     (let local = tp_local_id path; nodes = node_index path; held = length (tp_nodes path);
          scan = fold (scan_edge local nodes refs) (tp_edges path) \<lparr>es_pairs = [], es_forward = [], es_errors = []\<rparr>
      in check_that (int held \<le> rl_max_path_nodes limits)
           (''taint path '' @ local @ '' has '' @ nat_str held @ '' nodes; the limit is '' @ int_str (rl_max_path_nodes limits)) @
         check_that (node_has_role nodes (tp_source_node path) ''source'') (''taint path '' @ local @ '' does not start at one of its source nodes'') @
         check_that (node_has_role nodes (tp_sink_node path) ''sink'') (''taint path '' @ local @ '' does not end at one of its sink nodes'') @
         es_errors scan @
         (if tp_basis path = ''reported''
          then check_that (\<forall>edge\<in>set (tp_edges path). te_basis edge \<noteq> HYPOTHESIS_EDGE_BASIS)
                 (''taint path '' @ local @ '' is reported but contains a hypothesized hop'') @
               check_that (\<not> (map_of nodes (tp_source_node path) \<noteq> None \<and> map_of nodes (tp_sink_node path) \<noteq> None \<and>
                              \<not> edges_reach (es_forward scan) (tp_sink_node path) [tp_source_node path] []))
                 (''taint path '' @ local @ '' is reported but its edges do not connect source to sink'')
          else []))"

subsection \<open>Chain seeds\<close>

definition scan_link ::
  "string \<Rightarrow> (string, nat) dict \<Rightarrow> (string, evidence_ref) dict \<Rightarrow> seed_link \<Rightarrow> (string \<times> string) list \<times> string list \<Rightarrow>
   (string \<times> string) list \<times> string list" where
  "scan_link local steps refs link acc =
     (let (pairs, errors) = acc; a = sl_from_step link; b = sl_to_step link
      in case (map_of steps a, map_of steps b) of
           (Some i, Some j) \<Rightarrow>
             ((a, b) # pairs, errors @
                check_that (i < j) (''chain seed '' @ local @ '' has a link that is not ordered forward (cycle or back link)'') @
                check_that ((a, b) \<notin> set pairs) (''chain seed '' @ local @ '' repeats a link'') @
                concat (map (\<lambda>x. check_that (map_of refs x \<noteq> None) (''chain seed '' @ local @ '' link cites unknown evidence '' @ x))
                          (sl_evidence_ids link)))
         | _ \<Rightarrow> (pairs, errors @ [''chain seed '' @ local @ '' links an unknown step'']))"

definition chain_seed_errors ::
  "(string, red_proposal) dict \<Rightarrow> (string, evidence_ref) dict \<Rightarrow> (string, red_gap) dict \<Rightarrow> red_limits \<Rightarrow> chain_seed \<Rightarrow> string list" where
  "chain_seed_errors proposals refs gaps limits seed =
     (let local = sd_local_id seed; held = length (sd_steps seed);
          steps = fold (\<lambda>(i, step). AList.update (ss_local_id step) i) (enumerate 0 (sd_steps seed)) []
      in check_that (int held \<le> rl_max_chain_steps limits)
           (''chain seed '' @ local @ '' has '' @ nat_str held @ '' steps; the limit is '' @ int_str (rl_max_chain_steps limits)) @
         concat (map (\<lambda>step. check_that (case ss_proposal_id step of None \<Rightarrow> True | Some p \<Rightarrow> map_of proposals p \<noteq> None)
                       (''chain seed '' @ local @ '' step names an unknown proposal'')) (sd_steps seed)) @
         snd (fold (scan_link local steps refs) (sd_links seed) ([], [])) @
         concat (map (\<lambda>x. check_that (map_of gaps x \<noteq> None) (''chain seed '' @ local @ '' names unknown gap '' @ x)) (sd_gap_ids seed)))"

subsection \<open>All rules\<close>

definition admission_messages :: "red_result \<Rightarrow> red_invocation \<Rightarrow> red_limits \<Rightarrow> string list" where
  "admission_messages r invocation limits =
     (let proposals = table_of rp_local_id (rr_proposals r); refs = table_of ev_local_id (rr_evidence_refs r);
          gaps = table_of rg_local_id (rr_gaps r)
      in size_errors r limits @ echo_errors r invocation @ unique_errors r @ accounting_errors r invocation @ closure_errors r @
         concat (map (taint_path_errors refs limits) (rr_taint_paths r)) @
         concat (map (chain_seed_errors proposals refs gaps limits) (rr_chain_seeds r)) @
         check_that (\<not> (rr_result_status r = ''partial'' \<and> rr_gaps r = [])) ''a partial result must name at least one gap'')"

definition admission_errors :: "red_result \<Rightarrow> red_invocation \<Rightarrow> red_limits \<Rightarrow> string list" where
  "admission_errors r invocation limits = take MAX_ERRORS (map (take 256) (admission_messages r invocation limits))"

section \<open>Views of an admitted result\<close>

record red_citation =
  rc_local_id :: string
  rc_entity_id :: string
  rc_predicate :: predicate
  rc_kind :: "relation_kind option"
  rc_shard_id :: "string option"
  rc_shard_sha256 :: "string option"
  rc_locator :: evidence_locator
  rc_via :: string

definition RED_RELATION_KINDS :: "(string, relation_kind option) dict" where
  "RED_RELATION_KINDS =
     [(''supports'', Some SUPPORTS), (''qualifies'', Some QUALIFIES), (''contradicts'', Some QUALIFIES), (''nominates'', None)]"

definition red_relation_kind :: "string \<Rightarrow> relation_kind option res" where
  "red_relation_kind relation = (case map_of RED_RELATION_KINDS relation of None \<Rightarrow> Inl KeyError | Some k \<Rightarrow> Inr k)"

text \<open>\<open>{item["local_id"]: item ...}\<close>: a later item replaces an earlier one.\<close>

definition last_table :: "('a \<Rightarrow> string) \<Rightarrow> 'a list \<Rightarrow> (string, 'a) dict" where
  "last_table key items = fold (\<lambda>it. AList.update (key it) it) items []"

definition dict_index :: "('k, 'v) dict \<Rightarrow> 'k \<Rightarrow> 'v res" where
  "dict_index d k = (case map_of d k of None \<Rightarrow> Inl KeyError | Some v \<Rightarrow> Inr v)"

definition red_citation_of :: "(string, evidence_ref) dict \<Rightarrow> string \<times> string \<Rightarrow> red_citation res" where
  "red_citation_of refs entry =
     (let (local, via) = entry
      in rbind (dict_index refs local) (\<lambda>ref.
         rbind (enum_of predicate_members predicate_value (ev_predicate ref)) (\<lambda>predicate.
         rbind (red_relation_kind (ev_relation ref)) (\<lambda>kind.
           Inr \<lparr>rc_local_id = local, rc_entity_id = ev_entity_id ref, rc_predicate = predicate, rc_kind = kind,
                rc_shard_id = ev_shard_id ref, rc_shard_sha256 = ev_shard_sha256 ref, rc_locator = ev_locator ref, rc_via = via\<rparr>))))"

definition observed_citations :: "taint_path \<Rightarrow> string list" where
  "observed_citations path =
     concat (map (\<lambda>edge. if te_basis edge \<in> set OBSERVED_EDGE_BASES then te_evidence_ids edge else []) (tp_edges path))"

text \<open>The first entry of every key.\<close>

definition first_entries :: "('k \<times> 'v) list \<Rightarrow> ('k, 'v) dict" where
  "first_entries kvs = fold (\<lambda>(k, v). dict_setdefault k v) kvs []"

definition proposal_citations :: "red_result \<Rightarrow> red_proposal \<Rightarrow> red_citation list res" where
  "proposal_citations r proposal =
     (let refs = last_table ev_local_id (rr_evidence_refs r); paths = last_table tp_local_id (rr_taint_paths r)
      in rbind (rmap (dict_index paths) (rp_taint_path_ids proposal)) (\<lambda>own.
           let order = map (\<lambda>local. (local, ''proposal'')) (rp_evidence_ids proposal) @
                       map (\<lambda>local. (local, ''counterevidence'')) (rp_counterevidence_ids proposal) @
                       map (\<lambda>local. (local, ''taint_edge'')) (concat (map observed_citations own))
           in rmap (red_citation_of refs) (first_entries order)))"

definition hypothesized_hops :: "red_result \<Rightarrow> red_proposal \<Rightarrow> nat res" where
  "hypothesized_hops r proposal =
     rbind (rmap (dict_index (last_table tp_local_id (rr_taint_paths r))) (rp_taint_path_ids proposal)) (\<lambda>own.
       Inr (sum_list (map (\<lambda>path. length (filter (\<lambda>edge. te_basis edge = HYPOTHESIS_EDGE_BASIS) (tp_edges path))) own)))"

definition cited_entities :: "red_result \<Rightarrow> red_proposal \<Rightarrow> string set res" where
  "cited_entities r proposal =
     (let refs = last_table ev_local_id (rr_evidence_refs r); paths = last_table tp_local_id (rr_taint_paths r)
      in rbind (rmap (dict_index paths) (rp_taint_path_ids proposal)) (\<lambda>own.
           let locals = rp_evidence_ids proposal @ rp_counterevidence_ids proposal @
                        concat (map (\<lambda>path. concat (map te_evidence_ids (tp_edges path))) own);
               entry = (case ae_entity_id (rp_attacker_entry proposal) of Some (c # cs) \<Rightarrow> [c # cs] | _ \<Rightarrow> []);
               on_path = concat (map (\<lambda>path. List.map_filter tn_entity_id (tp_nodes path)) own)
           in Inr (set (rp_affected_entities proposal) \<union> set entry \<union> set (filter (\<lambda>e. e \<noteq> []) on_path) \<union>
                   set (map ev_entity_id (List.map_filter (map_of refs) locals)))))"

definition proposal_requests :: "red_result \<Rightarrow> string \<Rightarrow> evidence_request list" where
  "proposal_requests r proposal_id =
     map (\<lambda>q. \<lparr>erq_predicate = rq_predicate q, erq_requested_kind = rq_requested_kind q, erq_anchors = rq_scope_entity_ids q,
              erq_question = rq_reason q, erq_specialist = rq_specialist q\<rparr>)
       (filter (\<lambda>q. rq_proposal_id q = proposal_id) (rr_evidence_requests r))"

definition narratives :: "red_proposal \<Rightarrow> string list" where
  "narratives p = [rp_statement p, rp_mechanism p, rp_trigger p, rp_suspected_consequence p, ae_control (rp_attacker_entry p)]"

definition lead_outcomes :: "red_result \<Rightarrow> (string, string) dict" where
  "lead_outcomes r = fold (\<lambda>e. AList.update (le_observation_id e) (le_outcome e)) (rr_lead_accounting r) []"

definition summarize_lead :: "string list \<Rightarrow> string" where
  "summarize_lead outcomes =
     (case List.find (\<lambda>outcome. outcome \<in> set outcomes) [''proposal'', ''blocked'', ''no_proposal''] of
        Some outcome \<Rightarrow> outcome
      | None \<Rightarrow> ''unaccounted'')"

section \<open>Search\<close>

definition forward_rel :: "(string, string list) dict \<Rightarrow> (string \<times> string) set" where
  "forward_rel forward = {(a, b). b \<in> set (dict_get_list forward a)}"

lemma leave_visited:
  assumes "(x, goal) \<in> (forward_rel forward)\<^sup>*" "x \<in> V" "goal \<notin> V"
    and "\<forall>v\<in>V. set (dict_get_list forward v) \<subseteq> V \<union> S"
  shows "\<exists>y\<in>S. (y, goal) \<in> (forward_rel forward)\<^sup>*"
  using assms
proof (induction rule: converse_rtrancl_induct)
  case (step x y)
  then have "y \<in> V \<union> S" by (auto simp: forward_rel_def)
  then show ?case using step by blast
qed simp

lemma edges_reach_iff:
  assumes "goal \<notin> set visited" "\<forall>v\<in>set visited. set (dict_get_list forward v) \<subseteq> set visited \<union> set stack"
  shows "edges_reach forward goal stack visited \<longleftrightarrow> (\<exists>x\<in>set stack. (x, goal) \<in> (forward_rel forward)\<^sup>*)"
  using assms
proof (induction forward goal stack visited rule: edges_reach.induct)
  case (2 forward goal node stack visited)
  consider "node = goal" | "node \<noteq> goal" "node \<notin> set visited" | "node \<noteq> goal" "node \<in> set visited" by blast
  then show ?case
  proof cases
    case 2: 2
    have "edges_reach forward goal (rev (dict_get_list forward node) @ stack) (node # visited) \<longleftrightarrow>
          (\<exists>x\<in>set (rev (dict_get_list forward node) @ stack). (x, goal) \<in> (forward_rel forward)\<^sup>*)"
      by (rule "2.IH"(1)) (use 2 "2.prems" in auto)
    moreover have "(node, goal) \<in> (forward_rel forward)\<^sup>* \<longleftrightarrow>
          (\<exists>x\<in>set (dict_get_list forward node). (x, goal) \<in> (forward_rel forward)\<^sup>*)"
      using 2(1) by (auto simp: forward_rel_def elim: converse_rtranclE intro: converse_rtrancl_into_rtrancl)
    ultimately show ?thesis using 2 by auto
  next
    case 3
    have "edges_reach forward goal stack visited \<longleftrightarrow> (\<exists>x\<in>set stack. (x, goal) \<in> (forward_rel forward)\<^sup>*)"
      by (rule "2.IH"(2)) (use 3 "2.prems" in auto)
    moreover have "(node, goal) \<in> (forward_rel forward)\<^sup>* \<Longrightarrow> \<exists>x\<in>set stack. (x, goal) \<in> (forward_rel forward)\<^sup>*"
      using leave_visited [of node goal forward "set visited" "set stack"] 3 "2.prems" by auto
    ultimately show ?thesis using 3 by auto
  qed auto
qed simp

lemma search_exact: "edges_reach forward goal [start] [] \<longleftrightarrow> (start, goal) \<in> (forward_rel forward)\<^sup>*"
  by (subst edges_reach_iff) auto

declare edges_reach.simps [simp del]

section \<open>Tables\<close>

lemma check_that_Nil [simp]: "check_that ok m = [] \<longleftrightarrow> ok"
  by (simp add: check_that_def)

lemma repeated_ids_Nil: "repeated_ids seen xs = [] \<longleftrightarrow> distinct xs \<and> set xs \<inter> set seen = {}"
  by (induction xs arbitrary: seen) auto

lemma table_of_distinct:
  assumes "distinct (map key items)"
  shows "table_of key items = map (\<lambda>x. (key x, x)) items"
proof -
  have "distinct (map fst d @ map key items) \<Longrightarrow>
        fold (\<lambda>it. dict_setdefault (key it) it) items d = d @ map (\<lambda>x. (key x, x)) items" for d
  proof (induction items arbitrary: d)
    case (Cons x items)
    then have new: "map_of d (key x) = None" by (simp add: map_of_eq_None_iff)
    have "distinct (map fst (d @ [(key x, x)]) @ map key items)" using Cons.prems by auto
    from Cons.IH [OF this] show ?case using new by (simp add: dict_setdefault_def update_new)
  qed simp
  then show ?thesis using assms by (simp add: table_of_def)
qed

lemma map_of_keyed: "distinct (map key items) \<Longrightarrow> map_of (map (\<lambda>x. (key x, x)) items) k = Some x \<longleftrightarrow> x \<in> set items \<and> key x = k"
  by (subst map_of_eq_Some_iff) (auto simp: comp_def)

lemma table_of_lookup: "distinct (map key items) \<Longrightarrow> map_of (table_of key items) k = Some x \<longleftrightarrow> x \<in> set items \<and> key x = k"
  by (simp add: table_of_distinct map_of_keyed)

lemma table_of_None: "distinct (map key items) \<Longrightarrow> map_of (table_of key items) k = None \<longleftrightarrow> k \<notin> key ` set items"
  by (force simp: table_of_distinct map_of_eq_None_iff)

lemma last_table_lookup:
  assumes "distinct (map key items)"
  shows "map_of (last_table key items) k = Some x \<longleftrightarrow> x \<in> set items \<and> key x = k"
proof -
  have "distinct (map key items) \<Longrightarrow> map_of (fold (\<lambda>it. AList.update (key it) it) items d) k =
        (case map_of (map (\<lambda>x. (key x, x)) items) k of None \<Rightarrow> map_of d k | Some x \<Rightarrow> Some x)" for d
    by (induction items arbitrary: d) (force split: option.split dest: map_of_SomeD)+
  from this [OF assms, of "[]"] have "map_of (last_table key items) k = map_of (map (\<lambda>x. (key x, x)) items) k"
    by (simp add: last_table_def split: option.split)
  then show ?thesis using map_of_keyed [OF assms] by simp
qed

section \<open>Admitted results\<close>

lemma admission_iff: "admission_errors r invocation limits = [] \<longleftrightarrow> admission_messages r invocation limits = []"
  by (simp add: admission_errors_def MAX_ERRORS_def)

lemma admittedD:
  assumes "admission_errors r invocation limits = []"
  shows "unique_errors r = []" "accounting_errors r invocation = []" "closure_errors r = []"
    "path \<in> set (rr_taint_paths r) \<Longrightarrow> taint_path_errors (table_of ev_local_id (rr_evidence_refs r)) limits path = []"
    "distinct (result_ids r)"
proof -
  have "admission_messages r invocation limits = []" using assms by (simp add: admission_iff)
  then show "unique_errors r = []" "accounting_errors r invocation = []" "closure_errors r = []"
    "path \<in> set (rr_taint_paths r) \<Longrightarrow> taint_path_errors (table_of ev_local_id (rr_evidence_refs r)) limits path = []"
    by (simp_all add: admission_messages_def Let_def)
  then show "distinct (result_ids r)" by (simp add: unique_errors_def repeated_ids_Nil)
qed

lemma admitted_distinct:
  assumes "admission_errors r invocation limits = []"
  shows "distinct (map rp_local_id (rr_proposals r))" "distinct (map ev_local_id (rr_evidence_refs r))"
    "distinct (map tp_local_id (rr_taint_paths r))" "distinct (map rg_local_id (rr_gaps r))"
    "distinct (map ro_local_id (rr_proof_obligations r))"
  using admittedD(5) [OF assms] by (simp_all add: result_ids_def)

subsection \<open>Leads\<close>

lemma lead_entry_admitted:
  assumes "lead_entry_errors (table_of rp_local_id ps) (table_of rg_local_id gs) entry = []"
    and "distinct (map rp_local_id ps)" "distinct (map rg_local_id gs)"
  shows "le_outcome entry = ''proposal'' \<longleftrightarrow> le_proposal_ids entry \<noteq> []"
    "le_outcome entry = ''blocked'' \<Longrightarrow> le_gap_ids entry \<noteq> []"
    "x \<in> set (le_proposal_ids entry) \<Longrightarrow> \<exists>p\<in>set ps. rp_local_id p = x \<and> le_observation_id entry \<in> set (rp_source_lead_ids p)"
    "x \<in> set (le_gap_ids entry) \<Longrightarrow> x \<in> rg_local_id ` set gs"
proof -
  have parts: "\<not> (le_outcome entry = ''proposal'' \<and> le_proposal_ids entry = [])"
    "\<not> (le_outcome entry \<noteq> ''proposal'' \<and> le_proposal_ids entry \<noteq> [])"
    "\<not> (le_outcome entry = ''blocked'' \<and> le_gap_ids entry = [])"
    "\<forall>x\<in>set (le_proposal_ids entry). \<exists>p. map_of (table_of rp_local_id ps) x = Some p \<and> le_observation_id entry \<in> set (rp_source_lead_ids p)"
    "\<forall>x\<in>set (le_gap_ids entry). map_of (table_of rg_local_id gs) x \<noteq> None"
    using assms(1) by (auto simp: lead_entry_errors_def Let_def split: option.splits)
  show "le_outcome entry = ''proposal'' \<longleftrightarrow> le_proposal_ids entry \<noteq> []" using parts(1,2) by blast
  show "le_outcome entry = ''blocked'' \<Longrightarrow> le_gap_ids entry \<noteq> []" using parts(3) by blast
  show "x \<in> set (le_proposal_ids entry) \<Longrightarrow> \<exists>p\<in>set ps. rp_local_id p = x \<and> le_observation_id entry \<in> set (rp_source_lead_ids p)"
    using parts(4) by (auto simp: table_of_lookup [OF assms(2)])
  show "x \<in> set (le_gap_ids entry) \<Longrightarrow> x \<in> rg_local_id ` set gs"
    using parts(5) table_of_None [OF assms(3), of x] by blast
qed

lemma proposal_lead_admitted:
  assumes "proposal_lead_errors invocation by_lead (local, p) = []" "lead \<in> set (rp_source_lead_ids p)"
  shows "lead \<in> set (ri_lead_ids invocation)" "map_of by_lead lead = Some e \<Longrightarrow> local \<in> set (le_proposal_ids e)"
proof -
  have ok: "(if lead \<notin> set (ri_lead_ids invocation) then [''proposal '' @ local @ '' names a source lead outside the package'']
         else case map_of by_lead lead of
           None \<Rightarrow> []
         | Some e \<Rightarrow> check_that (local \<in> set (le_proposal_ids e))
             (''proposal '' @ local @ '' is missing from its source lead's accounting entry'')) = []"
    using assms unfolding proposal_lead_errors_def Let_def prod.case append_is_Nil_conv concat_eq_Nil_conv set_map ball_simps by blast
  show "lead \<in> set (ri_lead_ids invocation)" using ok by (simp split: if_splits)
  show "map_of by_lead lead = Some e \<Longrightarrow> local \<in> set (le_proposal_ids e)" using ok by (simp split: if_splits)
qed

text \<open>
  C36. Admission settles every lead of the package exactly once. In an admitted result the accounting entries name
  the package's leads, each once; an entry's outcome is \<open>proposal\<close> exactly when it names proposals; a blocked lead
  names a gap of the result; every proposal develops leads of the package only; and an entry names a proposal if
  and only if the proposal names the entry's lead as its source.
\<close>

theorem admitted_leads_accounted:
  assumes "admission_errors r invocation limits = []"
  shows "distinct (map le_observation_id (rr_lead_accounting r)) \<and>
    set (map le_observation_id (rr_lead_accounting r)) = set (ri_lead_ids invocation) \<and>
    (\<forall>p\<in>set (rr_proposals r). set (rp_source_lead_ids p) \<subseteq> set (ri_lead_ids invocation)) \<and>
    (\<forall>entry\<in>set (rr_lead_accounting r).
       (le_outcome entry = ''proposal'' \<longleftrightarrow> le_proposal_ids entry \<noteq> []) \<and>
       (le_outcome entry = ''blocked'' \<longrightarrow> (\<exists>g\<in>set (rr_gaps r). rg_local_id g \<in> set (le_gap_ids entry))) \<and>
       (\<forall>p\<in>set (rr_proposals r).
          rp_local_id p \<in> set (le_proposal_ids entry) \<longleftrightarrow> le_observation_id entry \<in> set (rp_source_lead_ids p)))"
proof -
  note ids = admitted_distinct [OF assms]
  let ?ps = "table_of rp_local_id (rr_proposals r)" and ?gs = "table_of rg_local_id (rr_gaps r)"
  let ?by = "last_table le_observation_id (rr_lead_accounting r)"
  have acc: "distinct (map le_observation_id (rr_lead_accounting r))"
    and missing: "\<forall>l\<in>set (ri_lead_ids invocation). l \<in> set (map le_observation_id (rr_lead_accounting r))"
    and extra: "\<forall>l\<in>set (map le_observation_id (rr_lead_accounting r)). l \<in> set (ri_lead_ids invocation)"
    and entries: "\<forall>e\<in>set (rr_lead_accounting r). lead_entry_errors ?ps ?gs e = []"
    and proposals: "\<forall>e\<in>set ?ps. proposal_lead_errors invocation ?by e = []"
    using admittedD(2) [OF assms] by (simp_all add: accounting_errors_def last_table_def Let_def filter_empty_conv)
  have proposals': "proposal_lead_errors invocation ?by (rp_local_id p, p) = []" if "p \<in> set (rr_proposals r)" for p
    using proposals that by (simp add: table_of_distinct [OF ids(1)])
  have listed: "rp_local_id p \<in> set (le_proposal_ids e)"
    if "p \<in> set (rr_proposals r)" "e \<in> set (rr_lead_accounting r)" "le_observation_id e \<in> set (rp_source_lead_ids p)" for p e
    using proposal_lead_admitted(2) [OF proposals' [OF that(1)] that(3)] that(2) last_table_lookup [OF acc] by blast
  have forth: "le_observation_id e \<in> set (rp_source_lead_ids p)"
    if "p \<in> set (rr_proposals r)" "e \<in> set (rr_lead_accounting r)" "rp_local_id p \<in> set (le_proposal_ids e)" for p e
    using lead_entry_admitted(3) [OF entries [rule_format, OF that(2)] ids(1,4) that(3)] that(1) ids(1)
    by (auto simp: distinct_map dest: inj_onD)
  have gap: "\<exists>g\<in>set (rr_gaps r). rg_local_id g \<in> set (le_gap_ids e)"
    if "e \<in> set (rr_lead_accounting r)" "le_outcome e = ''blocked''" for e
    using lead_entry_admitted(2,4) [OF entries [rule_format, OF that(1)] ids(1,4)] that(2) list.set_sel(1) by fastforce
  show ?thesis
    using acc missing extra listed forth gap proposal_lead_admitted(1) [OF proposals']
      lead_entry_admitted(1) [OF entries [rule_format] ids(1,4)]
    by (intro conjI ballI impI) (blast | fastforce)+
qed

subsection \<open>Taint paths\<close>

definition edge_ok :: "(string, nat \<times> taint_node) dict \<Rightarrow> (string, evidence_ref) dict \<Rightarrow> taint_edge \<Rightarrow> bool" where
  "edge_ok nodes refs e =
     ((case (map_of nodes (te_from_node e), map_of nodes (te_to_node e)) of (Some (i, _), Some (j, _)) \<Rightarrow> i < j | _ \<Rightarrow> False) \<and>
      (\<forall>x\<in>set (te_evidence_ids e). map_of refs x \<noteq> None) \<and>
      (te_basis e \<in> set OBSERVED_EDGE_BASES \<longrightarrow> te_evidence_ids e \<noteq> []))"

lemma scan_edge_ok:
  assumes "es_errors (scan_edge local nodes refs e s) = []"
  shows "es_errors s = []" "edge_ok nodes refs e"
    "forward_rel (es_forward (scan_edge local nodes refs e s)) = insert (te_from_node e, te_to_node e) (forward_rel (es_forward s))"
proof -
  obtain i m j n where nodes: "map_of nodes (te_from_node e) = Some (i, m)" "map_of nodes (te_to_node e) = Some (j, n)"
    using assms by (cases "map_of nodes (te_from_node e)"; cases "map_of nodes (te_to_node e)")
      (auto simp: scan_edge_def Let_def)
  show "es_errors s = []" "edge_ok nodes refs e"
    using assms by (simp_all add: scan_edge_def nodes edge_ok_def Let_def)
  show "forward_rel (es_forward (scan_edge local nodes refs e s)) = insert (te_from_node e, te_to_node e) (forward_rel (es_forward s))"
    by (auto simp: scan_edge_def nodes forward_rel_def dict_get_update Let_def split: if_splits)
qed

lemma scan_edges_ok:
  "es_errors (fold (scan_edge local nodes refs) edges s) = [] \<Longrightarrow>
   es_errors s = [] \<and> (\<forall>e\<in>set edges. edge_ok nodes refs e) \<and>
   forward_rel (es_forward (fold (scan_edge local nodes refs) edges s)) =
     forward_rel (es_forward s) \<union> (\<lambda>e. (te_from_node e, te_to_node e)) ` set edges"
proof (induction edges arbitrary: s)
  case (Cons e edges)
  have ih: "es_errors (scan_edge local nodes refs e s) = []" "\<forall>e\<in>set edges. edge_ok nodes refs e"
    "forward_rel (es_forward (fold (scan_edge local nodes refs) edges (scan_edge local nodes refs e s))) =
       forward_rel (es_forward (scan_edge local nodes refs e s)) \<union> (\<lambda>e. (te_from_node e, te_to_node e)) ` set edges"
    using Cons.IH [of "scan_edge local nodes refs e s"] Cons.prems by simp_all
  then show ?case using scan_edge_ok [OF ih(1)] by simp
qed simp

text \<open>An observed hop of a path with a citation, every citation an evidence reference of the result.\<close>

definition observed_hop :: "red_result \<Rightarrow> taint_path \<Rightarrow> (string \<times> string) set" where
  "observed_hop r path =
     {(a, b). \<exists>e\<in>set (tp_edges path). te_from_node e = a \<and> te_to_node e = b \<and> te_basis e \<in> set OBSERVED_EDGE_BASES \<and>
        te_evidence_ids e \<noteq> [] \<and> set (te_evidence_ids e) \<subseteq> ev_local_id ` set (rr_evidence_refs r)}"

text \<open>
  C37. A taint path that an admitted result calls reported leads from its source to its sink over observed hops
  alone: there is a non-empty sequence of edges of the path, each with a tool or source-analysis basis and at least
  one citation of evidence the result holds. The search of the admission rule finds such a sequence exactly when
  one exists.
\<close>

theorem reported_path_observed:
  assumes admitted: "admission_errors r invocation limits = []"
    and path: "path \<in> set (rr_taint_paths r)" "tp_basis path = ''reported''"
    and bases: "\<forall>e\<in>set (tp_edges path). te_basis e \<in> set OBSERVED_EDGE_BASES \<union> {HYPOTHESIS_EDGE_BASIS}"
  shows "(tp_source_node path, tp_sink_node path) \<in> (observed_hop r path)\<^sup>+"
proof -
  let ?refs = "table_of ev_local_id (rr_evidence_refs r)" and ?nodes = "node_index path"
  let ?scan = "fold (scan_edge (tp_local_id path) ?nodes ?refs) (tp_edges path) \<lparr>es_pairs = [], es_forward = [], es_errors = []\<rparr>"
  have ends: "node_has_role ?nodes (tp_source_node path) ''source''" "node_has_role ?nodes (tp_sink_node path) ''sink''"
    and scan: "es_errors ?scan = []" and observed: "\<forall>e\<in>set (tp_edges path). te_basis e \<noteq> HYPOTHESIS_EDGE_BASIS"
    and reach: "map_of ?nodes (tp_source_node path) \<noteq> None \<and> map_of ?nodes (tp_sink_node path) \<noteq> None \<longrightarrow>
                edges_reach (es_forward ?scan) (tp_sink_node path) [tp_source_node path] []"
    using admittedD(4) [OF admitted path(1)] path(2) by (simp_all add: taint_path_errors_def Let_def) blast
  have "forward_rel (es_forward ?scan) \<subseteq> observed_hop r path"
  proof -
    have "set (te_evidence_ids e) \<subseteq> ev_local_id ` set (rr_evidence_refs r) \<and> te_evidence_ids e \<noteq> [] \<and> te_basis e \<in> set OBSERVED_EDGE_BASES"
      if "e \<in> set (tp_edges path)" for e
      using scan_edges_ok [OF scan] that bases observed table_of_None [OF admitted_distinct(2) [OF admitted]]
      by (auto simp: edge_ok_def)
    then show ?thesis using scan_edges_ok [OF scan] by (auto simp: observed_hop_def forward_rel_def dict_get_list_def)
  qed
  moreover have "edges_reach (es_forward ?scan) (tp_sink_node path) [tp_source_node path] []"
    using reach ends by (auto simp: node_has_role_def split: option.splits)
  ultimately have "(tp_source_node path, tp_sink_node path) \<in> (observed_hop r path)\<^sup>*"
    using search_exact rtrancl_mono by blast
  moreover have "tp_source_node path \<noteq> tp_sink_node path"
    using ends by (auto simp: node_has_role_def split: option.splits)
  ultimately show ?thesis by (metis rtranclD)
qed

subsection \<open>Views\<close>

definition schema_ref :: "evidence_ref \<Rightarrow> bool" where
  "schema_ref ref = (ev_relation ref \<in> set (map fst RED_RELATION_KINDS) \<and> ev_predicate ref \<in> predicate_value ` set predicate_members)"

lemma refs_exist_admitted:
  assumes "refs_exist (table_of ev_local_id refs) owner locals allowed = []" "distinct (map ev_local_id refs)" "x \<in> set locals"
  shows "\<exists>ref\<in>set refs. ev_local_id ref = x \<and> (\<forall>rs. allowed = Some rs \<longrightarrow> ev_relation ref \<in> set rs)"
proof (cases "map_of (table_of ev_local_id refs) x")
  case None
  then show ?thesis using assms(1,3) by (force simp: refs_exist_def)
next
  case (Some ref)
  then have "case allowed of None \<Rightarrow> True | Some rs \<Rightarrow> ev_relation ref \<in> set rs"
    using assms(1,3) by (force simp: refs_exist_def)
  then show ?thesis using Some table_of_lookup [OF assms(2)] by auto
qed

lemma first_entries_keys:
  "distinct (map fst (first_entries kvs))" "set (map fst (first_entries kvs)) = set (map fst kvs)" "set (first_entries kvs) \<subseteq> set kvs"
proof -
  let ?run = "\<lambda>d. fold (\<lambda>(k, v). dict_setdefault k v) kvs d"
  have "distinct (map fst d) \<Longrightarrow> distinct (map fst (?run d))" "set (map fst (?run d)) = set (map fst d) \<union> set (map fst kvs)"
    "set (?run d) \<subseteq> set d \<union> set kvs" for d
  proof (induction kvs arbitrary: d)
    case (Cons kv kvs)
    note step = setdefault_entries(1) [of "fst kv" "snd kv"] setdefault_entries(2) [of _ "fst kv" "snd kv"]
      setdefault_keys [of "fst kv" "snd kv"]
    { case 1
      then show ?case using Cons.IH(1) [OF step(2)] by (simp add: split_beta) }
    { case 2
      then show ?case using Cons.IH(2) step(3) by (simp add: split_beta del: set_map) }
    { case 3
      then show ?case using Cons.IH(3) [of "dict_setdefault (fst kv) (snd kv) d"] step(1) [of d] by (auto simp: split_beta) }
  qed simp_all
  from this [of "[]"] show "distinct (map fst (first_entries kvs))" "set (map fst (first_entries kvs)) = set (map fst kvs)"
    "set (first_entries kvs) \<subseteq> set kvs"
    by (simp_all add: first_entries_def)
qed

definition own_paths :: "red_result \<Rightarrow> red_proposal \<Rightarrow> taint_path list" where
  "own_paths r p = map (\<lambda>x. the (map_of (last_table tp_local_id (rr_taint_paths r)) x)) (rp_taint_path_ids p)"

lemma proposal_closed:
  assumes admitted: "admission_errors r invocation limits = []" and p: "p \<in> set (rr_proposals r)"
  shows "x \<in> set (rp_evidence_ids p) \<Longrightarrow> \<exists>ref\<in>set (rr_evidence_refs r). ev_local_id ref = x"
    "x \<in> set (rp_counterevidence_ids p) \<Longrightarrow> \<exists>ref\<in>set (rr_evidence_refs r). ev_local_id ref = x"
    "x \<in> set (rp_taint_path_ids p) \<Longrightarrow> \<exists>path\<in>set (rr_taint_paths r). tp_local_id path = x \<and> tp_proposal_id path = rp_local_id p"
proof -
  note ids = admitted_distinct [OF admitted]
  have closed: "proposal_closure_errors (table_of ev_local_id (rr_evidence_refs r)) (table_of ro_local_id (rr_proof_obligations r))
          (table_of tp_local_id (rr_taint_paths r)) (rp_local_id p, p) = []"
    using admittedD(3) [OF admitted] p by (simp add: closure_errors_def table_of_distinct [OF ids(1)] Let_def)
  show "x \<in> set (rp_evidence_ids p) \<Longrightarrow> \<exists>ref\<in>set (rr_evidence_refs r). ev_local_id ref = x"
    "x \<in> set (rp_counterevidence_ids p) \<Longrightarrow> \<exists>ref\<in>set (rr_evidence_refs r). ev_local_id ref = x"
    using closed refs_exist_admitted [OF _ ids(2)] by (simp_all add: proposal_closure_errors_def) blast+
  show "x \<in> set (rp_taint_path_ids p) \<Longrightarrow> \<exists>path\<in>set (rr_taint_paths r). tp_local_id path = x \<and> tp_proposal_id path = rp_local_id p"
    using closed by (force simp: proposal_closure_errors_def table_of_lookup [OF ids(3)])
qed

lemma own_paths_found:
  assumes "admission_errors r invocation limits = []" "p \<in> set (rr_proposals r)"
  shows "rmap (dict_index (last_table tp_local_id (rr_taint_paths r))) (rp_taint_path_ids p) = Inr (own_paths r p)"
    "set (own_paths r p) \<subseteq> set (rr_taint_paths r)"
proof -
  have "\<exists>path\<in>set (rr_taint_paths r). map_of (last_table tp_local_id (rr_taint_paths r)) x = Some path"
    if "x \<in> set (rp_taint_path_ids p)" for x
    using proposal_closed(3) [OF assms that] last_table_lookup [OF admitted_distinct(3) [OF assms(1)]] by blast
  then show "rmap (dict_index (last_table tp_local_id (rr_taint_paths r))) (rp_taint_path_ids p) = Inr (own_paths r p)"
    "set (own_paths r p) \<subseteq> set (rr_taint_paths r)"
    unfolding own_paths_def by (force intro!: rmap_pure simp: dict_index_def)+
qed

lemma path_citations_exist:
  assumes admitted: "admission_errors r invocation limits = []" and path: "path \<in> set (rr_taint_paths r)"
    and x: "e \<in> set (tp_edges path)" "x \<in> set (te_evidence_ids e)"
  shows "\<exists>ref\<in>set (rr_evidence_refs r). ev_local_id ref = x"
proof -
  have "es_errors (fold (scan_edge (tp_local_id path) (node_index path) (table_of ev_local_id (rr_evidence_refs r))) (tp_edges path)
          \<lparr>es_pairs = [], es_forward = [], es_errors = []\<rparr>) = []"
    using admittedD(4) [OF admitted path] by (simp add: taint_path_errors_def Let_def)
  then have "map_of (table_of ev_local_id (rr_evidence_refs r)) x \<noteq> None"
    using scan_edges_ok x unfolding edge_ok_def by blast
  then show ?thesis using table_of_None [OF admitted_distinct(2) [OF admitted]] by auto
qed

lemma red_citation_found:
  assumes "admission_errors r invocation limits = []" "\<forall>ref\<in>set (rr_evidence_refs r). schema_ref ref"
    and "ref \<in> set (rr_evidence_refs r)"
  shows "\<exists>c. red_citation_of (last_table ev_local_id (rr_evidence_refs r)) (ev_local_id ref, via) = Inr c \<and>
             rc_local_id c = ev_local_id ref \<and> rc_entity_id c = ev_entity_id ref \<and> rc_via c = via \<and>
             rc_kind c \<in> {None, Some SUPPORTS, Some QUALIFIES}"
proof -
  have found: "map_of (last_table ev_local_id (rr_evidence_refs r)) (ev_local_id ref) = Some ref"
    using last_table_lookup [OF admitted_distinct(2) [OF assms(1)]] assms(3) by blast
  have "schema_ref ref" using assms(2,3) by blast
  then obtain q where q: "ev_predicate ref = predicate_value q" and kind: "ev_relation ref \<in> set (map fst RED_RELATION_KINDS)"
    by (auto simp: schema_ref_def)
  obtain k where "red_relation_kind (ev_relation ref) = Inr k" "k \<in> {None, Some SUPPORTS, Some QUALIFIES}"
    using kind by (auto simp: red_relation_kind_def RED_RELATION_KINDS_def)
  then show ?thesis by (simp add: red_citation_of_def dict_index_def found q predicate_enum.of_val)
qed

text \<open>
  C38. Normalization's view of an admitted result is total and closed. For every proposal of an admitted result the
  citations are defined, one for each distinct reference the proposal cites as evidence or counterevidence or
  through an observed hop of its own taint paths and no other; each names the entity of an evidence reference of
  the result, and none carries more than support or qualification: red cannot author a contradiction.
\<close>

theorem admitted_citations_total:
  assumes admitted: "admission_errors r invocation limits = []" and p: "p \<in> set (rr_proposals r)"
    and schema: "\<forall>ref\<in>set (rr_evidence_refs r). schema_ref ref"
  shows "\<exists>cs. proposal_citations r p = Inr cs \<and> distinct (map rc_local_id cs) \<and>
    set (map rc_local_id cs) = set (rp_evidence_ids p) \<union> set (rp_counterevidence_ids p) \<union>
      (\<Union>path\<in>set (own_paths r p). set (observed_citations path)) \<and>
    (\<forall>c\<in>set cs. rc_kind c \<in> {None, Some SUPPORTS, Some QUALIFIES} \<and>
       (\<exists>ref\<in>set (rr_evidence_refs r). ev_local_id ref = rc_local_id c \<and> ev_entity_id ref = rc_entity_id c))"
proof -
  define refs where "refs = last_table ev_local_id (rr_evidence_refs r)"
  define order where "order = map (\<lambda>local. (local, ''proposal'')) (rp_evidence_ids p) @
    map (\<lambda>local. (local, ''counterevidence'')) (rp_counterevidence_ids p) @
    map (\<lambda>local. (local, ''taint_edge'')) (concat (map observed_citations (own_paths r p)))"
  have keys: "set (map fst order) = set (rp_evidence_ids p) \<union> set (rp_counterevidence_ids p) \<union>
      (\<Union>path\<in>set (own_paths r p). set (observed_citations path))"
    by (auto simp: order_def image_Un image_UN)
  have observed: "\<exists>ref\<in>set (rr_evidence_refs r). ev_local_id ref = x"
    if "path \<in> set (own_paths r p)" "x \<in> set (observed_citations path)" for path x
    using path_citations_exist [OF admitted] own_paths_found(2) [OF admitted p] that
    by (auto simp: observed_citations_def split: if_splits)
  have exist: "\<exists>ref\<in>set (rr_evidence_refs r). ev_local_id ref = x" if "x \<in> set (map fst order)" for x
    using that proposal_closed(1,2) [OF admitted p] observed unfolding keys by blast
  define cite where "cite = (\<lambda>kv. case red_citation_of refs kv of Inr c \<Rightarrow> c | Inl _ \<Rightarrow> undefined)"
  have each: "red_citation_of refs kv = Inr (cite kv) \<and> rc_local_id (cite kv) = fst kv \<and>
      rc_kind (cite kv) \<in> {None, Some SUPPORTS, Some QUALIFIES} \<and>
      (\<exists>ref\<in>set (rr_evidence_refs r). ev_local_id ref = rc_local_id (cite kv) \<and> ev_entity_id ref = rc_entity_id (cite kv))"
    if "kv \<in> set (first_entries order)" for kv
  proof -
    have "fst kv \<in> set (map fst order)" using that first_entries_keys(3) by fastforce
    then obtain ref where "ref \<in> set (rr_evidence_refs r)" "ev_local_id ref = fst kv" using exist by blast
    then show ?thesis
      using red_citation_found [OF admitted schema, of ref "snd kv"] by (auto simp: cite_def refs_def)
  qed
  let ?cs = "map cite (first_entries order)"
  have result: "proposal_citations r p = Inr ?cs"
    using each own_paths_found(1) [OF admitted p]
    by (simp add: proposal_citations_def refs_def order_def Let_def rmap_pure)
  have locals: "map rc_local_id ?cs = map fst (first_entries order)"
    using each by simp
  have closed: "\<forall>c\<in>set ?cs. rc_kind c \<in> {None, Some SUPPORTS, Some QUALIFIES} \<and>
       (\<exists>ref\<in>set (rr_evidence_refs r). ev_local_id ref = rc_local_id c \<and> ev_entity_id ref = rc_entity_id c)"
  proof
    fix c
    assume "c \<in> set ?cs"
    then obtain kv where kv: "kv \<in> set (first_entries order)" "c = cite kv" unfolding set_map by (elim imageE)
    from each [OF kv(1)] show "rc_kind c \<in> {None, Some SUPPORTS, Some QUALIFIES} \<and>
       (\<exists>ref\<in>set (rr_evidence_refs r). ev_local_id ref = rc_local_id c \<and> ev_entity_id ref = rc_entity_id c)"
      unfolding kv(2) by (elim conjE, intro conjI)
  qed
  show ?thesis
  proof (intro exI conjI)
    show "distinct (map rc_local_id ?cs)" unfolding locals by (rule first_entries_keys(1))
    show "set (map rc_local_id ?cs) = set (rp_evidence_ids p) \<union> set (rp_counterevidence_ids p) \<union>
        (\<Union>path\<in>set (own_paths r p). set (observed_citations path))"
      unfolding locals first_entries_keys(2) by (rule keys)
  qed (fact result closed)+
qed

section \<open>A concrete result\<close>

lemma json_bytes_jobj:
  assumes "distinct (map fst kvs)"
  shows "json_bytes (jobj kvs) = 2 + sum_list (map (\<lambda>kv. string_bytes (fst kv) + 1 + json_bytes (snd kv)) kvs) + (length kvs - 1)"
proof -
  have "(\<Sum>k\<in>set (map fst kvs). string_bytes k + 1 + the (fmlookup (fmmap json_bytes (fmap_of_list kvs)) k)) =
        sum_list (map (\<lambda>k. string_bytes k + 1 + the (fmlookup (fmmap json_bytes (fmap_of_list kvs)) k)) (map fst kvs))"
    using assms by (rule sum_list_distinct_conv_sum_set [symmetric])
  also have "\<dots> = sum_list (map (\<lambda>kv. string_bytes (fst kv) + 1 + json_bytes (snd kv)) kvs)"
    unfolding map_map by (rule arg_cong [where f = sum_list], rule map_cong) (use assms in \<open>auto simp: fmlookup_of_list\<close>)
  finally show ?thesis
    using distinct_card [OF assms] by (simp add: fmdom_fmap_of_list fset_of_list.rep_eq fcard.rep_eq)
qed

lemma longest_text_jobj:
  assumes "distinct (map fst kvs)"
  shows "longest_text (jobj kvs) \<le> n \<longleftrightarrow> (\<forall>kv\<in>set kvs. longest_text (snd kv) \<le> n)"
proof -
  have "(\<lambda>k. the (fmlookup (fmmap longest_text (fmap_of_list kvs)) k)) ` fset (fmdom (fmap_of_list kvs)) = longest_text ` snd ` set kvs"
    using assms by (force simp: fmdom_fmap_of_list fset_of_list.rep_eq fmlookup_of_list)
  then show ?thesis by (simp add: image_comp)
qed

definition example_result :: red_result where
  "example_result =
     \<lparr>rr_schema = ''appsec-review/red-discovery-result/1'', rr_basis_sha256 = ''b'', rr_role = ''red_team_analyst'', rr_round_id = ''1'',
      rr_result_status = ''completed'',
      rr_lead_accounting = [\<lparr>le_observation_id = ''lead'', le_outcome = ''proposal'', le_proposal_ids = [''c1''], le_gap_ids = [], le_reason = ''r''\<rparr>],
      rr_proposals = [\<lparr>rp_local_id = ''c1'', rp_source_lead_ids = [''lead''], rp_affected_entities = [''x''], rp_statement = ''s'',
        rp_mechanism = ''m'', rp_weakness = None, rp_security_predicate = ''injection'',
        rp_attacker_entry = \<lparr>ae_entity_id = None, ae_control = ''c'', ae_preconditions = []\<rparr>, rp_trigger = ''t'',
        rp_suspected_consequence = ''q'', rp_assumptions = [], rp_evidence_ids = [], rp_counterevidence_ids = [],
        rp_obligation_ids = [], rp_taint_path_ids = [''p1''], rp_poc_basis = None\<rparr>],
      rr_proof_obligations = [],
      rr_taint_paths = [\<lparr>tp_local_id = ''p1'', tp_proposal_id = ''c1'', tp_source_node = ''a'', tp_sink_node = ''b'', tp_basis = ''reported'',
        tp_nodes = [\<lparr>tn_local_id = ''a'', tn_role = ''source'', tn_entity_id = None, tn_description = ''d'', tn_guard_effect = None\<rparr>,
                    \<lparr>tn_local_id = ''b'', tn_role = ''sink'', tn_entity_id = None, tn_description = ''d'', tn_guard_effect = None\<rparr>],
        tp_edges = [\<lparr>te_from_node = ''a'', te_to_node = ''b'', te_kind = ''data'', te_basis = ''accepted_tool_path'',
                     te_evidence_ids = [''e1''], te_open_question = None\<rparr>], tp_gap_ids = []\<rparr>],
      rr_chain_seeds = [],
      rr_evidence_refs = [\<lparr>ev_local_id = ''e1'', ev_entity_id = ''x'', ev_shard_id = None, ev_shard_sha256 = None, ev_relation = ''supports'',
        ev_predicate = ''source_to_sink_reachability'', ev_locator = Unresolved_locator ''r''\<rparr>],
      rr_evidence_requests = [], rr_gaps = []\<rparr>"

definition example_invocation :: red_invocation where
  "example_invocation = \<lparr>ri_role = RED_TEAM_ANALYST, ri_round = 1, ri_basis_sha256 = ''b'', ri_lead_ids = [''lead'']\<rparr>"

lemmas red_docs =
  red_doc_def lead_entry_doc_def red_proposal_doc_def taint_path_doc_def taint_node_doc_def taint_edge_doc_def evidence_ref_doc_def
  jstr_list_def optional_def opt_json_def

lemma example_size: "json_bytes (red_doc example_result) \<le> 65536" "longest_text (red_doc example_result) \<le> 2000"
  by (simp_all add: example_result_def red_docs json_bytes_jobj longest_text_jobj string_bytes_def char_bytes_def
        del: json_bytes.simps(6) longest_text.simps(6) fmap_of_list_simps)

lemma int_str_one: "int_str 1 = ''1''"
  by (simp add: int_str_def nat_str.simps char_of_def bit_0)

lemma example_admitted: "admission_errors example_result example_invocation default_limits = []"
  unfolding admission_iff admission_messages_def size_errors_def Let_def
  using example_size
  by (simp add: example_result_def example_invocation_def default_limits_def echo_errors_def unique_errors_def result_ids_def
        accounting_errors_def lead_entry_errors_def proposal_lead_errors_def closure_errors_def proposal_closure_errors_def
        obligation_closure_errors_def path_closure_errors_def refs_exist_def taint_path_errors_def node_index_def scan_edge_def
        node_has_role_def table_of_def dict_setdefault_def edges_reach.simps dict_get_list_def append_new_def
        OBSERVED_EDGE_BASES_def HYPOTHESIS_EDGE_BASIS_def int_str_one Let_def)

lemma example_facts:
  "tp_basis (hd (rr_taint_paths example_result)) = ''reported''"
  "hd (rr_taint_paths example_result) \<in> set (rr_taint_paths example_result)"
  "hd (rr_proposals example_result) \<in> set (rr_proposals example_result)"
  by (simp_all add: example_result_def)

theorem admitted_leads_accounted_witness:
  "set (map le_observation_id (rr_lead_accounting example_result)) = {''lead''} \<and>
   le_outcome (hd (rr_lead_accounting example_result)) = ''proposal''"
proof -
  have "hd (rr_lead_accounting example_result) \<in> set (rr_lead_accounting example_result)"
    "le_proposal_ids (hd (rr_lead_accounting example_result)) \<noteq> []" "ri_lead_ids example_invocation = [''lead'']"
    by (simp_all add: example_result_def example_invocation_def)
  with admitted_leads_accounted [OF example_admitted] show ?thesis by auto
qed

theorem reported_path_observed_witness:
  "(''a'', ''b'') \<in> (observed_hop example_result (hd (rr_taint_paths example_result)))\<^sup>+"
  using reported_path_observed [OF example_admitted example_facts(2,1)]
  by (simp add: example_result_def OBSERVED_EDGE_BASES_def)

theorem admitted_citations_total_witness:
  "\<exists>cs. proposal_citations example_result (hd (rr_proposals example_result)) = Inr cs \<and> set (map rc_local_id cs) = {''e1''}"
proof -
  have "\<forall>ref\<in>set (rr_evidence_refs example_result). schema_ref ref"
    by (simp add: example_result_def schema_ref_def RED_RELATION_KINDS_def predicate_members_def)
  from admitted_citations_total [OF example_admitted example_facts(3) this] obtain cs
    where cs: "proposal_citations example_result (hd (rr_proposals example_result)) = Inr cs"
      "set (map rc_local_id cs) = set (rp_evidence_ids (hd (rr_proposals example_result))) \<union>
         set (rp_counterevidence_ids (hd (rr_proposals example_result))) \<union>
         (\<Union>path\<in>set (own_paths example_result (hd (rr_proposals example_result))). set (observed_citations path))"
    by (elim exE conjE)
  have "set (map rc_local_id cs) = {''e1''}"
    unfolding cs(2) by (simp add: example_result_def own_paths_def last_table_def observed_citations_def OBSERVED_EDGE_BASES_def)
  with cs(1) show ?thesis by (intro exI [of _ cs] conjI)
qed

end
