(* ===== verification/Judge.thy ===== *)
theory Judge
  imports Red_Discovery
begin

text \<open>
  The adjudication judge (\<open>review/judge.py\<close>): which claims get one, what the two sides say, and the bounded,
  labelled, role-blind rendering of the sides the judge is shown. What a judge cites by label resolves, through the
  table of the view it was shown, to identities the sides cited.

  The digest behind the order of the sides is a parameter, a function from texts to bytes.
\<close>

section \<open>Assignment and selection\<close>

definition ORDER_TAG :: string where
  "ORDER_TAG = ''judge-order''"

definition side_assignment :: "(string \<Rightarrow> nat list) \<Rightarrow> string \<Rightarrow> string \<Rightarrow> nat \<Rightarrow> (string, string) dict" where
  "side_assignment sha256 manifest_sha256 claim_id index =
     (let tag = (if index = 0 then ORDER_TAG else ORDER_TAG @ ''/'' @ nat_str index);
          digest = sha256 (manifest_sha256 @ claim_id @ tag);
          first = (if last digest mod 2 = 0 then ''red'' else ''blue'')
      in [(''A'', first), (''B'', if first = ''red'' then ''blue'' else ''red'')])"

definition BLUE_DISAGREEING :: "string list" where
  "BLUE_DISAGREEING = [''contradicts'', ''qualifies'', UNRESOLVED]"

definition selected :: "string \<Rightarrow> bool \<Rightarrow> string option list \<Rightarrow> bool res" where
  "selected when red_affirmed blue_dispositions =
     (if when \<notin> {''all'', ''disagreement''} then Inl (ValueError (''unknown judge selection: '' @ when))
      else if \<not> red_affirmed then Inr False
      else if when = ''all'' then Inr True
      else Inr ((\<exists>d\<in>set blue_dispositions. case d of None \<Rightarrow> True | Some s \<Rightarrow> s \<in> set BLUE_DISAGREEING) \<or>
                1 < length (remdups blue_dispositions)))"

section \<open>The two sides\<close>

record side_input =
  si_stance :: string
  si_predicates :: "(string, string \<times> string list) dict"
  si_why :: string
  si_order :: "string list"

definition new_side :: "string \<Rightarrow> string list \<Rightarrow> side_input" where
  "new_side stance order = \<lparr>si_stance = stance, si_predicates = [], si_why = [], si_order = order\<rparr>"

definition strongest :: "string list \<Rightarrow> string list \<Rightarrow> string" where
  "strongest stances order =
     (case List.find (\<lambda>stance. stance \<in> set stances) order of Some stance \<Rightarrow> stance | None \<Rightarrow> UNRESOLVED)"

definition merge_side :: "side_input \<Rightarrow> string \<Rightarrow> string \<Rightarrow> string list \<Rightarrow> side_input" where
  "merge_side side predicate stance refs =
     (let (old_stance, old_refs) = (case map_of (si_predicates side) predicate of Some old \<Rightarrow> old | None \<Rightarrow> (UNRESOLVED, []));
          better = strongest [old_stance, stance] (si_order side);
          merged = old_refs @ filter (\<lambda>ref. ref \<notin> set old_refs) refs
      in side\<lparr>si_predicates := AList.update predicate (better, merged) (si_predicates side)\<rparr>)"

definition merge_cited :: "(string, evidence_ref) dict \<Rightarrow> string \<Rightarrow> string \<Rightarrow> side_input \<Rightarrow> side_input" where
  "merge_cited by_id kind local side =
     (case map_of by_id local of None \<Rightarrow> side | Some ref \<Rightarrow> merge_side side (ev_predicate ref) kind [ev_entity_id ref])"

definition red_item :: "red_proposal \<times> red_result \<Rightarrow> side_input \<times> string list \<Rightarrow> side_input \<times> string list" where
  "red_item entry acc =
     (let (proposal, result) = entry; (side, statements) = acc;
          by_id = last_table ev_local_id (rr_evidence_refs result);
          side = fold (merge_cited by_id ''supports'') (rp_evidence_ids proposal) side;
          side = fold (merge_cited by_id ''qualifies'') (rp_counterevidence_ids proposal) side;
          statement = squeeze (rp_statement proposal)
      in (side, if statement \<noteq> [] then append_new statement statements else statements))"

definition red_side :: "(red_proposal \<times> red_result) list \<Rightarrow> side_input" where
  "red_side items =
     (let (side, statements) = fold red_item items
            (new_side ''supports'' [''supports'', ''qualifies'', ''contradicts'', UNRESOLVED], [])
      in side\<lparr>si_why := join '' '' statements\<rparr>)"

definition red_affirms :: "side_input \<Rightarrow> bool" where
  "red_affirms side = (\<exists>(_, stance, refs)\<in>set (si_predicates side). stance = ''supports'' \<and> refs \<noteq> [])"

definition blue_item :: "blue_result option \<Rightarrow> side_input \<times> string option list \<times> string list \<Rightarrow> side_input \<times> string option list \<times> string list" where
  "blue_item entry acc =
     (let (side, dispositions, reasons) = acc
      in case entry of
           None \<Rightarrow> (side, dispositions @ [None], reasons)
         | Some result \<Rightarrow>
             let side = fold (\<lambda>rel side. merge_side side (pr_predicate rel) (pr_kind rel) [pr_entity_id rel]) (br_relations result) side;
                 reason = squeeze (br_rationale result)
             in (side, dispositions @ [Some (br_disposition result)], if reason \<noteq> [] then append_new reason reasons else reasons))"

definition blue_side :: "blue_result option list \<Rightarrow> side_input \<times> string option list" where
  "blue_side results =
     (let (side, dispositions, reasons) = fold blue_item results (new_side UNRESOLVED STANCE_ORDER, [], []);
          answered = List.map_filter id dispositions
      in (side\<lparr>si_stance := (if answered \<noteq> [] then strongest answered STANCE_ORDER else UNRESOLVED),
               si_why := (if reasons \<noteq> [] then join '' | '' reasons
                          else if answered = [] then ''no answer was produced for this side'' else ''this side stated no reason'')\<rparr>,
          dispositions))"

section \<open>What the judge is shown\<close>

definition REMOVED :: string where
  "REMOVED = ''[removed]''"

text \<open>\<open>re.subn\<close> of one escaped marker, ignoring case: leftmost matches, each replaced and counted.\<close>

function replace_marker :: "string \<Rightarrow> string \<Rightarrow> string \<times> nat" where
  "replace_marker marker s =
     (if s = [] \<or> marker = [] then (s, 0)
      else if lower (take (length marker) s) = lower marker
      then let (rest, n) = replace_marker marker (drop (length marker) s) in (REMOVED @ rest, Suc n)
      else let (rest, n) = replace_marker marker (tl s) in (hd s # rest, n))"
  by pat_completeness auto
termination by (relation "measure (\<lambda>(marker, s). length s)") auto

declare replace_marker.simps [simp del]

definition scrub :: "string \<Rightarrow> string list \<Rightarrow> string \<times> nat" where
  "scrub s markers =
     fold (\<lambda>marker (s, n). let (s', k) = replace_marker marker s in (s', n + k))
       (sort_key (\<lambda>m. (- int (length m), m)) (remdups (filter (\<lambda>m. m \<noteq> []) markers))) (s, 0)"

text \<open>A text shown whole, or cut and followed by the single character U+2026.\<close>

datatype shown_text = Whole string | Cut string

definition bounded_why :: "string \<Rightarrow> nat \<Rightarrow> shown_text \<times> nat" where
  "bounded_why s limit =
     (if length s \<le> limit then (Whole s, 0)
      else (Cut (rev (dropWhile is_space (rev (take (limit - 1) s)))), length s + 1 - limit))"

definition keep_ref :: "nat \<Rightarrow> string \<Rightarrow> string list \<times> string list \<times> string list \<Rightarrow> string list \<times> string list \<times> string list" where
  "keep_ref max_rows ref acc =
     (let (remaining, keep, dropped) = acc
      in if ref \<in> set remaining \<or> length remaining < max_rows
         then (append_new ref remaining, keep @ [ref], dropped)
         else (remaining, keep, append_new ref dropped))"

type_synonym kept = "string list \<times> (string, string \<times> string list) dict \<times> string list"

definition keep_predicate :: "nat \<Rightarrow> side_input \<Rightarrow> string \<Rightarrow> kept \<Rightarrow> kept" where
  "keep_predicate max_rows side predicate acc =
     (let (remaining, shown, dropped) = acc
      in case map_of (si_predicates side) predicate of
           None \<Rightarrow> (remaining, shown, dropped)
         | Some (stance, refs) \<Rightarrow>
             let (remaining, keep, dropped) = fold (keep_ref max_rows) refs (remaining, [], dropped)
             in (remaining, AList.update predicate (stance, keep) shown, dropped))"

definition keep_side :: "nat \<Rightarrow> side_input \<Rightarrow> kept" where
  "keep_side max_rows side = fold (keep_predicate max_rows side) PREDICATES ([], [], [])"

record shown_side =
  sh_stance :: string
  sh_per_predicate :: "(string, string \<times> string list) dict"
  sh_why :: shown_text
  sh_omitted :: "(string, nat) dict"

record presentation =
  pn_sides :: "(string, shown_side) dict"
  pn_cited_rows :: "(string, string \<times> string) dict"
  pn_view :: package_view
  pn_omitted :: "(string, (string, nat) dict) dict"
  pn_rows :: "string list"

definition render_predicates ::
  "(string, string) dict \<Rightarrow> (string, string \<times> string list) dict \<Rightarrow> (string, string \<times> string list) dict res" where
  "render_predicates labelled shown =
     rmap (\<lambda>(predicate, stance, refs). rbind (rmap (dict_index labelled) refs) (\<lambda>cites. Inr (predicate, stance, cites))) shown"

definition render_side :: "nat \<Rightarrow> string list \<Rightarrow> (string, string) dict \<Rightarrow> side_input \<Rightarrow> kept \<Rightarrow> shown_side res" where
  "render_side max_why markers labelled side kept =
     (let (remaining, shown, dropped) = kept;
          (reason, redactions) = scrub (if si_why side = [] then ''no reason stated'' else si_why side) markers;
          (reason, cut) = bounded_why reason max_why
      in rbind (render_predicates labelled shown) (\<lambda>per_predicate.
           Inr \<lparr>sh_stance = si_stance side, sh_per_predicate = per_predicate, sh_why = reason,
                sh_omitted = (if dropped \<noteq> [] then [(''cited_rows'', length dropped)] else []) @
                  (if cut \<noteq> 0 then [(''why_characters'', cut)] else []) @
                  (if redactions \<noteq> 0 then [(''removed_identifying_terms'', redactions)] else [])\<rparr>))"

definition present ::
  "(string, side_input) dict \<Rightarrow> (string, string) dict \<Rightarrow> package_view \<Rightarrow> nat \<Rightarrow> nat \<Rightarrow> string list \<Rightarrow> (string \<Rightarrow> string) \<Rightarrow> presentation res" where
  "present sides assignment view max_why max_rows markers describe =
     rbind (rbind (dict_index assignment ''A'') (dict_index sides)) (\<lambda>a.
     rbind (rbind (dict_index assignment ''B'') (dict_index sides)) (\<lambda>b.
       let order = fold append_new (fst (keep_side max_rows b)) (fst (keep_side max_rows a));
           (probe, labelled) = with_extra view order ''J'';
           new_rows = filter (\<lambda>ref. ref \<notin> snd ` set (pv_labels view)) order
       in rbind (rmap (\<lambda>ref. rbind (dict_index labelled ref) (\<lambda>label. Inr (label, ref, describe ref))) new_rows) (\<lambda>rows.
          rbind (render_side max_why markers labelled a (keep_side max_rows a)) (\<lambda>shown_a.
          rbind (render_side max_why markers labelled b (keep_side max_rows b)) (\<lambda>shown_b.
            Inr \<lparr>pn_sides = [(''A'', shown_a), (''B'', shown_b)],
                 pn_cited_rows = fold (\<lambda>(label, row). AList.update label row) rows [], pn_view = probe,
                 pn_omitted = [(''A'', sh_omitted shown_a), (''B'', sh_omitted shown_b)], pn_rows = new_rows\<rparr>)))))"

section \<open>What is kept of a side\<close>

lemma keep_refs:
  "fold (keep_ref max_rows) refs (rem0, keep0, lost0) = (rem, keep, lost) \<Longrightarrow>
   set rem0 \<subseteq> set rem \<and> set keep \<subseteq> set keep0 \<union> (set refs \<inter> set rem) \<and>
   (length rem0 \<le> max_rows \<longrightarrow> length rem \<le> max_rows) \<and> (distinct rem0 \<longrightarrow> distinct rem)"
proof (induction refs arbitrary: rem0 keep0 lost0)
  case (Cons ref refs)
  let ?acc = "keep_ref max_rows ref (rem0, keep0, lost0)"
  obtain rem1 keep1 lost1 where acc: "?acc = (rem1, keep1, lost1)" by (cases ?acc)
  have step: "set rem0 \<subseteq> set rem1" "set keep1 \<subseteq> set keep0 \<union> ({ref} \<inter> set rem1)"
    "length rem0 \<le> max_rows \<longrightarrow> length rem1 \<le> max_rows" "distinct rem0 \<longrightarrow> distinct rem1"
    using acc by (auto simp: keep_ref_def append_new_def split: if_splits)
  have "fold (keep_ref max_rows) refs (rem1, keep1, lost1) = (rem, keep, lost)" using Cons.prems acc by simp
  from Cons.IH [OF this] show ?case using step by auto
qed simp

definition kept_ok :: "nat \<Rightarrow> side_input \<Rightarrow> kept \<Rightarrow> bool" where
  "kept_ok max_rows side acc =
     (let (remaining, shown, dropped) = acc
      in distinct remaining \<and> length remaining \<le> max_rows \<and> dict_ok shown \<and>
         (\<forall>(p, st, keep)\<in>set shown. set keep \<subseteq> set remaining \<and>
            (\<exists>refs. map_of (si_predicates side) p = Some (st, refs) \<and> set keep \<subseteq> set refs)))"

lemma keep_predicate_ok:
  assumes ok: "kept_ok max_rows side acc"
  shows "kept_ok max_rows side (keep_predicate max_rows side predicate acc)"
proof -
  obtain rem0 shown lost0 where acc: "acc = (rem0, shown, lost0)" by (cases acc)
  show ?thesis
  proof (cases "map_of (si_predicates side) predicate")
    case (Some entry)
    obtain st refs where entry: "entry = (st, refs)" by (cases entry)
    obtain rem keep lost where run: "fold (keep_ref max_rows) refs (rem0, [], lost0) = (rem, keep, lost)"
      by (cases "fold (keep_ref max_rows) refs (rem0, [], lost0)")
    have kept: "set rem0 \<subseteq> set rem" "set keep \<subseteq> set refs \<inter> set rem" "length rem0 \<le> max_rows \<longrightarrow> length rem \<le> max_rows"
      "distinct rem0 \<longrightarrow> distinct rem"
      using keep_refs [OF run] by simp_all
    have new: "keep_predicate max_rows side predicate acc = (rem, AList.update predicate (st, keep) shown, lost)"
      by (simp add: keep_predicate_def acc Some entry run)
    have each: "set keep' \<subseteq> set rem \<and> (\<exists>refs. map_of (si_predicates side) p = Some (st', refs) \<and> set keep' \<subseteq> set refs)"
      if "(p, st', keep') \<in> set (AList.update predicate (st, keep) shown)" for p st' keep'
    proof -
      from that set_update_subset [of predicate "(st, keep)" shown]
      consider "p = predicate" "st' = st" "keep' = keep" | "(p, st', keep') \<in> set shown" by blast
      then show ?thesis
      proof cases
        case 1
        then show ?thesis using Some entry kept(2) by auto
      next
        case 2
        then have "set keep' \<subseteq> set rem0" "\<exists>refs. map_of (si_predicates side) p = Some (st', refs) \<and> set keep' \<subseteq> set refs"
          using ok by (auto simp: kept_ok_def acc)
        then show ?thesis using kept(1) by blast
      qed
    qed
    have "\<forall>(p, st', keep')\<in>set (AList.update predicate (st, keep) shown). set keep' \<subseteq> set rem \<and>
        (\<exists>refs. map_of (si_predicates side) p = Some (st', refs) \<and> set keep' \<subseteq> set refs)"
      by (intro ballI, clarify) (rule each)
    then show ?thesis
      unfolding new kept_ok_def Let_def prod.case using ok kept(3,4) by (simp add: kept_ok_def acc)
  qed (use ok acc in \<open>simp add: keep_predicate_def\<close>)
qed

lemma keep_side_ok: "kept_ok max_rows side (keep_side max_rows side)"
proof -
  have "kept_ok max_rows side acc \<Longrightarrow> kept_ok max_rows side (fold (keep_predicate max_rows side) ps acc)" for ps acc
    by (induction ps arbitrary: acc) (simp_all add: keep_predicate_ok)
  then show ?thesis by (simp add: keep_side_def kept_ok_def)
qed

section \<open>Rendering\<close>

lemma render_predicates_total:
  assumes "\<forall>(p, st, refs)\<in>set shown. set refs \<subseteq> dom (map_of labelled)"
  shows "render_predicates labelled shown = Inr (map (\<lambda>(p, st, refs). (p, st, map (\<lambda>ref. the (map_of labelled ref)) refs)) shown)"
  unfolding render_predicates_def
proof (rule rmap_pure)
  fix entry
  assume entry: "entry \<in> set shown"
  obtain p st refs where parts: "entry = (p, st, refs)" by (cases entry)
  have "rmap (dict_index labelled) refs = Inr (map (\<lambda>ref. the (map_of labelled ref)) refs)"
    by (rule rmap_pure) (use assms entry parts in \<open>auto simp: dict_index_def split: option.split\<close>)
  then show "(case entry of (predicate, stance, refs) \<Rightarrow> rbind (rmap (dict_index labelled) refs) (\<lambda>cites. Inr (predicate, stance, cites))) =
      Inr (case entry of (p, st, refs) \<Rightarrow> (p, st, map (\<lambda>ref. the (map_of labelled ref)) refs))"
    by (simp add: parts)
qed

lemma append_new_length: "length (fold append_new xs ys) \<le> length xs + length ys"
proof (induction xs arbitrary: ys)
  case (Cons x xs)
  from Cons.IH [of "append_new x ys"] show ?case by (simp add: append_new_def split: if_splits)
qed simp

section \<open>Claims\<close>

lemma render_side_total:
  assumes "kept_ok max_rows side kept" "set (fst kept) \<subseteq> dom (map_of labelled)"
  shows "\<exists>e. render_side max_why markers labelled side kept = Inr e \<and> sh_stance e = si_stance side \<and>
    (\<forall>p st cites. (p, st, cites) \<in> set (sh_per_predicate e) \<longrightarrow>
       (\<exists>refs keep. map_of (si_predicates side) p = Some (st, refs) \<and> set keep \<subseteq> set refs \<inter> set (fst kept) \<and>
          cites = map (\<lambda>ref. the (map_of labelled ref)) keep))"
proof -
  obtain remaining shown dropped where kept: "kept = (remaining, shown, dropped)" by (cases kept)
  have shown: "set keep \<subseteq> set remaining" "\<exists>refs. map_of (si_predicates side) p = Some (st, refs) \<and> set keep \<subseteq> set refs"
    if "(p, st, keep) \<in> set shown" for p st keep
    using assms(1) that by (auto simp: kept_ok_def kept)
  have "render_predicates labelled shown = Inr (map (\<lambda>(p, st, refs). (p, st, map (\<lambda>ref. the (map_of labelled ref)) refs)) shown)"
    by (rule render_predicates_total) (use shown(1) assms(2) kept in fastforce)
  then obtain e where e: "render_side max_why markers labelled side kept = Inr e" "sh_stance e = si_stance side"
    "sh_per_predicate e = map (\<lambda>(p, st, refs). (p, st, map (\<lambda>ref. the (map_of labelled ref)) refs)) shown"
    by (simp add: render_side_def kept Let_def split_beta)
  have "\<exists>refs keep. map_of (si_predicates side) p = Some (st, refs) \<and> set keep \<subseteq> set refs \<inter> set remaining \<and>
          cites = map (\<lambda>ref. the (map_of labelled ref)) keep"
    if "(p, st, cites) \<in> set (sh_per_predicate e)" for p st cites
  proof -
    from that obtain keep where keep: "(p, st, keep) \<in> set shown" "cites = map (\<lambda>ref. the (map_of labelled ref)) keep"
      unfolding e(3) by auto
    obtain refs where "map_of (si_predicates side) p = Some (st, refs)" "set keep \<subseteq> set refs"
      using shown(2) [OF keep(1)] by blast
    then show ?thesis using shown(1) [OF keep(1)] keep(2) by blast
  qed
  then show ?thesis using e(1,2) by (intro exI [of _ e]) (simp add: kept)
qed

text \<open>The labels a side is shown by resolve, in the table of the view, to identities the side cites.\<close>

definition faithful_side :: "side_input \<Rightarrow> label_table \<Rightarrow> nat \<Rightarrow> shown_side \<Rightarrow> bool" where
  "faithful_side side t max_rows e =
     (sh_stance e = si_stance side \<and>
      (\<exists>rows. length rows \<le> max_rows \<and>
        (\<forall>(p, st, cites)\<in>set (sh_per_predicate e). \<exists>refs. map_of (si_predicates side) p = Some (st, refs) \<and>
           (\<forall>label\<in>set cites. \<exists>ref\<in>set refs \<inter> set rows. resolve t label = Some ref))))"

lemma rendered_faithful:
  assumes kept: "kept_ok max_rows side kept" "set (fst kept) \<subseteq> dom (map_of labelled)"
    and labels: "\<And>ref label. map_of labelled ref = Some label \<Longrightarrow> resolve t label = Some ref"
  shows "\<exists>e. render_side max_why markers labelled side kept = Inr e \<and> faithful_side side t max_rows e"
proof -
  obtain e where e: "render_side max_why markers labelled side kept = Inr e" "sh_stance e = si_stance side"
    and shown: "\<And>p st cites. (p, st, cites) \<in> set (sh_per_predicate e) \<Longrightarrow>
       \<exists>refs keep. map_of (si_predicates side) p = Some (st, refs) \<and> set keep \<subseteq> set refs \<inter> set (fst kept) \<and>
          cites = map (\<lambda>ref. the (map_of labelled ref)) keep"
    using render_side_total [OF kept, of max_why markers] by blast
  have known: "resolve t (the (map_of labelled ref)) = Some ref" if "ref \<in> set (fst kept)" for ref
    using kept(2) that labels by (cases "map_of labelled ref") auto
  have "\<exists>refs. map_of (si_predicates side) p = Some (st, refs) \<and>
           (\<forall>label\<in>set cites. \<exists>ref\<in>set refs \<inter> set (fst kept). resolve t label = Some ref)"
    if mem: "(p, st, cites) \<in> set (sh_per_predicate e)" for p st cites
  proof -
    obtain refs keep where keep: "map_of (si_predicates side) p = Some (st, refs)" "set keep \<subseteq> set refs \<inter> set (fst kept)"
      "cites = map (\<lambda>ref. the (map_of labelled ref)) keep"
      using shown [OF mem] by blast
    then show ?thesis using known by auto
  qed
  moreover have "length (fst kept) \<le> max_rows" using kept(1) by (auto simp: kept_ok_def split: prod.splits)
  ultimately show ?thesis using e by (auto simp: faithful_side_def)
qed

text \<open>
  C39. The judge is shown what the sides cite. With both letters assigned to a side and room for the labels, the
  presentation is defined; each letter shows its side's stance, and under every predicate the stance the side takes
  on it; every label shown there resolves, in the table of the view the judge's cell gets, to an identity the side
  cites on that predicate, and a side shows at most \<open>max_rows\<close> identities.
\<close>

theorem judge_shown_citations_resolve:
  assumes labels: "package_labels (pv_labels view)" "numbered ''J'' (prefix_count ''J'' (pv_labels view)) (pv_labels view)"
    and room: "prefix_count ''J'' (pv_labels view) + 2 * max_rows < 10000"
    and sides: "map_of assignment ''A'' = Some ra" "map_of sides ra = Some a" "map_of assignment ''B'' = Some rb" "map_of sides rb = Some b"
  shows "\<exists>pn ea eb. present sides assignment view max_why max_rows markers describe = Inr pn \<and>
    pn_sides pn = [(''A'', ea), (''B'', eb)] \<and>
    faithful_side a (view_table (pn_view pn) extra) max_rows ea \<and> faithful_side b (view_table (pn_view pn) extra) max_rows eb"
proof -
  let ?ka = "keep_side max_rows a" and ?kb = "keep_side max_rows b"
  let ?order = "fold append_new (fst ?kb) (fst ?ka)"
  obtain probe labelled where extra: "with_extra view ?order ''J'' = (probe, labelled)" by (cases "with_extra view ?order ''J''")
  have letter: "letter_prefix ''J''" by (simp add: letter_prefix_def is_label_def is_digit_def RETRIEVAL_PREFIX_def)
  have "length (fst ?ka) \<le> max_rows" "length (fst ?kb) \<le> max_rows"
    using keep_side_ok [of max_rows a] keep_side_ok [of max_rows b] by (auto simp: kept_ok_def split: prod.splits)
  then have few: "prefix_count ''J'' (pv_labels view) + length ?order < 10000"
    using room append_new_length [of "fst ?kb" "fst ?ka"] by linarith
  have dict: "dict_ok (pv_labels view)" using labels(1) by (simp add: package_labels_def)
  note new = with_extra_labels [OF dict labels(2) extra]
  have package: "package_labels (pv_labels probe)" by (rule with_extra_package [OF labels letter few extra])
  have shown: "resolve (view_table probe extra) label = Some ref" if "map_of labelled ref = Some label" for ref label
    by (rule resolve_view [OF package new(3) [OF that]])
  have dom: "set (fst ?ka) \<subseteq> dom (map_of labelled)" "set (fst ?kb) \<subseteq> dom (map_of labelled)" using new(2) by auto
  obtain ea where ea: "render_side max_why markers labelled a ?ka = Inr ea" "faithful_side a (view_table probe extra) max_rows ea"
    using rendered_faithful [OF keep_side_ok dom(1) shown] by blast
  obtain eb where eb: "render_side max_why markers labelled b ?kb = Inr eb" "faithful_side b (view_table probe extra) max_rows eb"
    using rendered_faithful [OF keep_side_ok dom(2) shown] by blast
  have rows: "rmap (\<lambda>ref. rbind (dict_index labelled ref) (\<lambda>label. Inr (label, ref, describe ref)))
          (filter (\<lambda>ref. ref \<notin> snd ` set (pv_labels view)) ?order) =
        Inr (map (\<lambda>ref. (the (map_of labelled ref), ref, describe ref)) (filter (\<lambda>ref. ref \<notin> snd ` set (pv_labels view)) ?order))"
    by (rule rmap_pure) (use new(2) in \<open>force simp: dict_index_def\<close>)
  show ?thesis
    using ea eb by (simp add: present_def dict_index_def [of assignment] dict_index_def [of sides] sides extra rows Let_def)
qed

lemma side_assignment_both: "both_sides (side_assignment sha256 manifest claim_id index)"
  by (simp add: both_sides_def side_assignment_def Let_def)

text \<open>A red side that cites a labelled and an unlabelled identity, a blue side without an answer, sides shown in order.\<close>

definition example_view :: package_view where
  "example_view = \<lparr>pv_labels = [(''L1'', ''x'')], pv_packaged_refs = {''x''}, pv_texts = []\<rparr>"

definition example_sides :: "(string, side_input) dict" where
  "example_sides =
     [(''red'', merge_side (new_side ''supports'' STANCE_ORDER) ''affected_construct'' ''supports'' [''x'', ''y'']),
      (''blue'', fst (blue_side [None]))]"

theorem judge_shown_citations_resolve_witness:
  "\<exists>pn ea eb. present example_sides [(''A'', ''red''), (''B'', ''blue'')] example_view 100 2 [''alice''] id = Inr pn \<and>
     pn_sides pn = [(''A'', ea), (''B'', eb)] \<and>
     faithful_side (the (map_of example_sides ''red'')) (view_table (pn_view pn) {}) 2 ea \<and>
     faithful_side (fst (blue_side [None])) (view_table (pn_view pn) {}) 2 eb"
proof (rule judge_shown_citations_resolve)
  show "package_labels (pv_labels example_view)"
    by (simp add: example_view_def package_labels_def is_label_def is_digit_def starts_with_def RETRIEVAL_PREFIX_def)
  show "numbered ''J'' (prefix_count ''J'' (pv_labels example_view)) (pv_labels example_view)"
    "prefix_count ''J'' (pv_labels example_view) + 2 * 2 < 10000"
    by (simp_all add: example_view_def numbered_def prefix_count_def starts_with_def)
  show "map_of [(''A'', ''red''), (''B'', ''blue'')] ''A'' = Some ''red''" "map_of [(''A'', ''red''), (''B'', ''blue'')] ''B'' = Some ''blue''"
    by simp_all
  show "map_of example_sides ''red'' = Some (the (map_of example_sides ''red''))" "map_of example_sides ''blue'' = Some (fst (blue_side [None]))"
    by (simp_all add: example_sides_def)
qed

end
