(* ===== verification/Spec2Isabelle.thy ===== *)
theory Spec2Isabelle
  imports Stages Scheduler Budget_Safety Factor_Extraction Judge
begin

text \<open>
  A verification of the inference security review of \<open>appsec-review\<close> (Python, \<open>src/src/appsec_review\<close>).

  \<^bold>\<open>The program.\<close> Model cells propose security claims and cite evidence for them. Nothing a model says
  counts by itself: a citation is resolved against an accepted index and classified, relations are
  minted from it, and a deterministic table adjudicates every claim from the relations that count.
  Everything is recorded as events in hash-chained ledger shards, one per stream; shards are merged in a
  canonical order and projected to claims, requests, gaps, cells and attack chains. Around this core a
  budget limits model calls, a scheduler shares teams between two lanes, accounting checks that every
  expected thing was accounted for, scoring rates confirmed and supported claims, and the ship-block
  policy decides what a finding means for a release.

  \<^bold>\<open>The theories\<close>, in the order of the code, and what their lemmas show:

  \<^item> \<open>Prelude\<close>: exceptions as a sum type, JSON values, dictionaries as association lists, closed string
    enumerations (locale \<open>str_enum\<close>), document codecs (locales \<open>codec\<close>, \<open>strict_codec\<close>) and state
    machines (locale \<open>transition_system\<close>).
  \<^item> \<open>Models\<close> (\<open>review/models.py\<close>, \<open>review/identity.py\<close>, \<open>retrieval/model.py\<close>): enumerations, records,
    canonical identities. Each enumeration interprets \<open>str_enum\<close>.
  \<^item> \<open>Obligations\<close> (\<open>review/obligations.py\<close>): the predicates a claim owes.
  \<^item> \<open>Graph_Facts\<close> (\<open>graph/contract.py\<close>, \<open>graph/bounds.py\<close>): graph fact payloads, their direct
    eligibility, and what a guard or range fact bounds.
  \<^item> \<open>Labels\<close> (\<open>review/labels.py\<close>, the labels of \<open>review/package_view.py\<close>): the table that turns a model's citation
    into an identity, a \<open>transition_system\<close> over what a cell does to it. A label keeps its meaning.
  \<^item> \<open>Compact\<close> (\<open>review/compact.py\<close>): expansion of compact blue, verifier and judge answers. What is recorded
    cites only received identities, a decided stance is backed by a relation, and the order in which a judge
    is shown the sides does not matter.
  \<^item> \<open>Red_Discovery\<close> (\<open>review/red_discovery.py\<close>): result documents, their limits and admission rules, the views of
    an admitted result. Leads are accounted once, reported taint paths are observed from source to sink, and the
    views of an admitted result are total.
  \<^item> \<open>Judge\<close> (\<open>review/judge.py\<close>): selection, the two sides and the presentation. A label shown resolves to what the
    side cites.
  \<^item> \<open>Evidence\<close> (\<open>review/evidence.py\<close>, \<open>review/admission.py\<close>): from a citation to a relation. Impact
    needs a mapped tool rule, and a guard fact contradicts only where it really bounds the sink.
  \<^item> \<open>Adjudication\<close> (\<open>review/adjudication.py\<close>, \<open>review/independence.py\<close>): the deciding table. When a
    claim is confirmed, exactly; only counted relations matter; support is monotone; gaps are complete;
    when a verifier is independent, exactly.
  \<^item> \<open>Attack_Chains\<close> (\<open>review/attack_chains.py\<close>): chains of claims, continuity obligations, challenges and
    the decision. Confirmed chains are sound, reachability agrees with its closure, codecs are exact.
  \<^item> \<open>Ledger\<close>, \<open>Merge\<close>, \<open>Projection\<close> (\<open>review/ledger.py\<close>): writer, shards, merge and projection. Shards
    are append-only and tamper-evident, merge and projection do not depend on the order of shards,
    every claim's history is a legal path, and projected chains are bound to projected claims.
  \<^item> \<open>Budget\<close>, \<open>Budget_Laws\<close>, \<open>Budget_Safety\<close> (\<open>review/budget.py\<close>, \<open>inference/usage.py\<close>): the stored budget
    document and its operations; bounds on what is spent, settlement once, the active clock as a
    refinement of the union of intervals, and that a stored budget stays usable. The runs of these theorems
    start from a budget with no attempt ledgers to import; every later operation may find any.
  \<^item> \<open>Accounting\<close> (\<open>review/accounting.py\<close>): what an exact account means, that counts partition, and when
    the outcome is complete.
  \<^item> \<open>Factors\<close>, \<open>Risk_Model\<close> (\<open>review/scoring/factors.py\<close>, \<open>risk_model.py\<close>, \<open>application_matrix_v3.py\<close>): scales,
    validated point tables and matrix, points as intervals. Scoring is total and well typed on validated
    input, monotone in the factors, and stable when missing factors are supplied, the threat listing
    apart: a missing listing is not counted as missing, and raises the rating once supplied.
  \<^item> \<open>Claims\<close> (\<open>review/claims.py\<close>): normal forms of a proposal's entities, weakness, security predicate and
    preconditions. The claim identity is exactly what is claimed.
  \<^item> \<open>Cwe_Impact\<close> (\<open>review/scoring/cwe_impact.py\<close>): impact classes, overridden or derived from the pinned
    catalog. A derived class is the highest the consequences allow.
  \<^item> \<open>Factor_Extraction\<close> (\<open>review/scoring/factors.py\<close>, \<open>evidence_source.py\<close>, the request validation of
    \<open>application_matrix_v3.py\<close>): factors from adjudicated evidence, and one claim of the scoring stage. A source
    of evidence is the locale \<open>evidence_provider\<close>, interpreted on the accepted index. A claim that adjudication
    supported is always scored, from the payloads its citations were validated with, and more counted
    evidence never lowers the severity guaranteed.
  \<^item> \<open>Ship_Block\<close> (\<open>review/ship_block.py\<close>): the policy. No release by omission, and only a pending decision
    can change when missing factors other than the threat listing are supplied.
  \<^item> \<open>Scheduler\<close> (\<open>review/teams.py\<close>): the team semaphore and the fair-share scheduler. Bounded teams, waiting
    that ends, launches that end, work conservation and shares.
  \<^item> \<open>Stages\<close> (\<open>jobs/job_inference_security_review/stages.py\<close>): the stages that compose the components. What
    the policy stage records is what the projection reads back.

  \<^bold>\<open>Conventions.\<close> A function that may raise returns \<open>'a res\<close>, with \<open>Inl\<close> the exception; messages keep their
  fixed part. A frozen dataclass is a record, its \<open>__post_init__\<close> a constructor \<open>mk_\<close> or a validity
  check; a mutable object is a record passed and returned. A \<open>dict\<close> is an association list in
  insertion order, with distinct keys (\<open>dict_ok\<close>) where a theorem needs it; a JSON object a finite map.
  Floats of ratios, shares, times and costs are exact rationals, so rounding is not modelled. The
  digest is a parameter \<open>H\<close> (the byte digest behind the order of the judge's sides \<open>sha256\<close>); theorems that need it state which contents must not collide. Queries of
  the retrieval core, clocks, held locks and the content of files on disk are parameters too.

  \<^bold>\<open>Loops.\<close> Loops over data are structural or have a termination proof (replay of pending transitions,
  launches, the reachability searches of chains and of taint paths, marker removal); the semaphore's polling loop is a partial function whose
  returning is a theorem. No definition uses fuel.

  \<^bold>\<open>Not modelled.\<close> Prompts, retrieval turns, ranking, packages and triage: their output enters the model as labels,
  citations and the fields of an answer. JSON schema validation is a library; an answer enters as refused, with
  the validator's messages, or as the record its schema describes. The expansion of compact red answers is left
  out; the result it builds is what admission checks. The database readers of the CWE catalog, the older
  scoring provider, package and finding documents of the stages, and settings read from TOML are left
  out: they only read or render the records modelled here. Model transports, SQLite indexes, build and
  analysis drivers, containers, orchestration, storage, signing, telemetry and reporting are I/O or
  external tools. Of the budget, file locks, the reading of attempt ledgers and liveness probes of owners
  are left out.
\<close>

end
